(* ===== verification/Prelude.thy ===== *)
theory Prelude
  imports Main "HOL-Library.Sublist" "HOL-Library.Char_ord" "HOL-Library.List_Lexorder"
    "HOL-Library.Multiset"
begin

text \<open>
  Shared vocabulary of the development: errors and results, the fragment of the Go standard
  library the sources use (\<^verbatim>\<open>strings\<close>, \<^verbatim>\<open>strconv\<close>,
  \<^verbatim>\<open>sort\<close>), loops with an early return, and the generic lemmas the components
  share. A Go string is a list of bytes, so a \<open>string\<close> here is a list of 8-bit
  characters. \<open>go_strings\<close> collects the rewrite rules of the string operations.
\<close>

named_theorems go_strings \<open>rewrite rules for the modelled string functions\<close>

section \<open>Errors and results\<close>

text \<open>
  An error is its cause, the value the code compares with \<^verbatim>\<open>errgo.Cause\<close>; the
  message text is dropped. \<open>OtherError\<close> stands for errors made by
  \<^verbatim>\<open>fmt.Errorf\<close> or \<^verbatim>\<open>errgo.Newf\<close>, which carry no cause,
  \<open>Panic\<close> for a run-time panic and \<open>Hang\<close> for a call that has not
  returned when the fuel of the model is used up.
\<close>

datatype error =
    TaskNotFoundError | TaskGroupNotFoundError | JobNotFoundError | InvalidNameError
  | ValidationError | OptionNotFoundError | DependencyNotFoundError | ErrInvalidFormat
  | NotFoundError | NumError | InvalidOptionError | UserAbort | OtherError | Panic | Hang

type_synonym 'a res = "error + 'a"

abbreviation Err :: "error \<Rightarrow> 'a res" where "Err e \<equiv> Inl e"
abbreviation Ok :: "'a \<Rightarrow> 'a res" where "Ok x \<equiv> Inr x"

fun rbind :: "'a res \<Rightarrow> ('a \<Rightarrow> 'b res) \<Rightarrow> 'b res" where
  "rbind (Inl e) f = Inl e"
| "rbind (Inr x) f = f x"

fun is_ok :: "'a res \<Rightarrow> bool" where
  "is_ok (Inl e) = False"
| "is_ok (Inr x) = True"

lemma rbind_eq_Ok [simp]: "rbind m f = Inr y \<longleftrightarrow> (\<exists>x. m = Inr x \<and> f x = Inr y)"
  by (cases m) auto

lemma rbind_eq_Err: "rbind m f = Inl e \<longleftrightarrow> m = Inl e \<or> (\<exists>x. m = Inr x \<and> f x = Inl e)"
  by (cases m) auto

lemma rbind_assoc: "rbind (rbind m f) g = rbind m (\<lambda>x. rbind (f x) g)"
  by (cases m) auto

lemma is_ok_iff: "is_ok m \<longleftrightarrow> (\<exists>x. m = Inr x)"
  by (cases m) auto

lemma rbind_cong [fundef_cong]:
  "m = m' \<Longrightarrow> (\<And>x. m' = Inr x \<Longrightarrow> f x = g x) \<Longrightarrow> rbind m f = rbind m' g"
  by (cases m') auto

definition guard :: "bool \<Rightarrow> error \<Rightarrow> unit res" where
  "guard b e = (if b then Inr () else Inl e)"

lemma guard_eq [simp]: "guard b e = Inr x \<longleftrightarrow> b"
  by (simp add: guard_def)

text \<open>A \<^verbatim>\<open>for\<close> loop that returns at the first error, without and with a result.\<close>

fun iter_res :: "('a \<Rightarrow> unit res) \<Rightarrow> 'a list \<Rightarrow> unit res" where
  "iter_res f [] = Inr ()"
| "iter_res f (x # xs) = rbind (f x) (\<lambda>_. iter_res f xs)"

fun map_res :: "('a \<Rightarrow> 'b res) \<Rightarrow> 'a list \<Rightarrow> 'b list res" where
  "map_res f [] = Inr []"
| "map_res f (x # xs) = rbind (f x) (\<lambda>y. rbind (map_res f xs) (\<lambda>ys. Inr (y # ys)))"

text \<open>A call that changes the state, and a loop that returns at the first error.\<close>

definition sbind :: "'a res \<times> 's \<Rightarrow> ('a \<Rightarrow> 's \<Rightarrow> 'b res \<times> 's) \<Rightarrow> 'b res \<times> 's" where
  "sbind m f = (case m of (Inl e, s) \<Rightarrow> (Inl e, s) | (Inr x, s) \<Rightarrow> f x s)"

fun each_res :: "('a \<Rightarrow> 's \<Rightarrow> unit res \<times> 's) \<Rightarrow> 'a list \<Rightarrow> 's \<Rightarrow> unit res \<times> 's" where
  "each_res f [] s = (Inr (), s)"
| "each_res f (x # xs) s = sbind (f x s) (\<lambda>_. each_res f xs)"

lemma sbind_cases:
  assumes "sbind m f = (r, s')"
  obtains (err) e where "m = (Inl e, s')" "r = Inl e" | (ok) x s1 where "m = (Inr x, s1)" "f x s1 = (r, s')"
  using assms by (auto simp: sbind_def split: prod.splits sum.splits)

lemma sbind_simps [simp]: "sbind (Inl e, s) f = (Inl e, s)" "sbind (Inr x, s) f = f x s"
  by (simp_all add: sbind_def)

text \<open>A loop that changes variables of the function and returns at the first error.\<close>

fun fold_res :: "('a \<Rightarrow> 's \<Rightarrow> 's res) \<Rightarrow> 'a list \<Rightarrow> 's \<Rightarrow> 's res" where
  "fold_res f [] s = Inr s"
| "fold_res f (x # xs) s = rbind (f x s) (fold_res f xs)"

lemma fold_res_cong [fundef_cong]:
  "xs = ys \<Longrightarrow> s = s' \<Longrightarrow> (\<And>x s. x \<in> set ys \<Longrightarrow> f x s = g x s) \<Longrightarrow> fold_res f xs s = fold_res g ys s'"
proof (induction ys arbitrary: xs s s')
  case (Cons y ys)
  then have "fold_res f ys s1 = fold_res g ys s1" for s1 by simp
  with Cons.prems show ?case by (cases "g y s'") simp_all
qed simp

lemma fold_res_append: "fold_res f (xs @ ys) s = rbind (fold_res f xs s) (fold_res f ys)"
proof (induction xs arbitrary: s)
  case (Cons x xs)
  then have "fold_res f (xs @ ys) = (\<lambda>s. rbind (fold_res f xs s) (fold_res f ys))" by blast
  then show ?case by (simp add: rbind_assoc)
qed simp

lemma fold_res_invariant:
  "fold_res f xs s = Inr s' \<Longrightarrow> P s \<Longrightarrow>
     (\<And>x s s'. x \<in> set xs \<Longrightarrow> P s \<Longrightarrow> f x s = Inr s' \<Longrightarrow> P s') \<Longrightarrow> P s'"
proof (induction xs arbitrary: s)
  case (Cons x xs)
  then obtain s1 where "f x s = Inr s1" "fold_res f xs s1 = Inr s'" by auto
  with Cons show ?case by (meson list.set_intros)
qed simp

lemma iter_res_ok [simp]: "iter_res f xs = Inr u \<longleftrightarrow> (\<forall>x \<in> set xs. f x = Inr ())"
  by (induction xs) auto

lemma map_res_ok: "map_res f xs = Inr ys \<longleftrightarrow> list_all2 (\<lambda>x y. f x = Inr y) xs ys"
  by (induction xs arbitrary: ys) (auto simp: list_all2_Cons1)

lemma map_res_length: "map_res f xs = Inr ys \<Longrightarrow> length ys = length xs"
  by (auto simp: map_res_ok dest: list_all2_lengthD)

lemma map_res_set: "map_res f xs = Inr ys \<Longrightarrow> y \<in> set ys \<Longrightarrow> \<exists>x \<in> set xs. f x = Inr y"
  by (auto simp: map_res_ok list_all2_conv_all_nth in_set_conv_nth) (metis nth_mem)

lemma distinct_concat_map:
  assumes "distinct xs" "\<And>x. x \<in> set xs \<Longrightarrow> distinct (f x)"
    "\<And>x y. x \<in> set xs \<Longrightarrow> y \<in> set xs \<Longrightarrow> x \<noteq> y \<Longrightarrow> set (f x) \<inter> set (f y) = {}"
  shows "distinct (concat (map f xs))"
  using assms
proof (induction xs)
  case (Cons x xs)
  have "set (f x) \<inter> set (concat (map f xs)) = {}"
    using Cons.prems(1,3) by (fastforce simp: disjoint_iff)
  moreover have "distinct (concat (map f xs))" using Cons by simp
  ultimately show ?case using Cons.prems(2) [of x] by simp
qed simp

text \<open>Lists made from the elements of a list, where each element owns the names of its part.\<close>

lemma distinct_concat_res:
  assumes "map_res f xs = Inr yss" "distinct (concat (map K xs))"
    and "\<And>x ys. x \<in> set xs \<Longrightarrow> f x = Inr ys \<Longrightarrow> distinct (map g ys) \<and> (\<forall>y \<in> set ys. own (g y) \<in> set (K x))"
  shows "distinct (map g (concat yss)) \<and> own ` g ` set (concat yss) \<subseteq> set (concat (map K xs))"
  using assms
proof (induction xs arbitrary: yss)
  case (Cons x xs)
  then obtain ys zss where ys: "f x = Inr ys" "map_res f xs = Inr zss" "yss = ys # zss" by auto
  have IH: "distinct (map g (concat zss)) \<and> own ` g ` set (concat zss) \<subseteq> set (concat (map K xs))"
    by (rule Cons.IH [OF ys(2)]) (use Cons.prems in auto)
  have x: "distinct (map g ys)" "own ` g ` set ys \<subseteq> set (K x)" using Cons.prems(3) [OF _ ys(1)] by auto
  have "set (K x) \<inter> set (concat (map K xs)) = {}" using Cons.prems(2) by auto
  then have "g ` set ys \<inter> g ` set (concat zss) = {}" using x(2) IH by blast
  moreover have m: "map g (concat yss) = map g ys @ map g (concat zss)" by (simp add: ys(3))
  ultimately have "distinct (map g (concat yss))" using x(1) IH unfolding m distinct_append set_map by blast
  moreover have "own ` g ` set (concat yss) \<subseteq> set (K x) \<union> set (concat (map K xs))"
    unfolding ys(3) concat.simps set_append image_Un using x(2) IH by (meson Un_mono)
  ultimately show ?case by simp
qed simp

lemma map_res_cong [fundef_cong]:
  "xs = ys \<Longrightarrow> (\<And>x. x \<in> set ys \<Longrightarrow> f x = g x) \<Longrightarrow> map_res f xs = map_res g ys"
  by (induction ys arbitrary: xs) auto

lemma iter_res_cong [fundef_cong]:
  "xs = ys \<Longrightarrow> (\<And>x. x \<in> set ys \<Longrightarrow> f x = g x) \<Longrightarrow> iter_res f xs = iter_res g ys"
  by (induction ys arbitrary: xs) auto

section \<open>Strings\<close>

text \<open>\<^verbatim>\<open>strings.Split\<close> with a separator of one byte.\<close>

fun split_on :: "char \<Rightarrow> string \<Rightarrow> string list" where
  "split_on c [] = [[]]"
| "split_on c (x # xs) =
     (if x = c then [] # split_on c xs
      else (case split_on c xs of [] \<Rightarrow> [[x]] | y # ys \<Rightarrow> (x # y) # ys))"

text \<open>\<^verbatim>\<open>strings.SplitN(s, sep, 2)\<close>: the part before the first separator, the rest.\<close>

fun split_first :: "char \<Rightarrow> string \<Rightarrow> string \<times> string option" where
  "split_first c [] = ([], None)"
| "split_first c (x # xs) =
     (if x = c then ([], Some xs)
      else (case split_first c xs of (a, r) \<Rightarrow> (x # a, r)))"

text \<open>\<^verbatim>\<open>strings.Join\<close>.\<close>

fun join :: "string \<Rightarrow> string list \<Rightarrow> string" where
  "join s [] = []"
| "join s [x] = x"
| "join s (x # y # ys) = x @ s @ join s (y # ys)"

lemma split_on_not_Nil [simp]: "split_on c s \<noteq> []"
  by (cases s) (auto split: list.splits)

lemma split_on_free [go_strings]: "c \<notin> set s \<Longrightarrow> split_on c s = [s]"
  by (induction s) auto

lemma split_on_append [go_strings]:
  "c \<notin> set a \<Longrightarrow> split_on c (a @ c # b) = a # split_on c b"
  by (induction a) auto

lemma split_on_parts: "p \<in> set (split_on c s) \<Longrightarrow> c \<notin> set p"
  by (induction s arbitrary: p) (auto split: list.splits if_splits)

lemma split_on_part_chars: "p \<in> set (split_on c s) \<Longrightarrow> set p \<subseteq> set s"
proof (induction s arbitrary: p)
  case (Cons x xs)
  then show ?case by (cases "split_on c xs") (fastforce split: if_splits)+
qed simp

lemma join_split_on [simp]: "join [c] (split_on c s) = s"
proof (induction s)
  case (Cons x xs)
  obtain y ys where "split_on c xs = y # ys" by (cases "split_on c xs") auto
  with Cons show ?case by (cases ys) auto
qed simp

lemma split_on_join:
  "xs \<noteq> [] \<Longrightarrow> (\<forall>x \<in> set xs. c \<notin> set x) \<Longrightarrow> split_on c (join [c] xs) = xs"
  by (induction "[c]" xs rule: join.induct) (simp_all add: split_on_free split_on_append)

lemma split_on_inj: "split_on c s = split_on c t \<Longrightarrow> s = t"
  by (metis join_split_on)

lemma split_first_free [go_strings]: "c \<notin> set s \<Longrightarrow> split_first c s = (s, None)"
  by (induction s) auto

lemma split_first_append [go_strings]: "c \<notin> set a \<Longrightarrow> split_first c (a @ c # b) = (a, Some b)"
  by (induction a) auto

lemma split_first_None: "split_first c s = (a, None) \<longleftrightarrow> c \<notin> set s \<and> a = s"
proof (cases "c \<in> set s")
  case True
  then obtain p q where "s = p @ c # q" "c \<notin> set p" by (metis split_list_first)
  then show ?thesis by (simp add: split_first_append)
next
  case False
  then show ?thesis by (auto simp: split_first_free)
qed

lemma split_first_Some: "split_first c s = (a, Some r) \<longleftrightarrow> c \<notin> set a \<and> s = a @ c # r"
proof (cases "c \<in> set s")
  case True
  then obtain p q where "s = p @ c # q" "c \<notin> set p" by (metis split_list_first)
  then show ?thesis by (metis split_first_append prod.inject option.inject)
next
  case False
  then show ?thesis by (auto simp: split_first_free)
qed

lemma set_join: "set (join s xs) \<subseteq> set s \<union> (\<Union>x \<in> set xs. set x)"
  by (induction s xs rule: join.induct) auto

lemma join_free:
  "c \<notin> set s \<Longrightarrow> (\<forall>x \<in> set xs. c \<notin> set x) \<Longrightarrow> c \<notin> set (join s xs)"
  using set_join [of s xs] by auto

text \<open>\<^verbatim>\<open>strings.Replace(s, a, b, -1)\<close> for one-byte arguments.\<close>

definition replace_char :: "char \<Rightarrow> char \<Rightarrow> string \<Rightarrow> string" where
  "replace_char a b s = map (\<lambda>c. if c = a then b else c) s"

lemma replace_char_simps [simp]:
  "replace_char a b [] = []"
  "replace_char a b (x # xs) = (if x = a then b else x) # replace_char a b xs"
  "replace_char a b (xs @ ys) = replace_char a b xs @ replace_char a b ys"
  by (simp_all add: replace_char_def)

lemma replace_char_free [simp]: "a \<notin> set s \<Longrightarrow> replace_char a b s = s"
  by (induction s) auto

lemma replace_char_set: "x \<in> set (replace_char a b s) \<Longrightarrow> x = b \<or> x \<in> set s \<and> x \<noteq> a"
  by (auto simp: replace_char_def split: if_splits)

lemma replace_char_inj:
  "b \<notin> set s \<Longrightarrow> b \<notin> set t \<Longrightarrow> replace_char a b s = replace_char a b t \<Longrightarrow> s = t"
proof (induction s arbitrary: t)
  case Nil
  then show ?case by (cases t) auto
next
  case (Cons x xs)
  then obtain y ys where t: "t = y # ys" by (cases t) auto
  with Cons.prems have "replace_char a b xs = replace_char a b ys" "x = y"
    by (auto split: if_splits)
  with Cons t show ?case by simp
qed

text \<open>The ASCII part of \<^verbatim>\<open>strings.ToLower\<close> and \<^verbatim>\<open>ToUpper\<close>.\<close>

definition lower_char :: "char \<Rightarrow> char" where
  "lower_char c = (if 65 \<le> (of_char c :: nat) \<and> (of_char c :: nat) \<le> 90 then char_of (of_char c + 32 :: nat) else c)"

definition to_lower :: "string \<Rightarrow> string" where
  "to_lower s = map lower_char s"

text \<open>\<^verbatim>\<open>strings.TrimSpace\<close> over ASCII white space.\<close>

definition is_space :: "char \<Rightarrow> bool" where
  "is_space c = ((of_char c :: nat) \<in> {9, 10, 11, 12, 13, 32})"

definition trim_space :: "string \<Rightarrow> string" where
  "trim_space s = rev (dropWhile is_space (rev (dropWhile is_space s)))"

text \<open>\<^verbatim>\<open>strings.TrimPrefix\<close> and \<^verbatim>\<open>TrimSuffix\<close>.\<close>

definition trim_prefix :: "string \<Rightarrow> string \<Rightarrow> string" where
  "trim_prefix s p = (if prefix p s then drop (length p) s else s)"

definition trim_suffix :: "string \<Rightarrow> string \<Rightarrow> string" where
  "trim_suffix s p = (if suffix p s then take (length s - length p) s else s)"

section \<open>Numbers\<close>

definition digit_char :: "nat \<Rightarrow> char" where
  "digit_char n = char_of (48 + n)"

definition is_digit :: "char \<Rightarrow> bool" where
  "is_digit c = (48 \<le> (of_char c :: nat) \<and> (of_char c :: nat) \<le> 57)"

definition digit_val :: "char \<Rightarrow> nat" where
  "digit_val c = of_char c - 48"

lemma of_char_digit: "n < 10 \<Longrightarrow> (of_char (digit_char n) :: nat) = 48 + n"
  by (simp add: digit_char_def)

lemma is_digit_digit_char [simp]: "n < 10 \<Longrightarrow> is_digit (digit_char n)"
  by (simp add: is_digit_def of_char_digit)

lemma digit_val_digit_char [simp]: "n < 10 \<Longrightarrow> digit_val (digit_char n) = n"
  by (simp add: digit_val_def of_char_digit)

text \<open>The decimal form of a natural number, and the value of a digit string.\<close>

fun nat_str :: "nat \<Rightarrow> string" where
  "nat_str n = (if n < 10 then [digit_char n] else nat_str (n div 10) @ [digit_char (n mod 10)])"

declare nat_str.simps [simp del]

definition digits_val :: "string \<Rightarrow> nat" where
  "digits_val s = foldl (\<lambda>v c. 10 * v + digit_val c) 0 s"

lemma nat_str_not_Nil [simp]: "nat_str n \<noteq> []"
  by (subst nat_str.simps) simp

lemma nat_str_digits: "list_all is_digit (nat_str n)"
proof (induction n rule: nat_str.induct)
  case (1 n)
  then show ?case by (subst nat_str.simps) simp
qed

lemma digits_val_nat_str [simp]: "digits_val (nat_str n) = n"
proof (induction n rule: nat_str.induct)
  case (1 n)
  then show ?case by (subst nat_str.simps) (simp add: digits_val_def)
qed

lemma nat_str_inj [simp]: "nat_str m = nat_str n \<longleftrightarrow> m = n"
  by (metis digits_val_nat_str)

lemma nat_str_chars: "c \<in> set (nat_str n) \<Longrightarrow> is_digit c"
  using nat_str_digits [of n] by (simp add: list_all_iff)

lemma nat_str_free [simp]: "\<not> is_digit c \<Longrightarrow> c \<notin> set (nat_str n)"
  using nat_str_chars by blast

text \<open>\<^verbatim>\<open>strconv.Itoa\<close>.\<close>

definition itoa :: "int \<Rightarrow> string" where
  "itoa i = (if i < 0 then CHR ''-'' # nat_str (nat (- i)) else nat_str (nat i))"

text \<open>
  \<^verbatim>\<open>strconv.Atoi\<close>: an optional sign, at least one digit, and a value that fits
  the 64-bit \<^verbatim>\<open>int\<close>.
\<close>

definition atoi :: "string \<Rightarrow> int res" where
  "atoi s =
     (let neg = (case s of [] \<Rightarrow> False | c # _ \<Rightarrow> c = CHR ''-'');
          ds = (case s of [] \<Rightarrow> [] | c # cs \<Rightarrow> if c = CHR ''-'' \<or> c = CHR ''+'' then cs else s);
          v = (if neg then - int (digits_val ds) else int (digits_val ds))
      in if ds = [] \<or> \<not> list_all is_digit ds then Inl NumError
         else if v < - (2 ^ 63) \<or> 2 ^ 63 \<le> v then Inl NumError
         else Inr v)"

lemma not_is_digit [simp]:
  "\<not> is_digit CHR ''-''" "\<not> is_digit CHR ''+''" "\<not> is_digit CHR '':''" "\<not> is_digit CHR ''/''"
  "\<not> is_digit CHR ''@''" "\<not> is_digit CHR ''.''" "\<not> is_digit CHR ''_''" "\<not> is_digit CHR '' ''"
  "\<not> is_digit CHR ''$''" "\<not> is_digit CHR ''A''"
  by (simp_all add: is_digit_def)

lemma atoi_itoa [simp]: "- (2 ^ 63) \<le> i \<Longrightarrow> i < 2 ^ 63 \<Longrightarrow> atoi (itoa i) = Inr i"
proof -
  assume b: "- (2 ^ 63) \<le> i" "i < 2 ^ 63"
  obtain c cs where n: "nat_str (nat i) = c # cs" by (cases "nat_str (nat i)") auto
  then have "is_digit c" using nat_str_chars [of c "nat i"] by simp
  then have c: "c \<noteq> CHR ''-''" "c \<noteq> CHR ''+''" by auto
  show ?thesis
  proof (cases "i < 0")
    case True
    with b show ?thesis by (simp add: itoa_def atoi_def Let_def nat_str_digits)
  next
    case False
    with b c n nat_str_digits [of "nat i"] digits_val_nat_str [of "nat i"] show ?thesis
      by (simp add: itoa_def atoi_def Let_def)
  qed
qed

lemma itoa_free: "\<not> is_digit c \<Longrightarrow> c \<noteq> CHR ''-'' \<Longrightarrow> c \<notin> set (itoa i)"
  by (simp add: itoa_def)

lemma itoa_not_Nil [simp]: "itoa i \<noteq> []"
  by (simp add: itoa_def)

lemma atoi_chars: "atoi s = Inr v \<Longrightarrow> c \<in> set s \<Longrightarrow> is_digit c \<or> c = CHR ''-'' \<or> c = CHR ''+''"
  by (cases s) (auto simp: atoi_def Let_def list_all_iff split: if_splits)

lemma atoi_free: "atoi p = Inr n \<Longrightarrow> \<not> is_digit c \<Longrightarrow> c \<noteq> CHR ''-'' \<Longrightarrow> c \<noteq> CHR ''+'' \<Longrightarrow> c \<notin> set p"
  by (auto dest: atoi_chars)

text \<open>\<^verbatim>\<open>%02d\<close>.\<close>

definition pad2 :: "nat \<Rightarrow> string" where
  "pad2 n = (if n < 10 then CHR ''0'' # nat_str n else nat_str n)"

lemma pad2_val: "digits_val (pad2 n) = n"
proof -
  have "digit_val CHR ''0'' = 0" by (simp add: digit_val_def)
  then have "digits_val (CHR ''0'' # s) = digits_val s" for s
    by (simp add: digits_val_def)
  then show ?thesis by (simp add: pad2_def)
qed

lemma pad2_inj [simp]: "pad2 m = pad2 n \<longleftrightarrow> m = n"
  by (metis pad2_val)

text \<open>The conversion \<^verbatim>\<open>int(u)\<close> of a 64-bit \<^verbatim>\<open>uint\<close>.\<close>

definition int_of_uint :: "nat \<Rightarrow> int" where
  "int_of_uint n = (let i = int n in if i < 2 ^ 63 then i else i - 2 ^ 64)"

section \<open>Lists\<close>

text \<open>
  \<^verbatim>\<open>sort.Sort\<close> with a \<^verbatim>\<open>Less\<close> that compares a key: a sorted
  permutation of the input. Where keys are equal the library leaves the order open; the model
  keeps the input order.
\<close>

definition go_sort :: "('a \<Rightarrow> 'k::linorder) \<Rightarrow> 'a list \<Rightarrow> 'a list" where
  "go_sort key xs = sort_key key xs"

lemma go_sort_simps [simp]:
  "set (go_sort key xs) = set xs" "length (go_sort key xs) = length xs"
  "sorted (map key (go_sort key xs))" "go_sort key [] = []" "mset (go_sort key xs) = mset xs"
  by (simp_all add: go_sort_def)

lemma go_sort_distinct [simp]:
  "distinct (map f (go_sort key xs)) \<longleftrightarrow> distinct (map f xs)"
proof -
  have "mset (map f (go_sort key xs)) = mset (map f xs)" by (simp add: go_sort_def)
  then show ?thesis by (rule mset_eq_imp_distinct_iff)
qed

lemma go_sort_id: "sorted (map key xs) \<Longrightarrow> go_sort key xs = xs"
  by (simp add: go_sort_def sorted_sort_id sort_key_id_if_sorted)

text \<open>First element with a property: a loop that returns at the first match.\<close>

lemma find_Some_set: "List.find p xs = Some x \<Longrightarrow> x \<in> set xs \<and> p x"
  by (auto simp: find_Some_iff)

lemma find_key:
  "distinct (map k xs) \<Longrightarrow> x \<in> set xs \<Longrightarrow> List.find (\<lambda>y. k y = k x) xs = Some x"
  by (induction xs) (auto simp: image_iff)

lemma find_None_set: "List.find p xs = None \<longleftrightarrow> (\<forall>x \<in> set xs. \<not> p x)"
  by (auto simp: find_None_iff)

end
