(* ===== verification/FleetTunnel.thy ===== *)
theory FleetTunnel
  imports Prelude "HOL-Library.AList"
begin

text \<open>
  Access to a fleet cluster: \<^verbatim>\<open>pkg/fleet\<close> on top of the client interface
  \<^verbatim>\<open>client.API\<close>. The cluster is the in-memory registry of the vendored fleet
  sources (\<^verbatim>\<open>deps/github.com/coreos/fleet/registry/fake.go\<close> behind
  \<^verbatim>\<open>client/registry.go\<close>). Unit files are parsed and printed by fleet code that
  is not modelled: a \<open>codec\<close> argument stands for it. What the fleet engine does to the
  state of units while the tunnel sleeps is another argument, \<open>eng\<close>. An operation of
  \<^verbatim>\<open>backoff.Retry\<close> is its last attempt. \<open>lazyCreateUnits\<close> waits for
  the units it created after creating all of them.
\<close>

section \<open>The registry\<close>

record 'o reg_job =
  rj_Name :: string
  rj_Unit :: 'o
  rj_TargetState :: string
  rj_State :: "string option"

record 'o registry =
  fr_jobs :: "(string \<times> 'o reg_job) list"
  fr_states :: "(string \<times> string) list"

record 'o schema_unit =
  su_Name :: string
  su_Options :: 'o
  su_DesiredState :: string
  su_CurrentState :: string

record 'o codec =
  uc_parse :: "string \<Rightarrow> 'o res"
  uc_string :: "'o \<Rightarrow> string"
  uc_global :: "'o \<Rightarrow> bool"
  uc_valid :: "string \<Rightarrow> 'o \<Rightarrow> bool"

definition JobStateInactive :: string where "JobStateInactive = ''inactive''"
definition JobStateLoaded :: string where "JobStateLoaded = ''loaded''"
definition JobStateLaunched :: string where "JobStateLaunched = ''launched''"

definition map_unit_to_schema :: "'o reg_job \<Rightarrow> bool \<Rightarrow> 'o schema_unit" where
  "map_unit_to_schema u scheduled =
     \<lparr>su_Name = rj_Name u, su_Options = rj_Unit u, su_DesiredState = rj_TargetState u,
      su_CurrentState =
        (if scheduled then case rj_State u of None \<Rightarrow> '''' | Some st \<Rightarrow> st else '''')\<rparr>"

definition api_units :: "'o registry \<Rightarrow> 'o schema_unit list res" where
  "api_units r = Inr (map (\<lambda>(_, u). map_unit_to_schema u True) (go_sort fst (fr_jobs r)))"

definition api_unit :: "'o codec \<Rightarrow> 'o registry \<Rightarrow> string \<Rightarrow> 'o schema_unit option res" where
  "api_unit cd r name =
     (case map_of (fr_jobs r) name of
        None \<Rightarrow> Inr None
      | Some u \<Rightarrow> Inr (Some (map_unit_to_schema u (\<not> uc_global cd (rj_Unit u)))))"

definition api_set_target :: "string \<Rightarrow> string \<Rightarrow> 'o registry \<Rightarrow> unit res \<times> 'o registry" where
  "api_set_target name target r =
     (case map_of (fr_jobs r) name of
        None \<Rightarrow> (Inl OtherError, r)
      | Some u \<Rightarrow> (Inr (), r\<lparr>fr_jobs := AList.update name (u\<lparr>rj_TargetState := target\<rparr>) (fr_jobs r)\<rparr>))"

definition api_create :: "string \<Rightarrow> 'o \<Rightarrow> 'o registry \<Rightarrow> unit res \<times> 'o registry" where
  "api_create name opts r =
     (if map_of (fr_jobs r) name \<noteq> None then (Inl OtherError, r)
      else api_set_target name JobStateInactive
        (r\<lparr>fr_jobs := AList.update name
            \<lparr>rj_Name = name, rj_Unit = opts, rj_TargetState = '''', rj_State = None\<rparr> (fr_jobs r)\<rparr>))"

definition api_destroy :: "string \<Rightarrow> 'o registry \<Rightarrow> unit res \<times> 'o registry" where
  "api_destroy name r = (Inr (), r\<lparr>fr_jobs := AList.delete name (fr_jobs r)\<rparr>)"

definition api_unit_states :: "'o registry \<Rightarrow> (string \<times> string) list res" where
  "api_unit_states r = Inr (go_sort fst (fr_states r))"

text \<open>
  A moment passes: the engine gives each unit a new scheduled state and the agents report new
  systemd states.
\<close>

type_synonym 'o engine_step = "'o registry \<Rightarrow> (string \<Rightarrow> string option) \<times> (string \<times> string) list"

definition env_step :: "'o engine_step \<Rightarrow> 'o registry \<Rightarrow> 'o registry" where
  "env_step eng r =
     r\<lparr>fr_jobs := map (\<lambda>(n, u). (n, u\<lparr>rj_State := fst (eng r) n\<rparr>)) (fr_jobs r),
       fr_states := snd (eng r)\<rparr>"

section \<open>Tunnel\<close>

record 'o tunnel =
  tn_codec :: "'o codec"
  tn_engine :: "'o engine_step"
  tn_NoBlock :: bool
  tn_BlockAttempts :: int
  tn_patience :: nat

definition su_to_global :: "'o tunnel \<Rightarrow> 'o schema_unit \<Rightarrow> bool" where
  "su_to_global f su = uc_global (tn_codec f) (su_Options su)"

definition tunnel_unit :: "'o tunnel \<Rightarrow> 'o registry \<Rightarrow> string \<Rightarrow> 'o schema_unit option res" where
  "tunnel_unit f r name = api_unit (tn_codec f) r name"

definition unit_exists :: "'o tunnel \<Rightarrow> 'o registry \<Rightarrow> string \<Rightarrow> bool res" where
  "unit_exists f r name = rbind (tunnel_unit f r name) (\<lambda>u. Inr (u \<noteq> None))"

definition find_units :: "'o registry \<Rightarrow> string list \<Rightarrow> 'o schema_unit list res" where
  "find_units r names =
     rbind (api_units r) (\<lambda>units.
       Inr (List.map_filter (\<lambda>v. map_of (map (\<lambda>u. (su_Name u, u)) (rev units)) v) names))"

definition destroy_unit_with_retry :: "string \<Rightarrow> 'o registry \<Rightarrow> (bool \<times> unit res) \<times> 'o registry" where
  "destroy_unit_with_retry name r =
     (case api_destroy name r of
        (Inl NotFoundError, r') \<Rightarrow> ((True, Inr ()), r')
      | (res, r') \<Rightarrow> ((False, res), r'))"

definition tunnel_list :: "'o registry \<Rightarrow> string list res" where
  "tunnel_list r = rbind (api_units r) (\<lambda>units. Inr (map su_Name units))"

definition tunnel_cat :: "'o tunnel \<Rightarrow> 'o registry \<Rightarrow> string \<Rightarrow> string res" where
  "tunnel_cat f r name =
     rbind (api_unit (tn_codec f) r name) (\<lambda>u.
       case u of None \<Rightarrow> Inl NotFoundError | Some u \<Rightarrow> Inr (uc_string (tn_codec f) (su_Options u)))"

text \<open>The status map; a later entry for a name replaces an earlier one.\<close>

definition new_status_map :: "(string \<times> string) list \<Rightarrow> (string \<times> string) list" where
  "new_status_map states = fold (\<lambda>(n, st) m. AList.update n st m) states []"

definition status_get :: "(string \<times> string) list \<Rightarrow> string \<Rightarrow> string option" where
  "status_get m name = map_of m name"

definition tunnel_status :: "'o registry \<Rightarrow> (string \<times> string) list res" where
  "tunnel_status r = rbind (api_unit_states r) (\<lambda>states. Inr (new_status_map states))"

section \<open>Waiting\<close>

definition assert_unit_state :: "'o tunnel \<Rightarrow> string \<Rightarrow> 'o registry \<Rightarrow> string \<Rightarrow> bool" where
  "assert_unit_state f js r name =
     (case tunnel_unit f r name of
        Inl _ \<Rightarrow> False
      | Inr None \<Rightarrow> False
      | Inr (Some u) \<Rightarrow> (if su_to_global f u then su_DesiredState u else su_CurrentState u) = js)"

text \<open>
  The polling goroutines of \<^verbatim>\<open>checkUnitState\<close>, one per unit: each stops at the
  first poll that finds its unit in the state; \<open>n\<close> more polls follow the first.
\<close>

fun poll_units :: "'o tunnel \<Rightarrow> string \<Rightarrow> nat \<Rightarrow> string list \<Rightarrow> 'o registry \<Rightarrow> bool \<times> 'o registry" where
  "poll_units f js 0 pending r = (list_all (assert_unit_state f js r) pending, r)"
| "poll_units f js (Suc n) pending r =
     (let pending' = filter (\<lambda>u. \<not> assert_unit_state f js r u) pending
      in if pending' = [] then (True, r)
         else poll_units f js n pending' (env_step (tn_engine f) r))"

definition check_unit_states :: "'o tunnel \<Rightarrow> string \<Rightarrow> string list \<Rightarrow> 'o registry \<Rightarrow> unit res \<times> 'o registry" where
  "check_unit_states f js units r =
     (if tn_BlockAttempts f < 1 then
        (case poll_units f js (tn_patience f) units r of
           (ok, r') \<Rightarrow> (if ok then Inr () else Inl Hang, r'))
      else
        (case poll_units f js (nat (tn_BlockAttempts f - 1)) units r of
           (ok, r') \<Rightarrow> (if ok then Inr () else Inl OtherError, r')))"

definition try_wait_for_unit_states :: "'o tunnel \<Rightarrow> string \<Rightarrow> string list \<Rightarrow> 'o registry \<Rightarrow> unit res \<times> 'o registry" where
  "try_wait_for_unit_states f js units r =
     (if tn_BlockAttempts f \<le> -1 then (Inr (), r) else check_unit_states f js units r)"

section \<open>Start\<close>

definition create_unit :: "'o tunnel \<Rightarrow> string \<Rightarrow> 'o \<Rightarrow> 'o registry \<Rightarrow> unit res \<times> 'o registry" where
  "create_unit f name uf r =
     (if \<not> uc_valid (tn_codec f) name uf then (Inl OtherError, r) else api_create name uf r)"

text \<open>A unit to start is its name and content.\<close>

fun create_missing :: "'o tunnel \<Rightarrow> (string \<times> string) list \<Rightarrow> 'o registry \<Rightarrow> string list res \<times> 'o registry" where
  "create_missing f [] r = (Inr [], r)"
| "create_missing f ((name, content) # us) r =
     (case unit_exists f r name of
        Inl e \<Rightarrow> (Inl e, r)
      | Inr True \<Rightarrow> create_missing f us r
      | Inr False \<Rightarrow>
          (case uc_parse (tn_codec f) content of
             Inl e \<Rightarrow> (Inl e, r)
           | Inr uf \<Rightarrow>
               (case create_unit f name uf r of
                  (Inl e, r') \<Rightarrow> (Inl e, r')
                | (Inr _, r') \<Rightarrow>
                    (case create_missing f us r' of
                       (res, r'') \<Rightarrow> (rbind res (\<lambda>created. Inr (name # created)), r'')))))"

definition lazy_create_units :: "'o tunnel \<Rightarrow> (string \<times> string) list \<Rightarrow> 'o registry \<Rightarrow> unit res \<times> 'o registry" where
  "lazy_create_units f us r =
     (case create_missing f us r of
        (Inl e, r') \<Rightarrow> (Inl e, r')
      | (Inr created, r') \<Rightarrow> check_unit_states f JobStateInactive created r')"

fun set_target_state_of_units ::
  "'o tunnel \<Rightarrow> string \<Rightarrow> string list \<Rightarrow> 'o registry \<Rightarrow> 'o schema_unit list res \<times> 'o registry" where
  "set_target_state_of_units f js [] r = (Inr [], r)"
| "set_target_state_of_units f js (name # names) r =
     (case tunnel_unit f r name of
        Inl e \<Rightarrow> (Inl OtherError, r)
      | Inr None \<Rightarrow> (Inl OtherError, r)
      | Inr (Some u) \<Rightarrow>
          if su_DesiredState u = js then set_target_state_of_units f js names r
          else
            (case api_set_target (su_Name u) js r of
               (Inl e, r') \<Rightarrow> (Inl e, r')
             | (Inr _, r') \<Rightarrow>
                 (case set_target_state_of_units f js names r' of
                    (res, r'') \<Rightarrow> (rbind res (\<lambda>ts. Inr (u # ts)), r''))))"

definition tunnel_start :: "'o tunnel \<Rightarrow> (string \<times> string) list \<Rightarrow> 'o registry \<Rightarrow> unit res \<times> 'o registry" where
  "tunnel_start f us r =
     (case lazy_create_units f us r of
        (Inl e, r') \<Rightarrow> (Inl e, r')
      | (Inr _, r') \<Rightarrow>
          (case set_target_state_of_units f JobStateLaunched (map fst us) r' of
             (Inl e, r'') \<Rightarrow> (Inl e, r'')
           | (Inr triggered, r'') \<Rightarrow>
               try_wait_for_unit_states f JobStateLaunched
                 (map su_Name (filter (\<lambda>u. \<not> su_to_global f u) triggered)) r''))"

section \<open>Stop and destroy\<close>

record stop_stats =
  StoppedUnits :: int
  StoppedGlobalUnits :: int

fun stop_loop ::
  "'o tunnel \<Rightarrow> 'o schema_unit list \<Rightarrow> string list \<Rightarrow> stop_stats \<Rightarrow> 'o registry \<Rightarrow>
     (string list \<times> stop_stats) res \<times> 'o registry" where
  "stop_loop f [] stopping stats r = (Inr (stopping, stats), r)"
| "stop_loop f (u # us) stopping stats r =
     (if \<not> su_to_global f u \<and> su_CurrentState u = JobStateInactive then (Inl OtherError, r)
      else if \<not> su_to_global f u \<and> su_CurrentState u = JobStateLoaded then stop_loop f us stopping stats r
      else
        (case api_set_target (su_Name u) JobStateLoaded r of
           (Inl e, r') \<Rightarrow> (Inl e, r')
         | (Inr _, r') \<Rightarrow>
             if su_to_global f u then
               stop_loop f us stopping (stats\<lparr>StoppedGlobalUnits := StoppedGlobalUnits stats + 1\<rparr>) r'
             else
               stop_loop f us (stopping @ [su_Name u]) (stats\<lparr>StoppedUnits := StoppedUnits stats + 1\<rparr>) r'))"

definition tunnel_stop :: "'o tunnel \<Rightarrow> string list \<Rightarrow> 'o registry \<Rightarrow> stop_stats res \<times> 'o registry" where
  "tunnel_stop f names r =
     (case find_units r names of
        Inl e \<Rightarrow> (Inl e, r)
      | Inr units \<Rightarrow>
          (case stop_loop f units [] \<lparr>StoppedUnits = 0, StoppedGlobalUnits = 0\<rparr> r of
             (Inl e, r') \<Rightarrow> (Inl e, r')
           | (Inr (stopping, stats), r') \<Rightarrow>
               (case try_wait_for_unit_states f JobStateLoaded stopping r' of
                  (Inl e, r'') \<Rightarrow> (Inl e, r'')
                | (Inr _, r'') \<Rightarrow> (Inr stats, r''))))"

text \<open>
  The loop that waits for a destroyed unit to disappear: with a bound the loop gives up in
  silence, without one it goes on until the fuel is gone.
\<close>

fun await_gone :: "'o tunnel \<Rightarrow> error option \<Rightarrow> nat \<Rightarrow> string \<Rightarrow> 'o registry \<Rightarrow> unit res \<times> 'o registry" where
  "await_gone f giveup 0 name r = ((case giveup of None \<Rightarrow> Inr () | Some e \<Rightarrow> Inl e), r)"
| "await_gone f giveup (Suc n) name r =
     (case unit_exists f r name of
        Inl e \<Rightarrow> (Inl e, r)
      | Inr ex \<Rightarrow> if \<not> ex then (Inr (), r) else await_gone f giveup n name (env_step (tn_engine f) r))"

definition block_until_gone :: "'o tunnel \<Rightarrow> string \<Rightarrow> 'o registry \<Rightarrow> unit res \<times> 'o registry" where
  "block_until_gone f name r =
     (if \<not> tn_NoBlock f then (Inr (), r)
      else if tn_BlockAttempts f < 1 then await_gone f (Some Hang) (Suc (tn_patience f)) name r
      else await_gone f None (nat (tn_BlockAttempts f - 1)) name r)"

fun destroy_loop :: "'o tunnel \<Rightarrow> string list \<Rightarrow> bool \<Rightarrow> 'o registry \<Rightarrow> unit res \<times> 'o registry" where
  "destroy_loop f [] failed r = (if failed then Inl OtherError else Inr (), r)"
| "destroy_loop f (name # names) failed r =
     (case destroy_unit_with_retry name r of
        ((True, _), r') \<Rightarrow> destroy_loop f names failed r'
      | ((False, Inl e), r') \<Rightarrow> destroy_loop f names True r'
      | ((False, Inr _), r') \<Rightarrow>
          (case block_until_gone f name r' of
             (Inl Hang, r'') \<Rightarrow> (Inl Hang, r'')
           | (Inl e, r'') \<Rightarrow> destroy_loop f names True r''
           | (Inr _, r'') \<Rightarrow> destroy_loop f names failed r''))"

definition tunnel_destroy :: "'o tunnel \<Rightarrow> string list \<Rightarrow> 'o registry \<Rightarrow> unit res \<times> 'o registry" where
  "tunnel_destroy f names r = destroy_loop f names False r"

section \<open>What the operations do to the registry\<close>

text \<open>The units of the registry, by name.\<close>

definition reg_view :: "'o registry \<Rightarrow> string \<Rightarrow> 'o option" where
  "reg_view r n = map_option rj_Unit (map_of (fr_jobs r) n)"

definition reg_ok :: "'o registry \<Rightarrow> bool" where
  "reg_ok r \<longleftrightarrow> distinct (map fst (fr_jobs r)) \<and> (\<forall>(n, u) \<in> set (fr_jobs r). rj_Name u = n)"

named_theorems registry_simps \<open>effect of registry operations on the view\<close>

lemma env_step_view [registry_simps]: "reg_view (env_step eng r) = reg_view r"
proof
  fix n
  have "map_of (map (\<lambda>(n, u). (n, u\<lparr>rj_State := h n\<rparr>)) js) n =
      map_option (\<lambda>u. u\<lparr>rj_State := h n\<rparr>) (map_of js n)" for h :: "string \<Rightarrow> string option" and js :: "(string \<times> 'a reg_job) list"
    by (induction js) auto
  then show "reg_view (env_step eng r) n = reg_view r n"
    by (simp add: reg_view_def env_step_def option.map_comp comp_def)
qed

lemma env_step_ok [registry_simps]: "reg_ok (env_step eng r) = reg_ok r"
  by (simp add: reg_ok_def env_step_def split_def comp_def)

lemma reg_ok_name: "reg_ok r \<Longrightarrow> map_of (fr_jobs r) n = Some u \<Longrightarrow> rj_Name u = n"
  by (auto simp: reg_ok_def dest: map_of_SomeD)

lemma in_set_update: "p \<in> set (AList.update n u al) \<Longrightarrow> p = (n, u) \<or> p \<in> set al"
  by (induction al) (auto split: if_splits)

lemma reg_ok_update:
  "reg_ok r \<Longrightarrow> rj_Name u = n \<Longrightarrow> reg_ok (r\<lparr>fr_jobs := AList.update n u (fr_jobs r)\<rparr>)"
  by (auto simp: reg_ok_def distinct_update dest!: in_set_update)

lemma api_set_target_frame:
  assumes "api_set_target n js r = (res, r')"
  shows "reg_view r' = reg_view r" "reg_ok r \<Longrightarrow> reg_ok r'"
proof -
  show "reg_view r' = reg_view r"
    using assms by (auto simp: api_set_target_def reg_view_def update_conv' fun_eq_iff split: option.splits)
  show "reg_ok r \<Longrightarrow> reg_ok r'"
    using assms by (auto simp: api_set_target_def reg_ok_name split: option.splits intro!: reg_ok_update)
qed

lemma api_create_effect:
  assumes "api_create n opts r = (res, r')"
  shows "res = Inr () \<Longrightarrow> reg_view r n = None \<and> reg_view r' = (reg_view r)(n \<mapsto> opts)"
    "res \<noteq> Inr () \<Longrightarrow> r' = r" "reg_ok r \<Longrightarrow> reg_ok r'" "reg_view r n = None \<Longrightarrow> res = Inr ()"
proof -
  have *: "reg_ok r \<Longrightarrow> reg_ok (r\<lparr>fr_jobs := AList.update n
      \<lparr>rj_Name = n, rj_Unit = opts, rj_TargetState = st, rj_State = None\<rparr> (fr_jobs r)\<rparr>)" for st
    by (rule reg_ok_update) simp_all
  show "res = Inr () \<Longrightarrow> reg_view r n = None \<and> reg_view r' = (reg_view r)(n \<mapsto> opts)"
    "res \<noteq> Inr () \<Longrightarrow> r' = r" "reg_view r n = None \<Longrightarrow> res = Inr ()"
    using assms
    by (auto simp: api_create_def api_set_target_def reg_view_def update_conv' fun_eq_iff split: if_splits)
  show "reg_ok r \<Longrightarrow> reg_ok r'"
    using assms * reg_ok_update [OF *]
    by (auto simp: api_create_def api_set_target_def update_conv' split: if_splits)
qed

lemma poll_units_frame:
  "poll_units f js n pending r = (b, r') \<Longrightarrow> reg_view r' = reg_view r \<and> (reg_ok r' \<longleftrightarrow> reg_ok r)"
  by (induction f js n pending r arbitrary: b r' rule: poll_units.induct)
    (auto simp: Let_def registry_simps split: if_splits)

lemma check_unit_states_frame:
  "check_unit_states f js us r = (res, r') \<Longrightarrow> reg_view r' = reg_view r \<and> (reg_ok r' \<longleftrightarrow> reg_ok r)"
  by (auto simp: check_unit_states_def poll_units_frame dest: poll_units_frame split: if_splits prod.splits)

lemma try_wait_frame:
  "try_wait_for_unit_states f js us r = (res, r') \<Longrightarrow> reg_view r' = reg_view r \<and> (reg_ok r' \<longleftrightarrow> reg_ok r)"
  by (auto simp: try_wait_for_unit_states_def dest: check_unit_states_frame split: if_splits)

lemma unit_exists_view: "unit_exists f r n = Inr (reg_view r n \<noteq> None)"
  by (simp add: unit_exists_def tunnel_unit_def api_unit_def reg_view_def split: option.splits)

lemma set_target_frame:
  "set_target_state_of_units f js names r = (res, r') \<Longrightarrow>
     reg_view r' = reg_view r \<and> (reg_ok r \<longrightarrow> reg_ok r')"
proof (induction names arbitrary: r res r')
  case (Cons name names)
  show ?case
  proof (cases "\<exists>u. tunnel_unit f r name = Inr (Some u) \<and> su_DesiredState u \<noteq> js")
    case True
    then obtain u where u: "tunnel_unit f r name = Inr (Some u)" "su_DesiredState u \<noteq> js" by blast
    obtain ares ra where a: "api_set_target (su_Name u) js r = (ares, ra)" by fastforce
    obtain sres rs where s: "set_target_state_of_units f js names ra = (sres, rs)" by fastforce
    from Cons.prems u a s have "r' = ra \<or> r' = rs" by (auto split: sum.splits)
    with api_set_target_frame [OF a] Cons.IH [OF s] show ?thesis by auto
  next
    case False
    with Cons show ?thesis by (auto split: sum.splits option.splits)
  qed
qed simp

text \<open>Creating keeps what is there and installs the parsed content of what is missing.\<close>

definition installed :: "'o codec \<Rightarrow> (string \<times> string) list \<Rightarrow> string \<Rightarrow> 'o option" where
  "installed cd us n =
     (case map_of us n of None \<Rightarrow> None
      | Some content \<Rightarrow> (case uc_parse cd content of Inl _ \<Rightarrow> None | Inr uf \<Rightarrow> Some uf))"

lemma create_missing_effect:
  "create_missing f us r = (res, r') \<Longrightarrow>
     (\<forall>n. reg_view r n \<noteq> None \<longrightarrow> reg_view r' n = reg_view r n) \<and>
     (\<forall>n. n \<notin> fst ` set us \<longrightarrow> reg_view r' n = reg_view r n) \<and>
     (reg_ok r \<longrightarrow> reg_ok r') \<and>
     (is_ok res \<longrightarrow> (\<forall>n \<in> fst ` set us. reg_view r n = None \<longrightarrow>
        reg_view r' n = installed (tn_codec f) us n \<and> reg_view r' n \<noteq> None))"
proof (induction us arbitrary: r res r')
  case (Cons p us)
  obtain name content where p: "p = (name, content)" by fastforce
  show ?case
  proof (cases "reg_view r name")
    case None
    show ?thesis
    proof (cases "uc_parse (tn_codec f) content")
      case (Inl e)
      with Cons.prems None p show ?thesis by (auto simp: unit_exists_view)
    next
      case (Inr uf)
      obtain cres rc where c: "create_unit f name uf r = (cres, rc)" by fastforce
      show ?thesis
      proof (cases cres)
        case (Inl e)
        then have "rc = r" using c
          by (auto simp: create_unit_def split: if_splits dest: api_create_effect(2))
        with Cons.prems p None Inr c Inl show ?thesis by (auto simp: unit_exists_view)
      next
        case ok: (Inr u)
        then have v: "reg_view rc = (reg_view r)(name \<mapsto> uf)" and k: "reg_ok r \<Longrightarrow> reg_ok rc"
          using c by (auto simp: create_unit_def split: if_splits dest: api_create_effect)
        obtain mres rm where m: "create_missing f us rc = (mres, rm)" by fastforce
        have res: "res = rbind mres (\<lambda>created. Inr (name # created))" "r' = rm"
          using Cons.prems p None Inr c ok m by (simp_all add: unit_exists_view)
        have "is_ok res = is_ok mres" using res by (cases mres) auto
        with Cons.IH [OF m] v k None Inr res(2) p show ?thesis
          by (auto simp: installed_def split: if_splits)
      qed
    qed
  next
    case (Some uf)
    with Cons.prems p have "create_missing f us r = (res, r')" by (simp add: unit_exists_view)
    from Cons.IH [OF this] Some p show ?thesis by (auto simp: installed_def)
  qed
qed simp

lemma tunnel_start_effect:
  assumes "tunnel_start f us r = (res, r')"
  shows "reg_view r n \<noteq> None \<Longrightarrow> reg_view r' n = reg_view r n"
    "n \<notin> fst ` set us \<Longrightarrow> reg_view r' n = reg_view r n"
    "reg_ok r \<Longrightarrow> reg_ok r'"
    "is_ok res \<Longrightarrow> n \<in> fst ` set us \<Longrightarrow> reg_view r n = None \<Longrightarrow>
       reg_view r' n = installed (tn_codec f) us n \<and> reg_view r' n \<noteq> None"
proof -
  obtain cres rc where c: "create_missing f us r = (cres, rc)" by fastforce
  note cm = create_missing_effect [OF c]
  have v: "reg_view r' = reg_view rc \<and> (reg_ok rc \<longrightarrow> reg_ok r') \<and> (is_ok res \<longrightarrow> is_ok cres)"
    using assms c
    by (auto simp: tunnel_start_def lazy_create_units_def split: sum.splits prod.splits
        dest!: check_unit_states_frame set_target_frame try_wait_frame)
  show "reg_view r n \<noteq> None \<Longrightarrow> reg_view r' n = reg_view r n"
    "n \<notin> fst ` set us \<Longrightarrow> reg_view r' n = reg_view r n" "reg_ok r \<Longrightarrow> reg_ok r'"
    "is_ok res \<Longrightarrow> n \<in> fst ` set us \<Longrightarrow> reg_view r n = None \<Longrightarrow>
       reg_view r' n = installed (tn_codec f) us n \<and> reg_view r' n \<noteq> None"
    using v cm by auto
qed

lemma stop_loop_frame:
  "stop_loop f us stopping stats r = (res, r') \<Longrightarrow>
     reg_view r' = reg_view r \<and> (reg_ok r \<longrightarrow> reg_ok r')"
proof (induction us arbitrary: stopping stats r)
  case (Cons u us)
  obtain ares ra where a: "api_set_target (su_Name u) JobStateLoaded r = (ares, ra)" by fastforce
  have "(res, r') = (Inl OtherError, r) \<or> (\<exists>st sts. stop_loop f us st sts r = (res, r')) \<or>
      r' = ra \<or> (\<exists>st sts. stop_loop f us st sts ra = (res, r'))"
    using Cons.prems a by (auto split: sum.splits if_splits)
  with api_set_target_frame [OF a] Cons.IH show ?case by (metis prod.inject)
qed simp

lemma tunnel_stop_effect:
  assumes "tunnel_stop f names r = (res, r')"
  shows "reg_view r' = reg_view r" "reg_ok r \<Longrightarrow> reg_ok r'"
  using assms
  by (auto simp: tunnel_stop_def split: sum.splits prod.splits dest!: stop_loop_frame try_wait_frame)

lemma await_gone_frame:
  "await_gone f g n name r = (res, r') \<Longrightarrow> reg_view r' = reg_view r \<and> (reg_ok r' \<longleftrightarrow> reg_ok r)"
  by (induction f g n name r arbitrary: res r' rule: await_gone.induct)
    (auto simp: registry_simps unit_exists_view split: if_splits)

lemma await_gone_ok: "reg_view r name = None \<Longrightarrow> fst (await_gone f (Some e) (Suc n) name r) = Inr ()"
  by (simp add: unit_exists_view)

lemma block_until_gone_frame:
  "block_until_gone f name r = (res, r') \<Longrightarrow> reg_view r' = reg_view r \<and> (reg_ok r' \<longleftrightarrow> reg_ok r)"
  by (auto simp: block_until_gone_def simp del: await_gone.simps dest: await_gone_frame split: if_splits)

lemma api_destroy_view: "api_destroy name r = (Inr (), r\<lparr>fr_jobs := AList.delete name (fr_jobs r)\<rparr>)"
  by (simp add: api_destroy_def)

lemma delete_view: "reg_view (r\<lparr>fr_jobs := AList.delete name (fr_jobs r)\<rparr>) = (reg_view r)(name := None)"
  by (auto simp: reg_view_def delete_conv')

lemma delete_ok: "reg_ok r \<Longrightarrow> reg_ok (r\<lparr>fr_jobs := AList.delete name (fr_jobs r)\<rparr>)"
  by (auto simp: reg_ok_def AList.delete_eq distinct_map_filter)

lemma await_gone_gone:
  "reg_view r name = None \<Longrightarrow>
     await_gone f g n name r = (Inr (), r) \<or> n = 0 \<and> await_gone f g n name r = (case g of None \<Rightarrow> Inr () | Some e \<Rightarrow> Inl e, r)"
  by (cases n) (simp_all add: unit_exists_view)

lemma block_until_gone_gone: "reg_view r name = None \<Longrightarrow> block_until_gone f name r = (Inr (), r)"
  using await_gone_gone [of r name f None "nat (tn_BlockAttempts f - 1)"]
  by (auto simp: block_until_gone_def unit_exists_view)

text \<open>Destroying never fails on this registry and removes exactly the named units.\<close>

lemma destroy_loop_effect:
  "destroy_loop f names failed r = (res, r') \<Longrightarrow>
     res = (if failed then Inl OtherError else Inr ()) \<and>
     reg_view r' = (\<lambda>n. if n \<in> set names then None else reg_view r n) \<and> (reg_ok r \<longrightarrow> reg_ok r')"
proof (induction names arbitrary: failed r)
  case (Cons name names)
  let ?r = "r\<lparr>fr_jobs := AList.delete name (fr_jobs r)\<rparr>"
  have "block_until_gone f name ?r = (Inr (), ?r)"
    by (rule block_until_gone_gone) (simp add: delete_view)
  with Cons.prems have "destroy_loop f names failed ?r = (res, r')"
    by (simp add: destroy_unit_with_retry_def api_destroy_def)
  from Cons.IH [OF this] delete_ok [of r name] show ?case
    by (auto simp: delete_view fun_eq_iff)
qed auto

lemma tunnel_destroy_effect:
  assumes "tunnel_destroy f names r = (res, r')"
  shows "res = Inr ()" "reg_view r' = (\<lambda>n. if n \<in> set names then None else reg_view r n)"
    "reg_ok r \<Longrightarrow> reg_ok r'"
  using destroy_loop_effect [of f names False r res r'] assms by (simp_all add: tunnel_destroy_def)

lemma tunnel_list_effect:
  assumes "reg_ok r"
  shows "\<exists>ns. tunnel_list r = Inr ns \<and> distinct ns \<and> set ns = {n. reg_view r n \<noteq> None}"
proof -
  let ?ns = "map fst (go_sort fst (fr_jobs r))"
  have "map (rj_Name \<circ> snd) (go_sort fst (fr_jobs r)) = ?ns"
    using assms by (auto simp: reg_ok_def)
  then have "tunnel_list r = Inr ?ns"
    by (simp add: tunnel_list_def api_units_def map_unit_to_schema_def split_def comp_def)
  moreover have "distinct ?ns" using assms by (simp add: reg_ok_def)
  moreover have "set ?ns = {n. reg_view r n \<noteq> None}"
    by (force simp: reg_view_def dom_map_of_conv_image_fst [symmetric])
  ultimately show ?thesis by blast
qed

end
