(* ===== verification/Scheduler.thy ===== *)
theory Scheduler
  imports Prelude
begin

text \<open>
  The interface \<^verbatim>\<open>scheduler.Scheduler\<close> of \<^verbatim>\<open>scheduler/scheduler.go\<close>
  as a record of functions over the state \<open>'s\<close> of a cluster. \<open>'u\<close> is a unit as
  \<^verbatim>\<open>List\<close> returns it, \<open>'d\<close> a generated unit with its content. Events are
  dropped. \<open>PassTime\<close> is not an operation of the interface: it stands for what the
  cluster does by itself while j2 sleeps. The locale states what the deployment relies on.
\<close>

datatype reason = ReasonUpdate | ReasonFailed | ReasonObsolete

record ('s, 'u, 'd) scheduler =
  unit_id :: "'u \<Rightarrow> string"
  data_id :: "'d \<Rightarrow> string"
  ValidateCluster :: "'s \<Rightarrow> unit res \<times> 's"
  ListUnits :: "'s \<Rightarrow> 'u list res"
  GetState :: "'u \<Rightarrow> 's \<Rightarrow> bool res \<times> 's"
  HasChanged :: "'d \<Rightarrow> 's \<Rightarrow> bool res"
  StopUnits :: "reason \<Rightarrow> 'u list \<Rightarrow> 's \<Rightarrow> int res \<times> 's"
  DestroyUnits :: "reason \<Rightarrow> 'u list \<Rightarrow> 's \<Rightarrow> unit res \<times> 's"
  StartUnits :: "'d list \<Rightarrow> 's \<Rightarrow> unit res \<times> 's"
  IsUnitForScalingGroup :: "'u \<Rightarrow> nat \<Rightarrow> bool"
  IsUnitForJob :: "'u \<Rightarrow> bool"
  IsUnitForTaskGroup :: "'u \<Rightarrow> string \<Rightarrow> bool"
  PassTime :: "'s \<Rightarrow> 's"

text \<open>
  \<open>view s n\<close> is the content installed under the name \<open>n\<close>, and \<open>accepts d c\<close>
  says that \<open>c\<close> is an installed form of the generated unit \<open>d\<close>. A \<open>lazy\<close>
  scheduler destroys for every reason and leaves an existing unit alone when starting; one that
  is not may keep a unit that is destroyed for an update, and overwrites when starting. \<open>ok\<close>
  is what the scheduler relies on in a state, \<open>data_ok\<close> in a unit it starts and
  \<open>unit_ok\<close> in a unit it destroys. The names in \<open>reserved\<close> are those that
  validating the cluster may configure.
\<close>

locale scheduler_laws =
  fixes sc :: "('s, 'u, 'd) scheduler"
    and view :: "'s \<Rightarrow> string \<Rightarrow> 'c option"
    and accepts :: "'d \<Rightarrow> 'c \<Rightarrow> bool"
    and ok :: "'s \<Rightarrow> bool"
    and data_ok :: "'d \<Rightarrow> bool"
    and lazy :: bool
    and unit_ok :: "'u \<Rightarrow> bool"
    and reserved :: "string set"
  assumes list_view: "ok s \<Longrightarrow> ListUnits sc s = Inr us \<Longrightarrow>
        unit_id sc ` set us = {n. view s n \<noteq> None}"
    and list_units: "ListUnits sc s = Inr us \<Longrightarrow> u \<in> set us \<Longrightarrow> unit_ok u"
    and validate_view: "ValidateCluster sc s = (res, s') \<Longrightarrow> n \<notin> reserved \<Longrightarrow> view s' n = view s n"
    and validate_ok: "ValidateCluster sc s = (res, s') \<Longrightarrow> ok s \<Longrightarrow> ok s'"
    and data_reserved: "data_ok d \<Longrightarrow> data_id sc d \<notin> reserved"
    and state_view: "GetState sc u s = (b, s') \<Longrightarrow> view s' = view s"
    and state_ok: "GetState sc u s = (b, s') \<Longrightarrow> ok s \<Longrightarrow> ok s'"
    and time_view: "view (PassTime sc s) = view s"
    and time_ok: "ok s \<Longrightarrow> ok (PassTime sc s)"
    and stop_view: "StopUnits sc r us s = (g, s') \<Longrightarrow> view s' = view s"
    and stop_ok: "StopUnits sc r us s = (g, s') \<Longrightarrow> ok s \<Longrightarrow> ok s'"
    and destroy_ok: "DestroyUnits sc r us s = (res, s') \<Longrightarrow> ok s \<Longrightarrow> ok s'"
    and destroy_frame: "DestroyUnits sc r us s = (res, s') \<Longrightarrow> n \<notin> unit_id sc ` set us \<Longrightarrow> view s' n = view s n"
    and destroy_only: "DestroyUnits sc r us s = (res, s') \<Longrightarrow> ok s \<Longrightarrow> view s' n = None \<or> view s' n = view s n"
    and destroy_gone: "DestroyUnits sc r us s = (res, s') \<Longrightarrow> ok s \<Longrightarrow> is_ok res \<Longrightarrow> r = ReasonObsolete \<or> lazy \<Longrightarrow>
        \<forall>u \<in> set us. unit_ok u \<Longrightarrow> n \<in> unit_id sc ` set us \<Longrightarrow> view s' n = None"
    and start_ok: "StartUnits sc ds s = (res, s') \<Longrightarrow> \<forall>d \<in> set ds. data_ok d \<Longrightarrow> ok s \<Longrightarrow> ok s'"
    and start_frame: "StartUnits sc ds s = (res, s') \<Longrightarrow> n \<notin> data_id sc ` set ds \<Longrightarrow> view s' n = view s n"
    and start_installs: "ok s \<Longrightarrow> StartUnits sc ds s = (res, s') \<Longrightarrow> is_ok res \<Longrightarrow> distinct (map (data_id sc) ds) \<Longrightarrow>
        \<forall>d \<in> set ds. data_ok d \<Longrightarrow> d \<in> set ds \<Longrightarrow> view s (data_id sc d) = None \<or> \<not> lazy \<Longrightarrow>
        \<exists>c. view s' (data_id sc d) = Some c \<and> accepts d c"
    and unchanged: "ok s \<Longrightarrow> data_ok d \<Longrightarrow> HasChanged sc d s = Inr False \<Longrightarrow>
        \<exists>c. view s (data_id sc d) = Some c \<and> accepts d c"

end
