(* ===== verification/Deployment.thy ===== *)
theory Deployment
  imports Scheduler
begin

text \<open>
  Deploying a job: \<^verbatim>\<open>deployment/run.go\<close>, \<^verbatim>\<open>destroy.go\<close>,
  \<^verbatim>\<open>filter.go\<close>, \<^verbatim>\<open>scaling_group.go\<close> and the selections. The
  operations work on any scheduler record; the generated units of a scaling group come from an
  argument \<open>gen\<close>, the renderer. The answers of the user and the order in which the
  goroutines of \<^verbatim>\<open>destroyUnits\<close> proceed are part of the world. Messages and the
  formatting of the list of changes are dropped; a sleep lets the cluster move on by itself.
\<close>

section \<open>Selections\<close>

definition tgs_include_all :: "string list \<Rightarrow> bool" where
  "tgs_include_all tgs = (length tgs = 0)"

definition tgs_includes :: "string list \<Rightarrow> string \<Rightarrow> bool" where
  "tgs_includes tgs name = (if length tgs = 0 then True else list_ex (\<lambda>x. x = name) tgs)"

definition sgs_include_all :: "nat \<Rightarrow> bool" where
  "sgs_include_all sgs = (sgs = 0)"

definition sgs_includes :: "nat \<Rightarrow> nat \<Rightarrow> bool" where
  "sgs_includes sgs scalingGroup = (sgs = 0 \<or> sgs = scalingGroup)"

record deployment =
  groupSelection :: "string list"
  scalingGroupSelection :: nat
  force :: bool
  autoContinue :: bool

record 's world =
  w_cluster :: 's
  w_answers :: "bool list"
  w_schedules :: "nat list list"

section \<open>Filters\<close>

definition unit_name_predicate :: "deployment \<Rightarrow> ('s, 'u, 'd) scheduler \<Rightarrow> 'u \<Rightarrow> bool" where
  "unit_name_predicate d sc u =
     (if tgs_include_all (groupSelection d) then
        (if \<not> sgs_include_all (scalingGroupSelection d) \<and>
            \<not> IsUnitForScalingGroup sc u (scalingGroupSelection d) then False
         else IsUnitForJob sc u)
      else
        (if \<not> sgs_include_all (scalingGroupSelection d) \<and>
            \<not> IsUnitForScalingGroup sc u (scalingGroupSelection d) then False
         else list_ex (\<lambda>g. IsUnitForTaskGroup sc u g) (groupSelection d)))"

definition select_unit_names :: "'u list \<Rightarrow> ('u \<Rightarrow> bool) \<Rightarrow> 'u list" where
  "select_unit_names us predicate = filter predicate us"

definition contains_name :: "string list \<Rightarrow> string \<Rightarrow> bool" where
  "contains_name names n = list_ex (\<lambda>x. x = n) names"

text \<open>A predicate with side effects on the cluster state (the cached status).\<close>

fun select_with_state :: "('u \<Rightarrow> 's \<Rightarrow> bool \<times> 's) \<Rightarrow> 'u list \<Rightarrow> 's \<Rightarrow> 'u list \<times> 's" where
  "select_with_state p [] s = ([], s)"
| "select_with_state p (u # us) s =
     (case p u s of (b, s') \<Rightarrow>
        case select_with_state p us s' of (r, s'') \<Rightarrow> (if b then u # r else r, s''))"

section \<open>Scaling groups\<close>

definition sgu_get :: "('s, 'u, 'd) scheduler \<Rightarrow> 'd list \<Rightarrow> string \<Rightarrow> 'd res" where
  "sgu_get sc units n =
     (case List.find (\<lambda>d. data_id sc d = n) units of Some d \<Rightarrow> Inr d | None \<Rightarrow> Inl OtherError)"

definition select_by_names :: "('s, 'u, 'd) scheduler \<Rightarrow> 'd list \<Rightarrow> string list \<Rightarrow> 'd list" where
  "select_by_names sc units names = filter (\<lambda>d. data_id sc d \<in> set names) units"

definition generate_scaling_groups :: "(nat \<Rightarrow> 'd list res) \<Rightarrow> deployment \<Rightarrow> nat \<Rightarrow> (nat \<times> 'd list) list res" where
  "generate_scaling_groups gen d maxCount =
     map_res (\<lambda>sg. rbind (gen sg) (\<lambda>units. Inr (sg, units)))
       (filter (sgs_includes (scalingGroupSelection d)) [1..<maxCount + 1])"

section \<open>Destroying units\<close>

text \<open>
  \<^verbatim>\<open>destroyUnits\<close> starts three goroutines. Each stops its units (a failure is only
  reported), sleeps when global units were stopped, and destroys them. A schedule says which
  goroutine moves next; \<^verbatim>\<open>g.Wait\<close> returns when all are finished, with the first
  error. \<open>g_pc\<close> counts the moves a goroutine has made.
\<close>

record 'u goroutine =
  g_reason :: reason
  g_units :: "'u list"
  g_pc :: nat

definition goroutine_step ::
  "('s, 'u, 'd) scheduler \<Rightarrow> 'u goroutine \<Rightarrow> 's \<Rightarrow> unit res \<times> 'u goroutine \<times> 's" where
  "goroutine_step sc g s =
     (if g_pc g = 0 then
        (if length (g_units g) = 0 then (Inr (), g\<lparr>g_pc := 2\<rparr>, s)
         else
           (case StopUnits sc (g_reason g) (g_units g) s of
              (stats, s') \<Rightarrow>
                (Inr (), g\<lparr>g_pc := 1\<rparr>,
                 (case stats of Inl _ \<Rightarrow> s' | Inr n \<Rightarrow> if 0 < n then PassTime sc s' else s'))))
      else if g_pc g = 1 then
        (case DestroyUnits sc (g_reason g) (g_units g) s of
           (res, s') \<Rightarrow> (res, g\<lparr>g_pc := 2\<rparr>, s'))
      else (Inr (), g, s))"

definition first_error :: "unit res \<Rightarrow> unit res \<Rightarrow> unit res" where
  "first_error a b = (case a of Inl e \<Rightarrow> Inl e | Inr _ \<Rightarrow> b)"

fun run_goroutines ::
  "('s, 'u, 'd) scheduler \<Rightarrow> nat list \<Rightarrow> unit res \<Rightarrow> 'u goroutine list \<Rightarrow> 's \<Rightarrow> unit res \<times> 's" where
  "run_goroutines sc [] err gs s = (err, s)"
| "run_goroutines sc (i # is) err gs s =
     (if i < length gs then
        (case goroutine_step sc (gs ! i) s of
           (res, g, s') \<Rightarrow> run_goroutines sc is (first_error err res) (gs[i := g]) s')
      else run_goroutines sc is err gs s)"

definition destroy_units ::
  "('s, 'u, 'd) scheduler \<Rightarrow> 'u list \<Rightarrow> 'u list \<Rightarrow> 'u list \<Rightarrow> 's world \<Rightarrow> unit res \<times> 's world" where
  "destroy_units sc modified failed obsolete w =
     (let sched = (case w_schedules w of [] \<Rightarrow> [] | sch # _ \<Rightarrow> sch);
          gs = [\<lparr>g_reason = ReasonUpdate, g_units = modified, g_pc = 0\<rparr>,
                \<lparr>g_reason = ReasonFailed, g_units = failed, g_pc = 0\<rparr>,
                \<lparr>g_reason = ReasonObsolete, g_units = obsolete, g_pc = 0\<rparr>]
      in case run_goroutines sc (sched @ [0, 0, 1, 1, 2, 2]) (Inr ()) gs (w_cluster w) of
           (res, s) \<Rightarrow> (res, w\<lparr>w_cluster := s, w_schedules := drop 1 (w_schedules w)\<rparr>))"

section \<open>Running a deployment\<close>

definition is_modified :: "deployment \<Rightarrow> ('s, 'u, 'd) scheduler \<Rightarrow> 'd list \<Rightarrow> 's \<Rightarrow> 'u \<Rightarrow> bool" where
  "is_modified d sc units s u =
     (if force d then True
      else case sgu_get sc units (unit_id sc u) of
        Inl _ \<Rightarrow> True
      | Inr newUnit \<Rightarrow>
          (case HasChanged sc newUnit s of Inl _ \<Rightarrow> True | Inr changed \<Rightarrow> changed))"

definition is_failed :: "('s, 'u, 'd) scheduler \<Rightarrow> 'u \<Rightarrow> 's \<Rightarrow> bool \<times> 's" where
  "is_failed sc u s =
     (case GetState sc u s of
        (Inl e, s') \<Rightarrow> (e = NotFoundError, s')
      | (Inr failed, s') \<Rightarrow> (failed, s'))"

definition confirm :: "'s world \<Rightarrow> unit res \<times> 's world" where
  "confirm w =
     (case w_answers w of
        [] \<Rightarrow> (Inl UserAbort, w)
      | a # as \<Rightarrow> (if a then Inr () else Inl UserAbort, w\<lparr>w_answers := as\<rparr>))"

definition pass_time :: "('s, 'u, 'd) scheduler \<Rightarrow> 's world \<Rightarrow> 's world" where
  "pass_time sc w = w\<lparr>w_cluster := PassTime sc (w_cluster w)\<rparr>"

record ('u, 'd) plan =
  p_loaded :: "'u list"
  p_remaining :: "'u list"
  p_obsolete :: "'u list"
  p_modified :: "'u list"
  p_failed :: "'u list"
  p_new :: "'d list"
  p_any :: bool

definition plan_step ::
  "deployment \<Rightarrow> ('s, 'u, 'd) scheduler \<Rightarrow> nat \<Rightarrow> 'd list \<Rightarrow> 'u list \<Rightarrow> 's \<Rightarrow> ('u, 'd) plan \<times> 's" where
  "plan_step d sc sg units remaining s =
     (let name = unit_id sc; dname = data_id sc;
          loaded = select_unit_names remaining (\<lambda>u. IsUnitForScalingGroup sc u sg);
          remaining' = select_unit_names remaining (\<lambda>u. \<not> contains_name (map name loaded) (name u));
          obsolete = select_unit_names loaded (\<lambda>u. \<not> contains_name (map dname units) (name u));
          notObsolete = select_unit_names loaded (\<lambda>u. contains_name (map dname units) (name u));
          modified = select_unit_names notObsolete (is_modified d sc units s)
      in case select_with_state (is_failed sc) notObsolete s of
           (failed, s') \<Rightarrow>
             (\<lparr>p_loaded = loaded, p_remaining = remaining', p_obsolete = obsolete,
               p_modified = modified, p_failed = failed,
               p_new = select_unit_names units (\<lambda>u. \<not> contains_name (map name loaded) (dname u)),
               p_any = (length loaded \<noteq> length units \<or> 0 < length (obsolete @ modified @ failed))\<rparr>, s'))"

definition launch_units :: "('s, 'u, 'd) scheduler \<Rightarrow> 'd list \<Rightarrow> 's world \<Rightarrow> unit res \<times> 's world" where
  "launch_units sc units w =
     (case StartUnits sc units (w_cluster w) of (res, s) \<Rightarrow> (res, w\<lparr>w_cluster := s\<rparr>))"

definition apply_plan ::
  "('s, 'u, 'd) scheduler \<Rightarrow> 'd list \<Rightarrow> ('u, 'd) plan \<Rightarrow> 's world \<Rightarrow> unit res \<times> 's world" where
  "apply_plan sc units p w =
     (case (if 0 < length (p_obsolete p @ p_modified p @ p_failed p) then
              (case destroy_units sc (p_modified p) (p_failed p) (p_obsolete p) w of
                 (Inl e, w') \<Rightarrow> (Inl e, w')
               | (Inr _, w') \<Rightarrow> (Inr (), pass_time sc w'))
            else (Inr (), w)) of
        (Inl e, w') \<Rightarrow> (Inl e, w')
      | (Inr _, w') \<Rightarrow>
          (let unitsToLaunch = select_by_names sc units
                 (map (unit_id sc) (p_modified p) @ map (unit_id sc) (p_failed p) @ map (data_id sc) (p_new p))
           in if 0 < length unitsToLaunch then launch_units sc unitsToLaunch w' else (Inr (), w')))"

definition wait_before_step :: "('s, 'u, 'd) scheduler \<Rightarrow> bool \<Rightarrow> ('u, 'd) plan \<Rightarrow> 's world \<Rightarrow> 's world" where
  "wait_before_step sc waitNext p w = (if waitNext \<and> p_any p then pass_time sc w else w)"

definition confirm_step :: "deployment \<Rightarrow> ('u, 'd) plan \<Rightarrow> 's world \<Rightarrow> unit res \<times> 's world" where
  "confirm_step d p w =
     (if p_any p \<and> \<not> force d \<and> \<not> autoContinue d then confirm w else (Inr (), w))"

fun run_steps ::
  "deployment \<Rightarrow> ('s, 'u, 'd) scheduler \<Rightarrow> (nat \<times> 'd list) list \<Rightarrow> 'u list \<Rightarrow> bool \<Rightarrow> nat \<Rightarrow>
     's world \<Rightarrow> ('u list \<times> nat) res \<times> 's world" where
  "run_steps d sc [] remaining waitNext mods w = (Inr (remaining, mods), w)"
| "run_steps d sc ((sg, units) # sgs) remaining waitNext mods w =
     (case plan_step d sc sg units remaining (w_cluster w) of
        (p, s) \<Rightarrow>
          (case confirm_step d p (wait_before_step sc waitNext p (w\<lparr>w_cluster := s\<rparr>)) of
             (Inl e, w1) \<Rightarrow> (Inl e, w1)
           | (Inr _, w1) \<Rightarrow>
               (case apply_plan sc units p w1 of
                  (Inl e, w2) \<Rightarrow> (Inl e, w2)
                | (Inr _, w2) \<Rightarrow>
                    run_steps d sc sgs (p_remaining p) (waitNext \<or> p_any p)
                      (if p_any p then mods + 1 else mods) w2)))"

definition cleanup ::
  "('s, 'u, 'd) scheduler \<Rightarrow> 'u list \<Rightarrow> nat \<Rightarrow> 's world \<Rightarrow> nat res \<times> 's world" where
  "cleanup sc remaining mods w =
     (if 0 < length remaining then
        (case confirm w of
           (Inl e, w') \<Rightarrow> (Inl e, w')
         | (Inr _, w') \<Rightarrow>
             (case destroy_units sc [] [] remaining w' of
                (Inl e, w'') \<Rightarrow> (Inl e, w'')
              | (Inr _, w'') \<Rightarrow> (Inr (mods + 1), w'')))
      else (Inr mods, w))"

text \<open>
  \<^verbatim>\<open>Run\<close>; the result is the number of modifications. The last element of the list of
  scaling groups is read without a check, so an empty list panics.
\<close>

definition run ::
  "deployment \<Rightarrow> ('s, 'u, 'd) scheduler \<Rightarrow> (nat \<Rightarrow> 'd list res) \<Rightarrow> nat \<Rightarrow> 's world \<Rightarrow> nat res \<times> 's world" where
  "run d sc gen maxCount w =
     (case ListUnits sc (w_cluster w) of
        Inl e \<Rightarrow> (Inl e, w)
      | Inr allUnits \<Rightarrow>
          (case ValidateCluster sc (w_cluster w) of
             (Inl e, s) \<Rightarrow> (Inl e, w\<lparr>w_cluster := s\<rparr>)
           | (Inr _, s) \<Rightarrow>
               (let w = w\<lparr>w_cluster := s\<rparr>; remaining = select_unit_names allUnits (unit_name_predicate d sc)
                in case generate_scaling_groups gen d maxCount of
                     Inl e \<Rightarrow> (Inl e, w)
                   | Inr sgs \<Rightarrow>
                       if sgs = [] then (Inl Panic, w)
                       else case run_steps d sc sgs remaining False 0 w of
                         (Inl e, w') \<Rightarrow> (Inl e, w')
                       | (Inr (remaining', mods), w') \<Rightarrow> cleanup sc remaining' mods w')))"

section \<open>Destroying a deployment\<close>

definition confirm_destroy :: "deployment \<Rightarrow> 's world \<Rightarrow> unit res \<times> 's world" where
  "confirm_destroy d w = (if \<not> force d then confirm w else (Inr (), w))"

definition destroy_deployment ::
  "deployment \<Rightarrow> ('s, 'u, 'd) scheduler \<Rightarrow> 's world \<Rightarrow> unit res \<times> 's world" where
  "destroy_deployment d sc w =
     (case ListUnits sc (w_cluster w) of
        Inl e \<Rightarrow> (Inl e, w)
      | Inr allUnits \<Rightarrow>
          (let names = select_unit_names allUnits (unit_name_predicate d sc)
           in if length names = 0 then (Inr (), w)
              else case confirm_destroy d w of
                (Inl e, w') \<Rightarrow> (Inl e, w')
              | (Inr _, w') \<Rightarrow> destroy_units sc [] [] names w'))"

end
