(* ===== verification/DeploymentLaws.thy ===== *)
theory DeploymentLaws
  imports Deployment
begin

text \<open>
  What a deployment does to the cluster, proved once for every scheduler that meets
  \<^theory_text>\<open>scheduler_laws\<close>: destroying under every schedule of the goroutines, one
  step of the scaling group loop, the whole loop, and \<^verbatim>\<open>Run\<close> and
  \<^verbatim>\<open>Destroy\<close> as a whole.
\<close>

definition names_of :: "('s, 'u, 'd) scheduler \<Rightarrow> 'u list \<Rightarrow> string set" where
  "names_of sc us = unit_id sc ` set us"

definition data_names :: "('s, 'u, 'd) scheduler \<Rightarrow> 'd list \<Rightarrow> string set" where
  "data_names sc ds = data_id sc ` set ds"

definition generated :: "('s, 'u, 'd) scheduler \<Rightarrow> (nat \<times> 'd list) list \<Rightarrow> string set" where
  "generated sc sgs = (\<Union>(sg, units) \<in> set sgs. data_names sc units)"

lemma names_of_simps [simp]:
  "names_of sc [] = {}" "names_of sc (us @ vs) = names_of sc us \<union> names_of sc vs"
  "generated sc [] = {}" "generated sc ((sg, units) # sgs) = data_names sc units \<union> generated sc sgs"
  by (auto simp: names_of_def generated_def)

lemma contains_name_iff [simp]: "contains_name ns n \<longleftrightarrow> n \<in> set ns"
  by (auto simp: contains_name_def list_ex_iff)

lemma first_error_ok [simp]: "is_ok (first_error a b) \<longleftrightarrow> is_ok a \<and> is_ok b"
  by (cases a) (simp_all add: first_error_def)

context scheduler_laws
begin

section \<open>Goroutines\<close>

definition destroys :: "'u goroutine \<Rightarrow> bool" where
  "destroys g \<longleftrightarrow> (g_reason g = ReasonObsolete \<or> lazy) \<and> (\<forall>u \<in> set (g_units g). unit_ok u)"

lemma goroutine_step_effect:
  assumes "goroutine_step sc g s = (res, g', s')"
  shows "g_reason g' = g_reason g \<and> g_units g' = g_units g \<and> min 2 (Suc (g_pc g)) \<le> g_pc g'"
    "ok s \<Longrightarrow> ok s'"
    "n \<notin> names_of sc (g_units g) \<Longrightarrow> view s' n = view s n"
    "ok s \<Longrightarrow> view s' n = None \<or> view s' n = view s n"
    "ok s \<Longrightarrow> is_ok res \<Longrightarrow> g_pc g < 2 \<Longrightarrow> 2 \<le> g_pc g' \<Longrightarrow> destroys g \<Longrightarrow>
       n \<in> names_of sc (g_units g) \<Longrightarrow> view s' n = None"
proof -
  obtain b sb where st: "StopUnits sc (g_reason g) (g_units g) s = (b, sb)" by fastforce
  obtain rd sd where de: "DestroyUnits sc (g_reason g) (g_units g) s = (rd, sd)" by fastforce
  have cases: "g_pc g = 0 \<and> g_units g = [] \<and> g' = g\<lparr>g_pc := 2\<rparr> \<and> s' = s \<or>
      g_pc g = 0 \<and> g_units g \<noteq> [] \<and> g' = g\<lparr>g_pc := 1\<rparr> \<and> (s' = sb \<or> s' = PassTime sc sb) \<or>
      g_pc g = 1 \<and> g' = g\<lparr>g_pc := 2\<rparr> \<and> res = rd \<and> s' = sd \<or> 2 \<le> g_pc g \<and> g' = g \<and> s' = s"
    using assms st de
    by (auto simp: goroutine_step_def split: if_splits sum.splits prod.splits)
  then show "g_reason g' = g_reason g \<and> g_units g' = g_units g \<and> min 2 (Suc (g_pc g)) \<le> g_pc g'"
    by auto
  show "ok s \<Longrightarrow> ok s'"
    using cases stop_ok [OF st] destroy_ok [OF de] time_ok by auto
  show "n \<notin> names_of sc (g_units g) \<Longrightarrow> view s' n = view s n"
    using cases stop_view [OF st] destroy_frame [OF de] time_view by (auto simp: names_of_def)
  show "ok s \<Longrightarrow> view s' n = None \<or> view s' n = view s n"
    using cases stop_view [OF st] destroy_only [OF de] time_view by metis
  show "ok s \<Longrightarrow> is_ok res \<Longrightarrow> g_pc g < 2 \<Longrightarrow> 2 \<le> g_pc g' \<Longrightarrow> destroys g \<Longrightarrow>
       n \<in> names_of sc (g_units g) \<Longrightarrow> view s' n = None"
    using cases destroy_gone [OF de] by (auto simp: names_of_def destroys_def)
qed

definition gone :: "'u goroutine \<Rightarrow> 's \<Rightarrow> bool" where
  "gone g s \<longleftrightarrow> destroys g \<longrightarrow> (\<forall>n \<in> names_of sc (g_units g). view s n = None)"

lemma run_goroutines_effect:
  assumes "run_goroutines sc is err gs s = (res, s')"
  shows "(ok s \<longrightarrow> ok s') \<and> (\<forall>n. (\<forall>g \<in> set gs. n \<notin> names_of sc (g_units g)) \<longrightarrow> view s' n = view s n) \<and>
    (ok s \<longrightarrow> (\<forall>n. view s' n = None \<or> view s' n = view s n)) \<and> (is_ok res \<longrightarrow> is_ok err) \<and>
    (ok s \<longrightarrow> is_ok res \<longrightarrow> (\<forall>i < length gs. (2 \<le> g_pc (gs ! i) \<longrightarrow> gone (gs ! i) s) \<longrightarrow>
       2 \<le> g_pc (gs ! i) + count_list is i \<longrightarrow> gone (gs ! i) s'))"
  using assms
proof (induction "is" arbitrary: err gs s)
  case (Cons i "is")
  show ?case
  proof (cases "i < length gs")
    case True
    obtain rg g sg where g: "goroutine_step sc (gs ! i) s = (rg, g, sg)" by (metis prod_cases3)
    note ge = goroutine_step_effect [OF g]
    let ?gs = "gs[i := g]"
    from Cons.prems True g have "run_goroutines sc is (first_error err rg) ?gs sg = (res, s')" by simp
    note IH = Cons.IH [OF this]
    have units: "g_units g = g_units (gs ! i)" "g_reason g = g_reason (gs ! i)" using ge(1) by auto
    have in_gs: "gs ! i \<in> set gs" using True by simp
    have frame: "view s' n = view s n" if "\<forall>g \<in> set gs. n \<notin> names_of sc (g_units g)" for n
    proof -
      have "\<forall>h \<in> set ?gs. n \<notin> names_of sc (g_units h)"
        using that in_gs units set_update_subset_insert [of gs i g] by auto
      with IH that in_gs ge(3) show ?thesis by auto
    qed
    have des: "destroys g \<longleftrightarrow> destroys (gs ! i)" using units by (simp add: destroys_def)
    have gone_i: "gone (?gs ! k) sg"
      if "ok s" "is_ok rg" "k < length gs" "2 \<le> g_pc (gs ! k) \<longrightarrow> gone (gs ! k) s" "2 \<le> g_pc (?gs ! k)" for k
    proof (cases "k = i")
      case k: True
      show ?thesis
      proof (cases "g_pc (gs ! i) < 2")
        case True
        with that k ge(5) units des \<open>i < length gs\<close> show ?thesis by (auto simp: gone_def)
      next
        case False
        with that k ge(4) units des \<open>i < length gs\<close> show ?thesis by (fastforce simp: gone_def)
      qed
    next
      case False
      with that ge(4) show ?thesis by (fastforce simp: gone_def)
    qed
    have "gone (gs ! k) s'"
      if o: "ok s" and r: "is_ok res" and k: "k < length gs" and g0: "2 \<le> g_pc (gs ! k) \<longrightarrow> gone (gs ! k) s"
        and c: "2 \<le> g_pc (gs ! k) + count_list (i # is) k" for k
    proof -
      have rg: "is_ok rg" and osg: "ok sg" using IH r o ge(2) by simp_all
      have "2 \<le> g_pc (?gs ! k) + count_list is k"
        using c ge(1) True by (cases "k = i") auto
      with IH r k rg osg gone_i [OF o rg k g0] have "gone (?gs ! k) s'" by auto
      with units des True show ?thesis by (cases "k = i") (auto simp: gone_def)
    qed
    with IH frame ge show ?thesis by (metis first_error_ok)
  next
    case False
    with Cons.prems have "run_goroutines sc is err gs s = (res, s')" by simp
    from Cons.IH [OF this] False show ?thesis by auto
  qed
qed (auto simp: gone_def)

lemma destroy_units_effect:
  assumes "destroy_units sc m f obs w = (res, w')"
  shows "ok (w_cluster w) \<Longrightarrow> ok (w_cluster w')"
    "n \<notin> names_of sc (m @ f @ obs) \<Longrightarrow> view (w_cluster w') n = view (w_cluster w) n"
    "ok (w_cluster w) \<Longrightarrow> view (w_cluster w') n = None \<or> view (w_cluster w') n = view (w_cluster w) n"
    "ok (w_cluster w) \<Longrightarrow> is_ok res \<Longrightarrow> \<forall>u \<in> set obs. unit_ok u \<Longrightarrow> n \<in> names_of sc obs \<Longrightarrow> view (w_cluster w') n = None"
    "ok (w_cluster w) \<Longrightarrow> is_ok res \<Longrightarrow> lazy \<Longrightarrow> \<forall>u \<in> set (m @ f @ obs). unit_ok u \<Longrightarrow>
       n \<in> names_of sc (m @ f @ obs) \<Longrightarrow> view (w_cluster w') n = None"
    "w_answers w' = w_answers w"
proof -
  let ?gs = "[\<lparr>g_reason = ReasonUpdate, g_units = m, g_pc = 0\<rparr>,
    \<lparr>g_reason = ReasonFailed, g_units = f, g_pc = 0\<rparr>, \<lparr>g_reason = ReasonObsolete, g_units = obs, g_pc = 0\<rparr>]"
  let ?is = "(case w_schedules w of [] \<Rightarrow> [] | sch # _ \<Rightarrow> sch) @ [0, 0, 1, 1, 2, 2]"
  obtain s where r: "run_goroutines sc ?is (Inr ()) ?gs (w_cluster w) = (res, s)"
    and s: "w_cluster w' = s" "w_answers w' = w_answers w"
    using assms by (auto simp: destroy_units_def Let_def split: prod.splits)
  note e = run_goroutines_effect [OF r]
  have g: "gone (?gs ! k) s" if "ok (w_cluster w)" "is_ok res" "k < 3" for k
  proof -
    have "2 \<le> count_list ?is k" using that(3) by (auto simp: less_Suc_eq numeral_3_eq_3)
    moreover have "k < length ?gs" using that(3) by simp
    moreover have "g_pc (?gs ! k) = 0" using that(3) by (auto simp: less_Suc_eq numeral_3_eq_3)
    ultimately show ?thesis using e that(1,2) by auto
  qed
  show "ok (w_cluster w) \<Longrightarrow> ok (w_cluster w')" using e s by auto
  show "n \<notin> names_of sc (m @ f @ obs) \<Longrightarrow> view (w_cluster w') n = view (w_cluster w) n"
    using e s by auto
  show "ok (w_cluster w) \<Longrightarrow> view (w_cluster w') n = None \<or> view (w_cluster w') n = view (w_cluster w) n"
    using e s by auto
  show "ok (w_cluster w) \<Longrightarrow> is_ok res \<Longrightarrow> \<forall>u \<in> set obs. unit_ok u \<Longrightarrow> n \<in> names_of sc obs \<Longrightarrow> view (w_cluster w') n = None"
    using g [of 2] s by (auto simp: gone_def destroys_def)
  show "ok (w_cluster w) \<Longrightarrow> is_ok res \<Longrightarrow> lazy \<Longrightarrow> \<forall>u \<in> set (m @ f @ obs). unit_ok u \<Longrightarrow>
      n \<in> names_of sc (m @ f @ obs) \<Longrightarrow> view (w_cluster w') n = None"
    using g [of 0, unfolded gone_def destroys_def] g [of 1, unfolded gone_def destroys_def]
      g [of 2, unfolded gone_def destroys_def] s by auto
  show "w_answers w' = w_answers w" by (fact s)
qed

section \<open>One scaling group\<close>

lemma select_with_state_view:
  assumes "\<And>u s b s'. p u s = (b, s') \<Longrightarrow> view s' = view s \<and> (ok s \<longrightarrow> ok s')"
  shows "select_with_state p us s = (r, s') \<Longrightarrow> view s' = view s \<and> (ok s \<longrightarrow> ok s') \<and> set r \<subseteq> set us"
proof (induction us arbitrary: s r s')
  case (Cons u us)
  obtain b s1 where 1: "p u s = (b, s1)" by fastforce
  obtain r2 s2 where 2: "select_with_state p us s1 = (r2, s2)" by fastforce
  from Cons.prems 1 2 have "s' = s2" "r = (if b then u # r2 else r2)" by auto
  with assms [OF 1] Cons.IH [OF 2] show ?case by auto
qed simp

lemma is_failed_view: "is_failed sc u s = (b, s') \<Longrightarrow> view s' = view s \<and> (ok s \<longrightarrow> ok s')"
  by (auto simp: is_failed_def split: sum.splits prod.splits dest: state_view state_ok)

lemma select_failed_view:
  assumes "select_with_state (is_failed sc) us s = (r, s')"
  shows "view s' = view s \<and> (ok s \<longrightarrow> ok s') \<and> set r \<subseteq> set us"
  using select_with_state_view [of "is_failed sc"] is_failed_view assms by blast

lemma plan_step_effect:
  assumes "plan_step d sc sg units remaining s = (p, s')"
  shows "view s' = view s" "ok s \<Longrightarrow> ok s'"
    "p_loaded p = filter (\<lambda>u. IsUnitForScalingGroup sc u sg) remaining"
    "p_remaining p = filter (\<lambda>u. unit_id sc u \<notin> names_of sc (p_loaded p)) remaining"
    "p_obsolete p = filter (\<lambda>u. unit_id sc u \<notin> data_names sc units) (p_loaded p)"
    "p_modified p = filter (is_modified d sc units s)
       (filter (\<lambda>u. unit_id sc u \<in> data_names sc units) (p_loaded p))"
    "set (p_failed p) \<subseteq> set (filter (\<lambda>u. unit_id sc u \<in> data_names sc units) (p_loaded p))"
    "p_new p = filter (\<lambda>u. data_id sc u \<notin> names_of sc (p_loaded p)) units"
  using assms
  by (auto simp: plan_step_def select_unit_names_def Let_def names_of_def data_names_def split: prod.splits
      dest!: select_failed_view)

lemma sgu_get_distinct:
  "distinct (map (data_id sc) units) \<Longrightarrow> u \<in> set units \<Longrightarrow> sgu_get sc units (data_id sc u) = Inr u"
  by (simp add: sgu_get_def find_key)

lemma launch_units_cluster:
  "launch_units sc us w = (res, w') \<Longrightarrow>
     StartUnits sc us (w_cluster w) = (res, w_cluster w') \<and> w_answers w' = w_answers w"
  by (auto simp: launch_units_def split: prod.splits)

text \<open>Destroying and launching, for the names the plan touches.\<close>

definition plan_units_ok :: "('u, 'd) plan \<Rightarrow> bool" where
  "plan_units_ok p \<longleftrightarrow> (\<forall>u \<in> set (p_modified p @ p_failed p @ p_obsolete p). unit_ok u)"

lemma apply_plan_effect:
  assumes a: "apply_plan sc units p w = (res, w')"
  defines "D \<equiv> names_of sc (p_modified p @ p_failed p @ p_obsolete p)"
  shows "ok (w_cluster w) \<Longrightarrow> \<forall>u \<in> set units. data_ok u \<Longrightarrow> ok (w_cluster w')"
    "n \<notin> D \<union> data_names sc units \<Longrightarrow> view (w_cluster w') n = view (w_cluster w) n"
    "ok (w_cluster w) \<Longrightarrow> is_ok res \<Longrightarrow> plan_units_ok p \<Longrightarrow> n \<in> names_of sc (p_obsolete p) - data_names sc units \<Longrightarrow>
       view (w_cluster w') n = None"
    "ok (w_cluster w) \<Longrightarrow> is_ok res \<Longrightarrow> plan_units_ok p \<Longrightarrow> \<forall>u \<in> set units. data_ok u \<Longrightarrow> distinct (map (data_id sc) units) \<Longrightarrow> u \<in> set units \<Longrightarrow>
       data_id sc u \<in> names_of sc (p_modified p @ p_failed p) \<or>
       data_id sc u \<notin> D \<and> u \<in> set (p_new p) \<and> view (w_cluster w) (data_id sc u) = None \<Longrightarrow>
       \<exists>c. view (w_cluster w') (data_id sc u) = Some c \<and> accepts u c"
    "data_id sc u \<notin> D \<Longrightarrow> data_id sc u \<notin> data_names sc (p_new p) \<Longrightarrow>
       view (w_cluster w') (data_id sc u) = view (w_cluster w) (data_id sc u)"
proof -
  let ?L = "select_by_names sc units
    (map (unit_id sc) (p_modified p) @ map (unit_id sc) (p_failed p) @ map (data_id sc) (p_new p))"
  let ?ds = "0 < length (p_obsolete p @ p_modified p @ p_failed p)"
  obtain dr wd where dd: "destroy_units sc (p_modified p) (p_failed p) (p_obsolete p) w = (dr, wd)" by fastforce
  note de = destroy_units_effect [OF dd, folded D_def]
  define w1 where "w1 = (if ?ds then if is_ok dr then pass_time sc wd else wd else w)"
  have D: "\<not> ?ds \<Longrightarrow> D = {}" by (auto simp: D_def names_of_def)
  have ok1: "ok (w_cluster w) \<Longrightarrow> ok (w_cluster w1)"
    using de(1) time_ok by (auto simp: w1_def pass_time_def)
  have f1: "n \<notin> D \<Longrightarrow> view (w_cluster w1) n = view (w_cluster w) n" for n
    using de(2) time_view by (auto simp: w1_def pass_time_def)
  have split: "res = dr \<and> ?ds \<and> \<not> is_ok dr \<and> w' = w1 \<or>
      (?ds \<longrightarrow> is_ok dr) \<and> (?L = [] \<and> w' = w1 \<or> ?L \<noteq> [] \<and> launch_units sc ?L w1 = (res, w'))"
    using a dd by (cases dr) (auto simp: apply_plan_def w1_def Let_def split: if_splits)
  have gone1: "view (w_cluster w1) n = None" if "ok (w_cluster w)" "is_ok res" "n \<in> D" "plan_units_ok p"
    "lazy \<or> n \<in> names_of sc (p_obsolete p)" for n
  proof -
    have "?ds" "is_ok dr" using that split D by auto
    then show ?thesis using de(4,5) that time_view by (auto simp: w1_def pass_time_def plan_units_ok_def)
  qed
  have start: "?L \<noteq> [] \<Longrightarrow> is_ok res \<or> launch_units sc ?L w1 = (res, w') \<Longrightarrow>
      StartUnits sc ?L (w_cluster w1) = (res, w_cluster w')"
    using split launch_units_cluster by (cases dr) auto
  have L: "set ?L = {u \<in> set units. data_id sc u \<in> names_of sc (p_modified p @ p_failed p) \<union> data_names sc (p_new p)}"
    by (auto simp: select_by_names_def names_of_def data_names_def)
  have names: "data_id sc ` set ?L \<subseteq> data_names sc units" by (auto simp: L data_names_def)
  have w': "(?L = [] \<and> w' = w1) \<or> w' = w1 \<or> StartUnits sc ?L (w_cluster w1) = (res, w_cluster w')"
    using split launch_units_cluster by auto
  show "ok (w_cluster w) \<Longrightarrow> \<forall>u \<in> set units. data_ok u \<Longrightarrow> ok (w_cluster w')" using w' ok1 start_ok L by auto
  have f2: "n \<notin> data_id sc ` set ?L \<Longrightarrow> view (w_cluster w') n = view (w_cluster w1) n" for n
    using w' start_frame by auto
  show "n \<notin> D \<union> data_names sc units \<Longrightarrow> view (w_cluster w') n = view (w_cluster w) n"
    using f1 [of n] f2 [of n] names by auto
  show "ok (w_cluster w) \<Longrightarrow> is_ok res \<Longrightarrow> plan_units_ok p \<Longrightarrow> n \<in> names_of sc (p_obsolete p) - data_names sc units \<Longrightarrow>
      view (w_cluster w') n = None"
    using gone1 [of n] f2 [of n] names by (auto simp: D_def)
  show "view (w_cluster w') (data_id sc u) = view (w_cluster w) (data_id sc u)"
    if "data_id sc u \<notin> D" "data_id sc u \<notin> data_names sc (p_new p)"
  proof -
    have "data_id sc u \<notin> data_id sc ` set ?L"
    proof
      assume "data_id sc u \<in> data_id sc ` set ?L"
      then obtain x where "x \<in> set ?L" "data_id sc x = data_id sc u" by auto
      with that show False by (simp add: L D_def)
    qed
    then show ?thesis using f1 f2 that by simp
  qed
  show "\<exists>c. view (w_cluster w') (data_id sc u) = Some c \<and> accepts u c"
    if o: "ok (w_cluster w)" and r: "is_ok res" and uok: "plan_units_ok p" and dok: "\<forall>u \<in> set units. data_ok u" and dist: "distinct (map (data_id sc) units)" and u: "u \<in> set units"
      and or: "data_id sc u \<in> names_of sc (p_modified p @ p_failed p) \<or>
        data_id sc u \<notin> D \<and> u \<in> set (p_new p) \<and> view (w_cluster w) (data_id sc u) = None"
  proof -
    have uL: "u \<in> set ?L" using L u or by (auto simp: data_names_def)
    then have "?L \<noteq> []" by auto
    moreover from this have "StartUnits sc ?L (w_cluster w1) = (res, w_cluster w')" using start r by blast
    moreover have "distinct (map (data_id sc) ?L)"
      unfolding select_by_names_def using dist by (rule distinct_map_filter)
    moreover have "view (w_cluster w1) (data_id sc u) = None \<or> \<not> lazy"
      using or f1 [of "data_id sc u"] gone1 [of "data_id sc u"] o r uok by (auto simp: D_def)
    moreover have "\<forall>d \<in> set ?L. data_ok d" using L dok by auto
    ultimately show ?thesis using start_installs [OF ok1 [OF o]] r uL by blast
  qed
qed

section \<open>The loop over the scaling groups\<close>

text \<open>One iteration: everything before the recursive call.\<close>

lemma run_steps_step:
  assumes "run_steps d sc ((sg, units) # sgs) R wn t w = (res, w')"
    "plan_step d sc sg units R (w_cluster w) = (p, s)"
  obtains (stop) "view (w_cluster w') = view s" "ok s \<longrightarrow> ok (w_cluster w')" "\<not> is_ok res"
  | (failed) w3 ares where "view (w_cluster w3) = view s" "ok s \<longrightarrow> ok (w_cluster w3)"
      "apply_plan sc units p w3 = (ares, w')" "\<not> is_ok res" "\<not> is_ok ares"
  | (step) w3 w4 where "view (w_cluster w3) = view s" "ok s \<longrightarrow> ok (w_cluster w3)"
      "apply_plan sc units p w3 = (Inr (), w4)"
      "run_steps d sc sgs (p_remaining p) (wn \<or> p_any p) (if p_any p then t + 1 else t) w4 = (res, w')"
proof -
  define w2 where "w2 = wait_before_step sc wn p (w\<lparr>w_cluster := s\<rparr>)"
  obtain cr w3 where c: "confirm_step d p w2 = (cr, w3)" by fastforce
  have v2: "view (w_cluster w2) = view s" "ok s \<longrightarrow> ok (w_cluster w2)"
    by (simp_all add: w2_def wait_before_step_def pass_time_def time_view time_ok)
  have "w_cluster w3 = w_cluster w2"
    using c by (auto simp: confirm_step_def confirm_def split: if_splits list.splits)
  with v2 have v3: "view (w_cluster w3) = view s" "ok s \<longrightarrow> ok (w_cluster w3)" by simp_all
  obtain ar w4 where a: "apply_plan sc units p w3 = (ar, w4)" by fastforce
  have eq: "(res, w') = (case cr of Inl e \<Rightarrow> (Inl e, w3) | Inr _ \<Rightarrow>
      (case ar of Inl e \<Rightarrow> (Inl e, w4) | Inr _ \<Rightarrow>
        run_steps d sc sgs (p_remaining p) (wn \<or> p_any p) (if p_any p then t + 1 else t) w4))"
    using assms(1) by (simp add: assms(2) w2_def [symmetric] c a split del: if_split split: sum.splits)
  show ?thesis
  proof (cases cr)
    case (Inl e)
    with eq v3 show ?thesis using stop by simp
  next
    case cr: (Inr u)
    show ?thesis
    proof (cases ar)
      case (Inl e)
      with eq cr v3 a show ?thesis using failed by simp
    next
      case (Inr u)
      with eq cr v3 a show ?thesis using step by (cases u) simp
    qed
  qed
qed

lemma run_steps_frame:
  "run_steps d sc sgs R wn t w = (res, w') \<Longrightarrow>
     (ok (w_cluster w) \<longrightarrow> (\<forall>(sg, units) \<in> set sgs. \<forall>u \<in> set units. data_ok u) \<longrightarrow> ok (w_cluster w')) \<and>
     (\<forall>n. n \<notin> names_of sc R \<union> generated sc sgs \<longrightarrow> view (w_cluster w') n = view (w_cluster w) n) \<and>
     (\<forall>R' t'. res = Inr (R', t') \<longrightarrow> names_of sc R' \<subseteq> names_of sc R)"
proof (induction sgs arbitrary: R wn t w)
  case (Cons sgu sgs)
  obtain sg units where sgu: "sgu = (sg, units)" by fastforce
  obtain p s where p: "plan_step d sc sg units R (w_cluster w) = (p, s)" by fastforce
  note pe = plan_step_effect [OF p]
  have D: "names_of sc (p_modified p @ p_failed p @ p_obsolete p) \<subseteq> names_of sc R"
    using pe(3,5,6,7) by (auto simp: names_of_def)
  have R': "names_of sc (p_remaining p) \<subseteq> names_of sc R" using pe(4) by (auto simp: names_of_def)
  from Cons.prems sgu have "run_steps d sc ((sg, units) # sgs) R wn t w = (res, w')" by simp
  then show ?case using p
  proof (cases rule: run_steps_step)
    case stop
    then show ?thesis using pe(1,2) by auto
  next
    case (failed w3 ares)
    have "n \<notin> names_of sc R \<union> data_names sc units \<Longrightarrow> view (w_cluster w') n = view (w_cluster w) n" for n
      using apply_plan_effect(2) [OF failed(3), of n] D failed(1) pe(1) by auto
    with apply_plan_effect(1) [OF failed(3)] failed pe(2) sgu show ?thesis by auto
  next
    case (step w3 w4)
    have v: "n \<notin> names_of sc R \<union> data_names sc units \<Longrightarrow> view (w_cluster w4) n = view (w_cluster w) n" for n
      using apply_plan_effect(2) [OF step(3), of n] D step(1) pe(1) by auto
    have o: "ok (w_cluster w) \<longrightarrow> (\<forall>u \<in> set units. data_ok u) \<longrightarrow> ok (w_cluster w4)"
      using apply_plan_effect(1) [OF step(3)] step(2) pe(2) by blast
    note IH = Cons.IH [OF step(4)]
    have "view (w_cluster w') n = view (w_cluster w) n"
      if "n \<notin> names_of sc R \<union> generated sc (sgu # sgs)" for n
      using that v [of n] IH R' sgu by auto
    moreover have "ok (w_cluster w) \<longrightarrow> (\<forall>(sg, units) \<in> set (sgu # sgs). \<forall>u \<in> set units. data_ok u) \<longrightarrow> ok (w_cluster w')"
      using o IH sgu by simp
    ultimately show ?thesis using IH R' by blast
  qed
qed auto

lemma run_steps_units:
  "run_steps d sc sgs R wn t w = (Inr (R', t'), w') \<Longrightarrow> set R' \<subseteq> set R"
proof (induction sgs arbitrary: R wn t w)
  case (Cons sgu sgs)
  obtain sg units where sgu: "sgu = (sg, units)" by fastforce
  obtain p s where p: "plan_step d sc sg units R (w_cluster w) = (p, s)" by fastforce
  from Cons.prems sgu have "run_steps d sc ((sg, units) # sgs) R wn t w = (Inr (R', t'), w')" by simp
  then show ?case using p
  proof (cases rule: run_steps_step)
    case (step w3 w4)
    from Cons.IH [OF step(4)] plan_step_effect(4) [OF p] show ?thesis by auto
  qed simp_all
qed simp

section \<open>Convergence\<close>

definition up_to_date :: "'d list \<Rightarrow> 's \<Rightarrow> bool" where
  "up_to_date units s \<longleftrightarrow> (\<forall>u \<in> set units. \<exists>c. view s (data_id sc u) = Some c \<and> accepts u c)"

lemma step_converges:
  assumes p: "plan_step d sc sg units R s0 = (p, s)" and v: "view (w_cluster w3) = view s" and ok: "ok s0"
    and a: "apply_plan sc units p w3 = (Inr (), w4)" and dist: "distinct (map (data_id sc) units)"
    and pres: "\<forall>n \<in> data_names sc units. view s0 n = None \<or> n \<in> names_of sc R"
    and recog: "\<forall>x \<in> set R. \<forall>u \<in> set units. unit_id sc x = data_id sc u \<longrightarrow> IsUnitForScalingGroup sc x sg"
    and ok3: "ok (w_cluster w3)" and dok: "\<forall>u \<in> set units. data_ok u" and uok: "\<forall>u \<in> set R. unit_ok u"
  shows "up_to_date units (w_cluster w4)"
    "n \<in> names_of sc (p_loaded p) - data_names sc units \<Longrightarrow> view (w_cluster w4) n = None"
    "n \<notin> names_of sc (p_loaded p) \<union> data_names sc units \<Longrightarrow> view (w_cluster w4) n = view s0 n"
proof -
  note pe = plan_step_effect [OF p]
  note ae = apply_plan_effect [OF a]
  let ?D = "names_of sc (p_modified p @ p_failed p @ p_obsolete p)"
  have D: "?D \<subseteq> names_of sc (p_loaded p)" "names_of sc (p_obsolete p) \<inter> data_names sc units = {}"
    using pe(5,6,7) by (auto simp: names_of_def)
  have v0: "view (w_cluster w3) = view s0" using v pe(1) by simp
  have puok: "plan_units_ok p" using pe(3,5,6,7) uok by (auto simp: plan_units_ok_def)
  show "n \<notin> names_of sc (p_loaded p) \<union> data_names sc units \<Longrightarrow> view (w_cluster w4) n = view s0 n"
    using ae(2) [of n] D v0 by auto
  show "n \<in> names_of sc (p_loaded p) - data_names sc units \<Longrightarrow> view (w_cluster w4) n = None"
    using ae(3) [of n] ok3 pe(5) puok by (auto simp: names_of_def)
  have "\<exists>c. view (w_cluster w4) (data_id sc u) = Some c \<and> accepts u c" if u: "u \<in> set units" for u
  proof -
    let ?n = "data_id sc u"
    have n: "?n \<in> data_names sc units" using u by (simp add: data_names_def)
    consider (touched) "?n \<in> names_of sc (p_modified p @ p_failed p)"
      | (kept) "?n \<notin> names_of sc (p_modified p @ p_failed p)" "?n \<in> names_of sc (p_loaded p)"
      | (new) "?n \<notin> names_of sc (p_loaded p)" by blast
    then show ?thesis
    proof cases
      case touched
      then show ?thesis using ae(4) ok3 puok dok dist u by auto
    next
      case kept
      then have nD: "?n \<notin> ?D" using D n by auto
      moreover have "?n \<notin> data_names sc (p_new p)" using kept pe(8) by (auto simp: data_names_def)
      ultimately have same: "view (w_cluster w4) ?n = view s0 ?n" using ae(5) v0 by simp
      from kept obtain x where x: "x \<in> set (p_loaded p)" "unit_id sc x = ?n" by (auto simp: names_of_def)
      have "x \<notin> set (p_modified p)"
        using kept(1) x(2) unfolding names_of_def by (metis Un_iff imageI set_append)
      then have "\<not> is_modified d sc units s0 x" using x n pe(6) by simp
      then have "HasChanged sc u s0 = Inr False"
        using x sgu_get_distinct [OF dist u] by (simp add: is_modified_def split: if_splits sum.splits)
      from unchanged [OF ok _ this] dok u same show ?thesis by simp
    next
      case new
      moreover from this have "?n \<notin> ?D" using D by auto
      moreover have "u \<in> set (p_new p)" using new pe(8) u by simp
      moreover have "?n \<notin> names_of sc R"
      proof
        assume "?n \<in> names_of sc R"
        then obtain x where "x \<in> set R" "unit_id sc x = ?n" by (auto simp: names_of_def)
        with recog u have "?n \<in> names_of sc (p_loaded p)" using pe(3) by (force simp: names_of_def)
        with new show False by simp
      qed
      ultimately show ?thesis using ae(4) ok3 puok dok dist u pres n v0 by auto
    qed
  qed
  then show "up_to_date units (w_cluster w4)" by (simp add: up_to_date_def)
qed

definition names_list :: "(nat \<times> 'd list) list \<Rightarrow> string list" where
  "names_list sgs = concat (map (\<lambda>(sg, units). map (data_id sc) units) sgs)"

lemma names_list_simps [simp]:
  "names_list [] = []" "names_list ((sg, units) # sgs) = map (data_id sc) units @ names_list sgs"
  "set (names_list sgs) = generated sc sgs"
  by (auto simp: names_list_def generated_def data_names_def)

definition recognised :: "(nat \<times> 'd list) list \<Rightarrow> 'u list \<Rightarrow> bool" where
  "recognised sgs R \<longleftrightarrow> (\<forall>(sg, units) \<in> set sgs. \<forall>d \<in> set units. \<forall>x \<in> set R.
     unit_id sc x = data_id sc d \<longrightarrow> IsUnitForScalingGroup sc x sg)"

lemma run_steps_converges:
  assumes "run_steps d sc sgs R wn t w = (Inr (R', t'), w')" "ok (w_cluster w)" "distinct (names_list sgs)"
    "\<forall>n \<in> generated sc sgs. view (w_cluster w) n = None \<or> n \<in> names_of sc R" "recognised sgs R"
    "\<forall>(sg, units) \<in> set sgs. \<forall>u \<in> set units. data_ok u" "\<forall>u \<in> set R. unit_ok u"
  shows "(\<forall>(sg, units) \<in> set sgs. up_to_date units (w_cluster w')) \<and>
    (\<forall>n \<in> names_of sc R - generated sc sgs. n \<in> names_of sc R' \<or> view (w_cluster w') n = None) \<and>
    names_of sc R' \<inter> generated sc sgs = {}"
  using assms
proof (induction sgs arbitrary: R wn t w)
  case (Cons sgu sgs)
  obtain sg units where sgu: "sgu = (sg, units)" by fastforce
  obtain p s where p: "plan_step d sc sg units R (w_cluster w) = (p, s)" by fastforce
  note pe = plan_step_effect [OF p]
  from Cons.prems(1) sgu have "run_steps d sc ((sg, units) # sgs) R wn t w = (Inr (R', t'), w')" by simp
  then show ?case using p
  proof (cases rule: run_steps_step)
    case (step w3 w4)
    have dist: "distinct (map (data_id sc) units)" "data_names sc units \<inter> generated sc sgs = {}"
      using Cons.prems(3) sgu by (auto simp: data_names_def)
    have recog: "\<forall>x \<in> set R. \<forall>u \<in> set units. unit_id sc x = data_id sc u \<longrightarrow> IsUnitForScalingGroup sc x sg"
      using Cons.prems(5) sgu by (auto simp: recognised_def)
    have pres: "\<forall>n \<in> data_names sc units. view (w_cluster w) n = None \<or> n \<in> names_of sc R"
      using Cons.prems(4) sgu by auto
    have dok: "\<forall>u \<in> set units. data_ok u" "\<forall>(sg, units) \<in> set sgs. \<forall>u \<in> set units. data_ok u"
      using Cons.prems(6) sgu by auto
    have ok3: "ok (w_cluster w3)" using step(2) pe(2) Cons.prems(2) by blast
    note st = step_converges [OF p step(1) Cons.prems(2) step(3) dist(1) pres recog ok3 dok(1) Cons.prems(7)]
    let ?L = "names_of sc (p_loaded p)"
    have rem: "names_of sc (p_remaining p) = names_of sc R - ?L" using pe(4) by (auto simp: names_of_def)
    have own: "data_names sc units \<inter> names_of sc R \<subseteq> ?L"
    proof
      fix n assume "n \<in> data_names sc units \<inter> names_of sc R"
      then obtain u x where "u \<in> set units" "x \<in> set R" "data_id sc u = n" "unit_id sc x = n"
        by (auto simp: names_of_def data_names_def)
      then show "n \<in> ?L" using recog pe(3) by (force simp: names_of_def)
    qed
    have ok4: "ok (w_cluster w4)"
      using apply_plan_effect(1) [OF step(3) ok3 dok(1)] .
    have pres4: "\<forall>n \<in> generated sc sgs. view (w_cluster w4) n = None \<or> n \<in> names_of sc (p_remaining p)"
    proof
      fix n assume g: "n \<in> generated sc sgs"
      then have nu: "n \<notin> data_names sc units" using dist(2) by blast
      show "view (w_cluster w4) n = None \<or> n \<in> names_of sc (p_remaining p)"
        using st(2) [where n = n] st(3) [where n = n] nu g Cons.prems(4) sgu rem by (cases "n \<in> ?L") auto
    qed
    have recog4: "recognised sgs (p_remaining p)"
      using Cons.prems(5) sgu pe(4) by (auto simp: recognised_def)
    have uok4: "\<forall>u \<in> set (p_remaining p). unit_ok u" using Cons.prems(7) pe(4) by simp
    note IH = Cons.IH [OF step(4) ok4 _ pres4 recog4 dok(2) uok4]
    have IH': "(\<forall>(sg, units) \<in> set sgs. up_to_date units (w_cluster w')) \<and>
      (\<forall>n \<in> names_of sc (p_remaining p) - generated sc sgs. n \<in> names_of sc R' \<or> view (w_cluster w') n = None) \<and>
      names_of sc R' \<inter> generated sc sgs = {}"
      by (rule IH) (use Cons.prems(3) sgu in simp)
    have frame: "n \<notin> names_of sc (p_remaining p) \<union> generated sc sgs \<Longrightarrow> view (w_cluster w') n = view (w_cluster w4) n"
      and sub: "names_of sc R' \<subseteq> names_of sc (p_remaining p)" for n
      using run_steps_frame [OF step(4)] by auto
    have "up_to_date units (w_cluster w')"
      unfolding up_to_date_def
    proof
      fix u assume u: "u \<in> set units"
      then have n: "data_id sc u \<in> data_names sc units" by (simp add: data_names_def)
      then have "view (w_cluster w') (data_id sc u) = view (w_cluster w4) (data_id sc u)"
        using frame rem own dist(2) by blast
      with st(1) u show "\<exists>c. view (w_cluster w') (data_id sc u) = Some c \<and> accepts u c"
        by (simp add: up_to_date_def)
    qed
    moreover have "n \<in> names_of sc R' \<or> view (w_cluster w') n = None"
      if "n \<in> names_of sc R - generated sc (sgu # sgs)" for n
      using that IH' frame [of n] st(2) [where n = n] rem sgu by (cases "n \<in> ?L") auto
    moreover have "names_of sc R' \<inter> data_names sc units = {}" using sub rem own by blast
    ultimately show ?thesis using IH' sgu by auto
  qed auto
qed auto

section \<open>Run and Destroy\<close>

definition job_units :: "deployment \<Rightarrow> 's \<Rightarrow> 'u list" where
  "job_units d s =
     (case ListUnits sc s of Inl _ \<Rightarrow> [] | Inr us \<Rightarrow> filter (unit_name_predicate d sc) us)"

lemma job_units_ok: "u \<in> set (job_units d s) \<Longrightarrow> unit_ok u"
  using list_units [of s] by (cases "ListUnits sc s") (auto simp: job_units_def)

lemma confirm_cluster: "confirm w = (res, w') \<Longrightarrow> w_cluster w' = w_cluster w"
  by (auto simp: confirm_def split: list.splits if_splits)

lemma cleanup_effect:
  assumes "cleanup sc R t w = (res, w')"
  shows "n \<notin> names_of sc R \<Longrightarrow> view (w_cluster w') n = view (w_cluster w) n"
    "ok (w_cluster w) \<Longrightarrow> is_ok res \<Longrightarrow> \<forall>u \<in> set R. unit_ok u \<Longrightarrow> n \<in> names_of sc R \<Longrightarrow> view (w_cluster w') n = None"
proof -
  obtain cr w1 where c: "confirm w = (cr, w1)" by fastforce
  obtain dr w2 where dd: "destroy_units sc [] [] R w1 = (dr, w2)" by fastforce
  have "R = [] \<and> w' = w \<and> is_ok res \<or> R \<noteq> [] \<and> \<not> is_ok res \<and> w' = w1 \<or> R \<noteq> [] \<and> w' = w2 \<and> (is_ok res \<longrightarrow> is_ok dr)"
    using assms c dd by (auto simp: cleanup_def split: if_splits sum.splits)
  with confirm_cluster [OF c] destroy_units_effect [OF dd]
  show "n \<notin> names_of sc R \<Longrightarrow> view (w_cluster w') n = view (w_cluster w) n"
    "ok (w_cluster w) \<Longrightarrow> is_ok res \<Longrightarrow> \<forall>u \<in> set R. unit_ok u \<Longrightarrow> n \<in> names_of sc R \<Longrightarrow> view (w_cluster w') n = None" by auto
qed

lemma run_cases:
  assumes "run d sc gen m w = (res, w')"
  obtains (early) "w' = w \<or> (\<exists>v. ValidateCluster sc (w_cluster w) = (v, w_cluster w'))" "\<not> is_ok res"
  | (steps_fail) sgs sres w0 where "generate_scaling_groups gen d m = Inr sgs"
      "ValidateCluster sc (w_cluster w) = (Inr (), w_cluster w0)" "w_answers w0 = w_answers w"
      "run_steps d sc sgs (job_units d (w_cluster w)) False 0 w0 = (sres, w')" "\<not> is_ok res" "\<not> is_ok sres"
  | (steps) sgs R t w0 w1 us where "generate_scaling_groups gen d m = Inr sgs" "sgs \<noteq> []"
      "ListUnits sc (w_cluster w) = Inr us"
      "ValidateCluster sc (w_cluster w) = (Inr (), w_cluster w0)" "w_answers w0 = w_answers w"
      "run_steps d sc sgs (job_units d (w_cluster w)) False 0 w0 = (Inr (R, t), w1)"
      "cleanup sc R t w1 = (res, w')"
proof -
  obtain v s where v: "ValidateCluster sc (w_cluster w) = (v, s)" by fastforce
  let ?w = "w\<lparr>w_cluster := s\<rparr>"
  show ?thesis
  proof (cases "ListUnits sc (w_cluster w)")
    case (Inl e)
    then show ?thesis using assms early by (auto simp: run_def)
  next
    case us: (Inr us)
    have J: "job_units d (w_cluster w) = filter (unit_name_predicate d sc) us" by (simp add: job_units_def us)
    show ?thesis
    proof (cases "\<exists>u sgs. v = Inr u \<and> generate_scaling_groups gen d m = Inr sgs \<and> sgs \<noteq> []")
      case False
      then have "w' = ?w \<and> \<not> is_ok res" using assms v us
        by (auto simp: run_def Let_def split: sum.splits if_splits)
      then show ?thesis using early v by auto
    next
      case True
      then obtain sgs where g: "v = Inr ()" "generate_scaling_groups gen d m = Inr sgs" "sgs \<noteq> []" by auto
      obtain sres w1 where r: "run_steps d sc sgs (job_units d (w_cluster w)) False 0 ?w = (sres, w1)" by fastforce
      then have eq: "(res, w') = (case sres of Inl e \<Rightarrow> (Inl e, w1) | Inr (R, t) \<Rightarrow> cleanup sc R t w1)"
        using assms v us g by (simp add: run_def Let_def J select_unit_names_def split: sum.splits)
      show ?thesis
      proof (cases sres)
        case (Inl e)
        then show ?thesis using steps_fail [of sgs ?w sres] g r eq v by simp
      next
        case (Inr Rt)
        then show ?thesis using steps [of sgs us ?w "fst Rt" "snd Rt" w1] g r eq v us by (simp add: case_prod_beta)
      qed
    qed
  qed
qed

text \<open>Whatever happens, units of other jobs are left alone.\<close>

lemma run_frame:
  assumes "run d sc gen m w = (res, w')" "n \<notin> names_of sc (job_units d (w_cluster w))" "n \<notin> reserved"
    "\<And>sgs. generate_scaling_groups gen d m = Inr sgs \<Longrightarrow> n \<notin> generated sc sgs"
  shows "view (w_cluster w') n = view (w_cluster w) n"
  using assms(1)
proof (cases rule: run_cases)
  case early
  then show ?thesis using validate_view assms(3) by auto
next
  case (steps_fail sgs sres w0)
  then show ?thesis using run_steps_frame [OF steps_fail(4)] validate_view [OF steps_fail(2)] assms(2-4) by auto
next
  case (steps sgs R t w0 w1 us)
  then show ?thesis
    using run_steps_frame [OF steps(6)] cleanup_effect(1) [OF steps(7), of n] validate_view [OF steps(4)] assms(2-4)
    by fastforce
qed

lemma run_converges:
  assumes r: "run d sc gen m w = (Inr k, w')" and g: "generate_scaling_groups gen d m = Inr sgs"
    and o: "ok (w_cluster w)" and dist: "distinct (names_list sgs)"
    and recog: "\<And>us sg units u x. ListUnits sc (w_cluster w) = Inr us \<Longrightarrow> x \<in> set us \<Longrightarrow>
      (sg, units) \<in> set sgs \<Longrightarrow> u \<in> set units \<Longrightarrow> unit_id sc x = data_id sc u \<Longrightarrow>
      unit_name_predicate d sc x \<and> IsUnitForScalingGroup sc x sg"
    and dok: "\<And>sg units u. (sg, units) \<in> set sgs \<Longrightarrow> u \<in> set units \<Longrightarrow> data_ok u"
  shows "(\<forall>(sg, units) \<in> set sgs. up_to_date units (w_cluster w')) \<and>
    (\<forall>n \<in> names_of sc (job_units d (w_cluster w)) - generated sc sgs. view (w_cluster w') n = None) \<and>
    (\<forall>n. n \<notin> names_of sc (job_units d (w_cluster w)) \<union> generated sc sgs \<union> reserved \<longrightarrow>
      view (w_cluster w') n = view (w_cluster w) n)"
  using r
proof (cases rule: run_cases)
  case (steps sgs' R t w0 w1 us)
  then have [simp]: "sgs' = sgs" using g by simp
  let ?J = "job_units d (w_cluster w)"
  have J: "?J = filter (unit_name_predicate d sc) us" using steps(3) by (simp add: job_units_def)
  have o0: "ok (w_cluster w0)" by (rule validate_ok [OF steps(4) o])
  have pres: "\<forall>n \<in> generated sc sgs. view (w_cluster w0) n = None \<or> n \<in> names_of sc ?J"
  proof
    fix n assume n: "n \<in> generated sc sgs"
    then obtain sg units u where u: "(sg, units) \<in> set sgs" "u \<in> set units" "data_id sc u = n"
      by (auto simp: generated_def data_names_def)
    then have same: "view (w_cluster w0) n = view (w_cluster w) n"
      using validate_view [OF steps(4)] data_reserved [OF dok [OF u(1,2)]] by simp
    show "view (w_cluster w0) n = None \<or> n \<in> names_of sc ?J"
    proof (cases "view (w_cluster w) n = None")
      case False
      then have "n \<in> unit_id sc ` set us" using list_view [OF o steps(3)] by simp
      then obtain x where x: "x \<in> set us" "unit_id sc x = n" by auto
      with recog [OF steps(3) x(1) u(1,2)] u(3) have "x \<in> set ?J" by (simp add: J)
      then show ?thesis using x(2) by (auto simp: names_of_def)
    qed (use same in simp)
  qed
  have "recognised sgs ?J"
    using recog [OF steps(3)] by (auto simp: recognised_def J)
  moreover have doks: "\<forall>(sg, units) \<in> set sgs. \<forall>u \<in> set units. data_ok u" using dok by blast
  moreover have uoks: "\<forall>u \<in> set ?J. unit_ok u" using job_units_ok by blast
  ultimately have conv: "(\<forall>(sg, units) \<in> set sgs. up_to_date units (w_cluster w1)) \<and>
    (\<forall>n \<in> names_of sc ?J - generated sc sgs. n \<in> names_of sc R \<or> view (w_cluster w1) n = None) \<and>
    names_of sc R \<inter> generated sc sgs = {}"
    by (rule run_steps_converges [OF steps(6) [unfolded \<open>sgs' = sgs\<close>] o0 dist pres])
  have o1: "ok (w_cluster w1)" using run_steps_frame [OF steps(6)] o0 doks by simp
  have uokR: "\<forall>u \<in> set R. unit_ok u" using run_steps_units [OF steps(6)] uoks by blast
  note c = cleanup_effect [OF steps(7)]
  have "up_to_date units (w_cluster w')" if s: "(sg, units) \<in> set sgs" for sg units
    unfolding up_to_date_def
  proof
    fix u assume u: "u \<in> set units"
    then have "data_id sc u \<in> generated sc sgs"
      using s by (auto simp: generated_def data_names_def)
    then have "data_id sc u \<notin> names_of sc R" using conv by blast
    then have "view (w_cluster w') (data_id sc u) = view (w_cluster w1) (data_id sc u)" by (rule c(1))
    with conv s u show "\<exists>c. view (w_cluster w') (data_id sc u) = Some c \<and> accepts u c"
      by (auto simp: up_to_date_def)
  qed
  moreover have "view (w_cluster w') n = None" if "n \<in> names_of sc ?J - generated sc sgs" for n
    using conv that c [of n] o1 uokR by (cases "n \<in> names_of sc R") auto
  moreover have "view (w_cluster w') n = view (w_cluster w) n"
    if "n \<notin> names_of sc ?J \<union> generated sc sgs \<union> reserved" for n
    by (rule run_frame [OF r]) (use that g in auto)
  ultimately show ?thesis by blast
qed simp_all

lemma destroy_deployment_effect:
  assumes "destroy_deployment d sc w = (res, w')"
  shows "n \<notin> names_of sc (job_units d (w_cluster w)) \<Longrightarrow> view (w_cluster w') n = view (w_cluster w) n"
    "ok (w_cluster w) \<Longrightarrow> is_ok res \<Longrightarrow> n \<in> names_of sc (job_units d (w_cluster w)) \<Longrightarrow> view (w_cluster w') n = None"
    "\<not> force d \<Longrightarrow> w_answers w = [] \<or> \<not> hd (w_answers w) \<Longrightarrow> view (w_cluster w') = view (w_cluster w)"
proof -
  let ?J = "job_units d (w_cluster w)"
  obtain cr w1 where c: "confirm_destroy d w = (cr, w1)" by fastforce
  obtain dr w2 where dd: "destroy_units sc [] [] ?J w1 = (dr, w2)" by fastforce
  have c1: "w_cluster w1 = w_cluster w" "\<not> force d \<Longrightarrow> w_answers w = [] \<or> \<not> hd (w_answers w) \<Longrightarrow> \<not> is_ok cr"
    using c by (auto simp: confirm_destroy_def confirm_def split: if_splits list.splits)
  have cases: "?J = [] \<and> w' = w \<or> \<not> is_ok res \<and> w' = w \<or> \<not> is_ok res \<and> w' = w1 \<or> is_ok cr \<and> w' = w2 \<and> res = dr"
    using assms c dd
    by (auto simp: destroy_deployment_def job_units_def select_unit_names_def Let_def split: sum.splits if_splits)
  note de = destroy_units_effect [OF dd]
  have uok: "\<forall>u \<in> set ?J. unit_ok u" using job_units_ok by blast
  show "n \<notin> names_of sc ?J \<Longrightarrow> view (w_cluster w') n = view (w_cluster w) n"
    using cases de(2) [of n] c1(1) by auto
  show "ok (w_cluster w) \<Longrightarrow> is_ok res \<Longrightarrow> n \<in> names_of sc ?J \<Longrightarrow> view (w_cluster w') n = None"
    using cases de(4) [of n] c1(1) uok by auto
  show "\<not> force d \<Longrightarrow> w_answers w = [] \<or> \<not> hd (w_answers w) \<Longrightarrow> view (w_cluster w') = view (w_cluster w)"
    using cases c1 by auto
qed

section \<open>Refusal\<close>

definition refuses :: "'s world \<Rightarrow> bool" where
  "refuses w \<longleftrightarrow> w_answers w = [] \<or> \<not> hd (w_answers w)"

lemma confirm_refused: "refuses w \<Longrightarrow> confirm w = (res, w') \<Longrightarrow> \<not> is_ok res"
  by (auto simp: confirm_def refuses_def split: list.splits)

lemma plan_nothing:
  assumes p: "plan_step d sc sg units R s0 = (p, s)" and any: "\<not> p_any p" and dist: "distinct (map (unit_id sc) R)"
  shows "apply_plan sc units p w = (Inr (), w)"
proof -
  note pe = plan_step_effect [OF p]
  let ?L = "p_loaded p"
  have len: "length ?L = length units" and e: "p_obsolete p = []" "p_modified p = []" "p_failed p = []"
    using p any by (auto simp: plan_step_def Let_def split: prod.splits)
  have sub: "unit_id sc ` set ?L \<subseteq> data_id sc ` set units"
    using pe(5) [symmetric] e(1) by (auto simp: filter_empty_conv data_names_def)
  have "distinct (map (unit_id sc) ?L)" using pe(3) dist by (simp add: distinct_map_filter)
  then have "card (unit_id sc ` set ?L) = length units"
    using len distinct_card [of "map (unit_id sc) ?L"] by simp
  moreover have "card (data_id sc ` set units) \<le> length units"
    using card_length [of "map (data_id sc) units"] by simp
  ultimately have "unit_id sc ` set ?L = data_id sc ` set units"
    using sub by (metis List.finite_set card_seteq finite_imageI)
  then have "p_new p = []" using pe(8) by (auto simp: filter_empty_conv names_of_def)
  with e show ?thesis by (simp add: apply_plan_def select_by_names_def)
qed

lemma run_steps_refused:
  assumes "run_steps d sc sgs R False t w = (res, w')" "refuses w" "\<not> force d" "\<not> autoContinue d"
    "distinct (map (unit_id sc) R)"
  shows "view (w_cluster w') = view (w_cluster w) \<and> (is_ok res \<longrightarrow> refuses w')"
  using assms
proof (induction sgs arbitrary: R t w)
  case (Cons sgu sgs)
  obtain sg units where sgu: "sgu = (sg, units)" by fastforce
  obtain p s where p: "plan_step d sc sg units R (w_cluster w) = (p, s)" by fastforce
  note pe = plan_step_effect [OF p]
  let ?w = "w\<lparr>w_cluster := s\<rparr>"
  have w: "wait_before_step sc False p ?w = ?w" by (simp add: wait_before_step_def)
  show ?case
  proof (cases "p_any p")
    case True
    obtain cr w1 where c: "confirm ?w = (cr, w1)" by fastforce
    have "\<not> is_ok cr" using confirm_refused [OF _ c] Cons.prems(2) by (simp add: refuses_def)
    then obtain e where "cr = Inl e" by (cases cr) auto
    then have "res = Inl e \<and> w' = w1"
      using Cons.prems(1,3,4) c True by (simp add: sgu p w confirm_step_def)
    then show ?thesis using confirm_cluster [OF c] pe(1) by simp
  next
    case False
    then have "run_steps d sc sgs (p_remaining p) False t ?w = (res, w')"
      using Cons.prems(1) plan_nothing [OF p False Cons.prems(5)]
      by (simp add: sgu p w confirm_step_def)
    moreover have "refuses ?w" using Cons.prems(2) by (simp add: refuses_def)
    moreover have "distinct (map (unit_id sc) (p_remaining p))"
      using pe(4) Cons.prems(5) by (simp add: distinct_map_filter)
    ultimately have "view (w_cluster w') = view (w_cluster ?w) \<and> (is_ok res \<longrightarrow> refuses w')"
      using Cons.IH Cons.prems(3,4) by blast
    then show ?thesis using pe(1) by simp
  qed
qed simp

lemma run_refused:
  assumes "run d sc gen m w = (res, w')" "refuses w" "\<not> force d" "\<not> autoContinue d"
    "\<And>us. ListUnits sc (w_cluster w) = Inr us \<Longrightarrow> distinct (map (unit_id sc) us)"
  shows "n \<notin> reserved \<Longrightarrow> view (w_cluster w') n = view (w_cluster w) n"
proof -
  assume n: "n \<notin> reserved"
  have dist: "distinct (map (unit_id sc) (job_units d (w_cluster w)))"
    using assms(5) by (auto simp: job_units_def distinct_map_filter split: sum.splits)
  from assms(1) show ?thesis
  proof (cases rule: run_cases)
    case early
    then show ?thesis using validate_view n by auto
  next
    case (steps_fail sgs sres w0)
    have "refuses w0" using assms(2) steps_fail(3) by (simp add: refuses_def)
    from run_steps_refused [OF steps_fail(4) this assms(3,4) dist] validate_view [OF steps_fail(2) n] show ?thesis by simp
  next
    case (steps sgs R t w0 w1 us)
    have "refuses w0" using assms(2) steps(5) by (simp add: refuses_def)
    from run_steps_refused [OF steps(6) this assms(3,4) dist] validate_view [OF steps(4) n]
    have w1: "view (w_cluster w1) n = view (w_cluster w) n" "refuses w1" by simp_all
    show ?thesis
    proof (cases "R = []")
      case True
      with steps(7) w1 show ?thesis by (simp add: cleanup_def)
    next
      case False
      obtain cr w2 where c: "confirm w1 = (cr, w2)" by fastforce
      from confirm_refused [OF w1(2) c] obtain e where "cr = Inl e" by (cases cr) auto
      with steps(7) False c have "w' = w2" by (simp add: cleanup_def)
      with confirm_cluster [OF c] w1 show ?thesis by simp
    qed
  qed
qed

end

section \<open>A settled cluster\<close>

text \<open>
  When the loaded units of every scaling group are the generated ones, none is changed and none
  has failed, for every state in a set closed under looking, a run does nothing and asks nothing.
\<close>

definition settled_step ::
  "('s, 'u, 'd) scheduler \<Rightarrow> 's set \<Rightarrow> 'u list \<Rightarrow> nat \<times> 'd list \<Rightarrow> bool" where
  "settled_step sc S R sgu \<longleftrightarrow> (case sgu of (sg, units) \<Rightarrow>
     mset (map (unit_id sc) (filter (\<lambda>u. IsUnitForScalingGroup sc u sg) R)) = mset (map (data_id sc) units) \<and>
     (\<forall>s \<in> S. \<forall>u \<in> set units. HasChanged sc u s = Inr False))"

lemma select_failed_settled:
  assumes "\<forall>s \<in> S. \<forall>u \<in> set us. \<exists>s' \<in> S. GetState sc u s = (Inr False, s')" "s \<in> S"
  shows "\<exists>s' \<in> S. select_with_state (is_failed sc) us s = ([], s')"
  using assms
proof (induction us arbitrary: s)
  case (Cons u us)
  then obtain s1 where s1: "s1 \<in> S" "GetState sc u s = (Inr False, s1)" by auto
  have "\<forall>s \<in> S. \<forall>u \<in> set us. \<exists>s' \<in> S. GetState sc u s = (Inr False, s')" using Cons.prems(1) by simp
  from Cons.IH [OF this s1(1)] obtain s2 where
    "s2 \<in> S" "select_with_state (is_failed sc) us s1 = ([], s2)" by blast
  moreover have "is_failed sc u s = (False, s1)" by (simp add: is_failed_def s1(2))
  ultimately show ?case by auto
qed simp

lemma sgu_get_set: "sgu_get sc units n = Inr u \<Longrightarrow> u \<in> set units"
  by (auto simp: sgu_get_def split: option.splits dest: find_Some_set)

lemma plan_settled:
  assumes st: "settled_step sc S R (sg, units)" and s: "s \<in> S" and f: "\<not> force d"
    and gs: "\<forall>s \<in> S. \<forall>u \<in> set R. \<exists>s' \<in> S. GetState sc u s = (Inr False, s')"
  shows "\<exists>s' \<in> S. plan_step d sc sg units R s =
    (\<lparr>p_loaded = filter (\<lambda>u. IsUnitForScalingGroup sc u sg) R,
      p_remaining = filter (\<lambda>u. unit_id sc u \<notin> data_names sc units) R,
      p_obsolete = [], p_modified = [], p_failed = [], p_new = [], p_any = False\<rparr>, s')"
proof -
  let ?L = "filter (\<lambda>u. IsUnitForScalingGroup sc u sg) R"
  have m: "mset (map (unit_id sc) ?L) = mset (map (data_id sc) units)" using st by (simp add: settled_step_def)
  have set: "unit_id sc ` set ?L = data_id sc ` set units"
    using arg_cong [OF m, of set_mset] by simp
  have len: "length ?L = length units" using mset_eq_length [OF m] by simp
  have in_units: "unit_id sc u \<in> data_id sc ` set units" if "u \<in> set ?L" for u
    using that unfolding set [symmetric] by (rule imageI)
  have all: "filter (\<lambda>u. unit_id sc u \<in> data_id sc ` set units) ?L = ?L"
    by (rule filter_True) (use in_units in blast)
  have none: "filter (\<lambda>u. unit_id sc u \<notin> data_id sc ` set units) ?L = []"
    by (rule filter_False) (use in_units in blast)
  have "\<not> is_modified d sc units s u" if "u \<in> set ?L" for u
  proof -
    from in_units [OF that] obtain x where "sgu_get sc units (unit_id sc u) = Inr x"
      by (fastforce simp: sgu_get_def find_None_set split: option.splits)
    with sgu_get_set [OF this] st s f show ?thesis by (auto simp: is_modified_def settled_step_def)
  qed
  then have mods: "filter (is_modified d sc units s) ?L = []" by (simp add: filter_empty_conv)
  obtain s' where "s' \<in> S" "select_with_state (is_failed sc) ?L s = ([], s')"
    using select_failed_settled [of S ?L sc s] gs s by auto
  moreover have "filter (\<lambda>u. data_id sc u \<notin> unit_id sc ` set ?L) units = []"
    unfolding set by (simp add: filter_empty_conv)
  ultimately show ?thesis
    using len all none mods set
    by (intro bexI [of _ s']) (simp_all add: plan_step_def select_unit_names_def Let_def data_names_def
        del: filter_filter)
qed

lemma run_steps_settled:
  assumes "\<forall>sgu \<in> set sgs. settled_step sc S R sgu" "w_cluster w \<in> S" "\<not> force d"
    "\<forall>s \<in> S. \<forall>u \<in> set R. \<exists>s' \<in> S. GetState sc u s = (Inr False, s')"
    "distinct (concat (map (\<lambda>(sg, units). map (data_id sc) units) sgs))"
  shows "\<exists>w'. run_steps d sc sgs R wn t w =
      (Inr (filter (\<lambda>u. unit_id sc u \<notin> generated sc sgs) R, t), w') \<and> w_cluster w' \<in> S \<and> w_answers w' = w_answers w"
  using assms
proof (induction sgs arbitrary: R wn w)
  case (Cons sgu sgs)
  obtain sg units where sgu: "sgu = (sg, units)" by fastforce
  obtain s' where s': "s' \<in> S" "plan_step d sc sg units R (w_cluster w) =
    (\<lparr>p_loaded = filter (\<lambda>u. IsUnitForScalingGroup sc u sg) R,
      p_remaining = filter (\<lambda>u. unit_id sc u \<notin> data_names sc units) R,
      p_obsolete = [], p_modified = [], p_failed = [], p_new = [], p_any = False\<rparr>, s')"
    using plan_settled [of sc S R sg units "w_cluster w" d] Cons.prems sgu by auto
  let ?R = "filter (\<lambda>u. unit_id sc u \<notin> data_names sc units) R"
  have step: "settled_step sc S ?R sgu'" if s: "sgu' \<in> set sgs" for sgu'
  proof -
    obtain sg' units' where u': "sgu' = (sg', units')" by fastforce
    let ?L = "filter (\<lambda>u. IsUnitForScalingGroup sc u sg') R"
    have st: "settled_step sc S R (sg', units')" using Cons.prems(1) s u' by auto
    then have m: "mset (map (unit_id sc) ?L) = mset (map (data_id sc) units')" by (simp add: settled_step_def)
    have "data_names sc units \<inter> data_names sc units' = {}"
      using Cons.prems(5) s sgu u' by (force simp: data_names_def)
    moreover have "unit_id sc ` set ?L = data_names sc units'"
      using arg_cong [OF m, of set_mset] by (simp add: data_names_def)
    ultimately have "filter (\<lambda>u. unit_id sc u \<notin> data_names sc units) ?L = ?L"
      by (intro filter_True) blast
    moreover have "filter (\<lambda>u. IsUnitForScalingGroup sc u sg') ?R = filter (\<lambda>u. unit_id sc u \<notin> data_names sc units) ?L"
      by (simp add: conj_commute)
    ultimately have "filter (\<lambda>u. IsUnitForScalingGroup sc u sg') ?R = ?L" by (rule trans [rotated])
    then show ?thesis using st unfolding u' settled_step_def prod.case by metis
  qed
  have "\<exists>w'. run_steps d sc sgs ?R wn t (w\<lparr>w_cluster := s'\<rparr>) =
      (Inr (filter (\<lambda>u. unit_id sc u \<notin> generated sc sgs) ?R, t), w') \<and> w_cluster w' \<in> S \<and>
      w_answers w' = w_answers (w\<lparr>w_cluster := s'\<rparr>)"
    using Cons.IH [of ?R "w\<lparr>w_cluster := s'\<rparr>" wn] step s' Cons.prems sgu by auto
  moreover have "run_steps d sc (sgu # sgs) R wn t w = run_steps d sc sgs ?R wn t (w\<lparr>w_cluster := s'\<rparr>)"
    by (simp add: sgu s'(2) wait_before_step_def confirm_step_def apply_plan_def select_by_names_def)
  ultimately show ?case by (simp add: sgu conj_commute)
qed simp

lemma run_settled:
  assumes "ListUnits sc (w_cluster w) = Inr us" "ValidateCluster sc (w_cluster w) = (Inr (), w_cluster w)"
    "generate_scaling_groups gen d m = Inr sgs" "sgs \<noteq> []"
    "\<forall>sgu \<in> set sgs. settled_step sc S (filter (unit_name_predicate d sc) us) sgu" "w_cluster w \<in> S" "\<not> force d"
    "\<forall>s \<in> S. \<forall>u \<in> set us. unit_name_predicate d sc u \<longrightarrow> (\<exists>s' \<in> S. GetState sc u s = (Inr False, s'))"
    "distinct (concat (map (\<lambda>(sg, units). map (data_id sc) units) sgs))"
    "\<forall>u \<in> set us. unit_name_predicate d sc u \<longrightarrow> unit_id sc u \<in> generated sc sgs"
  shows "\<exists>w'. run d sc gen m w = (Inr 0, w') \<and> w_cluster w' \<in> S \<and> w_answers w' = w_answers w"
proof -
  let ?J = "filter (unit_name_predicate d sc) us"
  obtain w' where "run_steps d sc sgs ?J False 0 w =
      (Inr (filter (\<lambda>u. unit_id sc u \<notin> generated sc sgs) ?J, 0), w')" "w_cluster w' \<in> S" "w_answers w' = w_answers w"
    using run_steps_settled [of sgs sc S ?J w d False 0] assms by auto
  moreover have "filter (\<lambda>u. unit_id sc u \<notin> generated sc sgs) ?J = []"
    using assms(10) by (simp add: filter_empty_conv)
  ultimately show ?thesis
    using assms(1-4) by (simp add: run_def select_unit_names_def Let_def cleanup_def del: filter_filter)
qed

end
