(* ===== verification/DeploymentKeeps.thy ===== *)
theory DeploymentKeeps
  imports DeploymentLaws
begin

text \<open>
  What every operation of a scheduler keeps, a whole run keeps, and so does destroying a deployment,
  whatever the outcome. Only the units that were listed are given to the scheduler to stop and to
  destroy, and only generated units to start.
\<close>

locale scheduler_keeps =
  fixes sc :: "('s, 'u, 'd) scheduler"
    and keep :: "'s \<Rightarrow> bool"
    and data_in :: "'d \<Rightarrow> bool"
    and unit_in :: "'u \<Rightarrow> bool"
  assumes op_lists: "ListUnits sc s = Inr us \<Longrightarrow> u \<in> set us \<Longrightarrow> unit_in u"
    and op_keeps_validate: "ValidateCluster sc s = (res, s') \<Longrightarrow> keep s \<Longrightarrow> keep s'"
    and op_keeps_state: "GetState sc u s = (b, s') \<Longrightarrow> keep s \<Longrightarrow> keep s'"
    and op_keeps_time: "keep s \<Longrightarrow> keep (PassTime sc s)"
    and op_keeps_stop: "StopUnits sc r us s = (g, s') \<Longrightarrow> \<forall>u \<in> set us. unit_in u \<Longrightarrow> keep s \<Longrightarrow> keep s'"
    and op_keeps_destroy: "DestroyUnits sc r us s = (v, s') \<Longrightarrow> \<forall>u \<in> set us. unit_in u \<Longrightarrow> keep s \<Longrightarrow> keep s'"
    and op_keeps_start: "StartUnits sc ds s = (v, s') \<Longrightarrow> \<forall>d \<in> set ds. data_in d \<Longrightarrow> keep s \<Longrightarrow> keep s'"
begin

lemma goroutine_keeps:
  assumes "goroutine_step sc g s = (v, g', s')" "\<forall>u \<in> set (g_units g). unit_in u"
  shows "g_units g' = g_units g \<and> (keep s \<longrightarrow> keep s')"
  using assms by (auto simp: goroutine_step_def split: if_splits sum.splits prod.splits
      dest: op_keeps_stop op_keeps_destroy intro: op_keeps_time)

lemma run_goroutines_keeps:
  assumes "run_goroutines sc is err gs s = (v, s')" "\<forall>g \<in> set gs. \<forall>u \<in> set (g_units g). unit_in u" "keep s"
  shows "keep s'"
  using assms
proof (induction "is" arbitrary: err gs s)
  case (Cons i "is")
  show ?case
  proof (cases "i < length gs")
    case True
    obtain v1 g s1 where g: "goroutine_step sc (gs ! i) s = (v1, g, s1)" by (metis prod_cases3)
    have i: "\<forall>u \<in> set (g_units (gs ! i)). unit_in u" using Cons.prems(2) nth_mem [OF True] by blast
    from goroutine_keeps [OF g i] Cons.prems(3) have k: "g_units g = g_units (gs ! i)" "keep s1" by auto
    have "\<forall>g \<in> set (gs[i := g]). \<forall>u \<in> set (g_units g). unit_in u"
      using set_update_subset_insert [of gs i g] Cons.prems(2) i k(1) by fastforce
    from Cons.IH [OF _ this k(2)] Cons.prems(1) True g show ?thesis by simp
  next
    case False
    with Cons show ?thesis by simp
  qed
qed simp

lemma destroy_units_keeps:
  assumes "destroy_units sc modified failed obsolete w = (v, w')" "\<forall>u \<in> set (modified @ failed @ obsolete). unit_in u"
    and "keep (w_cluster w)"
  shows "keep (w_cluster w')"
proof -
  obtain "is" gs s where "run_goroutines sc is (Inr ()) gs (w_cluster w) = (v, s)" "w_cluster w' = s"
    "\<forall>g \<in> set gs. \<forall>u \<in> set (g_units g). unit_in u"
    using assms(1,2) by (auto simp: destroy_units_def Let_def split: prod.splits)
  with run_goroutines_keeps [OF this(1)] assms(3) show ?thesis by simp
qed

lemma failed_keeps:
  assumes "select_with_state (is_failed sc) us s = (r, s')"
  shows "set r \<subseteq> set us \<and> (keep s \<longrightarrow> keep s')"
  using assms
proof (induction us arbitrary: s r s')
  case (Cons u us)
  obtain b s1 where b: "is_failed sc u s = (b, s1)" by fastforce
  then have "keep s \<longrightarrow> keep s1"
    by (auto simp: is_failed_def split: prod.splits sum.splits dest: op_keeps_state)
  moreover obtain r' s2 where r: "select_with_state (is_failed sc) us s1 = (r', s2)" by fastforce
  ultimately show ?case using Cons.IH [OF r] Cons.prems b r by (auto split: if_splits)
qed simp

lemma plan_keeps:
  assumes "plan_step d sc sg units remaining s = (p, s')" "\<forall>u \<in> set remaining. unit_in u"
  shows "keep s \<Longrightarrow> keep s'" "\<forall>u \<in> set (p_modified p @ p_failed p @ p_obsolete p). unit_in u"
    "\<forall>u \<in> set (p_remaining p). unit_in u"
  using assms by (auto simp: plan_step_def Let_def select_unit_names_def split: prod.splits dest!: failed_keeps)

lemma apply_plan_keeps:
  assumes a: "apply_plan sc units p w = (v, w')" and u: "\<forall>u \<in> set (p_modified p @ p_failed p @ p_obsolete p). unit_in u"
    and d: "\<forall>d \<in> set units. data_in d" and k: "keep (w_cluster w)"
  shows "keep (w_cluster w')"
proof -
  let ?L = "select_by_names sc units
    (map (unit_id sc) (p_modified p) @ map (unit_id sc) (p_failed p) @ map (data_id sc) (p_new p))"
  obtain dr wd where dd: "destroy_units sc (p_modified p) (p_failed p) (p_obsolete p) w = (dr, wd)" by fastforce
  have kd: "keep (w_cluster wd)" by (rule destroy_units_keeps [OF dd u k])
  have kt: "keep (w_cluster (pass_time sc wd))" using op_keeps_time [OF kd] by (simp add: pass_time_def)
  have launch: "keep (w_cluster w2)" if "launch_units sc ?L w1 = (r, w2)" "keep (w_cluster w1)" for r w1 w2
  proof -
    have "\<forall>d \<in> set ?L. data_in d" using d by (auto simp: select_by_names_def)
    moreover have "StartUnits sc ?L (w_cluster w1) = (r, w_cluster w2)"
      using that(1) by (auto simp: launch_units_def split: prod.splits)
    ultimately show ?thesis using that(2) op_keeps_start by blast
  qed
  obtain w1 where "keep (w_cluster w1)" "w' = w1 \<or> launch_units sc ?L w1 = (v, w')"
    using a dd kd kt k by (auto simp: apply_plan_def Let_def split: if_splits sum.splits)
  with launch show ?thesis by blast
qed

lemma run_steps_keeps:
  assumes "run_steps d sc sgs remaining waitNext mods w = (v, w')" "\<forall>u \<in> set remaining. unit_in u"
    "\<forall>(sg, units) \<in> set sgs. \<forall>u \<in> set units. data_in u" "keep (w_cluster w)"
  shows "keep (w_cluster w') \<and> (\<forall>R t. v = Inr (R, t) \<longrightarrow> (\<forall>u \<in> set R. unit_in u))"
  using assms
proof (induction sgs arbitrary: remaining waitNext mods w)
  case (Cons sgu sgs)
  obtain sg units where sgu: "sgu = (sg, units)" by fastforce
  obtain p s where p: "plan_step d sc sg units remaining (w_cluster w) = (p, s)" by fastforce
  note pk = plan_keeps [OF p Cons.prems(2)]
  let ?w0 = "wait_before_step sc waitNext p (w\<lparr>w_cluster := s\<rparr>)"
  obtain cr w1 where c: "confirm_step d p ?w0 = (cr, w1)" by fastforce
  have "keep (w_cluster ?w0)"
    using pk(1) [OF Cons.prems(4)] op_keeps_time by (simp add: wait_before_step_def pass_time_def)
  moreover have "w_cluster w1 = w_cluster ?w0"
    using c by (auto simp: confirm_step_def confirm_def split: if_splits list.splits)
  ultimately have k1: "keep (w_cluster w1)" by simp
  obtain ar w2 where a: "apply_plan sc units p w1 = (ar, w2)" by fastforce
  have units: "\<forall>u \<in> set units. data_in u" using Cons.prems(3) sgu by simp
  have k2: "keep (w_cluster w2)" by (rule apply_plan_keeps [OF a pk(2) units k1])
  from Cons.prems(1) p c a
  consider (abort) e where "v = Inl e" "w' = w1" | (fail) e where "v = Inl e" "w' = w2"
    | (step) wn m where "run_steps d sc sgs (p_remaining p) wn m w2 = (v, w')"
    by (auto simp: sgu split: sum.splits)
  then show ?case
  proof cases
    case (step wn m)
    from Cons.IH [OF step pk(3) _ k2] Cons.prems(3) show ?thesis by simp
  qed (use k1 k2 in simp_all)
qed auto

lemma listed_in:
  assumes "ListUnits sc s = Inr us" shows "\<forall>u \<in> set (select_unit_names us P). unit_in u"
  using op_lists [OF assms] by (auto simp: select_unit_names_def)

lemma run_keeps:
  assumes r: "run d sc gen m w = (v, w')" and k: "keep (w_cluster w)"
    and g: "\<And>sg units u. gen sg = Inr units \<Longrightarrow> u \<in> set units \<Longrightarrow> data_in u"
  shows "keep (w_cluster w')"
proof (cases "ListUnits sc (w_cluster w)")
  case (Inr us)
  obtain vr s where val: "ValidateCluster sc (w_cluster w) = (vr, s)" by fastforce
  let ?w = "w\<lparr>w_cluster := s\<rparr>"
  have k0: "keep (w_cluster ?w)" using op_keeps_validate [OF val k] by simp
  show ?thesis
  proof (cases "w' = ?w")
    case False
    then obtain sgs sr w1 where sgs: "generate_scaling_groups gen d m = Inr sgs"
      "run_steps d sc sgs (select_unit_names us (unit_name_predicate d sc)) False 0 ?w = (sr, w1)"
      "w' = w1 \<or> (\<exists>R t. sr = Inr (R, t) \<and> cleanup sc R t w1 = (v, w'))"
      using r Inr val by (auto simp: run_def Let_def split: sum.splits if_splits prod.splits)
    have data: "\<forall>(sg, units) \<in> set sgs. \<forall>u \<in> set units. data_in u"
    proof (clarify)
      fix sg units u assume m: "(sg, units) \<in> set sgs" "u \<in> set units"
      from map_res_set [OF sgs(1) [unfolded generate_scaling_groups_def] m(1)] obtain sg' where "gen sg' = Inr units" by auto
      then show "data_in u" using g m(2) by blast
    qed
    note rs = run_steps_keeps [OF sgs(2) listed_in [OF Inr] data k0]
    from sgs(3) show ?thesis
    proof (elim disjE exE conjE)
      fix R t assume R: "sr = Inr (R, t)" "cleanup sc R t w1 = (v, w')"
      obtain cr w2 where c: "confirm w1 = (cr, w2)" by fastforce
      have c': "w_cluster w2 = w_cluster w1" using c by (auto simp: confirm_def split: list.splits if_splits)
      obtain dr w3 where dd: "destroy_units sc [] [] R w2 = (dr, w3)" by fastforce
      have "keep (w_cluster w3)" using destroy_units_keeps [OF dd] rs R(1) c' by simp
      moreover have "w' = w1 \<or> w' = w2 \<or> w' = w3" using R(2) c dd by (auto simp: cleanup_def split: if_splits sum.splits)
      ultimately show ?thesis using rs c' by auto
    qed (use rs in simp)
  qed (use k0 in simp)
qed (use r k in \<open>simp add: run_def\<close>)

lemma destroy_deployment_keeps:
  assumes r: "destroy_deployment d sc w = (v, w')" and k: "keep (w_cluster w)"
  shows "keep (w_cluster w')"
proof (cases "ListUnits sc (w_cluster w)")
  case (Inr us)
  let ?J = "select_unit_names us (unit_name_predicate d sc)"
  obtain cr w1 where c: "confirm_destroy d w = (cr, w1)" by fastforce
  have c': "w_cluster w1 = w_cluster w"
    using c by (auto simp: confirm_destroy_def confirm_def split: list.splits if_splits)
  obtain dr w2 where dd: "destroy_units sc [] [] ?J w1 = (dr, w2)" by fastforce
  have "keep (w_cluster w2)" using destroy_units_keeps [OF dd] listed_in [OF Inr] k c' by simp
  moreover have "w' = w \<or> w' = w1 \<or> w' = w2"
    using r Inr c dd by (auto simp: destroy_deployment_def Let_def split: if_splits sum.splits)
  ultimately show ?thesis using k c' by auto
qed (use r k in \<open>simp add: destroy_deployment_def\<close>)

end

text \<open>What a scheduler relies on in a state is kept, by its laws.\<close>

sublocale scheduler_laws \<subseteq> state_kept: scheduler_keeps sc ok data_ok unit_ok
  by unfold_locales
    (blast intro: list_units validate_ok state_ok time_ok stop_ok destroy_ok start_ok)+

end
