(* ===== verification/Names.thy ===== *)
theory Names
  imports Prelude
begin

text \<open>
  Names of jobs, task groups, tasks, instances and links: \<^verbatim>\<open>jobs/job.go\<close>,
  \<^verbatim>\<open>taskgroup.go\<close>, \<^verbatim>\<open>task_name.go\<close>,
  \<^verbatim>\<open>instance_name.go\<close>, \<^verbatim>\<open>link_name.go\<close>. The Go types are
  all strings; what a valid value is, is the code's \<^verbatim>\<open>Validate\<close>. The lemmas show
  that a link name is determined by its parts, that parsing and printing agree, and that the DNS
  and etcd names derived from links are injective.
\<close>

section \<open>Name patterns\<close>

text \<open>The character class \<^verbatim>\<open>[a-z0-9_]\<close>.\<close>

definition name_char :: "char \<Rightarrow> bool" where
  "name_char c =
     (97 \<le> (of_char c :: nat) \<and> (of_char c :: nat) \<le> 122 \<or> is_digit c \<or> c = CHR ''_'')"

definition name_ok :: "nat \<Rightarrow> nat \<Rightarrow> string \<Rightarrow> bool" where
  "name_ok lo hi s = (lo \<le> length s \<and> length s \<le> hi \<and> list_all name_char s)"

definition job_name_validate :: "string \<Rightarrow> unit res" where
  "job_name_validate jn = guard (name_ok 3 30 jn) InvalidNameError"

definition task_group_name_validate :: "string \<Rightarrow> unit res" where
  "task_group_name_validate tgn = guard (name_ok 2 30 tgn) InvalidNameError"

definition task_name_validate :: "string \<Rightarrow> unit res" where
  "task_name_validate tn = guard (name_ok 2 30 tn) InvalidNameError"

definition instance_is_empty :: "string \<Rightarrow> bool" where
  "instance_is_empty i = (i = '''')"

definition instance_name_validate :: "string \<Rightarrow> unit res" where
  "instance_name_validate i =
     (if i = '''' then Inr ()
      else (case atoi i of Inl _ \<Rightarrow> Inl InvalidNameError | Inr _ \<Rightarrow> Inr ()))"

lemma name_char_free [simp]:
  "\<not> name_char CHR ''-''" "\<not> name_char CHR ''.''" "\<not> name_char CHR ''@''" "\<not> name_char CHR ''/''"
  "\<not> name_char CHR ''*''" "\<not> name_char CHR '' ''" "\<not> name_char CHR '':''" "\<not> name_char CHR ''$''"
  by (simp_all add: name_char_def is_digit_def)

lemma name_ok_free [simp]: "name_ok lo hi s \<Longrightarrow> \<not> name_char c \<Longrightarrow> c \<notin> set s"
  by (auto simp: name_ok_def list_all_iff)

lemma name_ok_not_Nil: "name_ok lo hi s \<Longrightarrow> 0 < lo \<Longrightarrow> s \<noteq> ''''"
  by (auto simp: name_ok_def)

lemma validate_ok [simp]:
  "job_name_validate jn = Inr u \<longleftrightarrow> name_ok 3 30 jn"
  "task_group_name_validate gn = Inr u \<longleftrightarrow> name_ok 2 30 gn"
  "task_name_validate tn = Inr u \<longleftrightarrow> name_ok 2 30 tn"
  by (simp_all add: job_name_validate_def task_group_name_validate_def task_name_validate_def)

lemma instance_validate_ok: "instance_name_validate i = Inr u \<longleftrightarrow> i = '''' \<or> is_ok (atoi i)"
  by (auto simp: instance_name_validate_def is_ok_iff split: sum.splits)

lemma instance_ok_free:
  "instance_name_validate i = Inr u \<Longrightarrow> \<not> is_digit c \<Longrightarrow> c \<noteq> CHR ''-'' \<Longrightarrow> c \<noteq> CHR ''+'' \<Longrightarrow> c \<notin> set i"
  by (auto simp: instance_validate_ok is_ok_iff dest: atoi_chars)

section \<open>Link types\<close>

definition link_type_validate :: "string \<Rightarrow> unit res" where
  "link_type_validate lt = guard (lt \<in> {''http'', ''tcp'', ''''}) ValidationError"

definition link_type_is_http :: "string \<Rightarrow> bool" where
  "link_type_is_http lt = (lt = ''http'' \<or> lt = '''')"

definition link_type_is_tcp :: "string \<Rightarrow> bool" where
  "link_type_is_tcp lt = (lt = ''tcp'')"

section \<open>Link names\<close>

definition new_link_name :: "string \<Rightarrow> string \<Rightarrow> string \<Rightarrow> string \<Rightarrow> string" where
  "new_link_name jn tgn tn i =
     (let result = jn @ ''.'' @ tgn @ ''.'' @ tn
      in if \<not> instance_is_empty i then result @ ''@'' @ i else result)"

text \<open>
  \<^verbatim>\<open>parse\<close> returns the parts it found together with the error: callers such as
  \<^verbatim>\<open>resolveLink\<close> use the parts and ignore the error.
\<close>

type_synonym link_parts = "string \<times> string \<times> string \<times> string"

definition validate_parts :: "link_parts \<Rightarrow> unit res" where
  "validate_parts p =
     (case p of (jn, tgn, tn, i) \<Rightarrow>
        rbind (job_name_validate jn) (\<lambda>_.
        rbind (task_group_name_validate tgn) (\<lambda>_.
        rbind (task_name_validate tn) (\<lambda>_.
        instance_name_validate i))))"

definition link_parse_dots :: "string \<Rightarrow> string \<Rightarrow> link_parts \<times> unit res" where
  "link_parse_dots s i =
     (case split_on CHR ''.'' s of
        [a, b] \<Rightarrow> ((a, b, b, i), validate_parts (a, b, b, i))
      | [a, b, c] \<Rightarrow> ((a, b, c, i), validate_parts (a, b, c, i))
      | _ \<Rightarrow> (('''', '''', '''', i), Inl InvalidNameError))"

definition link_parse :: "string \<Rightarrow> link_parts \<times> unit res" where
  "link_parse ln =
     (case split_on CHR ''@'' ln of
        [s] \<Rightarrow> link_parse_dots s ''''
      | [s, i] \<Rightarrow> link_parse_dots s i
      | _ \<Rightarrow> (('''', '''', '''', ''''), Inl InvalidNameError))"

definition link_validate :: "string \<Rightarrow> unit res" where
  "link_validate ln = snd (link_parse ln)"

definition link_job :: "string \<Rightarrow> string res" where
  "link_job ln = (case link_parse ln of ((jn, _, _, _), r) \<Rightarrow> rbind r (\<lambda>_. Inr jn))"

definition link_task_group :: "string \<Rightarrow> string res" where
  "link_task_group ln = (case link_parse ln of ((_, tgn, _, _), r) \<Rightarrow> rbind r (\<lambda>_. Inr tgn))"

definition link_task :: "string \<Rightarrow> string res" where
  "link_task ln = (case link_parse ln of ((_, _, tn, _), r) \<Rightarrow> rbind r (\<lambda>_. Inr tn))"

definition link_instance :: "string \<Rightarrow> string res" where
  "link_instance ln = (case link_parse ln of ((_, _, _, i), r) \<Rightarrow> rbind r (\<lambda>_. Inr i))"

definition link_has_instance :: "string \<Rightarrow> bool" where
  "link_has_instance ln = (case link_parse ln of ((_, _, _, i), _) \<Rightarrow> \<not> instance_is_empty i)"

definition link_string :: "string \<Rightarrow> string" where
  "link_string ln =
     (case link_parse ln of ((jn, tgn, tn, i), r) \<Rightarrow>
        if is_ok r then new_link_name jn tgn tn i else '''')"

definition link_normalize :: "string \<Rightarrow> string" where
  "link_normalize ln =
     (case link_parse ln of ((jn, tgn, tn, i), r) \<Rightarrow>
        if is_ok r then new_link_name jn tgn tn i else ln)"

definition private_domain_name :: "string \<Rightarrow> string" where
  "private_domain_name ln =
     replace_char CHR ''_'' CHR ''-'' (replace_char CHR ''@'' CHR ''.'' (link_string ln)) @ ''.private''"

definition etcd_service_name :: "string \<Rightarrow> string" where
  "etcd_service_name ln =
     replace_char CHR ''@'' CHR ''-'' (replace_char CHR ''.'' CHR ''-'' (link_string ln))"

definition weave_domain_name :: "string \<Rightarrow> string" where
  "weave_domain_name ln = replace_char CHR ''_'' CHR ''-'' (etcd_service_name ln) @ ''.weave.local''"

section \<open>Valid parts\<close>

fun parts_ok :: "link_parts \<Rightarrow> bool" where
  "parts_ok (jn, tgn, tn, i) =
     (name_ok 3 30 jn \<and> name_ok 2 30 tgn \<and> name_ok 2 30 tn \<and> is_ok (instance_name_validate i))"

lemma validate_parts_ok [simp]: "validate_parts p = Inr u \<longleftrightarrow> parts_ok p"
  by (cases p) (auto simp: validate_parts_def is_ok_iff)

lemma parts_ok_free:
  assumes "parts_ok (j, g, t, i)" and "\<not> name_char c"
  shows "c \<notin> set j" "c \<notin> set g" "c \<notin> set t"
  using assms by auto

lemma parts_ok_instance:
  "parts_ok (j, g, t, i) \<Longrightarrow> c \<in> {CHR ''.'', CHR ''@'', CHR ''_'', CHR ''/''} \<Longrightarrow> c \<notin> set i"
  by (auto simp: is_ok_iff instance_ok_free)

text \<open>The result of \<^verbatim>\<open>NewLinkName\<close> on valid parts parses back to them.\<close>

lemma link_parse_dots_ok:
  assumes "parts_ok (j, g, t, i)"
  shows "link_parse_dots (j @ ''.'' @ g @ ''.'' @ t) i = ((j, g, t, i), Inr ())"
proof -
  have "split_on CHR ''.'' (j @ ''.'' @ g @ ''.'' @ t) = [j, g, t]"
    using parts_ok_free [OF assms, of "CHR ''.''"] by (simp add: go_strings)
  moreover have "validate_parts (j, g, t, i) = Inr ()" using assms by simp
  ultimately show ?thesis by (simp add: link_parse_dots_def)
qed

lemma link_parse_new:
  assumes "parts_ok (j, g, t, i)"
  shows "link_parse (new_link_name j g t i) = ((j, g, t, i), Inr ())"
proof -
  have at: "CHR ''@'' \<notin> set (j @ ''.'' @ g @ ''.'' @ t)" "CHR ''@'' \<notin> set i"
    using parts_ok_free [OF assms, of "CHR ''@''"] parts_ok_instance [OF assms, of "CHR ''@''"]
    by auto
  show ?thesis
  proof (cases "i = ''''")
    case True
    with at link_parse_dots_ok [OF assms] show ?thesis
      by (simp add: new_link_name_def instance_is_empty_def link_parse_def split_on_free)
  next
    case False
    have "split_on CHR ''@'' ((j @ ''.'' @ g @ ''.'' @ t) @ CHR ''@'' # i) = [j @ ''.'' @ g @ ''.'' @ t, i]"
      by (subst split_on_append [OF at(1)]) (simp add: split_on_free [OF at(2)])
    with False link_parse_dots_ok [OF assms] show ?thesis
      by (simp add: new_link_name_def instance_is_empty_def link_parse_def)
  qed
qed

lemma link_parse_dots_parts: "link_parse_dots s i = (p, Inr u) \<Longrightarrow> parts_ok p"
  by (auto simp: link_parse_dots_def split: list.splits)

lemma link_parse_parts: "link_parse ln = (p, Inr u) \<Longrightarrow> parts_ok p"
  by (auto simp: link_parse_def dest: link_parse_dots_parts split: list.splits)

lemma link_validate_parts: "link_validate ln = Inr u \<Longrightarrow> \<exists>p. link_parse ln = (p, Inr ()) \<and> parts_ok p"
  by (cases "link_parse ln") (auto simp: link_validate_def dest: link_parse_parts)

lemma link_string_parts: "link_parse ln = ((j, g, t, i), Inr u) \<Longrightarrow> link_string ln = new_link_name j g t i"
  by (simp add: link_string_def)

lemma new_link_name_inj:
  assumes "parts_ok p" "parts_ok (j, g, t, i)" "p = (j', g', t', i')"
    and "new_link_name j' g' t' i' = new_link_name j g t i"
  shows "p = (j, g, t, i)"
  using link_parse_new assms by (metis prod.inject)

section \<open>Derived names\<close>

text \<open>The parts of a private domain name, between the dots.\<close>

abbreviation dashed :: "string \<Rightarrow> string" where
  "dashed s \<equiv> replace_char CHR ''_'' CHR ''-'' s"

lemma dashed_inj: "name_ok l h s \<Longrightarrow> name_ok l' h' t \<Longrightarrow> dashed s = dashed t \<Longrightarrow> s = t"
  by (rule replace_char_inj [of "CHR ''-''" s t "CHR ''_''"]) auto

lemma dashed_free: "c \<notin> set s \<Longrightarrow> c \<noteq> CHR ''-'' \<Longrightarrow> c \<notin> set (dashed s)"
  by (auto dest: replace_char_set)

lemma private_domain_split:
  assumes "link_parse ln = ((j, g, t, i), Inr u)"
  shows "split_on CHR ''.'' (private_domain_name ln) =
    [dashed j, dashed g, dashed t] @ (if i = '''' then [] else [i]) @ [''private'']"
proof -
  note ok = link_parse_parts [OF assms]
  note f = parts_ok_free [OF ok] parts_ok_instance [OF ok]
  have d: "CHR ''.'' \<notin> set (dashed j)" "CHR ''.'' \<notin> set (dashed g)" "CHR ''.'' \<notin> set (dashed t)"
    by (rule dashed_free; simp add: f)+
  have "private_domain_name ln = join ''.''
      ([dashed j, dashed g, dashed t] @ (if i = '''' then [] else [i]) @ [''private''])"
    using f(1-3) [of "CHR ''@''"] f(4)
    by (simp add: private_domain_name_def link_string_parts [OF assms] new_link_name_def
        instance_is_empty_def)
  moreover have "\<forall>x \<in> set ([dashed j, dashed g, dashed t] @ (if i = '''' then [] else [i]) @ [''private'']).
      CHR ''.'' \<notin> set x"
    using d f(4) [of "CHR ''.''"] by auto
  ultimately show ?thesis
    using split_on_join [of "[dashed j, dashed g, dashed t] @ (if i = '''' then [] else [i]) @ [''private'']" "CHR ''.''"]
    by simp
qed

lemma private_domain_name_inj:
  assumes a: "link_parse ln = ((j, g, t, i), Inr u)" and b: "link_parse ln' = ((j', g', t', i'), Inr u')"
    and eq: "private_domain_name ln = private_domain_name ln'"
  shows "(j, g, t, i) = (j', g', t', i')"
proof -
  have "[dashed j, dashed g, dashed t] @ (if i = '''' then [] else [i]) @ [''private''] =
    [dashed j', dashed g', dashed t'] @ (if i' = '''' then [] else [i']) @ [''private'']"
    using private_domain_split [OF a] private_domain_split [OF b] eq by simp
  then have "dashed j = dashed j'" "dashed g = dashed g'" "dashed t = dashed t'" "i = i'"
    by (auto split: if_splits)
  with link_parse_parts [OF a] link_parse_parts [OF b] show ?thesis
    by (auto intro: dashed_inj)
qed

text \<open>The etcd service name replaces both separators by a dash, which no valid name contains.\<close>

lemma etcd_service_name_parts:
  assumes "link_parse ln = ((j, g, t, i), Inr u)"
  shows "etcd_service_name ln = j @ ''-'' @ g @ ''-'' @ t @ (if i = '''' then '''' else CHR ''-'' # i)"
proof -
  note ok = link_parse_parts [OF assms]
  note f = parts_ok_free [OF ok] parts_ok_instance [OF ok]
  show ?thesis
    using f(1-3) [of "CHR ''@''"] f(1-3) [of "CHR ''.''"] f(4) [of "CHR ''.''"] f(4) [of "CHR ''@''"]
    by (simp add: etcd_service_name_def link_string_parts [OF assms] new_link_name_def
        instance_is_empty_def)
qed

lemma etcd_service_name_inj:
  assumes a: "link_parse ln = ((j, g, t, i), Inr u)" and b: "link_parse ln' = ((j', g', t', i'), Inr u')"
    and eq: "etcd_service_name ln = etcd_service_name ln'"
  shows "(j, g, t, i) = (j', g', t', i')"
proof -
  note f = parts_ok_free [OF link_parse_parts [OF a], of "CHR ''-''"]
  note f' = parts_ok_free [OF link_parse_parts [OF b], of "CHR ''-''"]
  have "split_on CHR ''-'' (etcd_service_name ln) = split_on CHR ''-'' (etcd_service_name ln')"
    using eq by simp
  then have "j = j' \<and> g = g' \<and> t = t'"
    using f f' etcd_service_name_parts [OF a] etcd_service_name_parts [OF b]
    by (simp add: go_strings split: if_splits)
  moreover from this have "i = i'"
    using eq etcd_service_name_parts [OF a] etcd_service_name_parts [OF b]
    by (simp split: if_splits)
  ultimately show ?thesis by simp
qed

section \<open>Which texts are link names\<close>

text \<open>
  The form of a link name, without the parser: job and group, an optional task and an optional instance, which may be
  empty behind its sign.
\<close>

definition instance_text :: "string \<Rightarrow> bool" where
  "instance_text i \<longleftrightarrow> i = '''' \<or> (\<exists>n. atoi i = Inr n)"

definition link_text :: "string \<Rightarrow> bool" where
  "link_text ln \<longleftrightarrow>
     (\<exists>jn gn tn i. name_ok 3 30 jn \<and> name_ok 2 30 gn \<and> name_ok 2 30 tn \<and> instance_text i \<and>
       ln \<in> {jn @ ''.'' @ gn, jn @ ''.'' @ gn @ ''.'' @ tn,
             jn @ ''.'' @ gn @ ''@'' @ i, jn @ ''.'' @ gn @ ''.'' @ tn @ ''@'' @ i})"

lemma parts_ok_text: "parts_ok (jn, gn, tn, i) \<longleftrightarrow> name_ok 3 30 jn \<and> name_ok 2 30 gn \<and> name_ok 2 30 tn \<and> instance_text i"
  by (auto simp: instance_text_def is_ok_iff instance_validate_ok)

lemma instance_text_free: "instance_text i \<Longrightarrow> CHR ''@'' \<notin> set i"
  using atoi_free [of i _ "CHR ''@''"] by (auto simp: instance_text_def is_digit_def)

lemma link_textI:
  assumes "name_ok 3 30 jn" "name_ok 2 30 gn" "name_ok 2 30 tn" "instance_text i"
  shows "link_text (jn @ ''.'' @ gn)" "link_text (jn @ ''.'' @ gn @ ''.'' @ tn)"
    "link_text ((jn @ ''.'' @ gn) @ ''@'' @ i)" "link_text ((jn @ ''.'' @ gn @ ''.'' @ tn) @ ''@'' @ i)"
  unfolding link_text_def append.assoc using assms by blast+

lemma link_dots_ok:
  "snd (link_parse_dots s i) = Inr () \<longleftrightarrow>
     (\<exists>jn gn. s = jn @ ''.'' @ gn \<and> parts_ok (jn, gn, gn, i)) \<or>
     (\<exists>jn gn tn. s = jn @ ''.'' @ gn @ ''.'' @ tn \<and> parts_ok (jn, gn, tn, i))"
    (is "?l = ?r")
proof
  assume ?l
  then consider a b where "split_on CHR ''.'' s = [a, b]" "parts_ok (a, b, b, i)"
    | a b c where "split_on CHR ''.'' s = [a, b, c]" "parts_ok (a, b, c, i)"
    by (auto simp: link_parse_dots_def simp del: parts_ok.simps split: list.splits)
  moreover have "s = join ''.'' (split_on CHR ''.'' s)" by simp
  ultimately show ?r by (cases, simp_all del: parts_ok.simps) metis+
next
  assume ?r
  then show ?l
  proof (elim disjE exE conjE)
    fix jn gn assume "s = jn @ ''.'' @ gn" "parts_ok (jn, gn, gn, i)"
    moreover from this parts_ok_free [OF this(2), of "CHR ''.''"] have "split_on CHR ''.'' s = [jn, gn]"
      by (simp add: split_on_append split_on_free)
    ultimately show ?l by (simp add: link_parse_dots_def del: parts_ok.simps)
  next
    fix jn gn tn assume "s = jn @ ''.'' @ gn @ ''.'' @ tn" "parts_ok (jn, gn, tn, i)"
    then show ?l using link_parse_dots_ok [of jn gn tn i] by simp
  qed
qed

lemma link_validate_text: "link_validate ln = Inr () \<longleftrightarrow> link_text ln"
proof
  assume v: "link_validate ln = Inr ()"
  have j: "ln = join ''@'' (split_on CHR ''@'' ln)" by simp
  from v consider s where "split_on CHR ''@'' ln = [s]" "snd (link_parse_dots s '''') = Inr ()"
    | s i where "split_on CHR ''@'' ln = [s, i]" "snd (link_parse_dots s i) = Inr ()"
    by (auto simp: link_validate_def link_parse_def split: list.splits)
  then show "link_text ln"
  proof cases
    case (1 s)
    with j have "ln = s" by simp
    with 1(2) show ?thesis unfolding link_dots_ok parts_ok_text link_text_def by blast
  next
    case (2 s i)
    with j have "ln = s @ ''@'' @ i" by simp
    with 2(2) show ?thesis unfolding link_dots_ok parts_ok_text using link_textI(3,4) by blast
  qed
next
  assume "link_text ln"
  then obtain jn gn tn i where p: "name_ok 3 30 jn" "name_ok 2 30 gn" "name_ok 2 30 tn" "instance_text i"
    and ln: "ln \<in> {jn @ ''.'' @ gn, jn @ ''.'' @ gn @ ''.'' @ tn,
             jn @ ''.'' @ gn @ ''@'' @ i, jn @ ''.'' @ gn @ ''.'' @ tn @ ''@'' @ i}" by (auto simp: link_text_def)
  have at: "CHR ''@'' \<notin> set (jn @ ''.'' @ gn)" "CHR ''@'' \<notin> set (jn @ ''.'' @ gn @ ''.'' @ tn)" using p(1-3) by simp_all
  have d: "snd (link_parse_dots (jn @ ''.'' @ gn) i') = Inr ()" "snd (link_parse_dots (jn @ ''.'' @ gn @ ''.'' @ tn) i') = Inr ()"
    if "instance_text i'" for i'
    unfolding link_dots_ok parts_ok_text using p that by blast+
  have e: "instance_text ''''" by (simp add: instance_text_def)
  have w: "link_validate s = Inr ()" "link_validate (s @ ''@'' @ i) = Inr ()"
    if "CHR ''@'' \<notin> set s" "\<And>i'. instance_text i' \<Longrightarrow> snd (link_parse_dots s i') = Inr ()" for s
    using that(2) [OF e] that(2) [OF p(4)] split_on_free [OF that(1)] split_on_append [OF that(1), of i]
      split_on_free [OF instance_text_free [OF p(4)]]
    by (simp_all add: link_validate_def link_parse_def)
  show "link_validate ln = Inr ()" using ln w [OF at(1) d(1)] w [OF at(2) d(2)] by auto
qed

end
