(* ===== verification/Images.thy ===== *)
theory Images
  imports Prelude
begin

text \<open>
  Docker image names: \<^verbatim>\<open>jobs/image.go\<close>. Parsing splits a name into
  registry, namespace, repository and version; \<^verbatim>\<open>String\<close> puts them back
  together. The lemmas characterise the images parsing can return and show that printing such an
  image and parsing it again gives the same image.
\<close>

record docker_image =
  di_Registry :: string
  di_Namespace :: string
  di_Repository :: string
  di_Version :: string

definition empty_image :: docker_image where
  "empty_image = \<lparr>di_Registry = '''', di_Namespace = '''', di_Repository = '''', di_Version = ''''\<rparr>"

text \<open>\<^verbatim>\<open>PatternNamespace\<close>, \<^verbatim>\<open>PatternImage\<close>, \<^verbatim>\<open>PatternVersion\<close>.\<close>

definition is_lower :: "char \<Rightarrow> bool" where
  "is_lower c = (97 \<le> (of_char c :: nat) \<and> (of_char c :: nat) \<le> 122)"

definition is_upper :: "char \<Rightarrow> bool" where
  "is_upper c = (65 \<le> (of_char c :: nat) \<and> (of_char c :: nat) \<le> 90)"

definition image_char :: "char \<Rightarrow> bool" where
  "image_char c = (is_lower c \<or> is_digit c \<or> c = CHR ''-'' \<or> c = CHR ''_'' \<or> c = CHR ''.'')"

definition is_namespace :: "string \<Rightarrow> bool" where
  "is_namespace s =
     (if length s < 4 then False
      else 4 \<le> length s \<and> length s \<le> 30 \<and> list_all (\<lambda>c. is_lower c \<or> is_digit c \<or> c = CHR ''_'') s)"

definition is_image :: "string \<Rightarrow> bool" where
  "is_image s = (if length s = 0 then False else s \<noteq> [] \<and> list_all image_char s)"

definition is_version :: "string \<Rightarrow> bool" where
  "is_version s = (s \<noteq> [] \<and> list_all (\<lambda>c. is_upper c \<or> image_char c) s)"

definition contains_registry :: "string list \<Rightarrow> bool" where
  "contains_registry input =
     (if length input = 1 then False
      else if length input = 2 \<and> (CHR ''.'' \<in> set (hd input) \<or> CHR '':'' \<in> set (hd input)) then True
      else length input = 3)"

text \<open>The part of \<^verbatim>\<open>parse\<close> after the path has been split: repository and version.\<close>

definition image_parse_version :: "docker_image \<Rightarrow> docker_image res" where
  "image_parse_version img =
     rbind (case split_on CHR '':'' (di_Repository img) of
        [r, v] \<Rightarrow>
          if is_version v then Inr (img\<lparr>di_Repository := r, di_Version := v\<rparr>) else Inl ErrInvalidFormat
      | [r] \<Rightarrow> Inr (img\<lparr>di_Repository := r, di_Version := ''''\<rparr>)
      | _ \<Rightarrow> Inl ErrInvalidFormat)
     (\<lambda>img. if is_image (di_Repository img) then Inr img else Inl ErrInvalidFormat)"

definition image_parse_path :: "docker_image \<Rightarrow> string list \<Rightarrow> docker_image res" where
  "image_parse_path img parts =
     (case parts of
        [r] \<Rightarrow> image_parse_version (img\<lparr>di_Repository := r\<rparr>)
      | [n, r] \<Rightarrow>
          if is_namespace n
          then image_parse_version (img\<lparr>di_Namespace := n, di_Repository := r\<rparr>)
          else Inl ErrInvalidFormat
      | _ \<Rightarrow> Inl ErrInvalidFormat)"

definition image_parse :: "docker_image \<Rightarrow> string \<Rightarrow> docker_image res" where
  "image_parse img input =
     (if length input = 0 then Inl ErrInvalidFormat
      else if CHR '' '' \<in> set input then Inl ErrInvalidFormat
      else
        let parts = split_on CHR ''/'' input
        in if 3 < length parts then Inl ErrInvalidFormat
           else if contains_registry parts
           then image_parse_path (img\<lparr>di_Registry := hd parts\<rparr>) (tl parts)
           else image_parse_path img parts)"

definition parse_docker_image :: "string \<Rightarrow> docker_image res" where
  "parse_docker_image s = image_parse empty_image s"

definition image_string :: "docker_image \<Rightarrow> string" where
  "image_string img =
     (if di_Registry img \<noteq> '''' then di_Registry img @ ''/'' else '''') @
     (if di_Namespace img \<noteq> '''' then di_Namespace img @ ''/'' else '''') @
     di_Repository img @
     (if di_Version img \<noteq> '''' then CHR '':'' # di_Version img else '''')"

definition image_validate :: "docker_image \<Rightarrow> docker_image res" where
  "image_validate img = image_parse empty_image (image_string img)"

definition default_latest_version :: "docker_image \<Rightarrow> docker_image" where
  "default_latest_version img = (if di_Version img = '''' then img\<lparr>di_Version := ''latest''\<rparr> else img)"

section \<open>Images that parsing returns\<close>

definition image_ok :: "docker_image \<Rightarrow> bool" where
  "image_ok img \<longleftrightarrow>
     CHR ''/'' \<notin> set (di_Registry img) \<and> CHR '' '' \<notin> set (di_Registry img) \<and>
     (di_Namespace img \<noteq> '''' \<longrightarrow> is_namespace (di_Namespace img)) \<and>
     is_image (di_Repository img) \<and>
     (di_Version img \<noteq> '''' \<longrightarrow> is_version (di_Version img)) \<and>
     (di_Registry img \<noteq> '''' \<and> di_Namespace img = '''' \<longrightarrow>
        CHR ''.'' \<in> set (di_Registry img) \<or> CHR '':'' \<in> set (di_Registry img))"

lemma image_char_free [simp]:
  "\<not> image_char CHR ''/''" "\<not> image_char CHR '':''" "\<not> image_char CHR '' ''"
  "\<not> is_upper CHR ''/''" "\<not> is_upper CHR '':''" "\<not> is_upper CHR '' ''"
  "\<not> is_lower CHR ''/''" "\<not> is_lower CHR '':''" "\<not> is_lower CHR '' ''" "\<not> is_lower CHR ''.''"
  by (simp_all add: image_char_def is_upper_def is_lower_def)

lemma is_namespace_Nil [simp]: "\<not> is_namespace []"
  by (simp add: is_namespace_def)

lemma is_image_free: "is_image s \<Longrightarrow> \<not> image_char c \<Longrightarrow> c \<notin> set s"
  by (auto simp: is_image_def list_all_iff split: if_splits)

lemma is_version_free: "is_version s \<Longrightarrow> \<not> image_char c \<Longrightarrow> \<not> is_upper c \<Longrightarrow> c \<notin> set s"
  by (auto simp: is_version_def list_all_iff)

lemma is_namespace_free:
  "is_namespace s \<Longrightarrow> \<not> is_lower c \<Longrightarrow> \<not> is_digit c \<Longrightarrow> c \<noteq> CHR ''_'' \<Longrightarrow> c \<notin> set s"
  by (auto simp: is_namespace_def list_all_iff split: if_splits)

lemma image_parse_version_ok:
  "image_parse_version img = Inr img' \<Longrightarrow>
     is_image (di_Repository img') \<and> (di_Version img' \<noteq> '''' \<longrightarrow> is_version (di_Version img')) \<and>
     di_Registry img' = di_Registry img \<and> di_Namespace img' = di_Namespace img"
  by (auto simp: image_parse_version_def split: list.splits if_splits)

lemma image_parse_version_string:
  assumes "is_image r" and "v \<noteq> '''' \<longrightarrow> is_version v"
    and "di_Repository img = r @ (if v \<noteq> '''' then CHR '':'' # v else '''')"
  shows "image_parse_version img = Inr (img\<lparr>di_Repository := r, di_Version := v\<rparr>)"
proof -
  have "CHR '':'' \<notin> set r" "v \<noteq> '''' \<longrightarrow> CHR '':'' \<notin> set v"
    using assms(1,2) by (auto simp: is_image_free is_version_free)
  with assms show ?thesis by (auto simp: image_parse_version_def go_strings)
qed

lemma image_parse_path_ok:
  assumes "image_parse_path img parts = Inr img'" and "di_Namespace img = ''''"
  shows "is_image (di_Repository img') \<and> (di_Version img' \<noteq> '''' \<longrightarrow> is_version (di_Version img')) \<and>
    di_Registry img' = di_Registry img \<and>
    (di_Namespace img' = '''' \<and> length parts = 1 \<or> is_namespace (di_Namespace img') \<and> length parts = 2)"
  using assms
  by (auto simp: image_parse_path_def split: list.splits if_splits dest!: image_parse_version_ok)

lemma parse_docker_image_ok:
  assumes "parse_docker_image s = Inr img"
  shows "image_ok img"
proof -
  define parts where "parts = split_on CHR ''/'' s"
  have len: "length parts \<le> 3" and spc: "CHR '' '' \<notin> set s"
    and p: "(if contains_registry parts
       then image_parse_path (empty_image\<lparr>di_Registry := hd parts\<rparr>) (tl parts)
       else image_parse_path empty_image parts) = Inr img"
    using assms by (auto simp: parse_docker_image_def image_parse_def Let_def parts_def split: if_splits)
  have hd: "CHR ''/'' \<notin> set (hd parts)" "CHR '' '' \<notin> set (hd parts)"
    using split_on_parts [of "hd parts" "CHR ''/''" s] split_on_part_chars [of "hd parts" "CHR ''/''" s] spc
    by (auto simp: parts_def)
  show ?thesis
  proof (cases "contains_registry parts")
    case True
    with p have q: "image_parse_path (empty_image\<lparr>di_Registry := hd parts\<rparr>) (tl parts) = Inr img"
      by simp
    from image_parse_path_ok [OF q] hd True show ?thesis
      by (auto simp: image_ok_def empty_image_def contains_registry_def split: if_splits)
  next
    case False
    with p have q: "image_parse_path empty_image parts = Inr img" by simp
    from image_parse_path_ok [OF q] show ?thesis
      by (auto simp: image_ok_def empty_image_def)
  qed
qed

text \<open>The components of a printed image, between the slashes.\<close>

definition image_tail :: "docker_image \<Rightarrow> string" where
  "image_tail img = di_Repository img @ (if di_Version img \<noteq> '''' then CHR '':'' # di_Version img else '''')"

lemma image_tail_free:
  assumes "image_ok img" shows "CHR ''/'' \<notin> set (image_tail img)" "CHR '' '' \<notin> set (image_tail img)"
    "image_tail img \<noteq> ''''"
  using assms
  by (auto simp: image_tail_def image_ok_def is_image_free is_version_free is_image_def
      split: if_splits)

lemma image_split:
  assumes "image_ok img"
  shows "split_on CHR ''/'' (image_string img) =
    (if di_Registry img \<noteq> '''' then [di_Registry img] else []) @
    (if di_Namespace img \<noteq> '''' then [di_Namespace img] else []) @ [image_tail img]"
proof -
  have n: "di_Namespace img \<noteq> '''' \<Longrightarrow> CHR ''/'' \<notin> set (di_Namespace img)"
    using assms by (simp add: image_ok_def is_namespace_free)
  have "image_string img = join ''/'' ((if di_Registry img \<noteq> '''' then [di_Registry img] else []) @
    (if di_Namespace img \<noteq> '''' then [di_Namespace img] else []) @ [image_tail img])"
    by (simp add: image_string_def image_tail_def)
  then show ?thesis
    using n image_tail_free(1) [OF assms] assms
    by (simp add: image_ok_def split_on_join)
qed

lemma image_string_no_space:
  assumes "image_ok img" shows "CHR '' '' \<notin> set (image_string img)" "image_string img \<noteq> ''''"
proof -
  have "di_Namespace img \<noteq> '''' \<Longrightarrow> CHR '' '' \<notin> set (di_Namespace img)"
    using assms by (simp add: image_ok_def is_namespace_free)
  then show "CHR '' '' \<notin> set (image_string img)"
    using assms by (auto simp: image_string_def image_ok_def is_image_free is_version_free)
  show "image_string img \<noteq> ''''" using image_tail_free(3) [OF assms]
    by (auto simp: image_string_def image_tail_def)
qed

lemma parse_image_string:
  assumes "image_ok img"
  shows "parse_docker_image (image_string img) = Inr img"
proof -
  let ?reg = "if di_Registry img \<noteq> '''' then [di_Registry img] else []"
  let ?ns = "if di_Namespace img \<noteq> '''' then [di_Namespace img] else []"
  have ns: "di_Namespace img \<noteq> '''' \<Longrightarrow> CHR ''.'' \<notin> set (di_Namespace img) \<and> CHR '':'' \<notin> set (di_Namespace img)"
    using assms by (simp add: image_ok_def is_namespace_free)
  have cr: "contains_registry (?reg @ ?ns @ [image_tail img]) \<longleftrightarrow> di_Registry img \<noteq> ''''"
    using assms ns by (auto simp: contains_registry_def image_ok_def)
  have v: "image_parse_version (empty_image\<lparr>di_Registry := r, di_Namespace := n, di_Repository := image_tail img\<rparr>) =
      Inr \<lparr>di_Registry = r, di_Namespace = n, di_Repository = di_Repository img, di_Version = di_Version img\<rparr>" for r n
    using assms image_parse_version_string [of "di_Repository img" "di_Version img"
        "empty_image\<lparr>di_Registry := r, di_Namespace := n, di_Repository := image_tail img\<rparr>"]
    by (simp add: image_ok_def image_tail_def empty_image_def)
  have path: "image_parse_path (empty_image\<lparr>di_Registry := r\<rparr>) (?ns @ [image_tail img]) =
      Inr \<lparr>di_Registry = r, di_Namespace = di_Namespace img, di_Repository = di_Repository img,
        di_Version = di_Version img\<rparr>" for r
    using assms v [where r = r and n = "di_Namespace img"]
    by (auto simp: image_parse_path_def image_ok_def empty_image_def)
  have path0: "image_parse_path empty_image (?ns @ [image_tail img]) =
      Inr \<lparr>di_Registry = '''', di_Namespace = di_Namespace img, di_Repository = di_Repository img,
        di_Version = di_Version img\<rparr>"
    using path [where r = "''''"] by (simp add: empty_image_def)
  have "length (?reg @ ?ns @ [image_tail img]) \<le> 3" by simp
  then show ?thesis
    using cr path [where r = "di_Registry img"] path0 image_split [OF assms] image_string_no_space [OF assms]
    by (cases "di_Registry img = ''''") (simp_all add: parse_docker_image_def image_parse_def)
qed

end
