(* ===== verification/Ports.thy ===== *)
theory Ports
  imports Prelude
begin

text \<open>
  Ports and port mappings: \<^verbatim>\<open>jobs/port.go\<close> and
  \<^verbatim>\<open>jobs/port_mapping.go\<close>. A mapping is
  \<open>[[hostIP:][hostPort]:]containerPort[/protocol]\<close>. The lemmas give the bounds of every
  mapping that parses and the round trip through \<^verbatim>\<open>ParsedPortMapping.String\<close>.
\<close>

definition protocolTCP :: string where "protocolTCP = ''tcp''"
definition protocolUDP :: string where "protocolUDP = ''udp''"

section \<open>Docker ports\<close>

record port =
  pt_Port :: string
  pt_Protocol :: string

definition port_string :: "port \<Rightarrow> string" where
  "port_string p = pt_Port p @ ''/'' @ pt_Protocol p"

definition parse_docker_port :: "string \<Rightarrow> port res" where
  "parse_docker_port input =
     rbind (case split_on CHR ''/'' input of
              [p] \<Rightarrow> Inr \<lparr>pt_Port = p, pt_Protocol = protocolTCP\<rparr>
            | [p, q] \<Rightarrow> Inr \<lparr>pt_Port = p, pt_Protocol = q\<rparr>
            | _ \<Rightarrow> Inl OtherError) (\<lambda>dp.
     rbind (atoi (pt_Port dp)) (\<lambda>n.
       if n < 1 \<or> 65535 < n then Inl OtherError
       else if pt_Protocol dp = '''' then Inl OtherError
       else if pt_Protocol dp = protocolUDP \<or> pt_Protocol dp = protocolTCP then Inr dp
       else Inl OtherError))"

section \<open>Port mappings\<close>

record parsed_port_mapping =
  HostIP :: string
  HostPort :: int
  ContainerPort :: int
  Protocol :: string

definition has_host_ip :: "parsed_port_mapping \<Rightarrow> bool" where
  "has_host_ip p = (HostIP p \<noteq> '''')"

definition has_host_port :: "parsed_port_mapping \<Rightarrow> bool" where
  "has_host_port p = (HostPort p \<noteq> 0)"

definition port_is_tcp :: "parsed_port_mapping \<Rightarrow> bool" where
  "port_is_tcp p = (Protocol p = '''' \<or> Protocol p = protocolTCP)"

definition port_is_udp :: "parsed_port_mapping \<Rightarrow> bool" where
  "port_is_udp p = (Protocol p = protocolUDP)"

definition protocol_string :: "parsed_port_mapping \<Rightarrow> string" where
  "protocol_string p =
     (if port_is_tcp p then ''TCP'' else if port_is_udp p then ''UDP'' else Protocol p)"

definition port_mapping_string :: "parsed_port_mapping \<Rightarrow> string" where
  "port_mapping_string p =
     (let containerPort =
            (if Protocol p = protocolUDP then itoa (ContainerPort p) @ ''/'' @ Protocol p
             else itoa (ContainerPort p));
          hostPort = (if HostPort p \<noteq> 0 then itoa (HostPort p) else '''')
      in if HostIP p = '''' then hostPort @ '':'' @ containerPort
         else HostIP p @ '':'' @ hostPort @ '':'' @ containerPort)"

definition port_mapping_validate :: "parsed_port_mapping \<Rightarrow> unit res" where
  "port_mapping_validate p =
     (if HostPort p < 0 \<or> 65535 < HostPort p then Inl ValidationError
      else if ContainerPort p < 1 \<or> 65535 < ContainerPort p then Inl ValidationError
      else if Protocol p = '''' then Inl ValidationError
      else if Protocol p = protocolUDP \<or> Protocol p = protocolTCP then Inr ()
      else Inl ValidationError)"

definition parse_container_port :: "string \<Rightarrow> (int \<times> string) res" where
  "parse_container_port input =
     rbind (case split_on CHR ''/'' input of
              [p] \<Rightarrow> Inr (p, protocolTCP)
            | [p, q] \<Rightarrow> Inr (p, to_lower q)
            | _ \<Rightarrow> Inl OtherError) (\<lambda>(portStr, protocol).
       (case atoi portStr of
          Inl _ \<Rightarrow> Inl OtherError
        | Inr port \<Rightarrow>
            if port < 1 \<or> 65535 < port then Inl OtherError
            else if protocol = '''' then Inl OtherError
            else if protocol = protocolUDP \<or> protocol = protocolTCP then Inr (port, protocol)
            else Inl OtherError))"

definition parse_host_port :: "string \<Rightarrow> int res" where
  "parse_host_port s = (if s \<noteq> '''' then atoi s else Inr 0)"

definition parse_port_mapping :: "string \<Rightarrow> parsed_port_mapping res" where
  "parse_port_mapping input =
     (case split_on CHR '':'' input of
        [c] \<Rightarrow>
          rbind (parse_container_port c) (\<lambda>(cp, pr).
          Inr \<lparr>HostIP = '''', HostPort = 0, ContainerPort = cp, Protocol = pr\<rparr>)
      | [h, c] \<Rightarrow>
          rbind (parse_host_port h) (\<lambda>hp.
          rbind (parse_container_port c) (\<lambda>(cp, pr).
          Inr \<lparr>HostIP = '''', HostPort = hp, ContainerPort = cp, Protocol = pr\<rparr>))
      | [ip, h, c] \<Rightarrow>
          rbind (parse_host_port h) (\<lambda>hp.
          rbind (parse_container_port c) (\<lambda>(cp, pr).
          Inr \<lparr>HostIP = ip, HostPort = hp, ContainerPort = cp, Protocol = pr\<rparr>))
      | _ \<Rightarrow> Inl OtherError)"

definition port_mapping_parse :: "string \<Rightarrow> parsed_port_mapping res" where
  "port_mapping_parse s =
     rbind (parse_port_mapping s) (\<lambda>r. rbind (port_mapping_validate r) (\<lambda>_. Inr r))"

section \<open>Bounds and round trip\<close>

definition port_mapping_ok :: "parsed_port_mapping \<Rightarrow> bool" where
  "port_mapping_ok p \<longleftrightarrow>
     0 \<le> HostPort p \<and> HostPort p \<le> 65535 \<and> 1 \<le> ContainerPort p \<and> ContainerPort p \<le> 65535 \<and>
     Protocol p \<in> {protocolTCP, protocolUDP}"

lemma protocols [simp]: "protocolTCP \<noteq> ''''" "protocolUDP \<noteq> ''''" "protocolTCP \<noteq> protocolUDP"
    "protocolUDP \<noteq> protocolTCP" "'''' \<noteq> protocolTCP" "'''' \<noteq> protocolUDP"
  by (simp_all add: protocolTCP_def protocolUDP_def)

lemma port_mapping_validate_ok [simp]: "port_mapping_validate p = Inr u \<longleftrightarrow> port_mapping_ok p"
  by (auto simp: port_mapping_validate_def port_mapping_ok_def)

lemma port_mapping_parse_ok: "port_mapping_parse s = Inr p \<Longrightarrow> port_mapping_ok p"
  by (auto simp: port_mapping_parse_def)

lemma port_mapping_parse_ip: "port_mapping_parse s = Inr p \<Longrightarrow> CHR '':'' \<notin> set (HostIP p)"
proof -
  assume "port_mapping_parse s = Inr p"
  then have "HostIP p = '''' \<or> HostIP p \<in> set (split_on CHR '':'' s)"
    by (auto simp: port_mapping_parse_def parse_port_mapping_def split: list.splits)
  then show ?thesis using split_on_parts by auto
qed

lemma container_port_string:
  assumes "1 \<le> n" "n \<le> 65535" "pr = protocolTCP \<or> pr = protocolUDP"
  defines "s \<equiv> (if pr = protocolUDP then itoa n @ ''/'' @ pr else itoa n)"
  shows "parse_container_port s = Inr (n, pr)" "CHR '':'' \<notin> set s"
proof -
  have free: "CHR ''/'' \<notin> set (itoa n)" "CHR '':'' \<notin> set (itoa n)" by (simp_all add: itoa_free)
  have low: "to_lower protocolUDP = protocolUDP"
    by (simp add: to_lower_def protocolUDP_def lower_char_def)
  have slash: "CHR ''/'' \<notin> set protocolUDP" "CHR '':'' \<notin> set protocolUDP" by (simp_all add: protocolUDP_def)
  show "parse_container_port s = Inr (n, pr)"
    using assms(1-3) free low slash
    by (auto simp: s_def parse_container_port_def split_on_append split_on_free)
  show "CHR '':'' \<notin> set s" using assms(3) free slash by (auto simp: s_def)
qed

lemma host_port_string:
  assumes "0 \<le> n" "n \<le> 65535"
  defines "s \<equiv> (if n \<noteq> 0 then itoa n else '''')"
  shows "parse_host_port s = Inr n" "CHR '':'' \<notin> set s"
  using assms by (auto simp: parse_host_port_def s_def itoa_free)

lemma port_mapping_parse_string:
  assumes "port_mapping_ok p" and "CHR '':'' \<notin> set (HostIP p)"
  shows "port_mapping_parse (port_mapping_string p) = Inr p"
proof -
  define c where "c = (if Protocol p = protocolUDP then itoa (ContainerPort p) @ ''/'' @ Protocol p
    else itoa (ContainerPort p))"
  define h where "h = (if HostPort p \<noteq> 0 then itoa (HostPort p) else '''')"
  have c: "parse_container_port c = Inr (ContainerPort p, Protocol p)" "CHR '':'' \<notin> set c"
    using assms(1) container_port_string [of "ContainerPort p" "Protocol p"]
    by (auto simp: port_mapping_ok_def c_def)
  have h: "parse_host_port h = Inr (HostPort p)" "CHR '':'' \<notin> set h"
    using assms(1) host_port_string [of "HostPort p"] by (auto simp: port_mapping_ok_def h_def)
  have s: "port_mapping_string p =
      (if HostIP p = '''' then h @ CHR '':'' # c else HostIP p @ CHR '':'' # h @ CHR '':'' # c)"
    by (simp add: port_mapping_string_def Let_def c_def h_def)
  have "parse_port_mapping (port_mapping_string p) = Inr p"
    using c h assms(2) by (simp add: s parse_port_mapping_def split_on_append split_on_free)
  then show ?thesis using assms(1) by (simp add: port_mapping_parse_def)
qed

section \<open>Which texts are port mappings\<close>

text \<open>
  The form of a mapping, without the parser: an optional host address, an optional host port, a container port and an
  optional protocol in any case.
\<close>

definition container_port_text :: "string \<Rightarrow> bool" where
  "container_port_text c \<longleftrightarrow>
     (\<exists>p n. atoi p = Inr n \<and> 1 \<le> n \<and> n \<le> 65535 \<and>
       (c = p \<or> (\<exists>q. c = p @ ''/'' @ q \<and> to_lower q \<in> {''tcp'', ''udp''})))"

definition host_port_text :: "string \<Rightarrow> bool" where
  "host_port_text h \<longleftrightarrow> h = '''' \<or> (\<exists>n. atoi h = Inr n \<and> 0 \<le> n \<and> n \<le> 65535)"

definition port_text :: "string \<Rightarrow> bool" where
  "port_text s \<longleftrightarrow>
     container_port_text s \<or>
     (\<exists>h c. s = h @ '':'' @ c \<and> host_port_text h \<and> container_port_text c) \<or>
     (\<exists>ip h c. s = ip @ '':'' @ h @ '':'' @ c \<and> CHR '':'' \<notin> set ip \<and> host_port_text h \<and> container_port_text c)"

lemma protocol_free:
  assumes "to_lower q \<in> {''tcp'', ''udp''}"
  shows "CHR ''/'' \<notin> set q" "CHR '':'' \<notin> set q"
proof -
  have "lower_char CHR ''/'' \<notin> set (to_lower q)" "lower_char CHR '':'' \<notin> set (to_lower q)"
    using assms by (auto simp: lower_char_def)
  then show "CHR ''/'' \<notin> set q" "CHR '':'' \<notin> set q" unfolding to_lower_def set_map by (metis imageI)+
qed

lemma parse_container_port_ok: "is_ok (parse_container_port c) = container_port_text c"
proof
  assume "container_port_text c"
  then obtain p n where p: "atoi p = Inr n" "1 \<le> n" "n \<le> 65535"
    and c: "c = p \<or> (\<exists>q. c = p @ ''/'' @ q \<and> to_lower q \<in> {''tcp'', ''udp''})"
    by (auto simp: container_port_text_def)
  have f: "CHR ''/'' \<notin> set p" using atoi_free [OF p(1)] by (simp add: is_digit_def)
  from c show "is_ok (parse_container_port c)"
  proof
    assume "c = p"
    with f p show ?thesis by (simp add: parse_container_port_def split_on_free)
  next
    assume "\<exists>q. c = p @ ''/'' @ q \<and> to_lower q \<in> {''tcp'', ''udp''}"
    then obtain q where q: "c = p @ CHR ''/'' # q" "to_lower q \<in> {''tcp'', ''udp''}" by auto
    have "split_on CHR ''/'' c = [p, q]" unfolding q(1) using f protocol_free(1) [OF q(2)] by (simp add: split_on_append split_on_free)
    with p q(2) show ?thesis by (auto simp: parse_container_port_def protocolTCP_def protocolUDP_def)
  qed
next
  assume "is_ok (parse_container_port c)"
  then obtain a b where ab: "(split_on CHR ''/'' c = [a] \<or> (\<exists>q. split_on CHR ''/'' c = [a, q] \<and> to_lower q \<in> {''tcp'', ''udp''}))"
    and p: "atoi a = Inr b" "1 \<le> b" "b \<le> 65535"
    by (auto simp: parse_container_port_def is_ok_iff protocolTCP_def protocolUDP_def split: list.splits sum.splits if_splits)
  have j: "c = join ''/'' (split_on CHR ''/'' c)" by simp
  from ab show "container_port_text c"
  proof (elim disjE exE conjE)
    assume "split_on CHR ''/'' c = [a]"
    with j have "c = a" by simp
    with p show ?thesis by (auto simp: container_port_text_def)
  next
    fix q assume "split_on CHR ''/'' c = [a, q]" "to_lower q \<in> {''tcp'', ''udp''}"
    with j p show ?thesis unfolding container_port_text_def by (metis join.simps(2,3) append.assoc)
  qed
qed

lemma parse_container_port_range:
  assumes "parse_container_port c = Inr (n, pr)"
  shows "1 \<le> n \<and> n \<le> 65535 \<and> pr \<in> {protocolTCP, protocolUDP}"
proof -
  obtain a b where ab: "(case atoi a of
          Inl _ \<Rightarrow> Inl OtherError
        | Inr port \<Rightarrow>
            if port < 1 \<or> 65535 < port then Inl OtherError
            else if b = '''' then Inl OtherError
            else if b = protocolUDP \<or> b = protocolTCP then Inr (port, b)
            else Inl OtherError) = Inr (n, pr)"
    using assms by (auto simp: parse_container_port_def)
  then show ?thesis by (cases "atoi a") (auto split: if_split_asm)
qed

lemma port_texts_free: "container_port_text c \<Longrightarrow> CHR '':'' \<notin> set c" "host_port_text h \<Longrightarrow> CHR '':'' \<notin> set h"
  using atoi_free [of _ _ "CHR '':''"] protocol_free(2)
  by (fastforce simp: container_port_text_def host_port_text_def is_digit_def)+

text \<open>What a list of parts between colons stands for.\<close>

fun port_parts :: "string list \<Rightarrow> bool" where
  "port_parts [c] = container_port_text c"
| "port_parts [h, c] = (host_port_text h \<and> container_port_text c)"
| "port_parts [ip, h, c] = (host_port_text h \<and> container_port_text c)"
| "port_parts _ = False"

lemma host_ok: "(\<exists>hp. parse_host_port h = Inr hp \<and> 0 \<le> hp \<and> hp \<le> 65535) = host_port_text h"
  by (auto simp: parse_host_port_def host_port_text_def)

lemma container_ok: "(\<exists>cp pr. parse_container_port c = Inr (cp, pr)) = container_port_text c"
  using parse_container_port_ok [of c] by (auto simp: is_ok_iff)

lemma port_mapping_parse_parts: "is_ok (port_mapping_parse s) = port_parts (split_on CHR '':'' s)"
proof -
  have "(\<exists>y. port_mapping_parse s = Inr y) = port_parts (split_on CHR '':'' s)"
    unfolding port_mapping_parse_def parse_port_mapping_def
    by (cases "split_on CHR '':'' s" rule: port_parts.cases)
      (auto simp: host_ok [symmetric] container_ok [symmetric] port_mapping_ok_def dest: parse_container_port_range)
  then show ?thesis by (simp add: is_ok_iff)
qed

lemma port_mapping_parse_text: "is_ok (port_mapping_parse s) = port_text s"
proof -
  have "s = join '':'' (split_on CHR '':'' s)" by simp
  moreover have "\<forall>p \<in> set (split_on CHR '':'' s). CHR '':'' \<notin> set p" using split_on_parts by blast
  ultimately have "port_parts (split_on CHR '':'' s) \<Longrightarrow> port_text s"
    unfolding port_text_def
    by (cases "split_on CHR '':'' s" rule: port_parts.cases) (simp_all only: port_parts.simps join.simps list.set ball_simps insert_iff, blast+)
  moreover have "port_parts (split_on CHR '':'' s)" if "port_text s"
    using that port_texts_free
    by (auto simp: port_text_def split_on_append split_on_free)
  ultimately show ?thesis unfolding port_mapping_parse_parts by blast
qed

end
