(* ===== verification/Volumes.thy ===== *)
theory Volumes
  imports Prelude
begin

text \<open>
  Volumes: \<^verbatim>\<open>jobs/volume.go\<close> and \<^verbatim>\<open>jobs/volume_list.go\<close>.
  The lemmas give the volumes that parsing can return, the round trip through
  \<^verbatim>\<open>Volume.String\<close> and the order \<^verbatim>\<open>VolumeList\<close> sorts by.
\<close>

definition VolumeTypeLocal :: string where "VolumeTypeLocal = ''local''"
definition VolumeTypeInstance :: string where "VolumeTypeInstance = ''instance''"

definition volume_type_validate :: "string \<Rightarrow> unit res" where
  "volume_type_validate vt = guard (vt \<in> {''local'', ''instance'', ''''}) ValidationError"

record volume =
  v_Path :: string
  v_Type :: string
  v_HostPath :: string
  v_Options :: "string list"
  v_MountOptions :: "string list"

definition volume_validate :: "volume \<Rightarrow> unit res" where
  "volume_validate v =
     (if v_Path v = '''' then Inl ValidationError else volume_type_validate (v_Type v))"

definition volume_is_local :: "volume \<Rightarrow> bool" where
  "volume_is_local v = (v_Type v = VolumeTypeLocal)"

definition volume_is_instance :: "volume \<Rightarrow> bool" where
  "volume_is_instance v = (v_Type v = VolumeTypeInstance)"

definition volume_is_read_only :: "volume \<Rightarrow> bool" where
  "volume_is_read_only v = list_ex (\<lambda>o'. o' = ''ro'') (v_Options v)"

fun mount_option_in :: "string list \<Rightarrow> string \<Rightarrow> string res" where
  "mount_option_in [] key = Inl OptionNotFoundError"
| "mount_option_in (x # xs) key =
     (if x = key then Inr ''''
      else if prefix (key @ ''='') x then Inr (drop (length key + 1) x)
      else mount_option_in xs key)"

definition mount_option :: "volume \<Rightarrow> string \<Rightarrow> string res" where
  "mount_option v key = mount_option_in (v_MountOptions v) key"

definition volume_string :: "volume \<Rightarrow> string" where
  "volume_string v =
     (if v_Type v = VolumeTypeLocal then
        join '':'' ([v_HostPath v, v_Path v] @
          (if 0 < length (v_Options v) then [join '','' (v_Options v)] else []))
      else if v_Type v = VolumeTypeInstance then
        join '':'' ([v_Type v @ (if 0 < length (v_MountOptions v) then ''@'' @ join '','' (v_MountOptions v) else ''''),
           v_Path v] @
          (if 0 < length (v_Options v) then [join '','' (v_Options v)] else []))
      else '''')"

text \<open>\<^verbatim>\<open>MarshalJSON\<close> up to the JSON quoting of the string.\<close>

definition volume_marshal :: "volume \<Rightarrow> string res" where
  "volume_marshal v = (if volume_string v = '''' then Inl ValidationError else Inr (volume_string v))"

definition parse_volume_options :: "string \<Rightarrow> string list res" where
  "parse_volume_options input =
     (let parts = split_on CHR '','' input
      in if list_all (\<lambda>p. p \<in> {''rw'', ''ro'', ''shared'', ''private''}) parts then Inr parts
         else Inl ValidationError)"

definition parse_volume_type :: "string \<Rightarrow> (string \<times> string list) res" where
  "parse_volume_type input =
     (case split_first CHR ''@'' input of (vtype, rest) \<Rightarrow>
        rbind (volume_type_validate vtype) (\<lambda>_.
          Inr (vtype, case rest of None \<Rightarrow> [] | Some r \<Rightarrow> split_on CHR '','' r)))"

definition parse_volume :: "string \<Rightarrow> volume res" where
  "parse_volume input =
     (case split_on CHR '':'' input of
        [p] \<Rightarrow> Inr \<lparr>v_Path = input, v_Type = VolumeTypeInstance, v_HostPath = '''',
                    v_Options = [], v_MountOptions = []\<rparr>
      | [a, b] \<Rightarrow>
          (case parse_volume_type a of
             Inr (vt, mo) \<Rightarrow> Inr \<lparr>v_Path = b, v_Type = vt, v_HostPath = '''', v_Options = [], v_MountOptions = mo\<rparr>
           | Inl _ \<Rightarrow> Inr \<lparr>v_Path = b, v_Type = VolumeTypeLocal, v_HostPath = a,
                          v_Options = [], v_MountOptions = []\<rparr>)
      | [a, b, c] \<Rightarrow>
          (case parse_volume_type a of
             Inr _ \<Rightarrow> Inl ValidationError
           | Inl _ \<Rightarrow> rbind (parse_volume_options c) (\<lambda>opts.
               Inr \<lparr>v_Path = b, v_Type = VolumeTypeLocal, v_HostPath = a,
                    v_Options = opts, v_MountOptions = []\<rparr>))
      | _ \<Rightarrow> Inl ValidationError)"

text \<open>\<^verbatim>\<open>VolumeList.Less\<close>, as a sort key: non-local volumes first, then by path.\<close>

definition volume_less :: "volume \<Rightarrow> volume \<Rightarrow> bool" where
  "volume_less vi vj =
     (if \<not> volume_is_local vi \<and> volume_is_local vj then True
      else if volume_is_local vi \<and> \<not> volume_is_local vj then False
      else v_Path vi < v_Path vj)"

definition volume_key :: "volume \<Rightarrow> string" where
  "volume_key v = (if volume_is_local v then CHR 0x01 else CHR 0x00) # v_Path v"

lemma volume_less_key: "volume_less v w \<longleftrightarrow> volume_key v < volume_key w"
proof -
  have "(CHR 0x00 :: char) < CHR 0x01" by (simp add: less_char_def)
  then show ?thesis by (auto simp: volume_less_def volume_key_def)
qed

section \<open>Round trip\<close>

lemma volume_types [simp]: "VolumeTypeLocal \<noteq> ''''" "VolumeTypeInstance \<noteq> ''''"
    "VolumeTypeInstance \<noteq> VolumeTypeLocal" "VolumeTypeLocal \<noteq> VolumeTypeInstance"
  by (simp_all add: VolumeTypeLocal_def VolumeTypeInstance_def)

lemma parse_volume_type_ok:
  "parse_volume_type a = Inr (vt, mo) \<Longrightarrow>
     vt \<in> {VolumeTypeLocal, VolumeTypeInstance, ''''} \<and>
     (mo = [] \<and> a = vt \<or> mo \<noteq> [] \<and> a = vt @ ''@'' @ join '','' mo)"
  by (auto simp: parse_volume_type_def volume_type_validate_def VolumeTypeLocal_def VolumeTypeInstance_def
      split: prod.splits option.splits simp: split_first_None split_first_Some)

text \<open>
  A volume whose printed form is parsed back: a type, and for a local volume a host path.
  Parsing returns other volumes too, from inputs such as \<open>:/data\<close> (no type) and
  \<open>local:/data\<close> (no host path).
\<close>

definition volume_printable :: "volume \<Rightarrow> bool" where
  "volume_printable v \<longleftrightarrow> v_Type v \<noteq> '''' \<and> (volume_is_local v \<longrightarrow> v_HostPath v \<noteq> '''')"

lemma parse_local_string:
  assumes "parse_volume_type a = Inl e" "CHR '':'' \<notin> set a" "CHR '':'' \<notin> set b"
    and "opts = [] \<or> parse_volume_options c = Inr opts \<and> CHR '':'' \<notin> set c"
  shows "parse_volume (volume_string \<lparr>v_Path = b, v_Type = VolumeTypeLocal, v_HostPath = a,
      v_Options = opts, v_MountOptions = []\<rparr>) =
    Inr \<lparr>v_Path = b, v_Type = VolumeTypeLocal, v_HostPath = a, v_Options = opts, v_MountOptions = []\<rparr>"
proof (cases "opts = []")
  case True
  with assms show ?thesis by (simp add: volume_string_def parse_volume_def go_strings)
next
  case False
  with assms have c: "parse_volume_options c = Inr opts" "CHR '':'' \<notin> set c" by auto
  then have "join '','' opts = c"
    by (auto simp: parse_volume_options_def Let_def split: if_splits)
  with assms False c show ?thesis
    by (simp add: volume_string_def parse_volume_def go_strings)
qed

lemma parse_instance_string:
  assumes "parse_volume_type a = Inr (VolumeTypeInstance, mo)" "CHR '':'' \<notin> set a" "CHR '':'' \<notin> set b"
  shows "parse_volume (volume_string \<lparr>v_Path = b, v_Type = VolumeTypeInstance, v_HostPath = '''',
      v_Options = [], v_MountOptions = mo\<rparr>) =
    Inr \<lparr>v_Path = b, v_Type = VolumeTypeInstance, v_HostPath = '''', v_Options = [], v_MountOptions = mo\<rparr>"
proof -
  have "a = VolumeTypeInstance @ (if 0 < length mo then ''@'' @ join '','' mo else '''')"
    using parse_volume_type_ok [OF assms(1)] by auto
  then have "volume_string \<lparr>v_Path = b, v_Type = VolumeTypeInstance, v_HostPath = '''',
      v_Options = [], v_MountOptions = mo\<rparr> = a @ CHR '':'' # b"
    by (simp add: volume_string_def)
  then show ?thesis using assms by (simp add: parse_volume_def go_strings)
qed

lemma parse_volume_type_instance: "parse_volume_type VolumeTypeInstance = Inr (VolumeTypeInstance, [])"
  by (simp add: parse_volume_type_def VolumeTypeInstance_def volume_type_validate_def guard_def)

lemma parse_volume_cases:
  assumes "parse_volume s = Inr v"
  obtains (whole) "CHR '':'' \<notin> set s"
      "v = \<lparr>v_Path = s, v_Type = VolumeTypeInstance, v_HostPath = '''', v_Options = [], v_MountOptions = []\<rparr>"
  | (typed) a b vt mo where "CHR '':'' \<notin> set a" "CHR '':'' \<notin> set b" "parse_volume_type a = Inr (vt, mo)"
      "v = \<lparr>v_Path = b, v_Type = vt, v_HostPath = '''', v_Options = [], v_MountOptions = mo\<rparr>"
  | (host) a b c opts e where "CHR '':'' \<notin> set a" "CHR '':'' \<notin> set b" "parse_volume_type a = Inl e"
      "opts = [] \<or> parse_volume_options c = Inr opts \<and> CHR '':'' \<notin> set c"
      "v = \<lparr>v_Path = b, v_Type = VolumeTypeLocal, v_HostPath = a, v_Options = opts, v_MountOptions = []\<rparr>"
proof -
  have free: "p \<in> set (split_on CHR '':'' s) \<Longrightarrow> CHR '':'' \<notin> set p" for p
    by (rule split_on_parts)
  consider p where "split_on CHR '':'' s = [p]" | a b where "split_on CHR '':'' s = [a, b]"
    | a b c where "split_on CHR '':'' s = [a, b, c]"
    using assms by (auto simp: parse_volume_def split: list.splits)
  then show thesis
  proof cases
    case 1
    then have "s = p" using join_split_on [of "CHR '':''" s] by simp
    then show thesis using 1 assms free whole by (simp add: parse_volume_def)
  next
    case 2
    then show thesis using assms free [of a] free [of b] typed host [of a b _ "[]"]
      by (auto simp: parse_volume_def split: sum.splits)
  next
    case 3
    then show thesis using assms free [of a] free [of b] free [of c] host [of a b _ _ c]
      by (auto simp: parse_volume_def split: sum.splits)
  qed
qed

lemma parse_volume_string:
  assumes "parse_volume s = Inr v" and "volume_printable v"
  shows "parse_volume (volume_string v) = Inr v"
  using assms(1)
proof (cases rule: parse_volume_cases)
  case whole
  then show ?thesis
    using parse_instance_string [OF parse_volume_type_instance, of s]
    by (simp add: VolumeTypeInstance_def)
next
  case (typed a b vt mo)
  then have "vt = VolumeTypeInstance"
    using parse_volume_type_ok [OF typed(3)] assms(2)
    by (auto simp: volume_printable_def volume_is_local_def)
  with typed show ?thesis using parse_instance_string [of a mo b] by simp
next
  case (host a b c opts e)
  then show ?thesis using parse_local_string [of a e b opts c] by simp
qed

end
