(* ===== verification/Constraints.thy ===== *)
theory Constraints
  imports Prelude
begin

text \<open>
  Scheduling constraints: \<^verbatim>\<open>jobs/constraint.go\<close>. A list of constraints acts
  as a partial map from attributes; \<^verbatim>\<open>Merge\<close> is an override of that map and
  keeps a valid list valid, while \<^verbatim>\<open>Add\<close> keeps both copies of an attribute.
\<close>

definition MetaAttributePrefix :: string where "MetaAttributePrefix = ''meta.''"
definition AttributeNodeID :: string where "AttributeNodeID = ''node.id''"
definition AttributeTaskGroup :: string where "AttributeTaskGroup = ''taskgroup''"
definition OperatorEqual :: string where "OperatorEqual = ''==''"
definition OperatorNotEqual :: string where "OperatorNotEqual = ''!=''"

record constraint =
  Attribute :: string
  Value :: string
  Operator :: string

definition operator_equals :: "constraint \<Rightarrow> string \<Rightarrow> bool" where
  "operator_equals c oper =
     (let cop = (if Operator c = '''' then OperatorEqual else Operator c);
          oper' = (if oper = '''' then OperatorEqual else oper)
      in cop = oper')"

definition constraint_validate :: "constraint \<Rightarrow> unit res" where
  "constraint_validate c =
     (if Attribute c = '''' then Inl ValidationError
      else guard (Operator c \<in> {'''', OperatorEqual, OperatorNotEqual}) ValidationError)"

definition constraint_equals :: "constraint \<Rightarrow> constraint \<Rightarrow> bool" where
  "constraint_equals c d =
     (Attribute c = Attribute d \<and> Value c = Value d \<and> Operator c = Operator d)"

text \<open>Go's \<^verbatim>\<open>&&\<close> binds tighter than \<^verbatim>\<open>||\<close>.\<close>

definition conflicts :: "constraint \<Rightarrow> constraint \<Rightarrow> bool" where
  "conflicts c d =
     ((Attribute c = Attribute d \<and> Value c \<noteq> Value d) \<or> Operator c \<noteq> Operator d)"

fun constraints_validate_from :: "string list \<Rightarrow> constraint list \<Rightarrow> unit res" where
  "constraints_validate_from seen [] = Inr ()"
| "constraints_validate_from seen (c # cs) =
     rbind (constraint_validate c) (\<lambda>_.
       if Attribute c \<in> set seen then Inl ValidationError
       else constraints_validate_from (Attribute c # seen) cs)"

definition constraints_validate :: "constraint list \<Rightarrow> unit res" where
  "constraints_validate cs = constraints_validate_from [] cs"

definition constraints_get :: "constraint list \<Rightarrow> string \<Rightarrow> constraint option" where
  "constraints_get cs attr = List.find (\<lambda>c. Attribute c = attr) cs"

definition constraints_contains :: "constraint list \<Rightarrow> string \<Rightarrow> bool" where
  "constraints_contains cs attr = (constraints_get cs attr \<noteq> None)"

fun constraints_add_loop :: "constraint list \<Rightarrow> constraint list \<Rightarrow> constraint list \<Rightarrow> constraint list res" where
  "constraints_add_loop additional result [] = Inr result"
| "constraints_add_loop additional result (c # cs) =
     (case constraints_get additional (Attribute c) of
        Some other \<Rightarrow>
          if conflicts c other then Inl ValidationError
          else constraints_add_loop additional (result @ [c]) cs
      | None \<Rightarrow> constraints_add_loop additional (result @ [c]) cs)"

definition constraints_add :: "constraint list \<Rightarrow> constraint list \<Rightarrow> constraint list res" where
  "constraints_add cs additional = constraints_add_loop additional additional cs"

definition constraints_merge :: "constraint list \<Rightarrow> constraint list \<Rightarrow> constraint list" where
  "constraints_merge cs additional =
     additional @ filter (\<lambda>c. \<not> constraints_contains additional (Attribute c)) cs"

definition constraints_sort :: "constraint list \<Rightarrow> constraint list" where
  "constraints_sort cs = go_sort Attribute cs"

section \<open>Validity\<close>

definition constraint_ok :: "constraint \<Rightarrow> bool" where
  "constraint_ok c \<longleftrightarrow> Attribute c \<noteq> '''' \<and> Operator c \<in> {'''', OperatorEqual, OperatorNotEqual}"

lemma constraint_validate_ok [simp]: "constraint_validate c = Inr u \<longleftrightarrow> constraint_ok c"
  by (auto simp: constraint_validate_def constraint_ok_def)

lemma constraints_validate_from_ok:
  "constraints_validate_from seen cs = Inr u \<longleftrightarrow>
     (\<forall>c \<in> set cs. constraint_ok c) \<and> distinct (map Attribute cs) \<and> set seen \<inter> Attribute ` set cs = {}"
  by (induction seen cs rule: constraints_validate_from.induct) auto

lemma constraints_validate_ok:
  "constraints_validate cs = Inr u \<longleftrightarrow>
     (\<forall>c \<in> set cs. constraint_ok c) \<and> distinct (map Attribute cs)"
  by (simp add: constraints_validate_def constraints_validate_from_ok)

section \<open>Lookup\<close>

lemma constraints_get_append:
  "constraints_get (xs @ ys) a =
     (case constraints_get xs a of None \<Rightarrow> constraints_get ys a | Some c \<Rightarrow> Some c)"
  by (induction xs) (simp_all add: constraints_get_def)

lemma constraints_get_filter:
  "constraints_get (filter (\<lambda>c. P (Attribute c)) cs) a = (if P a then constraints_get cs a else None)"
  by (induction cs) (auto simp: constraints_get_def)

lemma constraints_get_Some: "constraints_get cs a = Some c \<Longrightarrow> c \<in> set cs \<and> Attribute c = a"
  by (auto simp: constraints_get_def dest: find_Some_set)

lemma constraints_contains_iff: "constraints_contains cs a \<longleftrightarrow> a \<in> Attribute ` set cs"
  by (auto simp: constraints_contains_def constraints_get_def find_None_set)

lemma constraints_get_merge:
  "constraints_get (constraints_merge cs additional) a =
     (case constraints_get additional a of None \<Rightarrow> constraints_get cs a | Some c \<Rightarrow> Some c)"
proof (cases "constraints_get additional a")
  case None
  then show ?thesis
    using constraints_get_filter [of "\<lambda>a. \<not> constraints_contains additional a" cs a]
    by (simp add: constraints_merge_def constraints_get_append constraints_contains_def)
next
  case (Some c)
  then show ?thesis by (simp add: constraints_merge_def constraints_get_append)
qed

lemma constraints_merge_distinct:
  assumes "distinct (map Attribute cs)" "distinct (map Attribute additional)"
  shows "distinct (map Attribute (constraints_merge cs additional))"
proof -
  have "distinct (map Attribute (filter (\<lambda>c. \<not> constraints_contains additional (Attribute c)) cs))"
    using assms(1) by (rule distinct_map_filter)
  moreover have "Attribute ` set additional \<inter>
      Attribute ` set (filter (\<lambda>c. \<not> constraints_contains additional (Attribute c)) cs) = {}"
    by (auto simp: constraints_contains_iff) (metis imageI)
  ultimately show ?thesis using assms(2) by (simp add: constraints_merge_def)
qed

lemma constraints_merge_valid:
  assumes "constraints_validate cs = Inr ()" "constraints_validate additional = Inr ()"
  shows "constraints_validate (constraints_merge cs additional) = Inr ()"
  using assms constraints_merge_distinct [of cs additional]
  by (auto simp: constraints_validate_ok constraints_merge_def)

lemma constraints_add_loop_ok:
  "constraints_add_loop additional r cs = Inr r' \<longleftrightarrow>
     r' = r @ cs \<and>
     (\<forall>c \<in> set cs. \<forall>d. constraints_get additional (Attribute c) = Some d \<longrightarrow> \<not> conflicts c d)"
  by (induction additional r cs rule: constraints_add_loop.induct) (auto split: option.splits)

lemma conflicts_get:
  "constraints_get additional (Attribute c) = Some d \<Longrightarrow> conflicts c d \<longleftrightarrow> \<not> constraint_equals c d"
  by (auto simp: conflicts_def constraint_equals_def dest: constraints_get_Some)

lemma constraints_add_ok:
  "constraints_add cs additional = Inr r \<longleftrightarrow>
     r = additional @ cs \<and>
     (\<forall>c \<in> set cs. \<forall>d. constraints_get additional (Attribute c) = Some d \<longrightarrow> constraint_equals c d)"
  by (auto simp: constraints_add_def constraints_add_loop_ok conflicts_get)

text \<open>After \<^verbatim>\<open>Add\<close>, an attribute present on both sides occurs twice.\<close>

lemma constraints_add_shared_invalid:
  assumes "constraints_add cs additional = Inr r"
    and "c \<in> set cs" "constraints_contains additional (Attribute c)"
  shows "constraints_validate r \<noteq> Inr ()"
  using assms by (auto simp: constraints_add_ok constraints_validate_ok constraints_contains_iff)

lemma constraints_sort_valid:
  "constraints_validate (constraints_sort cs) = Inr u \<longleftrightarrow> constraints_validate cs = Inr u"
  by (simp add: constraints_validate_ok constraints_sort_def)

end
