(* ===== verification/Clusters.thy ===== *)
theory Clusters
  imports Prelude
begin

text \<open>
  The deployment target: \<^verbatim>\<open>cluster/cluster.go\<close>,
  \<^verbatim>\<open>docker.go\<close>, \<^verbatim>\<open>fleet.go\<close>,
  \<^verbatim>\<open>kubernetes.go\<close>. The environment (\<^verbatim>\<open>os.Getenv\<close>) and the
  expanded path of the home directory are parameters.
\<close>

record docker_options =
  LoggingArgs :: "string list"
  EnvFile :: string

record fleet_options =
  fo_After :: "string list"
  fo_Wants :: "string list"
  fo_Requires :: "string list"
  fo_GlobalInstanceConstraints :: "string list"

record kubernetes_options =
  KubeConfig :: string
  ko_Context :: string
  RegistrySecrets :: "string list"
  ko_GlobalInstanceConstraints :: "string list"
  ko_Domain :: string

text \<open>\<^verbatim>\<open>DefaultOptions\<close> is consulted by template functions only and is left out.\<close>

record cluster =
  Stack :: string
  c_Domain :: string
  Tunnel :: string
  InstanceCount :: int
  Orchestrator :: string
  DockerOptions :: docker_options
  FleetOptions :: fleet_options
  KubernetesOptions :: kubernetes_options
  c_Network :: string

definition defaultInstanceCount :: int where "defaultInstanceCount = 3"

definition docker_options_validate :: "docker_options \<Rightarrow> unit res" where
  "docker_options_validate d = Inr ()"

definition fleet_options_validate :: "fleet_options \<Rightarrow> unit res" where
  "fleet_options_validate f = Inr ()"

definition kubernetes_options_validate :: "kubernetes_options \<Rightarrow> unit res" where
  "kubernetes_options_validate k = Inr ()"

definition fleet_options_set_defaults :: "fleet_options \<Rightarrow> fleet_options" where
  "fleet_options_set_defaults f =
     (if length (fo_GlobalInstanceConstraints f) = 0
      then f\<lparr>fo_GlobalInstanceConstraints := [''odd=true'', ''even=true'']\<rparr> else f)"

definition kubernetes_options_set_defaults :: "string \<Rightarrow> kubernetes_options \<Rightarrow> kubernetes_options" where
  "kubernetes_options_set_defaults kubePath k =
     (let k = (if length (ko_GlobalInstanceConstraints k) = 0
               then k\<lparr>ko_GlobalInstanceConstraints := [''odd=true'', ''even=true'']\<rparr> else k);
          k = (if KubeConfig k = '''' then k\<lparr>KubeConfig := kubePath\<rparr> else k)
      in if ko_Domain k = '''' then k\<lparr>ko_Domain := ''cluster.local''\<rparr> else k)"

definition cluster_set_defaults :: "(string \<Rightarrow> string) \<Rightarrow> string \<Rightarrow> cluster \<Rightarrow> cluster" where
  "cluster_set_defaults getenv kubePath c =
     (let c = (if Orchestrator c = ''''
               then c\<lparr>Orchestrator := (if getenv ''PULCY_ORCHESTRATOR'' = '''' then ''fleet''
                                       else getenv ''PULCY_ORCHESTRATOR'')\<rparr>
               else c);
          c = (if Tunnel c = '''' then c\<lparr>Tunnel := Stack c @ ''.'' @ c_Domain c\<rparr> else c);
          c = (if InstanceCount c = 0 then c\<lparr>InstanceCount := defaultInstanceCount\<rparr> else c)
      in c\<lparr>FleetOptions := fleet_options_set_defaults (FleetOptions c),
           KubernetesOptions := kubernetes_options_set_defaults kubePath (KubernetesOptions c)\<rparr>)"

definition cluster_validate :: "cluster \<Rightarrow> unit res" where
  "cluster_validate c =
     (if Stack c = '''' then Inl ValidationError
      else if c_Domain c = '''' then Inl ValidationError
      else if Tunnel c = '''' then Inl ValidationError
      else if InstanceCount c = 0 then Inl ValidationError
      else if InstanceCount c < 0 then Inl ValidationError
      else rbind (docker_options_validate (DockerOptions c)) (\<lambda>_.
           rbind (fleet_options_validate (FleetOptions c)) (\<lambda>_.
           kubernetes_options_validate (KubernetesOptions c))))"

definition empty_cluster :: cluster where
  "empty_cluster = \<lparr>Stack = '''', c_Domain = '''', Tunnel = '''', InstanceCount = 0, Orchestrator = '''',
     DockerOptions = \<lparr>LoggingArgs = [], EnvFile = ''''\<rparr>,
     FleetOptions = \<lparr>fo_After = [], fo_Wants = [], fo_Requires = [], fo_GlobalInstanceConstraints = []\<rparr>,
     KubernetesOptions = \<lparr>KubeConfig = '''', ko_Context = '''', RegistrySecrets = [],
       ko_GlobalInstanceConstraints = [], ko_Domain = ''''\<rparr>, c_Network = ''''\<rparr>"

definition cluster_new :: "(string \<Rightarrow> string) \<Rightarrow> string \<Rightarrow> string \<Rightarrow> string \<Rightarrow> int \<Rightarrow> cluster" where
  "cluster_new getenv kubePath domain stack instanceCount =
     cluster_set_defaults getenv kubePath
       (empty_cluster\<lparr>c_Domain := domain, Stack := stack, InstanceCount := instanceCount\<rparr>)"

section \<open>Defaults make a cluster valid\<close>

lemma cluster_set_defaults_fields [simp]:
  "Stack (cluster_set_defaults e k c) = Stack c"
  "c_Domain (cluster_set_defaults e k c) = c_Domain c"
  "Tunnel (cluster_set_defaults e k c) = (if Tunnel c = '''' then Stack c @ ''.'' @ c_Domain c else Tunnel c)"
  "InstanceCount (cluster_set_defaults e k c) = (if InstanceCount c = 0 then 3 else InstanceCount c)"
  "FleetOptions (cluster_set_defaults e k c) = fleet_options_set_defaults (FleetOptions c)"
  "KubernetesOptions (cluster_set_defaults e k c) = kubernetes_options_set_defaults k (KubernetesOptions c)"
  "Orchestrator (cluster_set_defaults e k c) \<noteq> ''''"
  "DockerOptions (cluster_set_defaults e k c) = DockerOptions c"
  "c_Network (cluster_set_defaults e k c) = c_Network c"
  by (simp_all add: cluster_set_defaults_def Let_def defaultInstanceCount_def)

lemma cluster_set_defaults_orchestrator:
  "Orchestrator (cluster_set_defaults e k c) =
     (if Orchestrator c \<noteq> '''' then Orchestrator c
      else if e ''PULCY_ORCHESTRATOR'' = '''' then ''fleet'' else e ''PULCY_ORCHESTRATOR'')"
  by (simp add: cluster_set_defaults_def Let_def)

lemma cluster_validate_ok:
  "cluster_validate c = Inr u \<longleftrightarrow>
     Stack c \<noteq> '''' \<and> c_Domain c \<noteq> '''' \<and> Tunnel c \<noteq> '''' \<and> 0 < InstanceCount c"
  by (auto simp: cluster_validate_def docker_options_validate_def fleet_options_validate_def
      kubernetes_options_validate_def)

lemma fleet_defaults_idem [simp]:
  "fleet_options_set_defaults (fleet_options_set_defaults f) = fleet_options_set_defaults f"
  by (simp add: fleet_options_set_defaults_def)

lemma fleet_defaults_constraints [simp]:
  "fo_GlobalInstanceConstraints (fleet_options_set_defaults f) \<noteq> []"
  by (simp add: fleet_options_set_defaults_def)

lemma kubernetes_defaults_idem [simp]:
  "kubernetes_options_set_defaults p (kubernetes_options_set_defaults p k) = kubernetes_options_set_defaults p k"
  by (simp add: kubernetes_options_set_defaults_def Let_def)

end
