(* ===== verification/Model.thy ===== *)
theory Model
  imports Names Images Ports Volumes Constraints Clusters
begin

text \<open>
  The job description: \<^verbatim>\<open>jobs/job.go\<close>, \<^verbatim>\<open>taskgroup.go\<close>,
  \<^verbatim>\<open>task.go\<close> and the small types a task is made of
  (\<^verbatim>\<open>frontend.go\<close>, \<^verbatim>\<open>secret.go\<close>,
  \<^verbatim>\<open>rewrite.go\<close>, \<^verbatim>\<open>metrics.go\<close>,
  \<^verbatim>\<open>link.go\<close>, \<^verbatim>\<open>dependency.go\<close>,
  \<^verbatim>\<open>logging.go\<close>, \<^verbatim>\<open>network_type.go\<close>,
  \<^verbatim>\<open>restart_policy.go\<close>, \<^verbatim>\<open>task_type.go\<close>). The pointers
  \<^verbatim>\<open>task.group\<close> and \<^verbatim>\<open>group.job\<close> become explicit
  arguments: an operation on a task that follows them takes the job, the group and the task.
  A Go map with string keys is an association list whose order stands for the iteration order.
\<close>

section \<open>Types of a task\<close>

definition task_type_validate :: "string \<Rightarrow> unit res" where
  "task_type_validate tt = guard (tt \<in> {''service'', ''oneshot'', ''proxy''}) ValidationError"

definition is_service :: "string \<Rightarrow> bool" where "is_service tt = (tt = ''service'')"
definition is_oneshot :: "string \<Rightarrow> bool" where "is_oneshot tt = (tt = ''oneshot'')"
definition is_proxy :: "string \<Rightarrow> bool" where "is_proxy tt = (tt = ''proxy'')"

definition NetworkTypeDefault :: string where "NetworkTypeDefault = ''default''"
definition NetworkTypeHost :: string where "NetworkTypeHost = ''host''"
definition NetworkTypeWeave :: string where "NetworkTypeWeave = ''weave''"

definition network_type_validate :: "string \<Rightarrow> unit res" where
  "network_type_validate nt =
     guard (nt \<in> {NetworkTypeDefault, NetworkTypeHost, NetworkTypeWeave}) ValidationError"

definition network_is_default :: "string \<Rightarrow> bool" where "network_is_default nt = (nt = NetworkTypeDefault)"
definition network_is_host :: "string \<Rightarrow> bool" where "network_is_host nt = (nt = NetworkTypeHost)"
definition network_is_weave :: "string \<Rightarrow> bool" where "network_is_weave nt = (nt = NetworkTypeWeave)"

definition restart_policy_validate :: "string \<Rightarrow> unit res" where
  "restart_policy_validate rp = guard (rp \<in> {''all'', ''''}) ValidationError"

definition restart_policy_is_all :: "string \<Rightarrow> bool" where "restart_policy_is_all rp = (rp = ''all'')"

definition log_driver_validate :: "string \<Rightarrow> unit res" where
  "log_driver_validate lg = guard (lg \<in> {'''', ''none''}) OtherError"

definition create_docker_log_args :: "string \<Rightarrow> docker_options \<Rightarrow> string list" where
  "create_docker_log_args lg dopts =
     (if lg = '''' then LoggingArgs dopts else if lg = ''none'' then [] else [])"

section \<open>Frontends, secrets, rewrites, metrics, links\<close>

record user =
  u_Name :: string
  u_Password :: string

record public_front_end =
  pf_Domain :: string
  pf_PathPrefix :: string
  pf_SslCert :: string
  pf_Port :: int
  pf_HostPort :: int
  pf_Users :: "user list"
  pf_Mode :: string
  pf_Weight :: int

record private_front_end =
  vf_Port :: int
  vf_HostPort :: int
  vf_Users :: "user list"
  vf_Weight :: int
  vf_Mode :: string
  vf_RegisterInstance :: bool

definition public_front_end_validate :: "public_front_end \<Rightarrow> unit res" where
  "public_front_end_validate f =
     (if pf_Weight f < 0 \<or> 100 < pf_Weight f then Inl ValidationError
      else if pf_SslCert f \<noteq> '''' \<and> pf_Domain f = '''' then Inl ValidationError
      else if pf_Mode f = '''' \<or> pf_Mode f = ''http'' then Inr ()
      else if pf_Mode f = ''tcp'' then
        (if pf_Domain f = '''' \<and> pf_HostPort f = 0 then Inl ValidationError
         else if pf_Domain f \<noteq> '''' \<and> pf_HostPort f \<noteq> 0 then Inl ValidationError
         else if pf_PathPrefix f \<noteq> '''' \<and> pf_HostPort f \<noteq> 0 then Inl ValidationError
         else Inr ())
      else Inl ValidationError)"

definition private_front_end_validate :: "private_front_end \<Rightarrow> unit res" where
  "private_front_end_validate f =
     (if vf_Weight f < 0 \<or> 100 < vf_Weight f then Inl ValidationError
      else guard (vf_Mode f \<in> {'''', ''http'', ''tcp''}) ValidationError)"

definition private_is_tcp :: "private_front_end \<Rightarrow> bool" where
  "private_is_tcp f = (vf_Mode f = ''tcp'')"

record secret =
  s_Path :: string
  s_Field :: string
  s_Environment :: string
  s_File :: string

definition secret_validate :: "secret \<Rightarrow> unit res" where
  "secret_validate s =
     (if s_Path s = '''' then Inl ValidationError
      else if s_Environment s = '''' \<and> s_File s = '''' then Inl ValidationError
      else Inr ())"

definition target_environment :: "secret \<Rightarrow> bool \<times> string" where
  "target_environment s = (if s_Environment s \<noteq> '''' then (True, s_Environment s) else (False, ''''))"

definition target_file :: "secret \<Rightarrow> bool \<times> string" where
  "target_file s = (if s_File s \<noteq> '''' then (True, s_File s) else (False, ''''))"

definition vault_path :: "secret \<Rightarrow> string" where
  "vault_path s = (if s_Field s \<noteq> '''' then s_Path s @ ''#'' @ s_Field s else s_Path s)"

definition secrets_validate :: "secret list \<Rightarrow> unit res" where
  "secrets_validate ss = iter_res secret_validate ss"

definition any_target_environment :: "secret list \<Rightarrow> bool" where
  "any_target_environment ss = list_ex (\<lambda>s. fst (target_environment s)) ss"

definition any_target_file :: "secret list \<Rightarrow> bool" where
  "any_target_file ss = list_ex (\<lambda>s. fst (target_file s)) ss"

record rewrite =
  rw_PathPrefix :: string
  rw_RemovePathPrefix :: string
  rw_Domain :: string

definition has_path_prefix_only :: "rewrite \<Rightarrow> bool" where
  "has_path_prefix_only r = (rw_PathPrefix r \<noteq> '''' \<and> rw_RemovePathPrefix r = '''' \<and> rw_Domain r = '''')"

definition rewrite_merge :: "rewrite \<Rightarrow> rewrite \<Rightarrow> rewrite" where
  "rewrite_merge r other =
     \<lparr>rw_PathPrefix = (if rw_PathPrefix r = '''' then rw_PathPrefix other else rw_PathPrefix r),
      rw_RemovePathPrefix = (if rw_RemovePathPrefix r = '''' then rw_RemovePathPrefix other else rw_RemovePathPrefix r),
      rw_Domain = (if rw_Domain r = '''' then rw_Domain other else rw_Domain r)\<rparr>"

record metrics =
  m_Port :: int
  m_Path :: string
  m_RulesPath :: string

definition metrics_validate :: "metrics \<Rightarrow> unit res" where
  "metrics_validate m = Inr ()"

record link =
  l_Target :: string
  l_Type :: string
  l_Ports :: "int list"

definition link_equals :: "link \<Rightarrow> link \<Rightarrow> bool" where
  "link_equals l other = (l = other)"

definition link_record_validate :: "link \<Rightarrow> unit res" where
  "link_record_validate l =
     rbind (link_validate (l_Target l)) (\<lambda>_.
     rbind (link_type_validate (l_Type l)) (\<lambda>_.
       if length (l_Ports l) = 0 \<and> link_type_is_tcp (l_Type l) then Inl ValidationError
       else if length (l_Ports l) \<noteq> 0 \<and> \<not> link_type_is_tcp (l_Type l) then Inl ValidationError
       else Inr ()))"

definition links_add :: "link list \<Rightarrow> link \<Rightarrow> link list" where
  "links_add ls l = (if list_ex (\<lambda>x. link_equals x l) ls then ls else ls @ [l])"

fun first_port :: "('a \<Rightarrow> int) \<Rightarrow> 'a list \<Rightarrow> int \<Rightarrow> int" where
  "first_port port [] d = d"
| "first_port port (f # fs) d = (if port f \<noteq> 0 then port f else first_port port fs d)"

record dependency =
  d_Name :: string
  d_Network :: string
  d_PrivateFrontEnds :: "private_front_end list"

definition dependency_validate :: "dependency \<Rightarrow> unit res" where
  "dependency_validate d =
     rbind (link_validate (d_Name d)) (\<lambda>_. network_type_validate (d_Network d))"

definition dependency_private_front_end_port :: "dependency \<Rightarrow> int \<Rightarrow> int" where
  "dependency_private_front_end_port d dflt = first_port vf_Port (d_PrivateFrontEnds d) dflt"

definition dependencies_validate :: "dependency list \<Rightarrow> unit res" where
  "dependencies_validate ds = iter_res dependency_validate ds"

section \<open>Tasks, groups, jobs\<close>

record task =
  t_Name :: string
  t_OriginalIndex :: int
  t_Type :: string
  t_Engine :: string
  t_Timer :: string
  t_Image :: docker_image
  t_After :: "string list"
  t_VolumesFrom :: "string list"
  t_Volumes :: "volume list"
  t_Args :: "string list"
  t_Environment :: "(string \<times> string) list"
  t_Ports :: "string list"
  t_PublicFrontEnds :: "public_front_end list"
  t_PrivateFrontEnds :: "private_front_end list"
  t_HttpCheckPath :: string
  t_HttpCheckMethod :: string
  t_Sticky :: bool
  t_Backup :: bool
  t_Capabilities :: "string list"
  t_Network :: string
  t_Links :: "link list"
  t_Secrets :: "secret list"
  t_DockerArgs :: "string list"
  t_LogDriver :: string
  t_Target :: string
  t_Rewrite :: "rewrite option"
  t_User :: string
  t_Metrics :: "metrics option"

record task_group =
  g_Name :: string
  g_Count :: nat
  g_Global :: bool
  g_Tasks :: "task list"
  g_Constraints :: "constraint list"
  g_RestartPolicy :: string

record job =
  j_ID :: string
  j_Name :: string
  j_Groups :: "task_group list"
  j_Constraints :: "constraint list"
  j_Dependencies :: "dependency list"

definition empty_task :: task where
  "empty_task = \<lparr>t_Name = '''', t_OriginalIndex = 0, t_Type = '''', t_Engine = '''', t_Timer = '''',
     t_Image = empty_image, t_After = [], t_VolumesFrom = [], t_Volumes = [], t_Args = [],
     t_Environment = [], t_Ports = [], t_PublicFrontEnds = [], t_PrivateFrontEnds = [],
     t_HttpCheckPath = '''', t_HttpCheckMethod = '''', t_Sticky = False, t_Backup = False,
     t_Capabilities = [], t_Network = '''', t_Links = [], t_Secrets = [], t_DockerArgs = [],
     t_LogDriver = '''', t_Target = '''', t_Rewrite = None, t_User = '''', t_Metrics = None\<rparr>"

text \<open>Lookup by name; \<^verbatim>\<open>IndexByName\<close> returns -1 when there is no such task.\<close>

definition find_task :: "task list \<Rightarrow> string \<Rightarrow> task res" where
  "find_task ts name =
     (case List.find (\<lambda>t. t_Name t = name) ts of Some t \<Rightarrow> Inr t | None \<Rightarrow> Inl TaskNotFoundError)"

definition group_task :: "task_group \<Rightarrow> string \<Rightarrow> task res" where
  "group_task tg name = find_task (g_Tasks tg) name"

definition job_task_group :: "job \<Rightarrow> string \<Rightarrow> task_group res" where
  "job_task_group j name =
     (case List.find (\<lambda>g. g_Name g = name) (j_Groups j) of
        Some g \<Rightarrow> Inr g | None \<Rightarrow> Inl TaskGroupNotFoundError)"

definition job_dependency :: "job \<Rightarrow> string \<Rightarrow> dependency res" where
  "job_dependency j name =
     (case List.find (\<lambda>d. d_Name d = name) (j_Dependencies j) of
        Some d \<Rightarrow> Inr d | None \<Rightarrow> Inl DependencyNotFoundError)"

fun index_by_name_from :: "int \<Rightarrow> task list \<Rightarrow> string \<Rightarrow> int" where
  "index_by_name_from i [] name = -1"
| "index_by_name_from i (t # ts) name =
     (if t_Name t = name then i else index_by_name_from (i + 1) ts name)"

definition index_by_name :: "task list \<Rightarrow> string \<Rightarrow> int" where
  "index_by_name ts name = index_by_name_from 0 ts name"

fun max_count_from :: "nat \<Rightarrow> task_group list \<Rightarrow> nat" where
  "max_count_from n [] = n"
| "max_count_from n (g # gs) = max_count_from (if n < g_Count g then g_Count g else n) gs"

definition max_count :: "job \<Rightarrow> nat" where
  "max_count j = max_count_from 0 (j_Groups j)"

section \<open>Names derived from a task\<close>

definition group_full_name :: "job \<Rightarrow> task_group \<Rightarrow> string" where
  "group_full_name j tg = j_Name j @ ''/'' @ g_Name tg"

definition task_full_name :: "job \<Rightarrow> task_group \<Rightarrow> task \<Rightarrow> string" where
  "task_full_name j tg t = group_full_name j tg @ ''/'' @ t_Name t"

definition task_link_name :: "job \<Rightarrow> task_group \<Rightarrow> task \<Rightarrow> string \<Rightarrow> string" where
  "task_link_name j tg t i = new_link_name (j_Name j) (g_Name tg) (t_Name t) i"

definition task_private_domain_name :: "job \<Rightarrow> task_group \<Rightarrow> task \<Rightarrow> string" where
  "task_private_domain_name j tg t = private_domain_name (task_link_name j tg t '''')"

definition task_weave_domain_name :: "job \<Rightarrow> task_group \<Rightarrow> task \<Rightarrow> string" where
  "task_weave_domain_name j tg t = weave_domain_name (task_link_name j tg t '''')"

definition instance_specific_private_domain_name :: "job \<Rightarrow> task_group \<Rightarrow> task \<Rightarrow> nat \<Rightarrow> string" where
  "instance_specific_private_domain_name j tg t scalingGroup =
     private_domain_name (task_link_name j tg t (itoa (int_of_uint scalingGroup)))"

definition service_name :: "job \<Rightarrow> task_group \<Rightarrow> task \<Rightarrow> string" where
  "service_name j tg t = replace_char CHR ''/'' CHR ''-'' (task_full_name j tg t)"

definition container_name_ext :: "job \<Rightarrow> task_group \<Rightarrow> task \<Rightarrow> string \<Rightarrow> string" where
  "container_name_ext j tg t inst =
     (let base = replace_char CHR ''/'' CHR ''-'' (task_full_name j tg t)
      in if g_Global tg then base else base @ ''-'' @ inst)"

definition container_name :: "job \<Rightarrow> task_group \<Rightarrow> task \<Rightarrow> nat \<Rightarrow> string" where
  "container_name j tg t scalingGroup = container_name_ext j tg t (itoa (int_of_uint scalingGroup))"

definition resolve_link :: "job \<Rightarrow> task_group \<Rightarrow> task \<Rightarrow> string \<Rightarrow> string" where
  "resolve_link j tg t ln =
     (if ln = '''' then ln
      else case fst (link_parse ln) of (jn, tgn, tn, i) \<Rightarrow>
        new_link_name (if jn = '''' then j_Name j else jn) (if tgn = '''' then g_Name tg else tgn)
          (if tn = '''' then t_Name t else tn) i)"

definition merged_constraints :: "job \<Rightarrow> task_group \<Rightarrow> constraint list" where
  "merged_constraints j tg = constraints_merge (j_Constraints j) (g_Constraints tg)"

definition task_private_front_end_port :: "task \<Rightarrow> int \<Rightarrow> int" where
  "task_private_front_end_port t dflt = first_port vf_Port (t_PrivateFrontEnds t) dflt"

definition task_public_front_end_port :: "task \<Rightarrow> int \<Rightarrow> int" where
  "task_public_front_end_port t dflt = first_port pf_Port (t_PublicFrontEnds t) dflt"

text \<open>\<^verbatim>\<open>LinkName.Resolve\<close>: a task of this job, or a dependency on another job.\<close>

definition link_resolve :: "job \<Rightarrow> string \<Rightarrow> (task_group \<times> task + dependency) res" where
  "link_resolve j ln =
     rbind (link_job ln) (\<lambda>jn.
       if j_Name j \<noteq> jn then
         (case job_dependency j ln of Inl _ \<Rightarrow> Inl JobNotFoundError | Inr dep \<Rightarrow> Inr (Inr dep))
       else
         rbind (link_task_group ln) (\<lambda>gn.
         rbind (job_task_group j gn) (\<lambda>tg.
         rbind (link_task ln) (\<lambda>tn.
         rbind (group_task tg tn) (\<lambda>t. Inr (Inl (tg, t)))))))"

section \<open>Validation\<close>

definition count_frontends :: "task \<Rightarrow> nat \<times> nat" where
  "count_frontends t =
     (length (t_PublicFrontEnds t) + length (filter (\<lambda>f. \<not> private_is_tcp f) (t_PrivateFrontEnds t)),
      length (filter private_is_tcp (t_PrivateFrontEnds t)))"

definition task_validate :: "task_group \<Rightarrow> task \<Rightarrow> unit res" where
  "task_validate tg t =
     rbind (task_name_validate (t_Name t)) (\<lambda>_.
     rbind (task_type_validate (t_Type t)) (\<lambda>_.
     rbind (iter_res (\<lambda>n. rbind (group_task tg n) (\<lambda>_. Inr ())) (t_After t)) (\<lambda>_.
     rbind (iter_res (\<lambda>n. rbind (group_task tg n) (\<lambda>_. Inr ())) (t_VolumesFrom t)) (\<lambda>_.
     rbind (network_type_validate (t_Network t)) (\<lambda>_.
     rbind (iter_res link_record_validate (t_Links t)) (\<lambda>_.
     rbind (case t_Metrics t of None \<Rightarrow> Inr () | Some m \<Rightarrow> metrics_validate m) (\<lambda>_.
     rbind (iter_res (\<lambda>p. rbind (port_mapping_parse p) (\<lambda>_. Inr ())) (t_Ports t)) (\<lambda>_.
     rbind (iter_res public_front_end_validate (t_PublicFrontEnds t)) (\<lambda>_.
     rbind (iter_res private_front_end_validate (t_PrivateFrontEnds t)) (\<lambda>_.
     rbind (case count_frontends t of (httpFrontends, tcpFrontends) \<Rightarrow>
              if 0 < tcpFrontends \<and> 0 < httpFrontends then Inl ValidationError else Inr ()) (\<lambda>_.
     rbind (secrets_validate (t_Secrets t)) (\<lambda>_.
     rbind (if t_Timer t \<noteq> '''' \<and> t_Type t \<noteq> ''oneshot'' then Inl ValidationError else Inr ()) (\<lambda>_.
     rbind (log_driver_validate (t_LogDriver t)) (\<lambda>_.
     rbind (if t_Target t \<noteq> '''' \<and> t_Type t \<noteq> ''proxy'' then Inl ValidationError else Inr ()) (\<lambda>_.
     if t_Type t = ''proxy'' \<and> t_Target t = '''' then Inl ValidationError else Inr ())))))))))))))))"

fun tasks_validate :: "task_group \<Rightarrow> task list \<Rightarrow> unit res" where
  "tasks_validate tg [] = Inr ()"
| "tasks_validate tg (t # ts) =
     rbind (task_validate tg t) (\<lambda>_.
       if list_ex (\<lambda>u. t_Name u = t_Name t) ts then Inl ValidationError
       else tasks_validate tg ts)"

definition task_group_validate :: "task_group \<Rightarrow> unit res" where
  "task_group_validate tg =
     rbind (task_group_name_validate (g_Name tg)) (\<lambda>_.
     rbind (if g_Count tg \<le> 0 then Inl ValidationError else Inr ()) (\<lambda>_.
     rbind (if length (g_Tasks tg) = 0 then Inl ValidationError else Inr ()) (\<lambda>_.
     rbind (tasks_validate tg (g_Tasks tg)) (\<lambda>_.
     rbind (constraints_validate (g_Constraints tg)) (\<lambda>_.
     restart_policy_validate (g_RestartPolicy tg))))))"

fun groups_validate :: "task_group list \<Rightarrow> unit res" where
  "groups_validate [] = Inr ()"
| "groups_validate (tg # gs) =
     rbind (task_group_validate tg) (\<lambda>_.
       if list_ex (\<lambda>h. g_Name h = g_Name tg) gs then Inl ValidationError
       else groups_validate gs)"

definition job_validate :: "job \<Rightarrow> unit res" where
  "job_validate j =
     rbind (job_name_validate (j_Name j)) (\<lambda>_.
     rbind (if length (j_Groups j) = 0 then Inl ValidationError else Inr ()) (\<lambda>_.
     rbind (groups_validate (j_Groups j)) (\<lambda>_.
     rbind (constraints_validate (j_Constraints j)) (\<lambda>_.
     dependencies_validate (j_Dependencies j)))))"

section \<open>Defaults, links, optimisation\<close>

definition task_set_defaults :: "cluster \<Rightarrow> task \<Rightarrow> task" where
  "task_set_defaults c t =
     (let t = (if t_Type t = '''' then t\<lparr>t_Type := ''service''\<rparr> else t);
          t = (if t_Engine t = '''' then t\<lparr>t_Engine := ''docker''\<rparr> else t)
      in if t_Network t = '''' then
           (if c_Network c \<noteq> '''' then t\<lparr>t_Network := c_Network c\<rparr> else t\<lparr>t_Network := NetworkTypeDefault\<rparr>)
         else t)"

definition task_group_set_defaults :: "cluster \<Rightarrow> task_group \<Rightarrow> task_group" where
  "task_group_set_defaults c tg = tg\<lparr>g_Tasks := map (task_set_defaults c) (g_Tasks tg)\<rparr>"

definition job_set_defaults :: "cluster \<Rightarrow> job \<Rightarrow> job" where
  "job_set_defaults c j = j\<lparr>j_Groups := map (task_group_set_defaults c) (j_Groups j)\<rparr>"

definition task_link :: "job \<Rightarrow> task_group \<Rightarrow> task \<Rightarrow> task" where
  "task_link j tg t =
     t\<lparr>t_Target := resolve_link j tg t (t_Target t),
       t_Links := map (\<lambda>l. l\<lparr>l_Target := resolve_link j tg t (l_Target l)\<rparr>) (t_Links t),
       t_Volumes := go_sort volume_key (t_Volumes t)\<rparr>"

definition task_group_link :: "job \<Rightarrow> task_group \<Rightarrow> task_group" where
  "task_group_link j tg =
     tg\<lparr>g_Tasks := go_sort t_Name (map (task_link j tg) (g_Tasks tg)),
        g_Constraints := constraints_sort (g_Constraints tg)\<rparr>"

definition job_link :: "job \<Rightarrow> job" where
  "job_link j =
     j\<lparr>j_Groups := go_sort g_Name (map (task_group_link j) (j_Groups j)),
       j_Constraints := constraints_sort (j_Constraints j),
       j_Dependencies := go_sort d_Name (j_Dependencies j)\<rparr>"

definition task_group_optimize_for :: "cluster \<Rightarrow> task_group \<Rightarrow> task_group" where
  "task_group_optimize_for c tg =
     (if g_Global tg \<and> InstanceCount c < int_of_uint (g_Count tg)
      then tg\<lparr>g_Count := nat (InstanceCount c mod 2 ^ 64)\<rparr> else tg)"

definition job_optimize_for :: "cluster \<Rightarrow> job \<Rightarrow> job" where
  "job_optimize_for c j = j\<lparr>j_Groups := map (task_group_optimize_for c) (j_Groups j)\<rparr>"

end
