(* ===== verification/Validation.thy ===== *)
theory Validation
  imports Model
begin

text \<open>
  What the validators, lookups and pipeline steps of \<^theory_text>\<open>Model\<close> guarantee. Each
  \<^verbatim>\<open>Validate\<close> is shown equivalent to a declarative predicate
  (\<open>task_ok\<close>, \<open>group_ok\<close>, \<open>job_ok\<close>); the later components rest on those
  predicates only.
\<close>

section \<open>Declarative form of the validators\<close>

text \<open>
  A validator returns the first error it meets; the predicates below say what a well-formed value is without using the
  validators or the parsers they call.
\<close>

definition network_ok :: "string \<Rightarrow> bool" where
  "network_ok nt \<longleftrightarrow> nt \<in> {NetworkTypeDefault, NetworkTypeHost, NetworkTypeWeave}"

definition link_ok :: "link \<Rightarrow> bool" where
  "link_ok l \<longleftrightarrow> link_text (l_Target l) \<and>
     (l_Type l = ''tcp'' \<and> l_Ports l \<noteq> [] \<or> l_Type l \<in> {''http'', ''''} \<and> l_Ports l = [])"

definition public_front_end_ok :: "public_front_end \<Rightarrow> bool" where
  "public_front_end_ok f \<longleftrightarrow>
     pf_Weight f \<in> {0..100} \<and> (pf_SslCert f \<noteq> '''' \<longrightarrow> pf_Domain f \<noteq> '''') \<and> pf_Mode f \<in> {'''', ''http'', ''tcp''} \<and>
     (pf_Mode f = ''tcp'' \<longrightarrow>
        (pf_Domain f = '''' \<longleftrightarrow> pf_HostPort f \<noteq> 0) \<and> (pf_HostPort f \<noteq> 0 \<longrightarrow> pf_PathPrefix f = ''''))"

definition private_front_end_ok :: "private_front_end \<Rightarrow> bool" where
  "private_front_end_ok f \<longleftrightarrow> vf_Weight f \<in> {0..100} \<and> vf_Mode f \<in> {'''', ''http'', ''tcp''}"

text \<open>A secret may have both an environment variable and a file as its target, although the README asks for one of them.\<close>

definition secret_ok :: "secret \<Rightarrow> bool" where
  "secret_ok s \<longleftrightarrow> s_Path s \<noteq> '''' \<and> (s_Environment s \<noteq> '''' \<or> s_File s \<noteq> '''')"

definition constraints_ok :: "constraint list \<Rightarrow> bool" where
  "constraints_ok cs \<longleftrightarrow>
     (\<forall>c \<in> set cs. Attribute c \<noteq> '''' \<and> Operator c \<in> {'''', ''=='', ''!=''}) \<and> distinct (map Attribute cs)"

definition dependency_ok :: "dependency \<Rightarrow> bool" where
  "dependency_ok d \<longleftrightarrow> link_text (d_Name d) \<and> network_ok (d_Network d)"

definition task_ok :: "task_group \<Rightarrow> task \<Rightarrow> bool" where
  "task_ok tg t \<longleftrightarrow>
     name_ok 2 30 (t_Name t) \<and> t_Type t \<in> {''service'', ''oneshot'', ''proxy''} \<and>
     set (t_After t) \<union> set (t_VolumesFrom t) \<subseteq> t_Name ` set (g_Tasks tg) \<and>
     network_ok (t_Network t) \<and> (\<forall>l \<in> set (t_Links t). link_ok l) \<and>
     (\<forall>p \<in> set (t_Ports t). port_text p) \<and>
     (\<forall>f \<in> set (t_PublicFrontEnds t). public_front_end_ok f) \<and>
     (\<forall>f \<in> set (t_PrivateFrontEnds t). private_front_end_ok f) \<and>
     ((\<forall>f \<in> set (t_PrivateFrontEnds t). vf_Mode f \<noteq> ''tcp'') \<or>
      t_PublicFrontEnds t = [] \<and> (\<forall>f \<in> set (t_PrivateFrontEnds t). vf_Mode f = ''tcp'')) \<and>
     (\<forall>s \<in> set (t_Secrets t). secret_ok s) \<and>
     (t_Timer t \<noteq> '''' \<longrightarrow> t_Type t = ''oneshot'') \<and> t_LogDriver t \<in> {'''', ''none''} \<and>
     (t_Type t = ''proxy'' \<longleftrightarrow> t_Target t \<noteq> '''')"

definition group_ok :: "task_group \<Rightarrow> bool" where
  "group_ok tg \<longleftrightarrow>
     name_ok 2 30 (g_Name tg) \<and> 0 < g_Count tg \<and> g_Tasks tg \<noteq> [] \<and>
     (\<forall>t \<in> set (g_Tasks tg). task_ok tg t) \<and> distinct (map t_Name (g_Tasks tg)) \<and>
     constraints_ok (g_Constraints tg) \<and> g_RestartPolicy tg \<in> {''all'', ''''}"

definition job_ok :: "job \<Rightarrow> bool" where
  "job_ok j \<longleftrightarrow>
     name_ok 3 30 (j_Name j) \<and> j_Groups j \<noteq> [] \<and> (\<forall>g \<in> set (j_Groups j). group_ok g) \<and>
     distinct (map g_Name (j_Groups j)) \<and> constraints_ok (j_Constraints j) \<and>
     (\<forall>d \<in> set (j_Dependencies j). dependency_ok d)"

lemma find_task_ok: "find_task ts n = Inr t \<longleftrightarrow> List.find (\<lambda>t. t_Name t = n) ts = Some t"
  by (auto simp: find_task_def split: option.splits)

lemma find_task_Ex: "(\<exists>t. find_task ts n = Inr t) \<longleftrightarrow> n \<in> t_Name ` set ts"
proof -
  have "List.find (\<lambda>t. t_Name t = n) ts \<noteq> None \<longleftrightarrow> n \<in> t_Name ` set ts"
    by (auto simp: find_None_set)
  then show ?thesis by (auto simp: find_task_ok)
qed

lemma network_validate_ok [simp]: "network_type_validate nt = Inr u \<longleftrightarrow> network_ok nt"
  by (simp add: network_type_validate_def network_ok_def)

lemma link_record_validate_ok [simp]: "link_record_validate l = Inr u \<longleftrightarrow> link_ok l"
  by (auto simp: link_record_validate_def link_ok_def link_validate_text link_type_validate_def
      link_type_is_tcp_def)

lemma front_end_validate_ok:
  "public_front_end_validate f = Inr u \<longleftrightarrow> public_front_end_ok f"
  "private_front_end_validate g = Inr u \<longleftrightarrow> private_front_end_ok g"
  by (auto simp: public_front_end_validate_def public_front_end_ok_def private_front_end_validate_def private_front_end_ok_def)

lemma secret_validate_ok: "secret_validate s = Inr u \<longleftrightarrow> secret_ok s"
  by (simp add: secret_validate_def secret_ok_def)

lemma constraints_validate_spec: "constraints_validate cs = Inr u \<longleftrightarrow> constraints_ok cs"
  by (simp add: constraints_validate_ok constraints_ok_def constraint_ok_def OperatorEqual_def OperatorNotEqual_def)

lemma dependency_validate_ok: "dependency_validate d = Inr u \<longleftrightarrow> dependency_ok d"
  by (auto simp: dependency_validate_def dependency_ok_def link_validate_text)

lemma port_validate_ok: "(\<exists>m. port_mapping_parse p = Inr m) \<longleftrightarrow> port_text p"
  using port_mapping_parse_text [of p] by (simp add: is_ok_iff)

lemma one_kind_of_front_end:
  "\<not> (0 < snd (count_frontends t) \<and> 0 < fst (count_frontends t)) \<longleftrightarrow>
     (\<forall>f \<in> set (t_PrivateFrontEnds t). vf_Mode f \<noteq> ''tcp'') \<or>
     t_PublicFrontEnds t = [] \<and> (\<forall>f \<in> set (t_PrivateFrontEnds t). vf_Mode f = ''tcp'')"
  by (auto simp: count_frontends_def private_is_tcp_def filter_empty_conv)

lemma names_present:
  "(\<forall>n \<in> set ns. \<exists>x. group_task tg n = Inr x) \<longleftrightarrow> set ns \<subseteq> t_Name ` set (g_Tasks tg)"
  by (auto simp: group_task_def find_task_Ex)

lemma task_validate_ok: "task_validate tg t = Inr () \<longleftrightarrow> task_ok tg t"
  unfolding task_ok_def one_kind_of_front_end [symmetric]
  by (auto simp: task_validate_def task_type_validate_def names_present secrets_validate_def
      log_driver_validate_def metrics_validate_def front_end_validate_ok secret_validate_ok port_validate_ok
      Ball_def [symmetric] split: option.splits prod.splits)

lemma tasks_validate_ok:
  "tasks_validate tg ts = Inr u \<longleftrightarrow> (\<forall>t \<in> set ts. task_ok tg t) \<and> distinct (map t_Name ts)"
  by (induction tg ts rule: tasks_validate.induct)
    (auto simp: task_validate_ok list_ex_iff, (metis imageI)+)

lemma task_group_validate_ok: "task_group_validate tg = Inr u \<longleftrightarrow> group_ok tg"
  by (auto simp: task_group_validate_def group_ok_def tasks_validate_ok restart_policy_validate_def
      constraints_validate_spec)

lemma groups_validate_ok:
  "groups_validate gs = Inr u \<longleftrightarrow> (\<forall>g \<in> set gs. group_ok g) \<and> distinct (map g_Name gs)"
  by (induction gs rule: groups_validate.induct)
    (auto simp: task_group_validate_ok list_ex_iff, (metis imageI)+)

lemma job_validate_ok: "job_validate j = Inr u \<longleftrightarrow> job_ok j"
  by (auto simp: job_validate_def job_ok_def groups_validate_ok dependencies_validate_def
      dependency_validate_ok constraints_validate_spec)

section \<open>Consequences of validity\<close>

lemma job_ok_group: "job_ok j \<Longrightarrow> g \<in> set (j_Groups j) \<Longrightarrow> group_ok g"
  by (simp add: job_ok_def)

lemma group_ok_task: "group_ok g \<Longrightarrow> t \<in> set (g_Tasks g) \<Longrightarrow> task_ok g t"
  by (simp add: group_ok_def)

lemma ok_names:
  "job_ok j \<Longrightarrow> name_ok 3 30 (j_Name j)" "group_ok g \<Longrightarrow> name_ok 2 30 (g_Name g)"
  "task_ok g t \<Longrightarrow> name_ok 2 30 (t_Name t)"
  by (simp_all add: job_ok_def group_ok_def task_ok_def)

lemma group_ok_distinct: "group_ok g \<Longrightarrow> distinct (map t_Name (g_Tasks g))"
  by (simp add: group_ok_def)

lemma job_ok_distinct: "job_ok j \<Longrightarrow> distinct (map g_Name (j_Groups j))"
  by (simp add: job_ok_def)

lemmas job_ok_facts = job_ok_group group_ok_task ok_names group_ok_distinct job_ok_distinct

lemma job_task_group_found:
  "job_ok j \<Longrightarrow> g \<in> set (j_Groups j) \<Longrightarrow> job_task_group j (g_Name g) = Inr g"
  by (simp add: job_task_group_def find_key [OF job_ok_distinct])

lemma group_task_found:
  "group_ok g \<Longrightarrow> t \<in> set (g_Tasks g) \<Longrightarrow> group_task g (t_Name t) = Inr t"
  by (simp add: group_task_def find_task_ok find_key [OF group_ok_distinct])

lemma job_task_group_sound:
  "job_task_group j n = Inr g \<Longrightarrow> g \<in> set (j_Groups j) \<and> g_Name g = n"
  by (auto simp: job_task_group_def split: option.splits dest: find_Some_set)

lemma group_task_sound: "group_task g n = Inr t \<Longrightarrow> t \<in> set (g_Tasks g) \<and> t_Name t = n"
  by (auto simp: group_task_def find_task_ok dest: find_Some_set)

section \<open>Index of a task\<close>

lemma index_by_name_from:
  "index_by_name_from i ts n =
     (if n \<in> t_Name ` set ts then i + int (length (takeWhile (\<lambda>t. t_Name t \<noteq> n) ts)) else -1)"
  by (induction i ts n rule: index_by_name_from.induct) auto

section \<open>Scaling\<close>

lemma max_count_from: "max_count_from n gs = Max (insert n (g_Count ` set gs))"
proof -
  have "max_count_from n gs = fold max (map g_Count gs) n"
    by (induction n gs rule: max_count_from.induct) (simp_all add: max_def)
  also have "\<dots> = Max (set (n # map g_Count gs))" by (rule Max.set_eq_fold [symmetric])
  finally show ?thesis by simp
qed

lemma max_count_bounds:
  "g \<in> set (j_Groups j) \<Longrightarrow> g_Count g \<le> max_count j"
  "max_count j = 0 \<or> (\<exists>g \<in> set (j_Groups j). g_Count g = max_count j)"
proof -
  let ?S = "insert 0 (g_Count ` set (j_Groups j))"
  have m: "max_count j = Max ?S" by (simp add: max_count_def max_count_from)
  show "g \<in> set (j_Groups j) \<Longrightarrow> g_Count g \<le> max_count j" by (simp add: m)
  have "Max ?S \<in> ?S" by (rule Max_in) auto
  then show "max_count j = 0 \<or> (\<exists>g \<in> set (j_Groups j). g_Count g = max_count j)"
    by (auto simp: m)
qed

lemma max_count_pos: "job_ok j \<Longrightarrow> 0 < max_count j"
  using max_count_bounds(1) [of "hd (j_Groups j)" j]
  by (cases "j_Groups j") (auto simp: job_ok_def group_ok_def intro: less_le_trans)

end
