(* ===== verification/UnitNames.thy ===== *)
theory UnitNames
  imports Validation
begin

text \<open>
  Names of fleet units: how they are made (\<^verbatim>\<open>unitName\<close> and
  \<^verbatim>\<open>unitNameExt\<close> in \<^verbatim>\<open>render/fleet/task.go\<close>) and how
  the scheduler recognises them (\<^verbatim>\<open>scheduler/fleet/unitnames.go\<close>). A unit
  name has the form \<open>job-group-task-kind[@instance].type\<close>; because no name contains a
  dash, a dot or an \<open>@\<close>, the predicates decide exactly where a unit belongs.
\<close>

section \<open>Making names\<close>

definition unitKindMain :: string where "unitKindMain = ''-mn''"
definition unitKindVolume :: string where "unitKindVolume = ''-vl''"
definition unitKindProxy :: string where "unitKindProxy = ''-pr''"
definition unitKindTimer :: string where "unitKindTimer = ''-ti''"

definition unit_name_ext :: "job \<Rightarrow> task_group \<Rightarrow> task \<Rightarrow> string \<Rightarrow> string \<Rightarrow> string" where
  "unit_name_ext j tg t kind scalingGroup =
     (let base = replace_char CHR ''/'' CHR ''-'' (task_full_name j tg t) @ kind
      in if g_Global tg \<and> g_Count tg = 1 then base else base @ ''@'' @ scalingGroup)"

definition unit_name :: "job \<Rightarrow> task_group \<Rightarrow> task \<Rightarrow> string \<Rightarrow> nat \<Rightarrow> string" where
  "unit_name j tg t kind scalingGroup = unit_name_ext j tg t kind (itoa (int_of_uint scalingGroup))"

section \<open>Recognising names\<close>

definition unit_suffixes :: "string list" where
  "unit_suffixes = [''.service'', ''.timer'']"

fun has_suffix_in :: "string list \<Rightarrow> string \<Rightarrow> bool \<times> string" where
  "has_suffix_in [] u = (False, '''')"
| "has_suffix_in (s # ss) u = (if suffix s u then (True, s) else has_suffix_in ss u)"

definition has_unit_suffix :: "string \<Rightarrow> bool \<times> string" where
  "has_unit_suffix u = has_suffix_in unit_suffixes u"

definition is_unit_for_job :: "string \<Rightarrow> string \<Rightarrow> bool" where
  "is_unit_for_job u jn = (if \<not> prefix (jn @ ''-'') u then False else fst (has_unit_suffix u))"

definition is_unit_for_task_group :: "string \<Rightarrow> string \<Rightarrow> string \<Rightarrow> bool" where
  "is_unit_for_task_group u jn tgn =
     (if \<not> prefix (jn @ ''-'' @ tgn @ ''-'') u then False else fst (has_unit_suffix u))"

definition is_unit_for_task :: "string \<Rightarrow> string \<Rightarrow> string \<Rightarrow> string \<Rightarrow> bool" where
  "is_unit_for_task u jn tgn tn =
     (let pre = jn @ ''-'' @ tgn @ ''-'' @ tn
      in if \<not> prefix pre u then False
         else if \<not> fst (has_unit_suffix u) then False
         else let remainder = drop (length pre) u
              in prefix ''@'' remainder \<or> prefix ''.'' remainder)"

definition is_unit_for_scaling_group :: "string \<Rightarrow> string \<Rightarrow> nat \<Rightarrow> bool" where
  "is_unit_for_scaling_group u jn scalingGroup =
     (if \<not> prefix (jn @ ''-'') u then False
      else case has_unit_suffix u of (found, suf) \<Rightarrow>
        if \<not> found then False
        else let name = take (length u - length suf) u;
                 scalingSuffix = ''@'' @ nat_str scalingGroup
             in if suffix scalingSuffix name then True
                else scalingGroup = 1 \<and> CHR ''@'' \<notin> set name)"

section \<open>The shape of a unit name\<close>

text \<open>A kind is a dash and a tag such as \<open>mn\<close>, \<open>ti\<close>, \<open>vl0\<close>, \<open>pr2\<close>.\<close>

definition tag_ok :: "string \<Rightarrow> bool" where
  "tag_ok k \<longleftrightarrow> CHR ''-'' \<notin> set k \<and> CHR ''@'' \<notin> set k \<and> CHR ''.'' \<notin> set k"

definition types_ok :: "string \<Rightarrow> bool" where
  "types_ok ty \<longleftrightarrow> ty = ''service'' \<or> ty = ''timer''"

definition instance_part :: "task_group \<Rightarrow> nat \<Rightarrow> string" where
  "instance_part tg sg =
     (if g_Global tg \<and> g_Count tg = 1 then '''' else ''@'' @ itoa (int_of_uint sg))"

definition named :: "job \<Rightarrow> task_group \<Rightarrow> task \<Rightarrow> bool" where
  "named j tg t \<longleftrightarrow>
     name_ok 3 30 (j_Name j) \<and> name_ok 2 30 (g_Name tg) \<and> name_ok 2 30 (t_Name t)"

definition unit_full_name :: "job \<Rightarrow> task_group \<Rightarrow> task \<Rightarrow> string \<Rightarrow> nat \<Rightarrow> string \<Rightarrow> string" where
  "unit_full_name j tg t kind sg ty = unit_name j tg t kind sg @ ''.'' @ ty"

lemma job_ok_named: "job_ok j \<Longrightarrow> tg \<in> set (j_Groups j) \<Longrightarrow> t \<in> set (g_Tasks tg) \<Longrightarrow> named j tg t"
  unfolding named_def by (meson job_ok_facts)

lemma int_of_uint_itoa [simp]: "sg < 2 ^ 63 \<Longrightarrow> itoa (int_of_uint sg) = nat_str sg"
  by (simp add: int_of_uint_def itoa_def Let_def)

lemma named_free [simp]:
  "named j tg t \<Longrightarrow> \<not> name_char c \<Longrightarrow> c \<notin> set (j_Name j)"
  "named j tg t \<Longrightarrow> \<not> name_char c \<Longrightarrow> c \<notin> set (g_Name tg)"
  "named j tg t \<Longrightarrow> \<not> name_char c \<Longrightarrow> c \<notin> set (t_Name t)"
  by (auto simp: named_def)

lemma task_full_name_dashed:
  "named j tg t \<Longrightarrow>
   replace_char CHR ''/'' CHR ''-'' (task_full_name j tg t) = j_Name j @ ''-'' @ g_Name tg @ ''-'' @ t_Name t"
  by (simp add: task_full_name_def group_full_name_def)

lemma unit_name_parts:
  "named j tg t \<Longrightarrow> unit_name j tg t (CHR ''-'' # k) sg =
    j_Name j @ ''-'' @ g_Name tg @ ''-'' @ t_Name t @ ''-'' @ k @ instance_part tg sg"
  by (simp add: unit_name_def unit_name_ext_def Let_def task_full_name_dashed instance_part_def)

lemma has_unit_suffix_dot:
  "types_ok ty \<Longrightarrow> has_unit_suffix (s @ CHR ''.'' # ty) = (True, CHR ''.'' # ty)"
proof -
  assume "types_ok ty"
  moreover have "\<not> suffix ''.service'' (s @ ''.timer'')"
    by (auto simp: suffix_def dest: arg_cong [where f = rev])
  moreover have "suffix a (s @ a)" for a :: string by (simp add: suffix_def)
  ultimately show ?thesis by (auto simp: types_ok_def has_unit_suffix_def unit_suffixes_def)
qed

lemma unit_full_name_suffix [simp]:
  "types_ok ty \<Longrightarrow> has_unit_suffix (unit_full_name j tg t kind sg ty) = (True, CHR ''.'' # ty)"
  by (simp add: unit_full_name_def has_unit_suffix_dot)

text \<open>Where a dash ends both names, the prefix test compares them.\<close>

lemma prefix_dash:
  "CHR ''-'' \<notin> set a \<Longrightarrow> CHR ''-'' \<notin> set b \<Longrightarrow>
     prefix (a @ CHR ''-'' # p) (b @ CHR ''-'' # q) \<longleftrightarrow> a = b \<and> prefix p q"
proof (induction a arbitrary: b)
  case Nil
  then show ?case by (cases b) auto
next
  case (Cons x a)
  then show ?case by (cases b) auto
qed

section \<open>Recognition is exact\<close>

lemma unit_job_iff:
  assumes "named j tg t" "types_ok ty" "name_ok l h jn"
  shows "is_unit_for_job (unit_full_name j tg t (CHR ''-'' # k) sg ty) jn \<longleftrightarrow> jn = j_Name j"
proof -
  have "prefix (jn @ ''-'') (unit_full_name j tg t (CHR ''-'' # k) sg ty) \<longleftrightarrow> jn = j_Name j"
    using assms by (simp add: unit_full_name_def unit_name_parts prefix_dash)
  with assms(2) show ?thesis by (simp add: is_unit_for_job_def)
qed

lemma unit_task_group_iff:
  assumes "named j tg t" "types_ok ty" "name_ok l h jn" "name_ok l' h' gn"
  shows "is_unit_for_task_group (unit_full_name j tg t (CHR ''-'' # k) sg ty) jn gn \<longleftrightarrow>
    jn = j_Name j \<and> gn = g_Name tg"
proof -
  have "prefix (jn @ ''-'' @ gn @ ''-'') (unit_full_name j tg t (CHR ''-'' # k) sg ty) \<longleftrightarrow>
      jn = j_Name j \<and> gn = g_Name tg"
    using assms by (simp add: unit_full_name_def unit_name_parts prefix_dash)
  with assms(2) show ?thesis by (simp add: is_unit_for_task_group_def)
qed

text \<open>
  The kind is part of every generated name, so the per-task test, which expects an instance or
  the type right after the task name, accepts none of them.
\<close>

lemma unit_task_never:
  assumes "named j tg t" "types_ok ty"
  shows "\<not> is_unit_for_task (unit_full_name j tg t (CHR ''-'' # k) sg ty) (j_Name j) (g_Name tg) (t_Name t)"
  using assms by (simp add: is_unit_for_task_def Let_def unit_full_name_def unit_name_parts)

lemma suffix_at:
  "CHR ''@'' \<notin> set n \<Longrightarrow> CHR ''@'' \<notin> set i \<Longrightarrow> CHR ''@'' \<notin> set a \<Longrightarrow>
     suffix (CHR ''@'' # n) (a @ CHR ''@'' # i) \<longleftrightarrow> n = i"
proof
  assume f: "CHR ''@'' \<notin> set n" "CHR ''@'' \<notin> set i" "CHR ''@'' \<notin> set a"
    and "suffix (CHR ''@'' # n) (a @ CHR ''@'' # i)"
  then obtain p where p: "a @ CHR ''@'' # i = p @ CHR ''@'' # n" by (auto simp: suffix_def)
  have "count_list (p @ CHR ''@'' # n) CHR ''@'' = 1"
    using f by (simp add: p [symmetric] count_list_0_iff)
  then have "CHR ''@'' \<notin> set p" by (simp add: count_list_0_iff)
  with f p show "n = i" by (metis split_on_append list.inject split_on_free)
qed (simp add: suffix_def)

lemma unit_scaling_group_iff:
  assumes "named j tg t" "types_ok ty" "tag_ok k" "sg < 2 ^ 63"
    and single: "g_Global tg \<and> g_Count tg = 1 \<Longrightarrow> sg = 1"
  shows "is_unit_for_scaling_group (unit_full_name j tg t (CHR ''-'' # k) sg ty) (j_Name j) sg' \<longleftrightarrow> sg' = sg"
proof -
  let ?name = "unit_name j tg t (CHR ''-'' # k) sg"
  let ?base = "j_Name j @ ''-'' @ g_Name tg @ ''-'' @ t_Name t @ ''-'' @ k"
  have at: "CHR ''@'' \<notin> set ?base" using assms(1,3) by (simp add: tag_ok_def)
  have name: "?name = ?base @ (if g_Global tg \<and> g_Count tg = 1 then '''' else ''@'' @ nat_str sg)"
    using assms(1,4) by (simp add: unit_name_parts instance_part_def)
  have "suffix (''@'' @ nat_str sg') ?name \<or> sg' = 1 \<and> CHR ''@'' \<notin> set ?name \<longleftrightarrow> sg' = sg"
  proof (cases "g_Global tg \<and> g_Count tg = 1")
    case True
    then have "CHR ''@'' \<notin> set ?name" using at name by simp
    moreover from this have "\<not> suffix (''@'' @ nat_str sg') ?name"
      by (auto simp: suffix_def)
    ultimately show ?thesis using single [OF True] by simp
  next
    case False
    then have n: "?name = ?base @ CHR ''@'' # nat_str sg" by (simp add: name)
    have "suffix (CHR ''@'' # nat_str sg') ?name \<longleftrightarrow> nat_str sg' = nat_str sg"
      unfolding n by (rule suffix_at) (use at in simp_all)
    moreover have "CHR ''@'' \<in> set ?name" by (simp add: n)
    ultimately show ?thesis by simp
  qed
  moreover have "take (length (unit_full_name j tg t (CHR ''-'' # k) sg ty) - length (CHR ''.'' # ty))
      (unit_full_name j tg t (CHR ''-'' # k) sg ty) = ?name"
    by (simp add: unit_full_name_def)
  moreover have "prefix (j_Name j @ ''-'') (unit_full_name j tg t (CHR ''-'' # k) sg ty)"
    using assms(1) by (simp add: unit_full_name_def unit_name_parts)
  ultimately show ?thesis
    using assms(2) by (auto simp: is_unit_for_scaling_group_def Let_def)
qed

section \<open>Names are injective\<close>

lemma append_sep_inj:
  fixes a b p q :: string
  assumes "c \<notin> set a" "c \<notin> set b"
  shows "a @ c # p = b @ c # q \<longleftrightarrow> a = b \<and> p = q"
proof
  assume "a @ c # p = b @ c # q"
  then have "split_first c (a @ c # p) = split_first c (b @ c # q)" by simp
  then show "a = b \<and> p = q"
    by (simp only: split_first_append [OF assms(1)] split_first_append [OF assms(2)] prod.inject option.inject)
qed simp

lemma instance_part_free:
  "sg < 2 ^ 63 \<Longrightarrow> \<not> is_digit c \<Longrightarrow> c \<noteq> CHR ''@'' \<Longrightarrow> c \<notin> set (instance_part tg sg)"
  by (simp add: instance_part_def)

lemma unit_full_name_inj:
  assumes "named j tg t" "named j' tg' t'" "tag_ok k" "tag_ok k'" "sg < 2 ^ 63" "sg' < 2 ^ 63"
    and eq: "unit_full_name j tg t (CHR ''-'' # k) sg ty = unit_full_name j' tg' t' (CHR ''-'' # k') sg' ty'"
  shows "j_Name j = j_Name j' \<and> g_Name tg = g_Name tg' \<and> t_Name t = t_Name t' \<and> k = k' \<and>
    instance_part tg sg = instance_part tg' sg' \<and> ty = ty'"
proof -
  have "j_Name j = j_Name j' \<and> g_Name tg = g_Name tg' \<and> t_Name t = t_Name t' \<and>
      (k @ instance_part tg sg) @ CHR ''.'' # ty = (k' @ instance_part tg' sg') @ CHR ''.'' # ty'"
    using eq assms(1,2) by (simp add: unit_full_name_def unit_name_parts append_sep_inj)
  moreover from this have "k @ instance_part tg sg = k' @ instance_part tg' sg' \<and> ty = ty'"
    by (subst (asm) append_sep_inj) (use assms in \<open>simp_all add: instance_part_free tag_ok_def\<close>)
  moreover from this have "split_first CHR ''@'' (k @ instance_part tg sg) =
      split_first CHR ''@'' (k' @ instance_part tg' sg')" by simp
  then have "k = k'"
    using assms(3-6) by (auto simp: instance_part_def tag_ok_def go_strings split: if_splits)
  ultimately show ?thesis by simp
qed

lemma instance_part_inj:
  "sg < 2 ^ 63 \<Longrightarrow> sg' < 2 ^ 63 \<Longrightarrow> instance_part tg sg = instance_part tg sg' \<longleftrightarrow>
     sg = sg' \<or> g_Global tg \<and> g_Count tg = 1"
  by (auto simp: instance_part_def)

end
