(* ===== verification/FleetScheduler.thy ===== *)
theory FleetScheduler
  imports FleetTunnel DeploymentKeeps UnitNames
begin

text \<open>
  The fleet implementation of the scheduler interface, \<^verbatim>\<open>scheduler/fleet/fleet.go\<close>.
  Its state is the registry behind the tunnel together with the cached status map; every
  operation that changes the cluster clears the cache. It meets the laws of
  \<^theory_text>\<open>scheduler_laws\<close> as a lazy scheduler.
\<close>

record 'o fleet_state =
  fs_registry :: "'o registry"
  fs_status :: "(string \<times> string) list option"

text \<open>\<^verbatim>\<open>compareUnitContent\<close>: equality of the trimmed, non-empty lines.\<close>

definition normalize_unit_content :: "string \<Rightarrow> string list" where
  "normalize_unit_content content =
     filter (\<lambda>line. line \<noteq> '''') (map trim_space (split_on (char_of (10::nat)) content))"

fun same_lines :: "string list \<Rightarrow> string list \<Rightarrow> bool" where
  "same_lines (la # as) (lb # bs) = (if la \<noteq> lb then False else same_lines as bs)"
| "same_lines _ _ = True"

definition compare_unit_content :: "string \<Rightarrow> string \<Rightarrow> bool" where
  "compare_unit_content a b =
     (let linesA = normalize_unit_content a; linesB = normalize_unit_content b
      in if length linesA \<noteq> length linesB then False else same_lines linesA linesB)"

lemma same_lines_iff: "length as = length bs \<Longrightarrow> same_lines as bs \<longleftrightarrow> as = bs"
  by (induction as bs rule: same_lines.induct) auto

lemma compare_unit_content_iff:
  "compare_unit_content a b \<longleftrightarrow> normalize_unit_content a = normalize_unit_content b"
  by (auto simp: compare_unit_content_def Let_def same_lines_iff)

section \<open>Operations\<close>

definition fleet_clear_status :: "'o fleet_state \<Rightarrow> 'o fleet_state" where
  "fleet_clear_status s = s\<lparr>fs_status := None\<rparr>"

definition fleet_get_status :: "'o fleet_state \<Rightarrow> (string \<times> string) list res \<times> 'o fleet_state" where
  "fleet_get_status s =
     (case fs_status s of
        None \<Rightarrow>
          (case tunnel_status (fs_registry s) of
             Inl e \<Rightarrow> (Inl e, s)
           | Inr m \<Rightarrow> (Inr m, s\<lparr>fs_status := Some m\<rparr>))
      | Some m \<Rightarrow> (Inr m, s))"

definition fleet_get_state :: "string \<Rightarrow> 'o fleet_state \<Rightarrow> bool res \<times> 'o fleet_state" where
  "fleet_get_state u s =
     (case fleet_get_status s of
        (Inl e, s') \<Rightarrow> (Inl e, s')
      | (Inr m, s') \<Rightarrow>
          (case status_get m u of
             None \<Rightarrow> (Inl NotFoundError, s')
           | Some st \<Rightarrow> (Inr (st = ''failed''), s')))"

definition fleet_list :: "'o fleet_state \<Rightarrow> string list res" where
  "fleet_list s = tunnel_list (fs_registry s)"

definition fleet_has_changed :: "'o tunnel \<Rightarrow> string \<times> string \<Rightarrow> 'o fleet_state \<Rightarrow> bool res" where
  "fleet_has_changed f d s =
     rbind (tunnel_cat f (fs_registry s) (fst d)) (\<lambda>current.
       Inr (\<not> compare_unit_content current (snd d)))"

definition fleet_stop :: "'o tunnel \<Rightarrow> reason \<Rightarrow> string list \<Rightarrow> 'o fleet_state \<Rightarrow> int res \<times> 'o fleet_state" where
  "fleet_stop f r us s =
     (let s = fleet_clear_status s
      in case tunnel_stop f us (fs_registry s) of
           (Inl e, reg) \<Rightarrow> (Inl e, s\<lparr>fs_registry := reg\<rparr>)
         | (Inr stats, reg) \<Rightarrow> (Inr (StoppedGlobalUnits stats), s\<lparr>fs_registry := reg\<rparr>))"

definition fleet_destroy :: "'o tunnel \<Rightarrow> reason \<Rightarrow> string list \<Rightarrow> 'o fleet_state \<Rightarrow> unit res \<times> 'o fleet_state" where
  "fleet_destroy f r us s =
     (let s = fleet_clear_status s
      in case tunnel_destroy f us (fs_registry s) of (res, reg) \<Rightarrow> (res, s\<lparr>fs_registry := reg\<rparr>))"

definition fleet_start :: "'o tunnel \<Rightarrow> (string \<times> string) list \<Rightarrow> 'o fleet_state \<Rightarrow> unit res \<times> 'o fleet_state" where
  "fleet_start f ds s =
     (let s = fleet_clear_status s
      in case tunnel_start f ds (fs_registry s) of (res, reg) \<Rightarrow> (res, s\<lparr>fs_registry := reg\<rparr>))"

definition fleet_scheduler ::
  "'o tunnel \<Rightarrow> string \<Rightarrow> ('o fleet_state, string, string \<times> string) scheduler" where
  "fleet_scheduler f jn =
     \<lparr>unit_id = (\<lambda>u. u), data_id = fst,
      ValidateCluster = (\<lambda>s. (Inr (), s)),
      ListUnits = fleet_list,
      GetState = fleet_get_state,
      HasChanged = fleet_has_changed f,
      StopUnits = fleet_stop f,
      DestroyUnits = fleet_destroy f,
      StartUnits = fleet_start f,
      IsUnitForScalingGroup = (\<lambda>u sg. is_unit_for_scaling_group u jn sg),
      IsUnitForJob = (\<lambda>u. is_unit_for_job u jn),
      IsUnitForTaskGroup = (\<lambda>u g. is_unit_for_task_group u jn g),
      PassTime = (\<lambda>s. s\<lparr>fs_registry := env_step (tn_engine f) (fs_registry s)\<rparr>)\<rparr>"

section \<open>The fleet scheduler meets the laws\<close>

text \<open>What is installed is seen through \<^verbatim>\<open>Cat\<close>, as normalised lines.\<close>

definition fleet_view :: "'o tunnel \<Rightarrow> 'o fleet_state \<Rightarrow> string \<Rightarrow> string list option" where
  "fleet_view f s n =
     map_option (\<lambda>opts. normalize_unit_content (uc_string (tn_codec f) opts)) (reg_view (fs_registry s) n)"

text \<open>A unit is installed as written, or as fleet prints what it parsed.\<close>

definition fleet_accepts :: "'o tunnel \<Rightarrow> string \<times> string \<Rightarrow> string list \<Rightarrow> bool" where
  "fleet_accepts f d c \<longleftrightarrow> c = normalize_unit_content (snd d) \<or>
     (case uc_parse (tn_codec f) (snd d) of
        Inl _ \<Rightarrow> False
      | Inr opts \<Rightarrow> c = normalize_unit_content (uc_string (tn_codec f) opts))"

definition fleet_ok :: "'o fleet_state \<Rightarrow> bool" where
  "fleet_ok s \<longleftrightarrow> reg_ok (fs_registry s)"

lemma fleet_get_state_registry:
  "fleet_get_state u s = (b, s') \<Longrightarrow> fs_registry s' = fs_registry s"
  by (auto simp: fleet_get_state_def fleet_get_status_def split: option.splits sum.splits prod.splits)

lemma fleet_stop_registry:
  assumes "fleet_stop f r us s = (b, s')"
  shows "reg_view (fs_registry s') = reg_view (fs_registry s)" "fleet_ok s \<Longrightarrow> fleet_ok s'"
  using assms
  by (auto simp: fleet_stop_def fleet_clear_status_def fleet_ok_def Let_def split: sum.splits prod.splits
      dest: tunnel_stop_effect)

lemma fleet_destroy_registry:
  assumes "fleet_destroy f r us s = (res, s')"
  shows "res = Inr ()" "reg_view (fs_registry s') = (\<lambda>n. if n \<in> set us then None else reg_view (fs_registry s) n)"
    "fleet_ok s \<Longrightarrow> fleet_ok s'"
proof -
  obtain res' reg where d: "tunnel_destroy f us (fs_registry s) = (res', reg)" by fastforce
  with assms have "res = res'" "fs_registry s' = reg"
    by (auto simp: fleet_destroy_def fleet_clear_status_def)
  with tunnel_destroy_effect [OF d] show "res = Inr ()"
    "reg_view (fs_registry s') = (\<lambda>n. if n \<in> set us then None else reg_view (fs_registry s) n)"
    "fleet_ok s \<Longrightarrow> fleet_ok s'" by (simp_all add: fleet_ok_def)
qed

lemma fleet_start_registry:
  assumes "fleet_start f ds s = (res, s')"
  shows "tunnel_start f ds (fs_registry s) = (res, fs_registry s')"
  using assms by (auto simp: fleet_start_def fleet_clear_status_def split: prod.splits)

lemma fleet_unchanged:
  assumes "fleet_has_changed f d s = Inr False"
  shows "\<exists>c. fleet_view f s (fst d) = Some c \<and> fleet_accepts f d c"
proof -
  from assms obtain current where
    c: "tunnel_cat f (fs_registry s) (fst d) = Inr current" and
    eq: "normalize_unit_content current = normalize_unit_content (snd d)"
    by (auto simp: fleet_has_changed_def compare_unit_content_iff)
  from c have "fleet_view f s (fst d) = Some (normalize_unit_content current)"
    by (auto simp: tunnel_cat_def api_unit_def map_unit_to_schema_def fleet_view_def reg_view_def
        split: option.splits)
  with eq show ?thesis by (simp add: fleet_accepts_def)
qed

lemma fleet_start_installs:
  assumes s: "fleet_start f ds s = (res, s')" "is_ok res" "distinct (map fst ds)" "d \<in> set ds"
    and none: "fleet_view f s (fst d) = None"
  shows "\<exists>c. fleet_view f s' (fst d) = Some c \<and> fleet_accepts f d c"
proof -
  have "reg_view (fs_registry s) (fst d) = None" using none by (simp add: fleet_view_def)
  with tunnel_start_effect(4) [OF fleet_start_registry [OF s(1)] s(2), of "fst d"] s(4)
  have "reg_view (fs_registry s') (fst d) = installed (tn_codec f) ds (fst d) \<and>
      reg_view (fs_registry s') (fst d) \<noteq> None" by blast
  moreover have "map_of ds (fst d) = Some (snd d)" using s(3,4) by (simp add: map_of_eq_Some_iff)
  ultimately show ?thesis
    by (auto simp: installed_def fleet_view_def fleet_accepts_def split: sum.splits)
qed

interpretation fleet: scheduler_laws "fleet_scheduler f jn" "fleet_view f" "fleet_accepts f" fleet_ok "\<lambda>_. True" True
    "\<lambda>_. True" "{}"
  for f jn
proof
  show "fleet_ok s \<Longrightarrow> ListUnits (fleet_scheduler f jn) s = Inr us \<Longrightarrow>
      unit_id (fleet_scheduler f jn) ` set us = {n. fleet_view f s n \<noteq> None}" for s us
    using tunnel_list_effect [of "fs_registry s"]
    by (auto simp: fleet_scheduler_def fleet_list_def fleet_ok_def fleet_view_def)
next
  fix ds s res s' d
  assume "StartUnits (fleet_scheduler f jn) ds s = (res, s')" "is_ok res"
    "distinct (map (data_id (fleet_scheduler f jn)) ds)" "d \<in> set ds"
    "fleet_view f s (data_id (fleet_scheduler f jn) d) = None \<or> \<not> True"
  then show "\<exists>c. fleet_view f s' (data_id (fleet_scheduler f jn) d) = Some c \<and> fleet_accepts f d c"
    using fleet_start_installs [of f ds s res s' d] by (simp add: fleet_scheduler_def)
next
  fix s d
  assume "HasChanged (fleet_scheduler f jn) d s = Inr False"
  then show "\<exists>c. fleet_view f s (data_id (fleet_scheduler f jn) d) = Some c \<and> fleet_accepts f d c"
    using fleet_unchanged [of f d s] by (simp add: fleet_scheduler_def)
next
  fix r us s res s'
  assume "DestroyUnits (fleet_scheduler f jn) r us s = (res, s')" "fleet_ok s"
  then show "fleet_ok s'"
    using fleet_destroy_registry(3) [of f r us s res s'] by (simp add: fleet_scheduler_def)
qed (auto simp: fleet_scheduler_def fleet_view_def fleet_ok_def env_step_view env_step_ok fleet_get_state_registry
    fleet_stop_registry fleet_destroy_registry tunnel_start_effect [OF fleet_start_registry]
    fun_eq_iff dest: fleet_stop_registry)

end
