(* ===== verification/Cmdline.thy ===== *)
theory Cmdline
  imports Prelude "HOL-Library.AList"
begin

text \<open>
  Command lines of units: \<^verbatim>\<open>pkg/cmdline/cmdline.go\<close>. A long argument is put
  into an environment variable of the unit and the command line refers to it. The environment is
  an association list; \<open>None\<close> is a nil map. The lemmas show that replacing the variables
  again gives the arguments back, also after more arguments have been added.
\<close>

record cmdline =
  cl_cmd :: "string list"
  AllowFailure :: bool

type_synonym env = "(string \<times> string) list"

definition shortArgLen :: nat where "shortArgLen = 4"

definition empty_cmdline :: cmdline where
  "empty_cmdline = \<lparr>cl_cmd = [], AllowFailure = False\<rparr>"

definition env_key :: "nat \<Rightarrow> string" where
  "env_key n = ''A'' @ pad2 n"

definition push :: "cmdline \<Rightarrow> string \<Rightarrow> cmdline" where
  "push c s = c\<lparr>cl_cmd := cl_cmd c @ [s]\<rparr>"

definition add_arg :: "env option \<Rightarrow> cmdline \<Rightarrow> string \<Rightarrow> env option \<times> cmdline" where
  "add_arg env c arg =
     (case env of
        None \<Rightarrow> (env, push c arg)
      | Some e \<Rightarrow>
          if length arg \<le> shortArgLen \<or> CHR ''$'' \<in> set arg then (env, push c arg)
          else
            let key = (case List.find (\<lambda>(k, v). v = arg) e of None \<Rightarrow> '''' | Some (k, _) \<Rightarrow> k)
            in if key = '''' then
                 (Some (AList.update (env_key (length e)) arg e), push c (''$'' @ env_key (length e)))
               else (env, push c (''$'' @ key)))"

fun cmd_add :: "env option \<Rightarrow> cmdline \<Rightarrow> string list \<Rightarrow> env option \<times> cmdline" where
  "cmd_add env c [] = (env, c)"
| "cmd_add env c (arg # args) =
     (case add_arg env c arg of (env', c') \<Rightarrow> cmd_add env' c' args)"

text \<open>Calls with a nil environment, and \<^verbatim>\<open>New\<close> with one.\<close>

definition cmd_add_nil :: "cmdline \<Rightarrow> string list \<Rightarrow> cmdline" where
  "cmd_add_nil c args = snd (cmd_add None c args)"

definition cmd_new :: "string list \<Rightarrow> cmdline" where
  "cmd_new args = cmd_add_nil empty_cmdline args"

text \<open>A call with the environment of a unit.\<close>

definition cmd_env :: "env \<times> cmdline \<Rightarrow> string list \<Rightarrow> env \<times> cmdline" where
  "cmd_env ec args =
     (case ec of (e, c) \<Rightarrow>
        case cmd_add (Some e) c args of (e', c') \<Rightarrow> (case e' of Some e' \<Rightarrow> e' | None \<Rightarrow> [], c'))"

definition cmd_string :: "cmdline \<Rightarrow> string" where
  "cmd_string c = join '' '' (cl_cmd c)"

section \<open>Nothing is lost\<close>

lemma cmd_add_nil [simp]: "cmd_add None c args = (None, c\<lparr>cl_cmd := cl_cmd c @ args\<rparr>)"
  by (induction args arbitrary: c) (simp_all add: add_arg_def push_def)

lemma cmd_new_cmd [simp]: "cl_cmd (cmd_new args) = args" "AllowFailure (cmd_new args) = False"
  by (simp_all add: cmd_new_def cmd_add_nil_def empty_cmdline_def)

text \<open>What systemd does with a word of the command line that is a variable of the unit.\<close>

definition expand :: "env \<Rightarrow> string \<Rightarrow> string" where
  "expand e w =
     (case w of [] \<Rightarrow> w | x # k \<Rightarrow>
        if x = CHR ''$'' then (case map_of e k of Some v \<Rightarrow> v | None \<Rightarrow> w) else w)"

definition env_ok :: "env \<Rightarrow> bool" where
  "env_ok e \<longleftrightarrow> map fst e = map env_key [0..<length e] \<and> distinct (map snd e)"

lemma env_key_inj [simp]: "env_key m = env_key n \<longleftrightarrow> m = n"
  by (simp add: env_key_def)

lemma env_key_not_Nil [simp]: "env_key n \<noteq> []" "[] \<noteq> env_key n"
  by (simp_all add: env_key_def)

lemma env_ok_keys: "env_ok e \<Longrightarrow> distinct (map fst e)" "env_ok e \<Longrightarrow> env_key (length e) \<notin> set (map fst e)"
  by (auto simp: env_ok_def distinct_map inj_on_def)

lemma update_append: "k \<notin> set (map fst e) \<Longrightarrow> AList.update k v e = e @ [(k, v)]"
  by (induction e) auto

lemma env_ok_Nil [simp]: "env_ok []"
  by (simp add: env_ok_def)

lemma map_of_append_new: "k \<notin> set (map fst e) \<Longrightarrow> map_of (e @ [(k, v)]) = (map_of e)(k \<mapsto> v)"
  by (induction e) (auto simp: fun_eq_iff)

text \<open>One argument: the environment keeps its bindings and the new word expands to the argument.\<close>

lemma add_arg_effect:
  assumes "env_ok e" and "add_arg (Some e) c arg = (e', c')"
  obtains e1 w where "e' = Some e1" "cl_cmd c' = cl_cmd c @ [w]" "AllowFailure c' = AllowFailure c" "env_ok e1"
    "map_of e \<subseteq>\<^sub>m map_of e1" "CHR ''$'' \<in> set arg \<Longrightarrow> w = arg" "CHR ''$'' \<notin> set arg \<Longrightarrow> expand e1 w = arg"
    "CHR ''$'' \<notin> set arg \<Longrightarrow> w = arg \<or> (\<exists>k \<in> dom (map_of e1). w = CHR ''$'' # k)"
proof (cases "length arg \<le> shortArgLen \<or> CHR ''$'' \<in> set arg")
  case True
  then have "e' = Some e" "c' = push c arg" using assms(2) by (auto simp: add_arg_def)
  moreover have "CHR ''$'' \<notin> set arg \<Longrightarrow> expand e arg = arg" by (cases arg) (auto simp: expand_def)
  ultimately show ?thesis using that [of e arg] assms(1) by (simp add: push_def)
next
  case False
  note nokey = env_ok_keys [OF assms(1)]
  show ?thesis
  proof (cases "List.find (\<lambda>(k, v). v = arg) e")
    case None
    let ?e1 = "e @ [(env_key (length e), arg)]" and ?k = "env_key (length e)"
    have e: "e' = Some ?e1" "c' = push c (CHR ''$'' # ?k)"
      using False None assms(2) update_append [OF nokey(2)] by (auto simp: add_arg_def)
    have "arg \<notin> set (map snd e)" using None by (auto simp: find_None_set)
    then have "env_ok ?e1" using assms(1) by (simp add: env_ok_def)
    moreover have m: "map_of ?e1 = (map_of e)(?k \<mapsto> arg)" by (rule map_of_append_new [OF nokey(2)])
    moreover have "map_of e ?k = None" using nokey(2) by (simp add: map_of_eq_None_iff)
    then have "map_of e \<subseteq>\<^sub>m map_of ?e1" unfolding m by (auto simp: map_le_def)
    ultimately show ?thesis
      using that [of ?e1 "CHR ''$'' # ?k"] e False by (simp add: push_def expand_def)
  next
    case (Some kv)
    then obtain k where kv: "kv = (k, arg)" "(k, arg) \<in> set e" by (auto dest: find_Some_set)
    have "k \<in> set (map fst e)" using kv(2) by force
    then have "k \<in> set (map env_key [0..<length e])" using assms(1) unfolding env_ok_def by metis
    then have "k \<noteq> ''''" by auto
    then have e: "e' = Some e" "c' = push c (CHR ''$'' # k)"
      using False Some kv assms(2) by (auto simp: add_arg_def)
    have "map_of e k = Some arg" using kv(2) nokey(1) by (simp add: map_of_eq_Some_iff)
    then show ?thesis
      using that [of e "CHR ''$'' # k"] e assms(1) False by (auto simp: push_def expand_def)
  qed
qed

lemma expand_le:
  assumes "map_of e \<subseteq>\<^sub>m map_of e'" "w = CHR ''$'' # k" "k \<in> dom (map_of e)"
  shows "expand e' w = expand e w"
  using assms by (auto simp: expand_def map_le_def dom_def)

lemma cmd_add_effect:
  assumes "env_ok e" "cmd_add (Some e) c args = (e', c')"
  shows "\<exists>e1 ws. e' = Some e1 \<and> env_ok e1 \<and> map_of e \<subseteq>\<^sub>m map_of e1 \<and> cl_cmd c' = cl_cmd c @ ws \<and>
    AllowFailure c' = AllowFailure c \<and>
    list_all2 (\<lambda>w arg. if CHR ''$'' \<in> set arg then w = arg else expand e1 w = arg) ws args"
  using assms
proof (induction args arbitrary: e c)
  case (Cons arg args)
  obtain ea ca where a: "add_arg (Some e) c arg = (ea, ca)" by fastforce
  from add_arg_effect [OF Cons.prems(1) a] obtain e1 w where 1: "ea = Some e1" "cl_cmd ca = cl_cmd c @ [w]"
    "AllowFailure ca = AllowFailure c" "env_ok e1"
    "map_of e \<subseteq>\<^sub>m map_of e1" "CHR ''$'' \<in> set arg \<longrightarrow> w = arg" "CHR ''$'' \<notin> set arg \<longrightarrow> expand e1 w = arg"
    "CHR ''$'' \<notin> set arg \<longrightarrow> w = arg \<or> (\<exists>k \<in> dom (map_of e1). w = CHR ''$'' # k)" by metis
  from Cons.prems(2) a 1(1) have "cmd_add (Some e1) ca args = (e', c')" by simp
  from Cons.IH [OF 1(4) this] obtain e2 ws where 2: "e' = Some e2" "env_ok e2" "map_of e1 \<subseteq>\<^sub>m map_of e2"
    "cl_cmd c' = cl_cmd ca @ ws" "AllowFailure c' = AllowFailure ca"
    "list_all2 (\<lambda>w arg. if CHR ''$'' \<in> set arg then w = arg else expand e2 w = arg) ws args" by auto
  have "expand e2 w = arg" if d: "CHR ''$'' \<notin> set arg"
  proof (cases "w = arg")
    case True
    with d show ?thesis by (cases arg) (auto simp: expand_def)
  next
    case False
    with 1(8) d obtain k where "k \<in> dom (map_of e1)" "w = CHR ''$'' # k" by auto
    with expand_le [OF 2(3)] 1(7) d show ?thesis by simp
  qed
  then have "list_all2 (\<lambda>w arg. if CHR ''$'' \<in> set arg then w = arg else expand e2 w = arg) (w # ws) (arg # args)"
    using 1(6) 2(6) by simp
  moreover have "map_of e \<subseteq>\<^sub>m map_of e2" using 1(5) 2(3) by (rule map_le_trans)
  ultimately show ?case using 1 2 by (intro exI [of _ e2] exI [of _ "w # ws"]) simp
qed auto

end
