(* ===== verification/Paths.thy ===== *)
theory Paths
  imports Prelude
begin

text \<open>
  \<^verbatim>\<open>path.Clean\<close> and \<^verbatim>\<open>path.Join\<close> of the Go library, on which
  volume and secret paths rest.
\<close>

fun clean_components :: "bool \<Rightarrow> string list \<Rightarrow> string list \<Rightarrow> string list" where
  "clean_components rooted stack [] = rev stack"
| "clean_components rooted stack (c # cs) =
     (if c = '''' \<or> c = ''.'' then clean_components rooted stack cs
      else if c = ''..'' then
        (case stack of
           [] \<Rightarrow> clean_components rooted (if rooted then [] else [''..'']) cs
         | s # ss \<Rightarrow> if s = ''..'' then clean_components rooted (''..'' # stack) cs
                   else clean_components rooted ss cs)
      else clean_components rooted (c # stack) cs)"

definition path_clean :: "string \<Rightarrow> string" where
  "path_clean p =
     (let rooted = (p \<noteq> '''' \<and> hd p = CHR ''/'');
          cs = clean_components rooted [] (split_on CHR ''/'' p)
      in if rooted then CHR ''/'' # join ''/'' cs
         else if cs = [] then ''.'' else join ''/'' cs)"

definition path_join :: "string list \<Rightarrow> string" where
  "path_join elems =
     (case dropWhile (\<lambda>e. e = '''') elems of [] \<Rightarrow> '''' | es \<Rightarrow> path_clean (join ''/'' es))"

text \<open>A path whose components are plain names is its own clean form.\<close>

definition plain :: "string \<Rightarrow> bool" where
  "plain c \<longleftrightarrow> c \<noteq> '''' \<and> c \<noteq> ''.'' \<and> c \<noteq> ''..'' \<and> CHR ''/'' \<notin> set c"

lemma clean_plain: "\<forall>c \<in> set cs. plain c \<Longrightarrow> clean_components rooted stack cs = rev stack @ cs"
  by (induction rooted stack cs rule: clean_components.induct) (auto simp: plain_def)

lemma split_rooted:
  "cs \<noteq> [] \<Longrightarrow> \<forall>c \<in> set cs. plain c \<Longrightarrow> split_on CHR ''/'' (CHR ''/'' # join ''/'' cs) = '''' # cs"
  by (simp add: split_on_join plain_def)

lemma path_clean_plain:
  "cs \<noteq> [] \<Longrightarrow> \<forall>c \<in> set cs. plain c \<Longrightarrow> path_clean (CHR ''/'' # join ''/'' cs) = CHR ''/'' # join ''/'' cs"
  using split_rooted [of cs] clean_plain [of cs True "[]"]
  by (simp add: path_clean_def Let_def)

end
