(* ===== verification/SdUnits.thy ===== *)
theory SdUnits
  imports Prelude "HOL-Library.AList" "HOL-Library.Word"
begin

text \<open>
  Systemd units: \<^verbatim>\<open>pkg/sdunits\<close>. A unit is a record of options; the code
  shares units by pointer between chains, so a chain is a list of addresses into a store of units
  and linking chains updates the store. \<^verbatim>\<open>Render\<close> writes the unit file. The
  lemmas show that rendering does not depend on the iteration order of the two maps of a unit, and
  what linking adds.
\<close>

section \<open>Options\<close>

record exec_options =
  IsOneshot :: bool
  IsForking :: bool
  RemainsAfterExit :: bool
  stopWhenUnneeded :: bool
  Restart :: string
  RestartSec :: "8 word"
  StartLimitInterval :: string
  StartLimitBurst :: "8 word"
  TimeoutStartSec :: "8 word"
  ContainerTimeoutStopSec :: "8 word"
  EnvironmentFiles :: "string list"
  Environment :: "(string \<times> string) list"
  ExecStartPre :: "string list"
  ExecStart :: string
  ExecStartPost :: "string list"
  ExecStop :: "string list"
  ExecStopPost :: "string list"
  BindsTos :: "string list"
  wants :: "string list"
  after :: "string list"
  Requires :: "string list"
  OnCalendar :: string
  TimerUnit :: string

record fleet_unit_options =
  IsGlobal :: bool
  ConflictsWith :: "string list"
  machineOf :: "string list"
  MachineID :: string
  Metadata :: "string list"

record sd_unit =
  Name :: string
  FullName :: string
  UnitType :: string
  Description :: string
  ScalingGroup :: nat
  ExecOptions :: exec_options
  UnitFleetOptions :: fleet_unit_options
  projectSettings :: "(string \<times> string) list"

definition new_exec_options :: "string list \<Rightarrow> exec_options" where
  "new_exec_options start =
     \<lparr>IsOneshot = False, IsForking = False, RemainsAfterExit = False, stopWhenUnneeded = False,
      Restart = ''on-failure'', RestartSec = 1, StartLimitInterval = ''60s'', StartLimitBurst = 3,
      TimeoutStartSec = 0, ContainerTimeoutStopSec = 10, EnvironmentFiles = [''/etc/environment''],
      Environment = [], ExecStartPre = [], ExecStart = join '' '' start, ExecStartPost = [],
      ExecStop = [], ExecStopPost = [], BindsTos = [], wants = [], after = [], Requires = [],
      OnCalendar = '''', TimerUnit = ''''\<rparr>"

definition new_fleet_unit_options :: fleet_unit_options where
  "new_fleet_unit_options =
     \<lparr>IsGlobal = False, ConflictsWith = [], machineOf = [], MachineID = '''', Metadata = []\<rparr>"

definition set_restart_sec :: "8 word \<Rightarrow> exec_options \<Rightarrow> exec_options" where
  "set_restart_sec seconds e = e\<lparr>RestartSec := seconds\<rparr>"

definition exec_oneshot :: "exec_options \<Rightarrow> exec_options" where
  "exec_oneshot e = e\<lparr>IsOneshot := True\<rparr>"

definition exec_forking :: "exec_options \<Rightarrow> exec_options" where
  "exec_forking e = e\<lparr>IsForking := True\<rparr>"

definition exec_remain_after_exit :: "exec_options \<Rightarrow> exec_options" where
  "exec_remain_after_exit e = e\<lparr>RemainsAfterExit := True\<rparr>"

definition stop_when_unneeded :: "exec_options \<Rightarrow> exec_options" where
  "stop_when_unneeded e = e\<lparr>stopWhenUnneeded := True\<rparr>"

definition exec_after :: "string list \<Rightarrow> exec_options \<Rightarrow> exec_options" where
  "exec_after ns e = e\<lparr>after := after e @ ns\<rparr>"

definition exec_require :: "string list \<Rightarrow> exec_options \<Rightarrow> exec_options" where
  "exec_require ns e = e\<lparr>Requires := Requires e @ ns\<rparr>"

definition exec_want :: "string list \<Rightarrow> exec_options \<Rightarrow> exec_options" where
  "exec_want ns e = e\<lparr>wants := wants e @ ns\<rparr>"

definition fleet_conflicts :: "string \<Rightarrow> fleet_unit_options \<Rightarrow> fleet_unit_options" where
  "fleet_conflicts n f = f\<lparr>ConflictsWith := ConflictsWith f @ [n]\<rparr>"

definition machine_metadata :: "string list \<Rightarrow> fleet_unit_options \<Rightarrow> fleet_unit_options" where
  "machine_metadata vs f =
     (if 0 < length vs
      then f\<lparr>Metadata := Metadata f @ [''\"'' @ join ''\" \"'' vs @ ''\"'']\<rparr> else f)"

definition fleet_machine_of :: "string \<Rightarrow> fleet_unit_options \<Rightarrow> fleet_unit_options" where
  "fleet_machine_of n f = f\<lparr>machineOf := machineOf f @ [n]\<rparr>"

definition fleet_set_global :: "fleet_unit_options \<Rightarrow> fleet_unit_options" where
  "fleet_set_global f = f\<lparr>IsGlobal := True\<rparr>"

definition map_exec :: "(exec_options \<Rightarrow> exec_options) \<Rightarrow> sd_unit \<Rightarrow> sd_unit" where
  "map_exec f u = u\<lparr>ExecOptions := f (ExecOptions u)\<rparr>"

definition map_fleet :: "(fleet_unit_options \<Rightarrow> fleet_unit_options) \<Rightarrow> sd_unit \<Rightarrow> sd_unit" where
  "map_fleet f u = u\<lparr>UnitFleetOptions := f (UnitFleetOptions u)\<rparr>"

definition project_setting :: "string \<Rightarrow> string \<Rightarrow> sd_unit \<Rightarrow> sd_unit" where
  "project_setting key value u = u\<lparr>projectSettings := AList.update key value (projectSettings u)\<rparr>"

section \<open>Rendering\<close>

text \<open>
  \<^verbatim>\<open>strconv.Quote\<close>; bytes from 128 on are taken as parts of printable characters
  and kept.
\<close>

definition hex_digit :: "nat \<Rightarrow> char" where
  "hex_digit n = (if n < 10 then char_of (48 + n) else char_of (87 + n))"

definition quote_char :: "char \<Rightarrow> string" where
  "quote_char c =
     (let n = (of_char c :: nat)
      in if c = CHR 0x22 \<or> c = CHR 0x5C then [CHR 0x5C, c]
         else if 32 \<le> n \<and> n \<noteq> 127 then [c]
         else if n = 7 then [CHR 0x5C, CHR ''a'']
         else if n = 8 then [CHR 0x5C, CHR ''b'']
         else if n = 12 then [CHR 0x5C, CHR ''f'']
         else if n = 10 then [CHR 0x5C, CHR ''n'']
         else if n = 13 then [CHR 0x5C, CHR ''r'']
         else if n = 9 then [CHR 0x5C, CHR ''t'']
         else if n = 11 then [CHR 0x5C, CHR ''v'']
         else [CHR 0x5C, CHR ''x'', hex_digit (n div 16), hex_digit (n mod 16)])"

definition quote :: "string \<Rightarrow> string" where
  "quote s = CHR 0x22 # concat (map quote_char s) @ [CHR 0x22]"

definition sort_strings :: "string list \<Rightarrow> string list" where
  "sort_strings xs = go_sort (\<lambda>x. x) xs"

fun distinct_loop :: "string list \<Rightarrow> string list \<Rightarrow> string list" where
  "distinct_loop seen [] = []"
| "distinct_loop seen (x # xs) =
     (if x \<in> set seen then distinct_loop seen xs else x # distinct_loop (x # seen) xs)"

definition distinct_sorted :: "string list \<Rightarrow> string list" where
  "distinct_sorted xs = sort_strings (distinct_loop [] xs)"

record render_context =
  ProjectName :: string
  ProjectVersion :: string
  ProjectBuild :: string

definition word_str :: "8 word \<Rightarrow> string" where
  "word_str w = itoa (int (unat w))"

definition environment_lines :: "(string \<times> string) list \<Rightarrow> string list" where
  "environment_lines env =
     map (\<lambda>k. ''Environment='' @ quote (k @ ''='' @ (case map_of env k of None \<Rightarrow> '''' | Some v \<Rightarrow> v)))
       (sort_strings (map fst env))"

definition service_lines :: "exec_options \<Rightarrow> string list" where
  "service_lines e =
     [''[Service]''] @
     (if IsOneshot e then [''Type=oneshot''] else []) @
     (if RemainsAfterExit e then [''RemainAfterExit=yes''] else []) @
     (if \<not> IsOneshot e then
        [''Restart='' @ Restart e, ''RestartSec='' @ word_str (RestartSec e),
         ''StartLimitInterval='' @ StartLimitInterval e, ''StartLimitBurst='' @ word_str (StartLimitBurst e)]
      else []) @
     [''TimeoutStartSec='' @ word_str (TimeoutStartSec e)] @
     map (\<lambda>x. ''EnvironmentFile='' @ x) (EnvironmentFiles e) @
     environment_lines (Environment e) @
     map (\<lambda>x. ''ExecStartPre='' @ x) (ExecStartPre e) @
     (if ExecStart e \<noteq> '''' then [''ExecStart='' @ ExecStart e] else []) @
     map (\<lambda>x. ''ExecStartPost='' @ x) (ExecStartPost e) @
     map (\<lambda>x. ''ExecStop='' @ x) (ExecStop e) @
     map (\<lambda>x. ''ExecStopPost='' @ x) (ExecStopPost e) @ ['''']"

definition timer_lines :: "exec_options \<Rightarrow> string list" where
  "timer_lines e =
     [''[Timer]''] @
     (if OnCalendar e \<noteq> '''' then [''OnCalendar='' @ OnCalendar e] else []) @
     (if TimerUnit e \<noteq> '''' then [''Unit='' @ TimerUnit e] else []) @ ['''']"

definition fleet_lines :: "fleet_unit_options \<Rightarrow> string list" where
  "fleet_lines f =
     [''[X-Fleet]''] @
     (if IsGlobal f then [''Global=true''] else []) @
     map (\<lambda>x. ''Conflicts='' @ x) (distinct_sorted (ConflictsWith f)) @
     map (\<lambda>x. ''MachineOf='' @ x) (distinct_sorted (machineOf f)) @
     (if MachineID f \<noteq> '''' then [''MachineID='' @ MachineID f] else []) @
     map (\<lambda>x. ''MachineMetadata='' @ x) (distinct_sorted (Metadata f)) @ ['''']"

definition unit_lines :: "sd_unit \<Rightarrow> string list" where
  "unit_lines u =
     (let e = ExecOptions u in
      [''[Unit]'', ''Description='' @ Description u] @
      map (\<lambda>x. ''Wants='' @ x) (distinct_sorted (wants e)) @
      map (\<lambda>x. ''Requires='' @ x) (distinct_sorted (Requires e)) @
      map (\<lambda>x. ''BindsTo='' @ x) (distinct_sorted (BindsTos e)) @
      map (\<lambda>x. ''After='' @ x) (distinct_sorted (after e)) @
      (if stopWhenUnneeded e then [''StopWhenUnneeded=yes''] else []) @ [''''])"

definition project_lines :: "render_context \<Rightarrow> (string \<times> string) list \<Rightarrow> string list" where
  "project_lines ctx settings =
     [''[X-'' @ ProjectName ctx @ '']'',
      ''GeneratedBy=\"'' @ ProjectName ctx @ '' '' @ ProjectVersion ctx @ '', build '' @ ProjectBuild ctx @ ''\"''] @
     sort_strings (map (\<lambda>(k, v). k @ ''='' @ quote v) settings) @ ['''']"

definition render :: "render_context \<Rightarrow> sd_unit \<Rightarrow> string" where
  "render ctx u =
     join [char_of (10::nat)]
       (unit_lines u @
        (if UnitType u = ''service'' then service_lines (ExecOptions u)
         else if UnitType u = ''timer'' then timer_lines (ExecOptions u) else []) @
        fleet_lines (UnitFleetOptions u) @
        project_lines ctx (projectSettings u))"

section \<open>Chains\<close>

type_synonym store = "sd_unit list"
type_synonym chain = "nat list"

definition upd :: "nat \<Rightarrow> (sd_unit \<Rightarrow> sd_unit) \<Rightarrow> store \<Rightarrow> store" where
  "upd a f st = st[a := f (st ! a)]"

definition full_name_at :: "store \<Rightarrow> nat \<Rightarrow> string" where
  "full_name_at st a = FullName (st ! a)"

definition link_forward :: "chain \<Rightarrow> nat \<Rightarrow> store \<Rightarrow> store" where
  "link_forward chain i st =
     (if i + 1 < length chain
      then upd (chain ! i) (map_exec (exec_require [full_name_at st (chain ! (i + 1))])) st else st)"

definition link_backward :: "chain \<Rightarrow> nat \<Rightarrow> store \<Rightarrow> store" where
  "link_backward chain i st =
     (let p = full_name_at st (chain ! (i - 1));
          st = upd (chain ! i) (map_exec (exec_require [p])) st;
          st = upd (chain ! i) (map_exec (exec_after [p])) st
      in upd (chain ! i) (map_fleet (fleet_machine_of p)) st)"

definition link_to_last :: "chain \<Rightarrow> nat \<Rightarrow> store \<Rightarrow> store" where
  "link_to_last chain i st =
     upd (chain ! i) (map_exec (exec_require [full_name_at st (chain ! (length chain - 1))])) st"

definition link_at :: "chain \<Rightarrow> nat \<Rightarrow> store \<Rightarrow> store" where
  "link_at chain i st =
     (let st = link_forward chain i st
      in if 0 < i then link_backward chain i st
         else if 0 < length chain then link_to_last chain i st else st)"

definition link_chain :: "chain \<Rightarrow> store \<Rightarrow> store" where
  "link_chain chain st =
     (if 1 < length chain then fold (link_at chain) [0..<length chain] st else st)"

definition bind_restart_to :: "chain \<Rightarrow> chain \<Rightarrow> store \<Rightarrow> store" where
  "bind_restart_to chain other st =
     fold (\<lambda>u st. fold (\<lambda>o' st. upd u (map_exec (exec_require [full_name_at st o'])) st) other st) chain st"

definition chain_after :: "chain \<Rightarrow> chain \<Rightarrow> store \<Rightarrow> store" where
  "chain_after chain other st =
     fold (\<lambda>u st. fold (\<lambda>o' st. upd u (map_exec (exec_after [full_name_at st o'])) st) other st) chain st"

definition group_units_on_machine :: "nat list \<Rightarrow> store \<Rightarrow> store" where
  "group_units_on_machine units st =
     fold (\<lambda>i st. if i = 0 then st
             else upd (units ! i) (map_fleet (fleet_machine_of (full_name_at st (units ! 0)))) st)
       [0..<length units] st"

section \<open>Rendering is independent of map order\<close>

lemma map_of_perm:
  "distinct (map fst xs) \<Longrightarrow> mset xs = mset ys \<Longrightarrow> map_of xs = map_of ys"
  by (metis distinct_map map_of_inject_set mset_eq_imp_distinct_iff mset_eq_setD mset_map)

lemma sort_strings_perm: "mset xs = mset ys \<Longrightarrow> sort_strings xs = sort_strings ys"
  unfolding sort_strings_def go_sort_def by (rule properties_for_sort) simp_all

lemma environment_lines_perm:
  assumes "distinct (map fst xs)" "mset xs = mset ys"
  shows "environment_lines xs = environment_lines ys"
proof -
  have "mset (map fst xs) = mset (map fst ys)" using assms(2) by simp
  with map_of_perm [OF assms] show ?thesis
    by (simp add: environment_lines_def sort_strings_perm [of "map fst xs" "map fst ys"])
qed

lemma project_lines_perm: "mset xs = mset ys \<Longrightarrow> project_lines ctx xs = project_lines ctx ys"
  unfolding project_lines_def by (subst sort_strings_perm [of _ "map _ ys"]) simp_all

lemma render_perm:
  assumes "distinct (map fst (Environment (ExecOptions u)))" "mset (Environment (ExecOptions u)) = mset env"
    "mset (projectSettings u) = mset ps"
  shows "render ctx (u\<lparr>ExecOptions := (ExecOptions u)\<lparr>Environment := env\<rparr>, projectSettings := ps\<rparr>) = render ctx u"
  using environment_lines_perm [OF assms(1,2)] project_lines_perm [OF assms(3)]
  by (simp add: render_def unit_lines_def service_lines_def timer_lines_def Let_def)

lemma distinct_loop_set:
  "set (distinct_loop seen xs) = set xs - set seen" "distinct (distinct_loop seen xs)"
  by (induction seen xs rule: distinct_loop.induct) auto

lemma distinct_sorted [simp]:
  "set (distinct_sorted xs) = set xs" "distinct (distinct_sorted xs)" "sorted (distinct_sorted xs)"
proof -
  show "set (distinct_sorted xs) = set xs"
    by (simp add: distinct_sorted_def sort_strings_def distinct_loop_set)
  show "distinct (distinct_sorted xs)" "sorted (distinct_sorted xs)"
    using distinct_loop_set(2) [of "[]" xs]
    by (simp_all add: distinct_sorted_def sort_strings_def go_sort_def)
qed

section \<open>Stores grow\<close>

text \<open>
  The operations on chains only append to \<open>Requires\<close>, \<open>after\<close> and \<open>machineOf\<close>.
\<close>

definition unit_le :: "sd_unit \<Rightarrow> sd_unit \<Rightarrow> bool" where
  "unit_le u v \<longleftrightarrow> (\<exists>r a m. v = u
     \<lparr>ExecOptions := (ExecOptions u)\<lparr>Requires := Requires (ExecOptions u) @ r, after := after (ExecOptions u) @ a\<rparr>,
      UnitFleetOptions := (UnitFleetOptions u)\<lparr>machineOf := machineOf (UnitFleetOptions u) @ m\<rparr>\<rparr>)"

definition store_le :: "store \<Rightarrow> store \<Rightarrow> bool" where
  "store_le st st' \<longleftrightarrow> list_all2 unit_le st st'"

lemma unit_le_refl [simp]: "unit_le u u"
  unfolding unit_le_def by (rule exI [of _ "[]"])+ simp

lemma unit_le_trans: "unit_le u v \<Longrightarrow> unit_le v w \<Longrightarrow> unit_le u w"
  unfolding unit_le_def by (elim exE, intro exI) simp

lemma unit_le_facts:
  assumes "unit_le u v"
  shows "FullName v = FullName u" "set (Requires (ExecOptions u)) \<subseteq> set (Requires (ExecOptions v))"
    "set (after (ExecOptions u)) \<subseteq> set (after (ExecOptions v))"
    "set (machineOf (UnitFleetOptions u)) \<subseteq> set (machineOf (UnitFleetOptions v))"
  using assms by (auto simp: unit_le_def)

lemma unit_le_exec [simp]:
  "unit_le u (map_exec (exec_require ns) u)" "unit_le u (map_exec (exec_after ns) u)"
  "unit_le u (map_fleet (fleet_machine_of n) u)"
proof -
  show "unit_le u (map_exec (exec_require ns) u)"
    unfolding unit_le_def by (rule exI [of _ ns], rule exI [of _ "[]"], rule exI [of _ "[]"])
      (simp add: map_exec_def exec_require_def)
  show "unit_le u (map_exec (exec_after ns) u)"
    unfolding unit_le_def by (rule exI [of _ "[]"], rule exI [of _ ns], rule exI [of _ "[]"])
      (simp add: map_exec_def exec_after_def)
  show "unit_le u (map_fleet (fleet_machine_of n) u)"
    unfolding unit_le_def by (rule exI [of _ "[]"], rule exI [of _ "[]"], rule exI [of _ "[n]"])
      (simp add: map_fleet_def fleet_machine_of_def)
qed

lemma store_le_refl [simp]: "store_le st st"
  by (simp add: store_le_def list_all2_refl)

lemma store_le_trans: "store_le a b \<Longrightarrow> store_le b c \<Longrightarrow> store_le a c"
  unfolding store_le_def by (rule list_all2_trans) (rule unit_le_trans)

lemma store_le_nth: "store_le st st' \<Longrightarrow> a < length st \<Longrightarrow> unit_le (st ! a) (st' ! a)"
  by (simp add: store_le_def list_all2_nthD)

lemma store_le_length: "store_le st st' \<Longrightarrow> length st' = length st"
  by (simp add: store_le_def list_all2_lengthD)

lemma store_le_upd: "unit_le (st ! a) (f (st ! a)) \<Longrightarrow> store_le st (upd a f st)"
  by (cases "a < length st") (auto simp: upd_def store_le_def list_all2_conv_all_nth nth_list_update)

lemma store_le_upds [simp]:
  "store_le st (upd a (map_exec (exec_require ns)) st)" "store_le st (upd a (map_exec (exec_after ns)) st)"
  "store_le st (upd a (map_fleet (fleet_machine_of n)) st)"
  by (simp_all add: store_le_upd)

lemma store_le_name: "store_le st st' \<Longrightarrow> a < length st \<Longrightarrow> full_name_at st' a = full_name_at st a"
  by (simp add: full_name_at_def store_le_nth unit_le_facts)

lemma fold_store_le:
  "(\<And>x st. store_le st (f x st)) \<Longrightarrow> store_le st (fold f xs st)"
proof (induction xs arbitrary: st)
  case (Cons x xs)
  from Cons.prems [of st x] Cons.IH [OF Cons.prems] show ?case by (auto intro: store_le_trans)
qed simp

text \<open>What one round of a loop establishes holds at its end, if growing keeps it.\<close>

lemma fold_establish:
  assumes "\<And>x st. store_le st (f x st)" and "x \<in> set xs"
    and P: "\<And>s. store_le st s \<Longrightarrow> P (f x s)" and mono: "\<And>s s'. P s \<Longrightarrow> store_le s s' \<Longrightarrow> P s'"
  shows "P (fold f xs st)"
  using assms(2) P
proof (induction xs arbitrary: st)
  case (Cons y ys)
  show ?case
  proof (cases "x \<in> set ys")
    case True
    have "P (f x s)" if "store_le (f y st) s" for s
      using that assms(1) [of st y] by (intro Cons.prems(2)) (rule store_le_trans)
    with Cons.IH [OF True] show ?thesis by simp
  next
    case False
    with Cons.prems have "P (f y st)" by auto
    then show ?thesis using mono fold_store_le [of f] assms(1) by (metis fold_simps(2))
  qed
qed simp

section \<open>Chains\<close>

text \<open>\<open>needs st a b\<close>: the unit at \<open>a\<close> requires the unit at \<open>b\<close>; similarly for the others.\<close>

definition needs :: "store \<Rightarrow> nat \<Rightarrow> nat \<Rightarrow> bool" where
  "needs st a b \<longleftrightarrow> a < length st \<and> b < length st \<and> full_name_at st b \<in> set (Requires (ExecOptions (st ! a)))"

definition starts_after :: "store \<Rightarrow> nat \<Rightarrow> nat \<Rightarrow> bool" where
  "starts_after st a b \<longleftrightarrow> a < length st \<and> b < length st \<and> full_name_at st b \<in> set (after (ExecOptions (st ! a)))"

definition same_machine :: "store \<Rightarrow> nat \<Rightarrow> nat \<Rightarrow> bool" where
  "same_machine st a b \<longleftrightarrow> a < length st \<and> b < length st \<and> full_name_at st b \<in> set (machineOf (UnitFleetOptions (st ! a)))"

lemma relations_mono:
  assumes "store_le st st'"
  shows "needs st a b \<Longrightarrow> needs st' a b" "starts_after st a b \<Longrightarrow> starts_after st' a b"
    "same_machine st a b \<Longrightarrow> same_machine st' a b"
proof -
  have le: "a < length st \<Longrightarrow> unit_le (st ! a) (st' ! a)" by (rule store_le_nth [OF assms])
  show "needs st a b \<Longrightarrow> needs st' a b" "starts_after st a b \<Longrightarrow> starts_after st' a b"
    "same_machine st a b \<Longrightarrow> same_machine st' a b"
    using unit_le_facts(2-4) [OF le] assms
    by (auto simp: needs_def starts_after_def same_machine_def store_le_length store_le_name)
qed

lemma full_name_map [simp]: "FullName (map_exec f u) = FullName u" "FullName (map_fleet g u) = FullName u"
  by (simp_all add: map_exec_def map_fleet_def)

lemma full_name_upd_gen: "FullName (f (st ! a)) = FullName (st ! a) \<Longrightarrow> full_name_at (upd a f st) b = full_name_at st b"
  by (cases "a < length st"; cases "b = a") (simp_all add: full_name_at_def upd_def list_update_beyond)

lemma full_name_upd [simp]:
  "full_name_at (upd a (map_exec f) st) b = full_name_at st b"
  "full_name_at (upd a (map_fleet g) st) b = full_name_at st b"
  by (rule full_name_upd_gen; simp)+

lemma length_upd [simp]: "length (upd a f st) = length st"
  by (simp add: upd_def)

lemma upd_relations:
  assumes "a < length st" "b < length st"
  shows "needs (upd a (map_exec (exec_require [full_name_at st b])) st) a b"
    "starts_after (upd a (map_exec (exec_after [full_name_at st b])) st) a b"
    "same_machine (upd a (map_fleet (fleet_machine_of (full_name_at st b))) st) a b"
  unfolding needs_def starts_after_def same_machine_def
  using assms
  by (simp_all only: full_name_upd length_upd)
    (simp_all add: upd_def map_exec_def map_fleet_def exec_require_def exec_after_def fleet_machine_of_def)

section \<open>What linking achieves\<close>

lemma link_parts_le: "store_le st (link_forward chain i st)" "store_le st (link_backward chain i st)"
    "store_le st (link_to_last chain i st)"
proof -
  show "store_le st (link_forward chain i st)" "store_le st (link_to_last chain i st)"
    by (simp_all add: link_forward_def link_to_last_def)
  show "store_le st (link_backward chain i st)"
    unfolding link_backward_def Let_def by (meson store_le_trans store_le_upds)
qed

lemma link_at_forward: "store_le (link_forward chain i st) (link_at chain i st)"
  by (simp add: link_at_def Let_def link_parts_le)

lemma link_at_le: "store_le st (link_at chain i st)"
  using link_parts_le(1) link_at_forward by (rule store_le_trans)

lemma link_chain_le: "store_le st (link_chain chain st)"
  by (simp add: link_chain_def fold_store_le link_at_le)

lemma link_backward_relations:
  assumes "chain ! i < length st" "chain ! (i - 1) < length st"
  shows "needs (link_backward chain i st) (chain ! i) (chain ! (i - 1)) \<and>
    starts_after (link_backward chain i st) (chain ! i) (chain ! (i - 1)) \<and>
    same_machine (link_backward chain i st) (chain ! i) (chain ! (i - 1))"
proof -
  let ?a = "chain ! i" and ?b = "chain ! (i - 1)"
  define s2 where "s2 = upd ?a (map_exec (exec_require [full_name_at st ?b])) st"
  define s3 where "s3 = upd ?a (map_exec (exec_after [full_name_at s2 ?b])) s2"
  define s4 where "s4 = upd ?a (map_fleet (fleet_machine_of (full_name_at s3 ?b))) s3"
  have e: "link_backward chain i st = s4"
    by (simp add: link_backward_def Let_def s2_def s3_def s4_def)
  have le: "store_le s2 s3" "store_le s3 s4" by (simp_all add: s3_def s4_def)
  have "needs s2 ?a ?b" unfolding s2_def using assms by (rule upd_relations)
  moreover have "starts_after s3 ?a ?b"
    unfolding s3_def by (rule upd_relations) (use assms in \<open>simp_all add: s2_def\<close>)
  moreover have "same_machine s4 ?a ?b"
    unfolding s4_def by (rule upd_relations) (use assms in \<open>simp_all add: s2_def s3_def\<close>)
  ultimately show ?thesis using le relations_mono store_le_trans e by metis
qed

lemma link_at_relations:
  assumes "\<forall>a \<in> set chain. a < length st" "i < length chain"
  shows "i + 1 < length chain \<Longrightarrow> needs (link_at chain i st) (chain ! i) (chain ! (i + 1))"
    "0 < i \<Longrightarrow> needs (link_at chain i st) (chain ! i) (chain ! (i - 1)) \<and>
       starts_after (link_at chain i st) (chain ! i) (chain ! (i - 1)) \<and>
       same_machine (link_at chain i st) (chain ! i) (chain ! (i - 1))"
proof -
  have in_st: "j < length chain \<Longrightarrow> chain ! j < length st" for j using assms(1) by simp
  show "0 < i \<Longrightarrow> needs (link_at chain i st) (chain ! i) (chain ! (i - 1)) \<and>
       starts_after (link_at chain i st) (chain ! i) (chain ! (i - 1)) \<and>
       same_machine (link_at chain i st) (chain ! i) (chain ! (i - 1))"
    using link_backward_relations [of chain i "link_forward chain i st"] in_st [of i] in_st [of "i - 1"]
      assms(2) store_le_length [OF link_parts_le(1) [of st chain i]]
    by (simp add: link_at_def Let_def)
  assume i: "i + 1 < length chain"
  then have "needs (link_forward chain i st) (chain ! i) (chain ! (i + 1))"
    using upd_relations(1) [of "chain ! i" st "chain ! (i + 1)"] in_st [of i] in_st [of "i + 1"]
    by (simp add: link_forward_def)
  then show "needs (link_at chain i st) (chain ! i) (chain ! (i + 1))"
    by (rule relations_mono(1) [OF link_at_forward])
qed

text \<open>
  After \<^verbatim>\<open>Link\<close> neighbours in the chain require each other, each unit starts after
  its predecessor and on the same machine.
\<close>

lemma link_chain_relations:
  assumes "\<forall>a \<in> set chain. a < length st" "1 < length chain"
  shows "i + 1 < length chain \<Longrightarrow> needs (link_chain chain st) (chain ! i) (chain ! (i + 1))"
    "0 < i \<Longrightarrow> i < length chain \<Longrightarrow> needs (link_chain chain st) (chain ! i) (chain ! (i - 1)) \<and>
       starts_after (link_chain chain st) (chain ! i) (chain ! (i - 1)) \<and>
       same_machine (link_chain chain st) (chain ! i) (chain ! (i - 1))"
proof -
  have l: "\<forall>a \<in> set chain. a < length s" if "store_le st s" for s
    using assms(1) store_le_length [OF that] by simp
  have e: "link_chain chain st = fold (link_at chain) [0..<length chain] st"
    using assms(2) by (simp add: link_chain_def)
  show "needs (link_chain chain st) (chain ! i) (chain ! (i + 1))" if i: "i + 1 < length chain"
    unfolding e
  proof (rule fold_establish [OF link_at_le, of i])
    show "needs (link_at chain i s) (chain ! i) (chain ! (i + 1))" if "store_le st s" for s
      using link_at_relations(1) [OF l [OF that]] i by simp
  qed (use i relations_mono in auto)
  show "needs (link_chain chain st) (chain ! i) (chain ! (i - 1)) \<and>
       starts_after (link_chain chain st) (chain ! i) (chain ! (i - 1)) \<and>
       same_machine (link_chain chain st) (chain ! i) (chain ! (i - 1))" if i: "0 < i" "i < length chain"
    unfolding e
  proof (rule fold_establish [OF link_at_le, of i])
    show "needs (link_at chain i s) (chain ! i) (chain ! (i - 1)) \<and>
        starts_after (link_at chain i s) (chain ! i) (chain ! (i - 1)) \<and>
        same_machine (link_at chain i s) (chain ! i) (chain ! (i - 1))" if "store_le st s" for s
      using link_at_relations(2) [OF l [OF that] i(2)] i(1) by simp
  qed (use i relations_mono in auto)
qed

lemma inner_le:
  "store_le st (fold (\<lambda>o' st. upd u (map_exec (exec_require [full_name_at st o'])) st) other st)"
  "store_le st (fold (\<lambda>o' st. upd u (map_exec (exec_after [full_name_at st o'])) st) other st)"
  by (simp_all add: fold_store_le)

lemma bind_restart_to_le: "store_le st (bind_restart_to chain other st)"
  unfolding bind_restart_to_def by (rule fold_store_le) (rule inner_le)

lemma chain_after_le: "store_le st (chain_after chain other st)"
  unfolding chain_after_def by (rule fold_store_le) (rule inner_le)

lemma group_units_on_machine_le: "store_le st (group_units_on_machine units st)"
  unfolding group_units_on_machine_def by (rule fold_store_le) simp

lemma bind_restart_to_relations:
  assumes "a \<in> set chain" "b \<in> set other" "a < length st" "b < length st"
  shows "needs (bind_restart_to chain other st) a b"
  unfolding bind_restart_to_def
proof (rule fold_establish [OF inner_le(1) assms(1)])
  fix s assume s: "store_le st s"
  show "needs (fold (\<lambda>o' st. upd a (map_exec (exec_require [full_name_at st o'])) st) other s) a b"
  proof (rule fold_establish [OF _ assms(2)])
    fix s' assume "store_le s s'"
    then have "length s' = length st" using s by (simp add: store_le_length)
    with assms show "needs (upd a (map_exec (exec_require [full_name_at s' b])) s') a b"
      by (intro upd_relations) simp_all
  qed (simp_all add: relations_mono)
qed (rule relations_mono)

lemma chain_after_relations:
  assumes "a \<in> set chain" "b \<in> set other" "a < length st" "b < length st"
  shows "starts_after (chain_after chain other st) a b"
  unfolding chain_after_def
proof (rule fold_establish [OF inner_le(2) assms(1)])
  fix s assume s: "store_le st s"
  show "starts_after (fold (\<lambda>o' st. upd a (map_exec (exec_after [full_name_at st o'])) st) other s) a b"
  proof (rule fold_establish [OF _ assms(2)])
    fix s' assume "store_le s s'"
    then have "length s' = length st" using s by (simp add: store_le_length)
    with assms show "starts_after (upd a (map_exec (exec_after [full_name_at s' b])) s') a b"
      by (intro upd_relations) simp_all
  qed (simp_all add: relations_mono)
qed (rule relations_mono)

lemma group_units_on_machine_relations:
  assumes "\<forall>a \<in> set units. a < length st" "0 < i" "i < length units"
  shows "same_machine (group_units_on_machine units st) (units ! i) (units ! 0)"
  unfolding group_units_on_machine_def
proof (rule fold_establish [where x = i])
  fix s assume "store_le st s"
  then have l: "length s = length st" by (rule store_le_length)
  have "same_machine (upd (units ! i) (map_fleet (fleet_machine_of (full_name_at s (units ! 0)))) s) (units ! i) (units ! 0)"
  proof (rule upd_relations)
    show "units ! i < length s" using assms l by simp
    have "units ! 0 \<in> set units" using assms(3) by (intro nth_mem) linarith
    then show "units ! 0 < length s" using assms(1) l by simp
  qed
  with assms(2) show "same_machine (if i = 0 then s
      else upd (units ! i) (map_fleet (fleet_machine_of (full_name_at s (units ! 0)))) s) (units ! i) (units ! 0)"
    by simp
qed (use assms relations_mono in auto)

end
