(* ===== verification/Docker.thy ===== *)
theory Docker
  imports Model Cmdline Paths SdUnits
begin

text \<open>
  The docker engine, \<^verbatim>\<open>engine/docker\<close>: the commands that start and stop the
  container of a task, of a proxy for a TCP link and of a shared volume. The environment of the
  unit is threaded through, as the command lines put their long arguments into it. The image names
  that \<^verbatim>\<open>SetupImages\<close> stores in a global variable are the argument \<open>images\<close>,
  the hash of a secret (\<^verbatim>\<open>sha1\<close> of its JSON form) is the argument \<open>hash\<close>.
\<close>

record images =
  VaultMonkey :: string
  Wormhole :: string
  Alpine :: string
  CephVolume :: string

record docker_engine =
  de_options :: docker_options
  de_images :: images
  dockerPath :: string
  shPath :: string
  touchPath :: string
  cleanupScriptPath :: string
  weavePluginSocket :: string
  containerTimeoutStopSec :: int

record cmds =
  cmds_Start :: "cmdline list"
  cmds_Stop :: "cmdline list"

definition no_images :: images where
  "no_images = \<lparr>VaultMonkey = '''', Wormhole = '''', Alpine = '''', CephVolume = ''''\<rparr>"

text \<open>\<^verbatim>\<open>NewEngine\<close> leaves the field for the images empty.\<close>

definition new_docker_engine :: "cluster \<Rightarrow> docker_engine" where
  "new_docker_engine c =
     \<lparr>de_options = DockerOptions c, de_images = no_images, dockerPath = ''/usr/bin/docker'',
      shPath = ''/bin/sh'', touchPath = ''/usr/bin/touch'',
      cleanupScriptPath = ''/home/core/bin/docker-cleanup.sh'',
      weavePluginSocket = ''unix:///var/run/weave/weave.sock'', containerTimeoutStopSec = 10\<rparr>"

section \<open>Common commands\<close>

definition pull_cmd :: "docker_engine \<Rightarrow> string \<Rightarrow> cmdline" where
  "pull_cmd e img = cmd_new [dockerPath e, ''pull'', img]"

definition failing_cmdline :: cmdline where
  "failing_cmdline = \<lparr>cl_cmd = [], AllowFailure = True\<rparr>"

definition stop_cmd :: "docker_engine \<Rightarrow> string \<Rightarrow> cmdline" where
  "stop_cmd e containerName =
     cmd_add_nil failing_cmdline
       [dockerPath e, ''stop'', ''-t '' @ itoa (containerTimeoutStopSec e), containerName]"

definition remove_cmd :: "docker_engine \<Rightarrow> string \<Rightarrow> cmdline" where
  "remove_cmd e containerName = cmd_add_nil failing_cmdline [dockerPath e, ''rm'', ''-f'', containerName]"

definition cleanup_cmd :: "docker_engine \<Rightarrow> cmdline" where
  "cleanup_cmd e = cmd_add_nil failing_cmdline [cleanupScriptPath e]"

definition touch_env_file :: "docker_engine \<Rightarrow> cmdline list" where
  "touch_env_file e =
     (if EnvFile (de_options e) \<noteq> '''' then [cmd_new [touchPath e, EnvFile (de_options e)]] else [])"

definition create_test_local_volume_cmd :: "docker_engine \<Rightarrow> string \<Rightarrow> cmdline" where
  "create_test_local_volume_cmd e volHostPath =
     cmd_new [shPath e, ''-c'',
       [CHR 0x27] @ ''test -e '' @ volHostPath @ '' || mkdir -p '' @ volHostPath @ [CHR 0x27]]"

type_synonym ec = "env \<times> cmdline"

definition ec_nil :: "ec \<Rightarrow> string list \<Rightarrow> ec" where
  "ec_nil ec args = (fst ec, cmd_add_nil (snd ec) args)"

definition ec_when :: "bool \<Rightarrow> (ec \<Rightarrow> ec) \<Rightarrow> ec \<Rightarrow> ec" where
  "ec_when b f ec = (if b then f ec else ec)"

definition create_docker_cmd :: "docker_engine \<Rightarrow> env \<Rightarrow> string \<Rightarrow> ec res" where
  "create_docker_cmd e env networkType =
     (if networkType = '''' \<or> networkType = NetworkTypeDefault \<or> networkType = NetworkTypeHost then
        Inr (ec_nil (env, empty_cmdline) [dockerPath e])
      else if networkType = NetworkTypeWeave then
        Inr (cmd_env (ec_nil (env, empty_cmdline) [dockerPath e]) [''-H='' @ weavePluginSocket e])
      else Inl OtherError)"

definition add_docker_network_args :: "job \<Rightarrow> task_group \<Rightarrow> task \<Rightarrow> ec \<Rightarrow> ec res" where
  "add_docker_network_args j tg t ec =
     (if t_Network t = '''' \<or> t_Network t = NetworkTypeDefault then Inr ec
      else if t_Network t = NetworkTypeHost then Inr (cmd_env ec [''--net=host''])
      else if t_Network t = NetworkTypeWeave then
        (if \<not> is_proxy (t_Type t) then Inr (cmd_env ec [''--hostname='' @ task_weave_domain_name j tg t])
         else Inr (cmd_env ec [''--hostname='' @ task_private_domain_name j tg t]))
      else Inl OtherError)"

definition create_volume_unit_container_name :: "job \<Rightarrow> task_group \<Rightarrow> task \<Rightarrow> nat \<Rightarrow> nat \<Rightarrow> string" where
  "create_volume_unit_container_name j tg t volIndex scalingGroup =
     container_name j tg t scalingGroup @ ''-vl'' @ nat_str volIndex"

definition proxy_container_name :: "job \<Rightarrow> task_group \<Rightarrow> task \<Rightarrow> nat \<Rightarrow> nat \<Rightarrow> string" where
  "proxy_container_name j tg t linkIndex scalingGroup =
     container_name j tg t scalingGroup @ ''-pr'' @ nat_str linkIndex"

section \<open>Secrets\<close>

definition secretsPath :: string where "secretsPath = ''/tmp/secrets''"

definition secrets_root_path :: "job \<Rightarrow> task_group \<Rightarrow> task \<Rightarrow> nat \<Rightarrow> string" where
  "secrets_root_path j tg t sg = path_join [secretsPath, container_name j tg t sg]"

definition secret_environment_path :: "job \<Rightarrow> task_group \<Rightarrow> task \<Rightarrow> nat \<Rightarrow> string" where
  "secret_environment_path j tg t sg = path_join [secrets_root_path j tg t sg, ''environment'']"

definition secret_file_path :: "(secret \<Rightarrow> string res) \<Rightarrow> job \<Rightarrow> task_group \<Rightarrow> task \<Rightarrow> nat \<Rightarrow> secret \<Rightarrow> string res" where
  "secret_file_path hash j tg t sg s =
     (if s_File s = '''' then Inl OtherError
      else rbind (hash s) (\<lambda>h. Inr (path_join [secrets_root_path j tg t sg, h])))"

definition extract_cmd ::
  "docker_engine \<Rightarrow> job \<Rightarrow> task_group \<Rightarrow> task \<Rightarrow> nat \<Rightarrow> string \<Rightarrow> string \<Rightarrow> string \<Rightarrow> string list \<Rightarrow> env \<Rightarrow> ec" where
  "extract_cmd e j tg t sg containerImage kind targetPath paths env =
     (let secretsRoot = secrets_root_path j tg t sg;
          ec = ec_nil (env, empty_cmdline) [dockerPath e, ''run'', ''--rm''];
          ec = cmd_env ec [''--net=host''];
          ec = cmd_env ec [''-v '' @ secretsRoot @ '':'' @ secretsRoot];
          ec = cmd_env ec [''-v '' @ ''/etc/pulcy/vault.crt:/etc/pulcy/vault.crt:ro''];
          ec = cmd_env ec [''-v '' @ ''/etc/pulcy/cluster-id:/etc/pulcy/cluster-id:ro''];
          ec = cmd_env ec [''-v '' @ ''/etc/machine-id:/etc/machine-id:ro''];
          ec = cmd_env ec [''--env-file /etc/pulcy/vault.env''];
          ec = cmd_env ec (create_docker_log_args (t_LogDriver t) (de_options e));
          ec = cmd_env ec [containerImage];
          ec = ec_nil ec [''extract'', kind];
          ec = cmd_env ec [''--target '' @ targetPath];
          ec = cmd_env ec [''--job-id '' @ j_ID j]
      in cmd_env ec paths)"

fun extract_secrets ::
  "docker_engine \<Rightarrow> (secret \<Rightarrow> string res) \<Rightarrow> job \<Rightarrow> task_group \<Rightarrow> task \<Rightarrow> nat \<Rightarrow> string \<Rightarrow> secret list \<Rightarrow> env \<Rightarrow>
     (env \<times> cmdline list \<times> string list) res" where
  "extract_secrets e hash j tg t sg img [] env = Inr (env, [], [])"
| "extract_secrets e hash j tg t sg img (s # ss) env =
     (if fst (target_file s) then
        rbind (secret_file_path hash j tg t sg s) (\<lambda>targetPath.
          case extract_cmd e j tg t sg img ''file'' targetPath [vault_path s] env of
            (env', cmd) \<Rightarrow>
              rbind (extract_secrets e hash j tg t sg img ss env') (\<lambda>(env'', cs, envPaths).
                Inr (env'', cmd # cs, envPaths)))
      else
        rbind (extract_secrets e hash j tg t sg img ss env) (\<lambda>(env', cs, envPaths).
          Inr (env', cs,
            if fst (target_environment s)
            then (snd (target_environment s) @ ''='' @ vault_path s) # envPaths else envPaths)))"

definition create_secrets_exec_start_pre ::
  "docker_engine \<Rightarrow> (secret \<Rightarrow> string res) \<Rightarrow> job \<Rightarrow> task_group \<Rightarrow> task \<Rightarrow> string \<Rightarrow> env \<Rightarrow> nat \<Rightarrow>
     (env \<times> cmdline list) res" where
  "create_secrets_exec_start_pre e hash j tg t containerImage env sg =
     (if length (t_Secrets t) = 0 then Inr (env, [])
      else if j_ID j = '''' then Inl OtherError
      else
        rbind (extract_secrets e hash j tg t sg containerImage (t_Secrets t) env) (\<lambda>(env', cs, envPaths).
          let start = [cmd_new [''/usr/bin/mkdir'', ''-p'', secrets_root_path j tg t sg], pull_cmd e containerImage] @ cs
          in if 0 < length envPaths then
               (case extract_cmd e j tg t sg containerImage ''env'' (secret_environment_path j tg t sg) envPaths env' of
                  (env'', cmd) \<Rightarrow> Inr (env'', start @ [cmd]))
             else Inr (env', start)))"

section \<open>The main unit\<close>

fun volume_args :: "job \<Rightarrow> task_group \<Rightarrow> task \<Rightarrow> nat \<Rightarrow> nat \<Rightarrow> volume list \<Rightarrow> string list" where
  "volume_args j tg t sg i [] = []"
| "volume_args j tg t sg i (v # vs) =
     (if volume_is_local v then ''-v '' @ volume_string v
      else ''--volumes-from '' @ create_volume_unit_container_name j tg t i sg) #
     volume_args j tg t sg (i + 1) vs"

fun secret_file_args ::
  "(secret \<Rightarrow> string res) \<Rightarrow> job \<Rightarrow> task_group \<Rightarrow> task \<Rightarrow> nat \<Rightarrow> secret list \<Rightarrow> string list res" where
  "secret_file_args hash j tg t sg [] = Inr []"
| "secret_file_args hash j tg t sg (s # ss) =
     (if fst (target_file s) then
        rbind (secret_file_path hash j tg t sg s) (\<lambda>hostPath.
        rbind (secret_file_args hash j tg t sg ss) (\<lambda>args.
          Inr ((''-v '' @ hostPath @ '':'' @ snd (target_file s) @ '':ro'') # args)))
      else secret_file_args hash j tg t sg ss)"

fun shared_volume_args :: "job \<Rightarrow> task_group \<Rightarrow> task \<Rightarrow> nat \<Rightarrow> nat \<Rightarrow> volume list \<Rightarrow> string list" where
  "shared_volume_args j tg other sg i [] = []"
| "shared_volume_args j tg other sg i (v # vs) =
     (if \<not> volume_is_local v
      then (''--volumes-from '' @ create_volume_unit_container_name j tg other i sg) #
           shared_volume_args j tg other sg (i + 1) vs
      else shared_volume_args j tg other sg (i + 1) vs)"

fun volumes_from_args :: "job \<Rightarrow> task_group \<Rightarrow> nat \<Rightarrow> string list \<Rightarrow> string list res" where
  "volumes_from_args j tg sg [] = Inr []"
| "volumes_from_args j tg sg (n # ns) =
     rbind (group_task tg n) (\<lambda>other.
     rbind (volumes_from_args j tg sg ns) (\<lambda>args.
       Inr (shared_volume_args j tg other sg 0 (t_Volumes other) @
         (''--volumes-from '' @ container_name j tg other sg) # args)))"

definition environment_args :: "(string \<times> string) list \<Rightarrow> string list" where
  "environment_args env =
     map (\<lambda>k. ''-e '' @ quote (k @ ''='' @ (case map_of env k of None \<Rightarrow> '''' | Some v \<Rightarrow> v)))
       (sort_strings (map fst env))"

fun link_args :: "job \<Rightarrow> task_group \<Rightarrow> task \<Rightarrow> nat \<Rightarrow> nat \<Rightarrow> link list \<Rightarrow> string list" where
  "link_args j tg t sg tcpLinkIndex [] = []"
| "link_args j tg t sg tcpLinkIndex (l # ls) =
     (let targetName = private_domain_name (l_Target l)
      in if link_type_is_http (l_Type l) then
           ''--add-host'' # (targetName @ '':${COREOS_PRIVATE_IPV4}'') # link_args j tg t sg tcpLinkIndex ls
         else
           (''--link '' @ proxy_container_name j tg t tcpLinkIndex sg @ '':'' @ targetName) #
           link_args j tg t sg (tcpLinkIndex + 1) ls)"

definition create_main_docker_cmd_line ::
  "docker_engine \<Rightarrow> (secret \<Rightarrow> string res) \<Rightarrow> job \<Rightarrow> task_group \<Rightarrow> task \<Rightarrow> string \<Rightarrow> env \<Rightarrow> nat \<Rightarrow> ec res" where
  "create_main_docker_cmd_line e hash j tg t img env sg =
     rbind (create_docker_cmd e env (t_Network t)) (\<lambda>ec.
     rbind (add_docker_network_args j tg t
              (ec_nil ec [''run'', ''--rm'', ''--name '' @ container_name j tg t sg])) (\<lambda>ec.
       let ec = (if 0 < length (t_Ports t) then cmd_env ec (map (\<lambda>p. ''-p '' @ p) (t_Ports t))
                 else cmd_env ec [''-P'']);
           ec = cmd_env ec (volume_args j tg t sg 0 (t_Volumes t))
       in rbind (secret_file_args hash j tg t sg (t_Secrets t)) (\<lambda>secretArgs.
          rbind (volumes_from_args j tg sg (t_VolumesFrom t)) (\<lambda>fromArgs.
            let ec = cmd_env ec secretArgs;
                ec = cmd_env ec fromArgs;
                ec = ec_when (EnvFile (de_options e) \<noteq> '''') (\<lambda>ec. cmd_env ec [''--env-file='' @ EnvFile (de_options e)]) ec;
                ec = cmd_env ec (environment_args (t_Environment t));
                ec = ec_when (any_target_environment (t_Secrets t))
                       (\<lambda>ec. cmd_env ec [''--env-file='' @ secret_environment_path j tg t sg]) ec;
                ec = cmd_env ec [''-e SERVICE_NAME='' @ service_name j tg t];
                ec = cmd_env ec (map (\<lambda>c. ''--cap-add '' @ c) (t_Capabilities t));
                ec = cmd_env ec (link_args j tg t sg 0 (t_Links t));
                ec = cmd_env ec (create_docker_log_args (t_LogDriver t) (de_options e));
                ec = cmd_env ec (t_DockerArgs t);
                ec = ec_when (t_User t \<noteq> '''') (\<lambda>ec. cmd_env ec [''--user '' @ t_User t]) ec;
                ec = ec_nil ec [img];
                ec = ec_when (t_Type t = ''proxy'') (\<lambda>ec. ec_nil ec [''sleep 36500d'']) ec
            in Inr (cmd_env ec (t_Args t))))))"

definition create_main_cmds ::
  "docker_engine \<Rightarrow> images \<Rightarrow> (secret \<Rightarrow> string res) \<Rightarrow> job \<Rightarrow> task_group \<Rightarrow> task \<Rightarrow> env \<Rightarrow> nat \<Rightarrow> (env \<times> cmds) res" where
  "create_main_cmds e images hash j tg t env sg =
     (let containerName = container_name j tg t sg;
          containerImage = (if t_Type t = ''proxy'' then Alpine images else image_string (t_Image t))
      in rbind (create_main_docker_cmd_line e hash j tg t containerImage env sg) (\<lambda>(env, execStart).
         rbind (create_secrets_exec_start_pre e hash j tg t (VaultMonkey images) env sg) (\<lambda>(env, secretsCmds).
           Inr (env,
             \<lparr>cmds_Start =
                [pull_cmd e containerImage] @ touch_env_file e @ secretsCmds @
                [stop_cmd e containerName, remove_cmd e containerName, cleanup_cmd e] @
                map (\<lambda>v. create_test_local_volume_cmd e (v_HostPath v)) (filter volume_is_local (t_Volumes t)) @
                [execStart],
              cmds_Stop = [stop_cmd e containerName, remove_cmd e containerName]\<rparr>))))"

section \<open>Proxy and volume units\<close>

definition create_proxy_docker_cmd_line ::
  "docker_engine \<Rightarrow> task \<Rightarrow> string \<Rightarrow> string \<Rightarrow> link \<Rightarrow> env \<Rightarrow> ec res" where
  "create_proxy_docker_cmd_line e t containerName containerImage link env =
     rbind (create_docker_cmd e env (t_Network t)) (\<lambda>ec.
       let ec = ec_nil ec [''run'', ''--rm'', ''--name '' @ containerName];
           ec = cmd_env ec (map (\<lambda>p. ''--expose '' @ itoa p) (l_Ports link));
           ec = cmd_env ec [''-P''];
           ec = ec_when (EnvFile (de_options e) \<noteq> '''') (\<lambda>ec. cmd_env ec [''--env-file='' @ EnvFile (de_options e)]) ec;
           ec = cmd_env ec [''-e SERVICE_IGNORE=true''];
           ec = cmd_env ec (create_docker_log_args (t_LogDriver t) (de_options e));
           ec = ec_nil ec [containerImage];
           ec = cmd_env ec [''--etcd-endpoint=${ETCD_ENDPOINTS}'']
       in Inr (cmd_env ec [''--etcd-path=/pulcy/service/'' @ etcd_service_name (l_Target link)]))"

definition create_proxy_cmds ::
  "docker_engine \<Rightarrow> images \<Rightarrow> job \<Rightarrow> task_group \<Rightarrow> task \<Rightarrow> link \<Rightarrow> nat \<Rightarrow> env \<Rightarrow> nat \<Rightarrow> (env \<times> cmds) res" where
  "create_proxy_cmds e images j tg t link linkIndex env sg =
     (let containerName = proxy_container_name j tg t linkIndex sg;
          containerImage = Wormhole images
      in rbind (create_proxy_docker_cmd_line e t containerName containerImage link env) (\<lambda>(env, execStart).
           Inr (env,
             \<lparr>cmds_Start =
                [pull_cmd e containerImage, stop_cmd e containerName, remove_cmd e containerName, cleanup_cmd e] @
                touch_env_file e @ [execStart],
              cmds_Stop = [stop_cmd e containerName, remove_cmd e containerName]\<rparr>)))"

definition create_volume_docker_cmd_line ::
  "docker_engine \<Rightarrow> task \<Rightarrow> string \<Rightarrow> string \<Rightarrow> volume \<Rightarrow> string \<Rightarrow> string \<Rightarrow> env \<Rightarrow> ec res" where
  "create_volume_docker_cmd_line e t containerName containerImage vol volPrefix volHostPath env =
     (let ec = ec_nil (env, empty_cmdline)
                 [dockerPath e, ''run'', ''--rm'', ''--name '' @ containerName, ''--net=host'', ''--privileged''];
          ec = cmd_env ec [''-v '' @ volHostPath @ '':'' @ v_Path vol @ '':shared''];
          ec = cmd_env ec [''-v /usr/bin/etcdctl:/usr/bin/etcdctl''];
          ec = ec_when (EnvFile (de_options e) \<noteq> '''') (\<lambda>ec. cmd_env ec [''--env-file='' @ EnvFile (de_options e)]) ec;
          ec = cmd_env ec [''-e SERVICE_IGNORE=true''];
          ec = cmd_env ec [''-e PREFIX='' @ volPrefix];
          ec = cmd_env ec [''-e TARGET='' @ v_Path vol];
          ec = cmd_env ec [''-e WAIT=1''];
          ec = (case mount_option vol ''uid'' of Inl _ \<Rightarrow> ec | Inr v \<Rightarrow> cmd_env ec [''-e UID='' @ v]);
          ec = (case mount_option vol ''gid'' of Inl _ \<Rightarrow> ec | Inr v \<Rightarrow> cmd_env ec [''-e GID='' @ v]);
          ec = cmd_env ec (create_docker_log_args (t_LogDriver t) (de_options e))
      in Inr (ec_nil ec [containerImage]))"

definition create_volume_cmds ::
  "docker_engine \<Rightarrow> job \<Rightarrow> task_group \<Rightarrow> task \<Rightarrow> volume \<Rightarrow> nat \<Rightarrow> string \<Rightarrow> string \<Rightarrow> env \<Rightarrow> nat \<Rightarrow> (env \<times> cmds) res" where
  "create_volume_cmds e j tg t vol volIndex volPrefix volHostPath env sg =
     (let containerImage = CephVolume (de_images e);
          containerName = create_volume_unit_container_name j tg t volIndex sg
      in rbind (create_volume_docker_cmd_line e t containerName containerImage vol volPrefix volHostPath env)
           (\<lambda>(env, execStart).
             Inr (env,
               \<lparr>cmds_Start =
                  [pull_cmd e containerImage, create_test_local_volume_cmd e volHostPath,
                   stop_cmd e containerName, remove_cmd e containerName, cleanup_cmd e] @
                  touch_env_file e @ [execStart],
                cmds_Stop = [stop_cmd e containerName, remove_cmd e containerName]\<rparr>)))"

end
