(* ===== verification/Robin.thy ===== *)
theory Robin
  imports Model
begin

text \<open>
  Registrations of the Robin load balancer, \<^verbatim>\<open>pkg/robin/frontend.go\<close>, with the
  record types of \<^verbatim>\<open>robin-api\<close>. The interface
  \<^verbatim>\<open>FrontendNameBuilder\<close> is a record of functions; JSON marshalling, SHA-256 and
  \<^verbatim>\<open>crypt\<close> are arguments. The lemmas describe the records without the loops:
  which selectors each of them holds, and that no two share a key.
\<close>

record user_record =
  ur_Name :: string
  PasswordHash :: string

record selector =
  sr_Weight :: int
  sr_Domain :: string
  sr_PathPrefix :: string
  sr_SslCert :: string
  ServicePort :: int
  FrontendPort :: int
  Private :: bool
  sr_Users :: "user_record list"
  RewriteRules :: "rewrite list"

record frontend =
  Selectors :: "selector list"
  Service :: string
  fe_Mode :: string
  HttpCheckPath :: string
  HttpCheckMethod :: string
  Sticky :: bool
  Backup :: bool

record frontend_record =
  Record :: frontend
  Key :: string
  ProjectSetting :: string

record crypto =
  json_task :: "task \<Rightarrow> string res"
  sha256_hex :: "string \<Rightarrow> string"
  crypt :: "string \<Rightarrow> string \<Rightarrow> string"

record name_builder =
  CreateServiceName :: "job \<Rightarrow> task_group \<Rightarrow> task \<Rightarrow> string res"
  CreateTargetServiceName :: "job \<Rightarrow> task_group \<Rightarrow> task \<Rightarrow> string res"
  CreatePrivateDomainNames :: "job \<Rightarrow> task_group \<Rightarrow> task \<Rightarrow> string list res"
  CreateInstanceSpecificPrivateDomainNames :: "job \<Rightarrow> task_group \<Rightarrow> task \<Rightarrow> nat \<Rightarrow> string list res"

definition user_record_of :: "crypto \<Rightarrow> string \<Rightarrow> user \<Rightarrow> user_record" where
  "user_record_of c saltPrefix u =
     (let salt = sha256_hex c (u_Name u @ ''/'' @ saltPrefix)
      in \<lparr>ur_Name = u_Name u, PasswordHash = crypt c (u_Password u) salt\<rparr>)"

definition add_users :: "crypto \<Rightarrow> task \<Rightarrow> user list \<Rightarrow> selector \<Rightarrow> selector res" where
  "add_users c t users sel =
     (if length users = 0 then Inr sel
      else rbind (json_task c t) (\<lambda>raw.
        let saltPrefix = sha256_hex c raw
        in Inr (sel\<lparr>sr_Users := sr_Users sel @ map (user_record_of c saltPrefix) users\<rparr>)))"

definition rewrite_rules :: "task \<Rightarrow> rewrite list" where
  "rewrite_rules t =
     (if t_Type t = ''proxy'' then (case t_Rewrite t of None \<Rightarrow> [] | Some r \<Rightarrow> [r]) else [])"

definition public_selector :: "rewrite list \<Rightarrow> public_front_end \<Rightarrow> selector" where
  "public_selector rwRules fr =
     \<lparr>sr_Weight = pf_Weight fr, sr_Domain = pf_Domain fr, sr_PathPrefix = pf_PathPrefix fr,
      sr_SslCert = pf_SslCert fr, ServicePort = pf_Port fr, FrontendPort = pf_HostPort fr,
      Private = False, sr_Users = [], RewriteRules = rwRules\<rparr>"

definition private_selector :: "rewrite list \<Rightarrow> private_front_end \<Rightarrow> selector" where
  "private_selector rwRules fr =
     \<lparr>sr_Weight = 0, sr_Domain = '''', sr_PathPrefix = '''', sr_SslCert = '''',
      ServicePort = vf_Port fr, FrontendPort = vf_HostPort fr,
      Private = True, sr_Users = [], RewriteRules = rwRules\<rparr>"

section \<open>The loops\<close>

text \<open>The local variables of the function that the loops change.\<close>

record frontend_vars =
  httpRecord :: frontend
  tcpRecord :: frontend
  instanceHttpRecord :: frontend
  instanceTcpRecord :: frontend

definition append_selectors :: "selector list \<Rightarrow> frontend \<Rightarrow> frontend" where
  "append_selectors sels r = r\<lparr>Selectors := Selectors r @ sels\<rparr>"

definition start_vars :: "task \<Rightarrow> string \<Rightarrow> nat \<Rightarrow> frontend_vars" where
  "start_vars t target scalingGroup =
     (let r = \<lparr>Selectors = [], Service = target, fe_Mode = '''', HttpCheckPath = t_HttpCheckPath t,
                HttpCheckMethod = t_HttpCheckMethod t, Sticky = t_Sticky t, Backup = t_Backup t\<rparr>;
          i = \<lparr>Selectors = [], Service = target @ ''-'' @ nat_str scalingGroup, fe_Mode = '''',
                HttpCheckPath = t_HttpCheckPath t, HttpCheckMethod = '''', Sticky = t_Sticky t, Backup = t_Backup t\<rparr>
      in \<lparr>httpRecord = r, tcpRecord = r\<lparr>fe_Mode := ''tcp''\<rparr>,
          instanceHttpRecord = i, instanceTcpRecord = i\<lparr>fe_Mode := ''tcp''\<rparr>\<rparr>)"

definition add_to_record :: "bool \<Rightarrow> selector list \<Rightarrow> frontend_vars \<Rightarrow> frontend_vars" where
  "add_to_record tcp sels v =
     (if tcp then v\<lparr>tcpRecord := append_selectors sels (tcpRecord v)\<rparr>
      else v\<lparr>httpRecord := append_selectors sels (httpRecord v)\<rparr>)"

definition add_to_instance_record :: "bool \<Rightarrow> selector list \<Rightarrow> frontend_vars \<Rightarrow> frontend_vars" where
  "add_to_instance_record tcp sels v =
     (if tcp then v\<lparr>instanceTcpRecord := append_selectors sels (instanceTcpRecord v)\<rparr>
      else v\<lparr>instanceHttpRecord := append_selectors sels (instanceHttpRecord v)\<rparr>)"

definition add_public :: "crypto \<Rightarrow> task \<Rightarrow> rewrite list \<Rightarrow> public_front_end \<Rightarrow> frontend_vars \<Rightarrow> frontend_vars res" where
  "add_public c t rwRules fr v =
     rbind (add_users c t (pf_Users fr) (public_selector rwRules fr)) (\<lambda>sel.
       Inr (add_to_record (pf_Mode fr = ''tcp'') [sel] v))"

definition in_domain :: "selector \<Rightarrow> string \<Rightarrow> selector" where
  "in_domain sel domain = sel\<lparr>sr_Domain := domain\<rparr>"

definition add_private ::
  "crypto \<Rightarrow> name_builder \<Rightarrow> job \<Rightarrow> task_group \<Rightarrow> task \<Rightarrow> nat \<Rightarrow> rewrite list \<Rightarrow> private_front_end \<Rightarrow>
     frontend_vars \<Rightarrow> frontend_vars res" where
  "add_private c nb j tg t scalingGroup rwRules fr v =
     (let tcp = (vf_Mode fr = ''tcp'')
      in rbind (add_users c t (vf_Users fr) (private_selector rwRules fr)) (\<lambda>sel.
         rbind (CreatePrivateDomainNames nb j tg t) (\<lambda>domains.
           let v = add_to_record tcp (map (in_domain sel) domains) v
           in if vf_RegisterInstance fr then
                rbind (CreateInstanceSpecificPrivateDomainNames nb j tg t scalingGroup) (\<lambda>domains.
                  Inr (add_to_instance_record tcp (map (in_domain sel) domains) v))
              else Inr v)))"

definition record_if_any :: "frontend \<Rightarrow> string \<Rightarrow> string \<Rightarrow> frontend_record list" where
  "record_if_any r key setting =
     (if 0 < length (Selectors r) then [\<lparr>Record = r, Key = key, ProjectSetting = setting\<rparr>] else [])"

definition frontend_key :: "string \<Rightarrow> nat \<Rightarrow> string \<Rightarrow> string" where
  "frontend_key serviceName scalingGroup kind =
     ''/pulcy/frontend/'' @ serviceName @ ''-'' @ nat_str scalingGroup @ kind"

definition frontend_records_of :: "string \<Rightarrow> nat \<Rightarrow> frontend_vars \<Rightarrow> frontend_record list" where
  "frontend_records_of serviceName scalingGroup v =
     record_if_any (instanceHttpRecord v) (frontend_key serviceName scalingGroup ''-inst'') ''FrontEndRegistration-i'' @
     record_if_any (instanceTcpRecord v) (frontend_key serviceName scalingGroup ''-inst-tcp'') ''FrontEndRegistration-i-tcp'' @
     record_if_any (httpRecord v) (frontend_key serviceName scalingGroup '''') ''FrontEndRegistration'' @
     record_if_any (tcpRecord v) (frontend_key serviceName scalingGroup ''-tcp'') ''FrontEndRegistration-tcp''"

definition create_front_end_records ::
  "crypto \<Rightarrow> name_builder \<Rightarrow> job \<Rightarrow> task_group \<Rightarrow> task \<Rightarrow> nat \<Rightarrow> bool \<Rightarrow> frontend_record list res" where
  "create_front_end_records c nb j tg t scalingGroup publicOnly =
     (if length (t_PublicFrontEnds t) = 0 \<and> length (t_PrivateFrontEnds t) = 0 then Inr []
      else
        rbind (CreateServiceName nb j tg t) (\<lambda>serviceName.
        rbind (CreateTargetServiceName nb j tg t) (\<lambda>target.
          let rwRules = rewrite_rules t
          in rbind (fold_res (add_public c t rwRules) (t_PublicFrontEnds t) (start_vars t target scalingGroup)) (\<lambda>v.
             rbind (if \<not> publicOnly
                    then fold_res (add_private c nb j tg t scalingGroup rwRules) (t_PrivateFrontEnds t) v
                    else Inr v) (\<lambda>v.
               Inr (frontend_records_of serviceName scalingGroup v))))))"

section \<open>The records without the loops\<close>

text \<open>The selector of a front end with its users; \<^verbatim>\<open>json\<close> failing is the only error.\<close>

definition user_records :: "crypto \<Rightarrow> task \<Rightarrow> user list \<Rightarrow> user_record list" where
  "user_records c t users =
     (case json_task c t of
        Inl _ \<Rightarrow> []
      | Inr raw \<Rightarrow> map (user_record_of c (sha256_hex c raw)) users)"

definition public_selectors :: "crypto \<Rightarrow> task \<Rightarrow> bool \<Rightarrow> public_front_end list \<Rightarrow> selector list" where
  "public_selectors c t tcp frs =
     map (\<lambda>fr. (public_selector (rewrite_rules t) fr)\<lparr>sr_Users := user_records c t (pf_Users fr)\<rparr>)
       (filter (\<lambda>fr. (pf_Mode fr = ''tcp'') = tcp) frs)"

definition private_selectors :: "crypto \<Rightarrow> task \<Rightarrow> bool \<Rightarrow> string list \<Rightarrow> private_front_end list \<Rightarrow> selector list" where
  "private_selectors c t tcp domains frs =
     concat (map (\<lambda>fr. map (in_domain ((private_selector (rewrite_rules t) fr)\<lparr>sr_Users := user_records c t (vf_Users fr)\<rparr>)) domains)
       (filter (\<lambda>fr. private_is_tcp fr = tcp) frs))"

lemma add_users_ok:
  "add_users c t users sel = Inr sel' \<Longrightarrow> sr_Users sel = [] \<Longrightarrow> sel' = sel\<lparr>sr_Users := user_records c t users\<rparr>"
  by (cases "json_task c t") (auto simp: add_users_def user_records_def Let_def split: if_splits)

definition add_all :: "selector list \<Rightarrow> selector list \<Rightarrow> selector list \<Rightarrow> selector list \<Rightarrow> frontend_vars \<Rightarrow> frontend_vars" where
  "add_all http tcp ihttp itcp v =
     v\<lparr>httpRecord := append_selectors http (httpRecord v), tcpRecord := append_selectors tcp (tcpRecord v),
       instanceHttpRecord := append_selectors ihttp (instanceHttpRecord v),
       instanceTcpRecord := append_selectors itcp (instanceTcpRecord v)\<rparr>"

lemma append_selectors_simps [simp]:
  "append_selectors [] r = r" "append_selectors a (append_selectors b r) = append_selectors (b @ a) r"
  by (simp_all add: append_selectors_def)

lemma add_all_simps [simp]:
  "add_all [] [] [] [] v = v"
  "add_all a b d e (add_all a' b' d' e' v) = add_all (a' @ a) (b' @ b) (d' @ d) (e' @ e) v"
  by (simp_all add: add_all_def)

lemma add_to_all:
  "add_to_record tcp s v = add_all (if tcp then [] else s) (if tcp then s else []) [] [] v"
  "add_to_instance_record tcp s v = add_all [] [] (if tcp then [] else s) (if tcp then s else []) v"
  by (simp_all add: add_to_record_def add_to_instance_record_def add_all_def)

lemma public_loop:
  "fold_res (add_public c t (rewrite_rules t)) frs v = Inr v' \<Longrightarrow>
     v' = add_all (public_selectors c t False frs) (public_selectors c t True frs) [] [] v"
proof (induction frs arbitrary: v)
  case (Cons fr frs)
  then obtain v1 where v1: "add_public c t (rewrite_rules t) fr v = Inr v1"
    and v': "fold_res (add_public c t (rewrite_rules t)) frs v1 = Inr v'" by auto
  from v1 obtain sel where sel: "add_users c t (pf_Users fr) (public_selector (rewrite_rules t) fr) = Inr sel"
    and v1: "v1 = add_to_record (pf_Mode fr = ''tcp'') [sel] v"
    by (auto simp: add_public_def)
  from add_users_ok [OF sel] have "sel = (public_selector (rewrite_rules t) fr)\<lparr>sr_Users := user_records c t (pf_Users fr)\<rparr>"
    by (simp add: public_selector_def)
  with Cons.IH [OF v'] v1 show ?case by (simp add: add_to_all public_selectors_def)
qed (simp add: public_selectors_def)

lemma private_loop:
  assumes "CreatePrivateDomainNames nb j tg t = Inr ds"
    and "fold_res (add_private c nb j tg t sg (rewrite_rules t)) frs v = Inr v'"
  shows "v' = add_all (private_selectors c t False ds frs) (private_selectors c t True ds frs)
    (case CreateInstanceSpecificPrivateDomainNames nb j tg t sg of
       Inl _ \<Rightarrow> [] | Inr is \<Rightarrow> private_selectors c t False is (filter vf_RegisterInstance frs))
    (case CreateInstanceSpecificPrivateDomainNames nb j tg t sg of
       Inl _ \<Rightarrow> [] | Inr is \<Rightarrow> private_selectors c t True is (filter vf_RegisterInstance frs)) v"
  using assms(2)
proof (induction frs arbitrary: v)
  case (Cons fr frs)
  obtain v1 where step: "add_private c nb j tg t sg (rewrite_rules t) fr v = Inr v1"
    and v': "fold_res (add_private c nb j tg t sg (rewrite_rules t)) frs v1 = Inr v'"
    using Cons.prems by auto
  from step obtain sel where sel: "add_users c t (vf_Users fr) (private_selector (rewrite_rules t) fr) = Inr sel"
    and v1: "(if vf_RegisterInstance fr then
                rbind (CreateInstanceSpecificPrivateDomainNames nb j tg t sg) (\<lambda>is.
                  Inr (add_to_instance_record (vf_Mode fr = ''tcp'') (map (in_domain sel) is)
                    (add_to_record (vf_Mode fr = ''tcp'') (map (in_domain sel) ds) v)))
              else Inr (add_to_record (vf_Mode fr = ''tcp'') (map (in_domain sel) ds) v)) = Inr v1"
    using assms(1) by (auto simp: add_private_def Let_def)
  from add_users_ok [OF sel] have s: "sel = (private_selector (rewrite_rules t) fr)\<lparr>sr_Users := user_records c t (vf_Users fr)\<rparr>"
    by (simp add: private_selector_def)
  show ?case
    using Cons.IH [OF v'] v1
    by (auto simp: add_to_all private_selectors_def private_is_tcp_def s split: if_splits sum.splits)
qed (simp add: private_selectors_def split: sum.split)

text \<open>What the function returns, and when it fails.\<close>

definition frontend_vars_of ::
  "crypto \<Rightarrow> task \<Rightarrow> nat \<Rightarrow> bool \<Rightarrow> string \<Rightarrow> string list \<Rightarrow> string list \<Rightarrow> frontend_vars" where
  "frontend_vars_of c t sg publicOnly target ds is =
     (let priv = (if publicOnly then [] else t_PrivateFrontEnds t);
          inst = filter vf_RegisterInstance priv
      in add_all
        (public_selectors c t False (t_PublicFrontEnds t) @ private_selectors c t False ds priv)
        (public_selectors c t True (t_PublicFrontEnds t) @ private_selectors c t True ds priv)
        (private_selectors c t False is inst) (private_selectors c t True is inst)
        (start_vars t target sg))"

lemma private_selectors_Nil [simp]: "private_selectors c t tcp ds [] = []" "private_selectors c t tcp [] frs = []"
  by (induction frs) (simp_all add: private_selectors_def)

lemma create_front_end_records_ok:
  assumes ok: "create_front_end_records c nb j tg t sg publicOnly = Inr rs"
    and nb: "CreateServiceName nb j tg t = Inr sn" "CreateTargetServiceName nb j tg t = Inr target"
      "CreatePrivateDomainNames nb j tg t = Inr ds"
      "is = (case CreateInstanceSpecificPrivateDomainNames nb j tg t sg of Inl _ \<Rightarrow> [] | Inr is \<Rightarrow> is)"
  shows "rs = frontend_records_of sn sg (frontend_vars_of c t sg publicOnly target ds is)"
proof (cases "t_PublicFrontEnds t = [] \<and> t_PrivateFrontEnds t = []")
  case True
  with ok show ?thesis
    by (simp add: create_front_end_records_def frontend_vars_of_def public_selectors_def
        frontend_records_of_def record_if_any_def start_vars_def Let_def)
next
  case False
  with ok nb obtain v v' where
    v: "fold_res (add_public c t (rewrite_rules t)) (t_PublicFrontEnds t) (start_vars t target sg) = Inr v" and
    v': "(if \<not> publicOnly then fold_res (add_private c nb j tg t sg (rewrite_rules t)) (t_PrivateFrontEnds t) v
          else Inr v) = Inr v'" and
    rs: "rs = frontend_records_of sn sg v'"
    by (auto simp: create_front_end_records_def Let_def simp del: fold_res.simps)
  have "v' = frontend_vars_of c t sg publicOnly target ds is"
    using public_loop [OF v] private_loop [OF nb(3), of c sg "t_PrivateFrontEnds t" v v'] v' nb(4)
    by (cases publicOnly) (auto simp: frontend_vars_of_def Let_def split: sum.splits)
  with rs show ?thesis by simp
qed

lemma record_if_any_set: "r \<in> set (record_if_any f k s) \<longleftrightarrow> Selectors f \<noteq> [] \<and> r = \<lparr>Record = f, Key = k, ProjectSetting = s\<rparr>"
  by (auto simp: record_if_any_def)

text \<open>No two records of a task share a key or a project setting.\<close>

lemma frontend_records_distinct:
  "distinct (map Key (frontend_records_of sn sg v))" "distinct (map ProjectSetting (frontend_records_of sn sg v))"
  by (simp_all add: frontend_records_of_def record_if_any_def frontend_key_def)

text \<open>Every front end is registered in a record of its mode.\<close>

definition serves_public :: "crypto \<Rightarrow> task \<Rightarrow> public_front_end \<Rightarrow> selector \<Rightarrow> bool" where
  "serves_public c t fr s \<longleftrightarrow>
     sr_Domain s = pf_Domain fr \<and> sr_PathPrefix s = pf_PathPrefix fr \<and> ServicePort s = pf_Port fr \<and>
     FrontendPort s = pf_HostPort fr \<and> sr_Weight s = pf_Weight fr \<and> sr_SslCert s = pf_SslCert fr \<and>
     sr_Users s = user_records c t (pf_Users fr) \<and> RewriteRules s = rewrite_rules t \<and> \<not> Private s"

definition serves_private :: "crypto \<Rightarrow> task \<Rightarrow> private_front_end \<Rightarrow> string \<Rightarrow> selector \<Rightarrow> bool" where
  "serves_private c t fr domain s \<longleftrightarrow>
     sr_Domain s = domain \<and> ServicePort s = vf_Port fr \<and> FrontendPort s = vf_HostPort fr \<and>
     sr_Users s = user_records c t (vf_Users fr) \<and> RewriteRules s = rewrite_rules t \<and> Private s"

definition mode_name :: "bool \<Rightarrow> string" where
  "mode_name tcp = (if tcp then ''tcp'' else '''')"

lemma public_selectors_iff:
  "s \<in> set (public_selectors c t tcp frs) \<Longrightarrow> \<exists>fr \<in> set frs. (pf_Mode fr = ''tcp'') = tcp \<and> serves_public c t fr s"
  "fr \<in> set frs \<Longrightarrow> \<exists>s \<in> set (public_selectors c t (pf_Mode fr = ''tcp'') frs). serves_public c t fr s"
  by (auto simp: public_selectors_def serves_public_def public_selector_def)

lemma private_selectors_iff:
  "s \<in> set (private_selectors c t tcp ds frs) \<Longrightarrow>
     \<exists>fr \<in> set frs. \<exists>d \<in> set ds. private_is_tcp fr = tcp \<and> serves_private c t fr d s"
  "fr \<in> set frs \<Longrightarrow> d \<in> set ds \<Longrightarrow>
     \<exists>s \<in> set (private_selectors c t (private_is_tcp fr) ds frs). serves_private c t fr d s"
  by (auto simp: private_selectors_def serves_private_def private_selector_def in_domain_def)

text \<open>The four records and their selectors.\<close>

definition frontend_of :: "bool \<Rightarrow> bool \<Rightarrow> frontend_vars \<Rightarrow> frontend" where
  "frontend_of inst tcp v =
     (if inst then (if tcp then instanceTcpRecord v else instanceHttpRecord v)
      else (if tcp then tcpRecord v else httpRecord v))"

lemma frontend_records_set:
  "Record ` set (frontend_records_of sn sg v) =
     {r. Selectors r \<noteq> [] \<and> (\<exists>inst tcp. r = frontend_of inst tcp v)}"
proof -
  have one: "Record ` set (record_if_any f k s) = {r. Selectors r \<noteq> [] \<and> r = f}" for f k s
    by (auto simp: record_if_any_def)
  show ?thesis
    by (simp add: frontend_records_of_def image_Un one ex_bool_eq frontend_of_def) blast
qed

lemma frontend_of_vars:
  assumes "v = frontend_vars_of c t sg publicOnly target ds is"
  shows "fe_Mode (frontend_of inst tcp v) = mode_name tcp"
    "Service (frontend_of inst tcp v) = (if inst then target @ ''-'' @ nat_str sg else target)"
    "Selectors (frontend_of False tcp v) = public_selectors c t tcp (t_PublicFrontEnds t) @
       private_selectors c t tcp ds (if publicOnly then [] else t_PrivateFrontEnds t)"
    "Selectors (frontend_of True tcp v) =
       private_selectors c t tcp is (filter vf_RegisterInstance (if publicOnly then [] else t_PrivateFrontEnds t))"
  unfolding assms
  by (simp_all add: frontend_of_def mode_name_def frontend_vars_of_def Let_def add_all_def append_selectors_def start_vars_def)

lemma in_records:
  assumes v: "v = frontend_vars_of c t sg publicOnly target ds is"
    and s: "s \<in> set (Selectors (frontend_of inst tcp v))" "P s"
  shows "\<exists>r \<in> set (frontend_records_of sn sg v).
    Service (Record r) = (if inst then target @ ''-'' @ nat_str sg else target) \<and>
    fe_Mode (Record r) = mode_name tcp \<and> (\<exists>s \<in> set (Selectors (Record r)). P s)"
proof -
  have "Selectors (frontend_of inst tcp v) \<noteq> []" using s(1) by auto
  then have "frontend_of inst tcp v \<in> Record ` set (frontend_records_of sn sg v)"
    unfolding frontend_records_set by blast
  then obtain r where "r \<in> set (frontend_records_of sn sg v)" "Record r = frontend_of inst tcp v" by force
  with s frontend_of_vars(1,2) [OF v] show ?thesis by metis
qed

lemma front_ends_registered:
  assumes v: "v = frontend_vars_of c t sg publicOnly target ds is"
  shows "fr \<in> set (t_PublicFrontEnds t) \<Longrightarrow>
      \<exists>r \<in> set (frontend_records_of sn sg v). Service (Record r) = target \<and>
        fe_Mode (Record r) = mode_name (pf_Mode fr = ''tcp'') \<and> (\<exists>s \<in> set (Selectors (Record r)). serves_public c t fr s)"
    "pfr \<in> set (t_PrivateFrontEnds t) \<Longrightarrow> \<not> publicOnly \<Longrightarrow> d \<in> set ds \<Longrightarrow>
      \<exists>r \<in> set (frontend_records_of sn sg v). Service (Record r) = target \<and>
        fe_Mode (Record r) = mode_name (private_is_tcp pfr) \<and> (\<exists>s \<in> set (Selectors (Record r)). serves_private c t pfr d s)"
    "pfr \<in> set (t_PrivateFrontEnds t) \<Longrightarrow> \<not> publicOnly \<Longrightarrow> vf_RegisterInstance pfr \<Longrightarrow> d' \<in> set is \<Longrightarrow>
      \<exists>r \<in> set (frontend_records_of sn sg v). Service (Record r) = target @ ''-'' @ nat_str sg \<and>
        fe_Mode (Record r) = mode_name (private_is_tcp pfr) \<and> (\<exists>s \<in> set (Selectors (Record r)). serves_private c t pfr d' s)"
proof -
  note sel = frontend_of_vars [OF v]
  show "\<exists>r \<in> set (frontend_records_of sn sg v). Service (Record r) = target \<and>
        fe_Mode (Record r) = mode_name (pf_Mode fr = ''tcp'') \<and> (\<exists>s \<in> set (Selectors (Record r)). serves_public c t fr s)"
    if f: "fr \<in> set (t_PublicFrontEnds t)"
  proof -
    obtain s where s: "s \<in> set (Selectors (frontend_of False (pf_Mode fr = ''tcp'') v))" "serves_public c t fr s"
      using public_selectors_iff(2) [OF f, of c t] by (auto simp: sel(3))
    from in_records [where P = "serves_public c t fr", OF v s] show ?thesis by simp
  qed
  show "\<exists>r \<in> set (frontend_records_of sn sg v). Service (Record r) = target \<and>
        fe_Mode (Record r) = mode_name (private_is_tcp pfr) \<and> (\<exists>s \<in> set (Selectors (Record r)). serves_private c t pfr d s)"
    if f: "pfr \<in> set (t_PrivateFrontEnds t)" "\<not> publicOnly" "d \<in> set ds"
  proof -
    obtain s where s: "s \<in> set (Selectors (frontend_of False (private_is_tcp pfr) v))" "serves_private c t pfr d s"
      using private_selectors_iff(2) [OF f(1,3), of c t] f(2) by (auto simp: sel(3))
    from in_records [where P = "serves_private c t pfr d", OF v s] show ?thesis by simp
  qed
  show "\<exists>r \<in> set (frontend_records_of sn sg v). Service (Record r) = target @ ''-'' @ nat_str sg \<and>
        fe_Mode (Record r) = mode_name (private_is_tcp pfr) \<and> (\<exists>s \<in> set (Selectors (Record r)). serves_private c t pfr d' s)"
    if f: "pfr \<in> set (t_PrivateFrontEnds t)" "\<not> publicOnly" "vf_RegisterInstance pfr" "d' \<in> set is"
  proof -
    obtain s where s: "s \<in> set (Selectors (frontend_of True (private_is_tcp pfr) v))" "serves_private c t pfr d' s"
      using private_selectors_iff(2) [of pfr "filter vf_RegisterInstance (t_PrivateFrontEnds t)" d' "is" c t] f
      by (auto simp: sel(4))
    from in_records [where P = "serves_private c t pfr d'", OF v s] show ?thesis by simp
  qed
qed

text \<open>Nothing else is registered; with \<open>publicOnly\<close> no private selector is.\<close>

lemma selectors_served:
  assumes v: "v = frontend_vars_of c t sg publicOnly target ds is"
    and r: "r \<in> set (frontend_records_of sn sg v)" "s \<in> set (Selectors (Record r))"
  shows "(\<exists>fr \<in> set (t_PublicFrontEnds t). serves_public c t fr s) \<or>
    \<not> publicOnly \<and> (\<exists>fr \<in> set (t_PrivateFrontEnds t). \<exists>d \<in> set ds \<union> set is. serves_private c t fr d s)"
proof -
  have "Record r \<in> Record ` set (frontend_records_of sn sg v)" using r(1) by simp
  then obtain inst tcp where "Record r = frontend_of inst tcp v"
    unfolding frontend_records_set by blast
  with r(2) frontend_of_vars(3,4) [OF v] show ?thesis
    by (cases inst; cases publicOnly) (auto dest!: public_selectors_iff(1) private_selectors_iff(1))
qed

end
