(* ===== verification/FrontendNames.thy ===== *)
theory FrontendNames
  imports Robin UnitNames
begin

text \<open>
  The contract of \<^verbatim>\<open>FrontendNameBuilder\<close> as a locale, and what follows from it
  for the registrations: every front end of a task is registered, and the keys of the records keep
  tasks, scaling groups and kinds of record apart. Each renderer provides an interpretation.
\<close>

section \<open>Keys\<close>

definition key_kinds :: "string set" where
  "key_kinds = {'''', ''-inst'', ''-tcp'', ''-inst-tcp''}"

lemma takeWhile_sep: "(\<And>x. x \<in> set a \<Longrightarrow> P x) \<Longrightarrow> b \<noteq> [] \<Longrightarrow> \<not> P (hd b) \<Longrightarrow> takeWhile P (a @ b) = a"
  by (cases b) (simp_all add: takeWhile_append2)

lemma key_kind_digits: "k \<in> key_kinds \<Longrightarrow> x \<in> set k \<Longrightarrow> \<not> is_digit x"
  by (auto simp: key_kinds_def is_digit_def)

lemma frontend_key_inj:
  assumes k: "k \<in> key_kinds" "k' \<in> key_kinds" and eq: "frontend_key sn sg k = frontend_key sn' sg' k'"
  shows "sn = sn' \<and> sg = sg' \<and> k = k'"
proof -
  let ?rest = "\<lambda>sn sg. rev (nat_str sg) @ CHR ''-'' # rev sn"
  have rest: "?rest sn sg \<noteq> []" "is_digit (hd (?rest sn sg))" for sn sg
    using nat_str_chars [of "last (nat_str sg)" sg] by (auto simp: hd_append hd_rev)
  have e: "rev k @ ?rest sn sg = rev k' @ ?rest sn' sg'"
    using arg_cong [OF eq, of rev] by (simp add: frontend_key_def)
  have "takeWhile (\<lambda>x. \<not> is_digit x) (rev k @ ?rest sn sg) = rev k"
    "takeWhile (\<lambda>x. \<not> is_digit x) (rev k' @ ?rest sn' sg') = rev k'"
    by (rule takeWhile_sep; use k rest key_kind_digits in force)+
  then have k: "k = k'" using e by (metis rev_swap)
  then have e: "?rest sn sg = ?rest sn' sg'" using e by simp
  have "takeWhile is_digit (?rest sn sg) = rev (nat_str sg)" for sn sg
    by (rule takeWhile_sep) (use nat_str_chars in auto)
  then have "sg = sg'" using e by (metis nat_str_inj rev_swap)
  with e k show ?thesis by simp
qed

lemma frontend_records_keys:
  "r \<in> set (frontend_records_of sn sg v) \<Longrightarrow>
     \<exists>k \<in> key_kinds. Key r = frontend_key sn sg k \<and> ProjectSetting r = ''FrontEndRegistration'' @
       (if k = '''' then '''' else if k = ''-inst'' then ''-i'' else if k = ''-tcp'' then ''-tcp'' else ''-i-tcp'')"
  by (auto simp: frontend_records_of_def record_if_any_def key_kinds_def split: if_splits)

section \<open>The contract\<close>

locale frontend_names =
  fixes nb :: name_builder
    and scope :: "job \<Rightarrow> task_group \<Rightarrow> task \<Rightarrow> bool"
    and ident :: "job \<Rightarrow> task_group \<Rightarrow> task \<Rightarrow> 'i"
  assumes service_ok: "scope j tg t \<Longrightarrow> is_ok (CreateServiceName nb j tg t)"
    and service_inj: "scope j tg t \<Longrightarrow> scope j' tg' t' \<Longrightarrow>
        CreateServiceName nb j tg t = CreateServiceName nb j' tg' t' \<Longrightarrow> ident j tg t = ident j' tg' t'"
    and domains: "scope j tg t \<Longrightarrow> \<exists>d ds. CreatePrivateDomainNames nb j tg t = Inr (d # ds)"
begin

lemma records_form:
  assumes "create_front_end_records c nb j tg t sg publicOnly = Inr rs" "scope j tg t"
  shows "rs = [] \<and> t_PublicFrontEnds t = [] \<and> t_PrivateFrontEnds t = [] \<or>
    (\<exists>sn target d ds is. CreateServiceName nb j tg t = Inr sn \<and> CreateTargetServiceName nb j tg t = Inr target \<and>
       CreatePrivateDomainNames nb j tg t = Inr (d # ds) \<and>
       rs = frontend_records_of sn sg (frontend_vars_of c t sg publicOnly target (d # ds) is))"
proof (cases "t_PublicFrontEnds t = [] \<and> t_PrivateFrontEnds t = []")
  case True
  with assms(1) show ?thesis by (simp add: create_front_end_records_def)
next
  case False
  with assms(1) obtain sn target where n: "CreateServiceName nb j tg t = Inr sn" "CreateTargetServiceName nb j tg t = Inr target"
    by (auto simp: create_front_end_records_def)
  obtain d ds where d: "CreatePrivateDomainNames nb j tg t = Inr (d # ds)" using domains [OF assms(2)] by blast
  from create_front_end_records_ok [OF assms(1) n d refl] n d show ?thesis by blast
qed

lemma keys_apart:
  assumes "create_front_end_records c nb j tg t sg po = Inr rs" "create_front_end_records c nb j' tg' t' sg' po' = Inr rs'"
    and "scope j tg t" "scope j' tg' t'" "r \<in> set rs" "r' \<in> set rs'" "Key r = Key r'"
  shows "ident j tg t = ident j' tg' t' \<and> sg = sg' \<and> ProjectSetting r = ProjectSetting r'"
proof -
  obtain sn v where sn: "CreateServiceName nb j tg t = Inr sn" "r \<in> set (frontend_records_of sn sg v)"
    using records_form [OF assms(1,3)] assms(5) by auto
  obtain sn' v' where sn': "CreateServiceName nb j' tg' t' = Inr sn'" "r' \<in> set (frontend_records_of sn' sg' v')"
    using records_form [OF assms(2,4)] assms(6) by auto
  obtain k where k: "k \<in> key_kinds" "Key r = frontend_key sn sg k" "ProjectSetting r = ''FrontEndRegistration'' @
       (if k = '''' then '''' else if k = ''-inst'' then ''-i'' else if k = ''-tcp'' then ''-tcp'' else ''-i-tcp'')"
    using frontend_records_keys [OF sn(2)] by blast
  obtain k' where k': "k' \<in> key_kinds" "Key r' = frontend_key sn' sg' k'" "ProjectSetting r' = ''FrontEndRegistration'' @
       (if k' = '''' then '''' else if k' = ''-inst'' then ''-i'' else if k' = ''-tcp'' then ''-tcp'' else ''-i-tcp'')"
    using frontend_records_keys [OF sn'(2)] by blast
  have "sn = sn' \<and> sg = sg' \<and> k = k'"
    by (rule frontend_key_inj [OF k(1) k'(1)]) (use assms(7) k k' in simp)
  with service_inj [OF assms(3,4)] sn sn' k k' show ?thesis by simp
qed

lemma front_ends_served:
  assumes "create_front_end_records c nb j tg t sg po = Inr rs" "scope j tg t"
  shows "fr \<in> set (t_PublicFrontEnds t) \<Longrightarrow>
      \<exists>r \<in> set rs. fe_Mode (Record r) = mode_name (pf_Mode fr = ''tcp'') \<and>
        (\<exists>s \<in> set (Selectors (Record r)). serves_public c t fr s)"
    "pfr \<in> set (t_PrivateFrontEnds t) \<Longrightarrow> \<not> po \<Longrightarrow> CreatePrivateDomainNames nb j tg t = Inr ds \<Longrightarrow> d \<in> set ds \<Longrightarrow>
      \<exists>r \<in> set rs. fe_Mode (Record r) = mode_name (private_is_tcp pfr) \<and>
        (\<exists>s \<in> set (Selectors (Record r)). serves_private c t pfr d s)"
proof -
  show "\<exists>r \<in> set rs. fe_Mode (Record r) = mode_name (pf_Mode fr = ''tcp'') \<and>
      (\<exists>s \<in> set (Selectors (Record r)). serves_public c t fr s)" if f: "fr \<in> set (t_PublicFrontEnds t)"
    using records_form [OF assms] front_ends_registered(1) [OF refl f] f by fastforce
  show "\<exists>r \<in> set rs. fe_Mode (Record r) = mode_name (private_is_tcp pfr) \<and>
      (\<exists>s \<in> set (Selectors (Record r)). serves_private c t pfr d s)"
    if f: "pfr \<in> set (t_PrivateFrontEnds t)" "\<not> po" and d: "CreatePrivateDomainNames nb j tg t = Inr ds" "d \<in> set ds"
    using records_form [OF assms] front_ends_registered(2) [OF refl f d(2)] f d by fastforce
qed

end

end
