(* ===== verification/Encoding.thy ===== *)
theory Encoding
  imports Prelude
begin

text \<open>
  The encodings of the Go library with which registration records are written into a unit:
  \<^verbatim>\<open>base64.StdEncoding\<close> and the part of \<^verbatim>\<open>encoding/json\<close>
  that structs of strings, numbers, booleans and lists need. Bytes from 128 on are taken as parts of
  valid UTF-8 text and kept.
\<close>

section \<open>Base64\<close>

definition b64_alphabet :: string where
  "b64_alphabet = ''ABCDEFGHIJKLMNOPQRSTUVWXYZabcdefghijklmnopqrstuvwxyz0123456789+/''"

definition b64_digit :: "nat \<Rightarrow> char" where
  "b64_digit n = b64_alphabet ! n"

fun base64_encode :: "string \<Rightarrow> string" where
  "base64_encode [] = []"
| "base64_encode [a] =
     (let a = of_char a in [b64_digit (a div 4), b64_digit (a mod 4 * 16), CHR ''='', CHR ''=''])"
| "base64_encode [a, b] =
     (let a = of_char a; b = of_char b
      in [b64_digit (a div 4), b64_digit (a mod 4 * 16 + b div 16), b64_digit (b mod 16 * 4), CHR ''=''])"
| "base64_encode (a # b # c # s) =
     (let a = of_char a; b = of_char b; c = of_char c
      in [b64_digit (a div 4), b64_digit (a mod 4 * 16 + b div 16), b64_digit (b mod 16 * 4 + c div 64),
          b64_digit (c mod 64)]) @ base64_encode s"

text \<open>A left inverse, which shows that different texts have different encodings.\<close>

definition b64_val :: "char \<Rightarrow> nat" where
  "b64_val c =
     (let n = (of_char c :: nat)
      in if 65 \<le> n \<and> n \<le> 90 then n - 65
         else if 97 \<le> n \<and> n \<le> 122 then n - 71
         else if 48 \<le> n \<and> n \<le> 57 then n + 4
         else if c = CHR ''+'' then 62 else 63)"

fun base64_decode :: "string \<Rightarrow> string" where
  "base64_decode (w # x # y # z # s) =
     (let w = b64_val w; x = b64_val x; y' = b64_val y; z' = b64_val z
      in if y = CHR ''='' then [char_of (w * 4 + x div 16)]
         else if z = CHR ''='' then [char_of (w * 4 + x div 16), char_of (x mod 16 * 16 + y' div 4)]
         else [char_of (w * 4 + x div 16), char_of (x mod 16 * 16 + y' div 4), char_of (y' mod 4 * 64 + z')] @
           base64_decode s)"
| "base64_decode s = []"

lemma b64_alphabet_facts: "map b64_val b64_alphabet = [0..<64]" "CHR ''='' \<notin> set b64_alphabet"
  by (simp_all add: b64_alphabet_def b64_val_def upt_rec)

lemma b64_digit [simp]:
  assumes "n < 64"
  shows "b64_val (b64_digit n) = n" "b64_digit n \<noteq> CHR ''=''"
proof -
  have l: "length b64_alphabet = 64" using arg_cong [OF b64_alphabet_facts(1), of length] by simp
  have "map b64_val b64_alphabet ! n = n" using assms unfolding b64_alphabet_facts(1) by simp
  then show "b64_val (b64_digit n) = n" using assms l by (simp add: b64_digit_def)
  have "b64_digit n \<in> set b64_alphabet" using assms l by (simp add: b64_digit_def)
  then show "b64_digit n \<noteq> CHR ''=''" using b64_alphabet_facts(2) by metis
qed

lemma b64_bounds [simp]:
  "(of_char (a::char) :: nat) div 4 < 64" "(n::nat) mod 4 * 16 < 64" "n mod 4 * 16 + of_char (b::char) div 16 < 64"
  "n mod 16 * 4 < 64" "n mod 16 * 4 + of_char (c::char) div 64 < 64" "n mod 64 < 64"
proof -
  have q: "(of_char d :: nat) div 4 < 64" "(of_char d :: nat) div 16 < 16" "(of_char d :: nat) div 64 < 4" for d :: char
    by (simp_all add: div_less_iff_less_mult)
  show "(of_char a :: nat) div 4 < 64" by (rule q)
  show "n mod 4 * 16 < 64" "n mod 16 * 4 < 64" "n mod 64 < 64" by simp_all
  have "n mod 4 \<le> 3" "n mod 16 \<le> 15" by simp_all
  with q(2) [of b] q(3) [of c]
  show "n mod 4 * 16 + of_char b div 16 < 64" "n mod 16 * 4 + of_char c div 64 < 64" by linarith+
qed

lemma b64_small [simp]:
  "(of_char (a::char) :: nat) div 16 div 16 = 0" "(of_char (a::char) :: nat) div 16 mod 16 = of_char a div 16"
  "(of_char (a::char) :: nat) div 64 div 4 = 0" "(of_char (a::char) :: nat) div 64 mod 4 = of_char a div 64"
proof -
  have "(of_char a :: nat) div 16 < 16" "(of_char a :: nat) div 64 < 4"
    by (simp_all add: div_less_iff_less_mult)
  then show "(of_char (a::char) :: nat) div 16 div 16 = 0" "(of_char (a::char) :: nat) div 16 mod 16 = of_char a div 16"
    "(of_char (a::char) :: nat) div 64 div 4 = 0" "(of_char (a::char) :: nat) div 64 mod 4 = of_char a div 64"
    by simp_all
qed

lemma base64_round_trip: "base64_decode (base64_encode s) = s"
  by (induction s rule: base64_encode.induct) (simp_all add: Let_def)

lemma b64_digit_in: "n < 64 \<Longrightarrow> b64_digit n \<in> set b64_alphabet"
proof -
  have "length b64_alphabet = 64" using arg_cong [OF b64_alphabet_facts(1), of length] by simp
  then show "n < 64 \<Longrightarrow> b64_digit n \<in> set b64_alphabet" by (simp add: b64_digit_def)
qed

text \<open>The text can stand between single quotes in a shell command and in a systemd unit.\<close>

lemma base64_safe: "set (base64_encode s) \<subseteq> insert (CHR ''='') (set b64_alphabet)"
  by (induction s rule: base64_encode.induct) (simp_all add: Let_def b64_digit_in)

lemma b64_alphabet_safe: "set b64_alphabet \<inter> set [CHR 0x27, CHR ''$'', CHR ''%'', CHR 0x5C, CHR '' ''] = {}"
  by code_simp

section \<open>JSON\<close>

datatype json = JStr string | JNum int | JBool bool | JArr "json list" | JObj "(string \<times> json) list"

definition json_hex :: "nat \<Rightarrow> char" where
  "json_hex n = (if n < 10 then char_of (48 + n) else char_of (87 + n))"

definition json_char :: "char \<Rightarrow> string" where
  "json_char c =
     (let n = (of_char c :: nat)
      in if c = CHR 0x22 \<or> c = CHR 0x5C then [CHR 0x5C, c]
         else if n = 10 then [CHR 0x5C, CHR ''n'']
         else if n = 13 then [CHR 0x5C, CHR ''r'']
         else if n = 9 then [CHR 0x5C, CHR ''t'']
         else if n < 32 \<or> c = CHR ''<'' \<or> c = CHR ''>'' \<or> c = CHR ''&''
           then CHR 0x5C # ''u00'' @ [json_hex (n div 16), json_hex (n mod 16)]
         else [c])"

definition json_string :: "string \<Rightarrow> string" where
  "json_string s = CHR 0x22 # concat (map json_char s) @ [CHR 0x22]"

fun json_print :: "json \<Rightarrow> string" where
  "json_print (JStr s) = json_string s"
| "json_print (JNum i) = itoa i"
| "json_print (JBool b) = (if b then ''true'' else ''false'')"
| "json_print (JArr js) = ''['' @ join '','' (map json_print js) @ '']''"
| "json_print (JObj kvs) = ''{'' @ join '','' (map (\<lambda>(k, j). json_string k @ '':'' @ json_print j) kvs) @ ''}''"

text \<open>A field with \<^verbatim>\<open>omitempty\<close> is left out when it holds the zero value.\<close>

definition omit_empty :: "string \<Rightarrow> json \<Rightarrow> (string \<times> json) list" where
  "omit_empty k j =
     (if j = JStr '''' \<or> j = JNum 0 \<or> j = JBool False \<or> j = JArr [] then [] else [(k, j)])"

end
