(* ===== verification/FleetUnits.thy ===== *)
theory FleetUnits
  imports Model UnitNames Cmdline Paths SdUnits Docker FrontendNames Encoding
begin

text \<open>
  The units of one task: \<^verbatim>\<open>render/fleet\<close>, the files
  \<^verbatim>\<open>fleet.go\<close>, \<^verbatim>\<open>constraints.go\<close>,
  \<^verbatim>\<open>unit_*.go\<close>, \<^verbatim>\<open>frontend_registration.go\<close>,
  \<^verbatim>\<open>metrics_registration.go\<close> and \<^verbatim>\<open>task.go\<close>. A unit is built as
  a value; when it is complete it enters the store of its group. What is global in the program, the
  image names, and the hashes of secrets and tasks are the record \<open>rendering\<close>.
\<close>

record generator_context =
  gc_ScalingGroup :: nat
  gc_InstanceCount :: int
  gc_Cluster :: cluster

record rendering =
  rd_images :: images
  rd_secret_hash :: "secret \<Rightarrow> string res"
  rd_crypto :: crypto
  rd_context :: render_context

section \<open>Options of fleet\<close>

fun exclude_units_of_job :: "string \<Rightarrow> string list \<Rightarrow> string list" where
  "exclude_units_of_job jobName [] = []"
| "exclude_units_of_job jobName (u # us) =
     (if \<not> is_unit_for_job u jobName then u # exclude_units_of_job jobName us
      else exclude_units_of_job jobName us)"

definition add_fleet_options :: "job \<Rightarrow> fleet_options \<Rightarrow> sd_unit \<Rightarrow> sd_unit" where
  "add_fleet_options j fo u =
     map_exec (exec_require (exclude_units_of_job (j_Name j) (fo_Requires fo)))
       (map_exec (exec_want (exclude_units_of_job (j_Name j) (fo_Wants fo)))
         (map_exec (exec_after (exclude_units_of_job (j_Name j) (fo_After fo))) u))"

section \<open>Constraints\<close>

definition setup_instance_constraints ::
  "generator_context \<Rightarrow> job \<Rightarrow> task_group \<Rightarrow> task \<Rightarrow> string \<Rightarrow> sd_unit \<Rightarrow> sd_unit res" where
  "setup_instance_constraints ctx j tg t unitKind u =
     (let u = map_fleet (\<lambda>f. f\<lparr>IsGlobal := g_Global tg\<rparr>) u
      in if 1 < gc_InstanceCount ctx then
           (if g_Global tg then
              (if 1 < g_Count tg then
                 (let gics = fo_GlobalInstanceConstraints (FleetOptions (gc_Cluster ctx))
                  in if int (length gics) < int_of_uint (g_Count tg) then Inl ValidationError
                     else if 0 < gc_ScalingGroup ctx \<and> gc_ScalingGroup ctx - 1 < length gics then
                       Inr (map_fleet (machine_metadata [gics ! (gc_ScalingGroup ctx - 1)]) u)
                     else Inl Panic)
               else Inr u)
            else Inr (map_fleet (fleet_conflicts (unit_name_ext j tg t unitKind ''*'' @ ''.service'')) u))
         else Inr u)"

text \<open>The loop over the constraints changes the unit and collects metadata.\<close>

definition conflict_with_group :: "job \<Rightarrow> task_group \<Rightarrow> sd_unit \<Rightarrow> sd_unit" where
  "conflict_with_group j other u =
     fold (\<lambda>t u. map_fleet (fleet_conflicts (unit_name_ext j other t unitKindMain ''*'' @ ''.service'')) u)
       (g_Tasks other) u"

definition setup_constraint ::
  "job \<Rightarrow> constraint \<Rightarrow> string list \<times> sd_unit \<Rightarrow> (string list \<times> sd_unit) res" where
  "setup_constraint j c mu =
     (case mu of (metadata, u) \<Rightarrow>
        if prefix MetaAttributePrefix (Attribute c) then
          (if \<not> operator_equals c OperatorEqual then Inl ValidationError
           else Inr (metadata @ [drop (length MetaAttributePrefix) (Attribute c) @ ''='' @ Value c], u))
        else if Attribute c = AttributeNodeID then
          (if \<not> operator_equals c OperatorEqual then Inl ValidationError
           else Inr (metadata, map_fleet (\<lambda>f. f\<lparr>MachineID := Value c\<rparr>) u))
        else if Attribute c = AttributeTaskGroup then
          rbind (task_group_name_validate (Value c)) (\<lambda>_.
          rbind (job_task_group j (Value c)) (\<lambda>other.
            if g_Tasks other = [] then Inr (metadata, u)
            else if operator_equals c OperatorNotEqual then Inr (metadata, conflict_with_group j other u)
            else Inl ValidationError))
        else Inl ValidationError)"

definition setup_constraints :: "job \<Rightarrow> task_group \<Rightarrow> sd_unit \<Rightarrow> sd_unit res" where
  "setup_constraints j tg u =
     rbind (fold_res (setup_constraint j) (merged_constraints j tg) ([], u)) (\<lambda>(metadata, u).
       Inr (map_fleet (machine_metadata metadata) u))"

section \<open>Units\<close>

definition unit_description :: "job \<Rightarrow> task_group \<Rightarrow> task \<Rightarrow> string \<Rightarrow> nat \<Rightarrow> string" where
  "unit_description j tg t pre scalingGroup =
     pre @ '' unit for '' @ task_full_name j tg t @ '' '' @
     (if g_Global tg then ''[global]'' else ''[slice '' @ nat_str scalingGroup @ '']'')"

definition create_base_unit ::
  "generator_context \<Rightarrow> job \<Rightarrow> string \<Rightarrow> string \<Rightarrow> string \<Rightarrow> sd_unit" where
  "create_base_unit ctx j name description unitType =
     add_fleet_options j (FleetOptions (gc_Cluster ctx))
       \<lparr>Name = name, FullName = name @ ''.'' @ unitType, UnitType = unitType, Description = description,
        ScalingGroup = gc_ScalingGroup ctx, ExecOptions = new_exec_options [],
        UnitFleetOptions = new_fleet_unit_options, projectSettings = []\<rparr>"

definition create_default_unit ::
  "generator_context \<Rightarrow> job \<Rightarrow> task_group \<Rightarrow> task \<Rightarrow> string \<Rightarrow> string \<Rightarrow> string \<Rightarrow> string \<Rightarrow> sd_unit res" where
  "create_default_unit ctx j tg t name description unitType unitKind =
     rbind (setup_instance_constraints ctx j tg t unitKind
              (map_exec (\<lambda>e. e\<lparr>Restart := ''always''\<rparr>) (create_base_unit ctx j name description unitType))) (\<lambda>u.
       let u = map_exec (exec_after [''docker.service'']) (map_exec (exec_require [''docker.service'']) u);
           u = (if network_is_weave (t_Network t)
                then map_exec (exec_after [''weave.service'']) (map_exec (exec_require [''weave.service'']) u) else u)
       in setup_constraints j tg u)"

definition format_cmd :: "cmdline \<Rightarrow> string" where
  "format_cmd c = (if AllowFailure c then ''-'' @ cmd_string c else cmd_string c)"

definition setup_unit_from_cmds :: "cmds \<Rightarrow> sd_unit \<Rightarrow> sd_unit" where
  "setup_unit_from_cmds cs u =
     (let u = (if 0 < length (cmds_Start cs) then
                 map_exec (\<lambda>e. e\<lparr>ExecStartPre := ExecStartPre e @ map format_cmd (butlast (cmds_Start cs)),
                                ExecStart := format_cmd (last (cmds_Start cs))\<rparr>) u
               else u)
      in if 0 < length (cmds_Stop cs) then
           map_exec (\<lambda>e. e\<lparr>ExecStop := ExecStop e @ [format_cmd (hd (cmds_Stop cs))],
                          ExecStopPost := ExecStopPost e @ map format_cmd (tl (cmds_Stop cs))\<rparr>) u
         else u)"

text \<open>The engine is handed the environment of the unit and extends it.\<close>

definition with_cmds :: "(env \<Rightarrow> (env \<times> cmds) res) \<Rightarrow> sd_unit \<Rightarrow> sd_unit res" where
  "with_cmds mk u =
     rbind (mk (Environment (ExecOptions u))) (\<lambda>(env, cs).
       Inr (setup_unit_from_cmds cs (map_exec (\<lambda>e. e\<lparr>Environment := env\<rparr>) u)))"

section \<open>Registrations\<close>

record metrics_record =
  mr_ServiceName :: string
  mr_ServicePort :: int
  mr_MetricsPath :: string
  mr_RulesPath :: string

definition metrics_json :: "metrics_record \<Rightarrow> string" where
  "metrics_json r =
     json_print (JObj
       (omit_empty ''service'' (JStr (mr_ServiceName r)) @ omit_empty ''port'' (JNum (mr_ServicePort r)) @
        omit_empty ''path'' (JStr (mr_MetricsPath r)) @ omit_empty ''rules_path'' (JStr (mr_RulesPath r))))"

definition user_json :: "user_record \<Rightarrow> json" where
  "user_json r = JObj [(''user'', JStr (ur_Name r)), (''pwhash'', JStr (PasswordHash r))]"

definition rewrite_json :: "rewrite \<Rightarrow> json" where
  "rewrite_json r = JObj
     (omit_empty ''path-prefix'' (JStr (rw_PathPrefix r)) @
      omit_empty ''remove-path-prefix'' (JStr (rw_RemovePathPrefix r)) @
      omit_empty ''domain'' (JStr (rw_Domain r)))"

definition selector_json :: "selector \<Rightarrow> json" where
  "selector_json s = JObj
     (omit_empty ''weight'' (JNum (sr_Weight s)) @ omit_empty ''domain'' (JStr (sr_Domain s)) @
      omit_empty ''path-prefix'' (JStr (sr_PathPrefix s)) @ omit_empty ''ssl-cert'' (JStr (sr_SslCert s)) @
      omit_empty ''port'' (JNum (ServicePort s)) @ omit_empty ''frontend-port'' (JNum (FrontendPort s)) @
      omit_empty ''private'' (JBool (Private s)) @ omit_empty ''users'' (JArr (map user_json (sr_Users s))) @
      omit_empty ''rewrite-rules'' (JArr (map rewrite_json (RewriteRules s))))"

definition frontend_json :: "frontend \<Rightarrow> string" where
  "frontend_json r =
     json_print (JObj
       ((''selectors'', JArr (map selector_json (Selectors r))) #
        omit_empty ''service'' (JStr (Service r)) @ omit_empty ''mode'' (JStr (fe_Mode r)) @
        omit_empty ''http-check-path'' (JStr (HttpCheckPath r)) @
        omit_empty ''http-check-method'' (JStr (HttpCheckMethod r)) @
        omit_empty ''sticky'' (JBool (Sticky r)) @ omit_empty ''backup'' (JBool (Backup r))))"

definition register :: "string \<Rightarrow> string \<Rightarrow> string \<Rightarrow> sd_unit \<Rightarrow> sd_unit" where
  "register setting key js u =
     map_exec (\<lambda>e. e\<lparr>ExecStartPost := ExecStartPost e @
                       [''/bin/sh -c '' @ [CHR 0x27] @ ''echo '' @ base64_encode js @
                        '' | base64 -d | /usr/bin/etcdctl set '' @ key @ [CHR 0x27]],
                     ExecStop := (''-/usr/bin/etcdctl rm '' @ key) # ExecStop e\<rparr>)
       (project_setting setting (key @ ''='' @ js) u)"

definition target_service_name :: "job \<Rightarrow> task_group \<Rightarrow> task \<Rightarrow> string" where
  "target_service_name j tg t =
     (if is_proxy (t_Type t) then etcd_service_name (t_Target t) else service_name j tg t)"

definition fleet_frontend_names :: name_builder where
  "fleet_frontend_names =
     \<lparr>CreateServiceName = (\<lambda>j tg t. Inr (service_name j tg t)),
      CreateTargetServiceName = (\<lambda>j tg t. Inr (target_service_name j tg t)),
      CreatePrivateDomainNames = (\<lambda>j tg t. Inr [task_private_domain_name j tg t]),
      CreateInstanceSpecificPrivateDomainNames =
        (\<lambda>j tg t inst. Inr [instance_specific_private_domain_name j tg t inst])\<rparr>"

text \<open>The names the fleet renderer builds keep tasks apart, also those of different jobs.\<close>

interpretation fleet_names: frontend_names fleet_frontend_names named "\<lambda>j tg t. (j_Name j, g_Name tg, t_Name t)"
proof
  show "named j tg t \<Longrightarrow> named j' tg' t' \<Longrightarrow>
      CreateServiceName fleet_frontend_names j tg t = CreateServiceName fleet_frontend_names j' tg' t' \<Longrightarrow>
      (j_Name j, g_Name tg, t_Name t) = (j_Name j', g_Name tg', t_Name t')" for j tg t j' tg' t'
    by (simp add: fleet_frontend_names_def service_name_def task_full_name_dashed append_sep_inj)
qed (simp_all add: fleet_frontend_names_def)

definition add_front_end_registration ::
  "rendering \<Rightarrow> generator_context \<Rightarrow> job \<Rightarrow> task_group \<Rightarrow> task \<Rightarrow> sd_unit \<Rightarrow> sd_unit res" where
  "add_front_end_registration rd ctx j tg t u =
     rbind (create_front_end_records (rd_crypto rd) fleet_frontend_names j tg t (gc_ScalingGroup ctx) False) (\<lambda>records.
       Inr (fold (\<lambda>r. register (ProjectSetting r) (Key r) (frontend_json (Record r))) records u))"

definition metrics_key :: "job \<Rightarrow> task_group \<Rightarrow> task \<Rightarrow> nat \<Rightarrow> string" where
  "metrics_key j tg t sg = ''/pulcy/metrics/'' @ service_name j tg t @ ''-'' @ nat_str sg"

definition add_metrics_registration ::
  "generator_context \<Rightarrow> job \<Rightarrow> task_group \<Rightarrow> task \<Rightarrow> sd_unit \<Rightarrow> sd_unit" where
  "add_metrics_registration ctx j tg t u =
     (case t_Metrics t of
        None \<Rightarrow> u
      | Some m \<Rightarrow>
          register ''MetricsRegistration'' (metrics_key j tg t (gc_ScalingGroup ctx))
            (metrics_json
              \<lparr>mr_ServiceName = target_service_name j tg t, mr_ServicePort = m_Port m,
               mr_MetricsPath = m_Path m, mr_RulesPath = m_RulesPath m\<rparr>) u)"

section \<open>The units of a task\<close>

definition require_and_after :: "string list \<Rightarrow> sd_unit \<Rightarrow> sd_unit" where
  "require_and_after ns u = map_exec (exec_after ns) (map_exec (exec_require ns) u)"

definition require_volumes_from ::
  "generator_context \<Rightarrow> job \<Rightarrow> task_group \<Rightarrow> string \<Rightarrow> sd_unit \<Rightarrow> sd_unit res" where
  "require_volumes_from ctx j tg name u =
     rbind (group_task tg name) (\<lambda>other.
       Inr (require_and_after [unit_name j tg other unitKindMain (gc_ScalingGroup ctx) @ ''.service''] u))"

definition create_main_unit ::
  "rendering \<Rightarrow> docker_engine \<Rightarrow> generator_context \<Rightarrow> job \<Rightarrow> task_group \<Rightarrow> task \<Rightarrow> string list \<Rightarrow> sd_unit res" where
  "create_main_unit rd e ctx j tg t sidekickUnitNames =
     (let sg = gc_ScalingGroup ctx
      in rbind (create_default_unit ctx j tg t (unit_name j tg t unitKindMain sg)
                  (unit_description j tg t ''Main'' sg) ''service'' unitKindMain) (\<lambda>u.
         rbind (with_cmds (\<lambda>env. create_main_cmds e (rd_images rd) (rd_secret_hash rd) j tg t env sg) u) (\<lambda>u.
           let u = (if t_Type t = ''oneshot''
                    then map_exec (\<lambda>x. x\<lparr>IsOneshot := True, Restart := ''on-failure''\<rparr>) u
                    else map_exec (\<lambda>x. x\<lparr>Restart := ''always''\<rparr>) u)
           in rbind (fold_res (require_volumes_from ctx j tg) (t_VolumesFrom t)
                       (require_and_after sidekickUnitNames u)) (\<lambda>u.
              add_front_end_registration rd ctx j tg t (add_metrics_registration ctx j tg t u)))))"

definition create_proxy_unit ::
  "rendering \<Rightarrow> docker_engine \<Rightarrow> generator_context \<Rightarrow> job \<Rightarrow> task_group \<Rightarrow> task \<Rightarrow> link \<Rightarrow> nat \<Rightarrow> sd_unit res" where
  "create_proxy_unit rd e ctx j tg t l linkIndex =
     (let sg = gc_ScalingGroup ctx; namePostfix = unitKindProxy @ nat_str linkIndex
      in rbind (create_default_unit ctx j tg t (unit_name j tg t namePostfix sg)
                  (unit_description j tg t (''Proxy '' @ nat_str linkIndex) sg) ''service'' namePostfix) (\<lambda>u.
         with_cmds (\<lambda>env. create_proxy_cmds e (rd_images rd) j tg t l linkIndex env sg)
           (map_exec stop_when_unneeded u)))"

definition create_volume_unit ::
  "docker_engine \<Rightarrow> generator_context \<Rightarrow> job \<Rightarrow> task_group \<Rightarrow> task \<Rightarrow> volume \<Rightarrow> nat \<Rightarrow> sd_unit res" where
  "create_volume_unit e ctx j tg t vol volIndex =
     (let sg = gc_ScalingGroup ctx; namePostfix = unitKindVolume @ nat_str volIndex;
          volPrefix = path_join [task_full_name j tg t @ ''/'' @ nat_str sg, v_Path vol];
          volHostPath = ''/media/'' @ volPrefix
      in rbind (create_default_unit ctx j tg t (unit_name j tg t namePostfix sg)
                  (unit_description j tg t (''Volume '' @ nat_str volIndex) sg) ''service'' namePostfix) (\<lambda>u.
         with_cmds (\<lambda>env. create_volume_cmds e j tg t vol volIndex volPrefix volHostPath env sg) u))"

definition create_timer_unit ::
  "generator_context \<Rightarrow> job \<Rightarrow> task_group \<Rightarrow> task \<Rightarrow> sd_unit option" where
  "create_timer_unit ctx j tg t =
     (let sg = gc_ScalingGroup ctx
      in if t_Timer t = '''' then None
         else Some (map_exec (\<lambda>e. e\<lparr>OnCalendar := t_Timer t,
                                    TimerUnit := unit_name j tg t unitKindMain sg @ ''.service''\<rparr>)
                (create_base_unit ctx j (unit_name j tg t unitKindTimer sg)
                  (unit_description j tg t ''Timer'' sg) ''timer'')))"

text \<open>The proxies of the TCP links are numbered from zero, the volumes by their position.\<close>

fun create_proxy_units ::
  "rendering \<Rightarrow> docker_engine \<Rightarrow> generator_context \<Rightarrow> job \<Rightarrow> task_group \<Rightarrow> task \<Rightarrow> link list \<Rightarrow> nat \<Rightarrow> sd_unit list res" where
  "create_proxy_units rd e ctx j tg t [] linkIndex = Inr []"
| "create_proxy_units rd e ctx j tg t (l # ls) linkIndex =
     (if \<not> link_type_is_tcp (l_Type l) then create_proxy_units rd e ctx j tg t ls linkIndex
      else rbind (create_proxy_unit rd e ctx j tg t l linkIndex) (\<lambda>u.
           rbind (create_proxy_units rd e ctx j tg t ls (linkIndex + 1)) (\<lambda>us. Inr (u # us))))"

fun create_volume_units ::
  "docker_engine \<Rightarrow> generator_context \<Rightarrow> job \<Rightarrow> task_group \<Rightarrow> task \<Rightarrow> volume list \<Rightarrow> nat \<Rightarrow> sd_unit list res" where
  "create_volume_units e ctx j tg t [] i = Inr []"
| "create_volume_units e ctx j tg t (v # vs) i =
     (if volume_is_local v then create_volume_units e ctx j tg t vs (i + 1)
      else rbind (create_volume_unit e ctx j tg t v i) (\<lambda>u.
           rbind (create_volume_units e ctx j tg t vs (i + 1)) (\<lambda>us. Inr (u # us))))"

definition new_engine :: "generator_context \<Rightarrow> task \<Rightarrow> docker_engine res" where
  "new_engine ctx t =
     (if t_Engine t = ''docker'' then Inr (new_docker_engine (gc_Cluster ctx)) else Inl ValidationError)"

definition create_task_units ::
  "rendering \<Rightarrow> generator_context \<Rightarrow> job \<Rightarrow> task_group \<Rightarrow> task \<Rightarrow> sd_unit list list res" where
  "create_task_units rd ctx j tg t =
     rbind (new_engine ctx t) (\<lambda>e.
     rbind (create_proxy_units rd e ctx j tg t (t_Links t) 0) (\<lambda>proxies.
     rbind (create_volume_units e ctx j tg t (t_Volumes t) 0) (\<lambda>volumes.
     rbind (create_main_unit rd e ctx j tg t (map FullName (proxies @ volumes))) (\<lambda>main.
       Inr ((proxies @ volumes @ [main]) #
         (case create_timer_unit ctx j tg t of None \<Rightarrow> [] | Some timer \<Rightarrow> [[timer]]))))))"

end
