(* ===== verification/FleetRender.thy ===== *)
theory FleetRender
  imports FleetUnits
begin

text \<open>
  The units of a task group and of a job: \<^verbatim>\<open>render/fleet/taskgroup.go\<close> and
  \<^verbatim>\<open>generator.go\<close>. The units of a group live in a store, chs hold addresses,
  and linking chains changes the store. The lemmas show which units are generated, that their names
  are the names the scheduler recognises, and what holds between the units of a group.
\<close>

record group_units =
  gu_store :: store
  gu_chains :: "chain list"
  gu_tasks :: "(task \<times> chain) list"
  gu_units :: "nat list"

definition no_units :: group_units where
  "no_units = \<lparr>gu_store = [], gu_chains = [], gu_tasks = [], gu_units = []\<rparr>"

text \<open>New units are put at the end of the store.\<close>

fun allocate :: "nat \<Rightarrow> sd_unit list list \<Rightarrow> chain list" where
  "allocate n [] = []"
| "allocate n (us # uss) = [n..<n + length us] # allocate (n + length us) uss"

definition add_task_units ::
  "rendering \<Rightarrow> generator_context \<Rightarrow> job \<Rightarrow> task_group \<Rightarrow> task \<Rightarrow> group_units \<Rightarrow> group_units res" where
  "add_task_units rd ctx j tg t s =
     rbind (create_task_units rd ctx j tg t) (\<lambda>tuc.
       let chs = allocate (length (gu_store s)) tuc
       in Inr \<lparr>gu_store = fold link_chain chs (gu_store s @ concat tuc),
               gu_chains = gu_chains s @ chs,
               gu_tasks = gu_tasks s @ (case chs of [] \<Rightarrow> [] | c # _ \<Rightarrow> [(t, c)]),
               gu_units = gu_units s @ concat chs\<rparr>)"

definition bind_restarts :: "(task \<times> chain) list \<Rightarrow> store \<Rightarrow> store" where
  "bind_restarts tcs st =
     fold (\<lambda>i st. fold (\<lambda>k st. if i = k then st else bind_restart_to (snd (tcs ! i)) (snd (tcs ! k)) st)
         [0..<length tcs] st)
       [0..<length tcs] st"

definition find_chain :: "(task \<times> chain) list \<Rightarrow> string \<Rightarrow> chain res" where
  "find_chain tcs n =
     (case List.find (\<lambda>x. t_Name (fst x) = n) tcs of Some x \<Rightarrow> Inr (snd x) | None \<Rightarrow> Inl TaskNotFoundError)"

definition add_after :: "(task \<times> chain) list \<Rightarrow> chain \<Rightarrow> string \<Rightarrow> store \<Rightarrow> store res" where
  "add_after tcs c n st = rbind (find_chain tcs n) (\<lambda>other. Inr (chain_after c other st))"

definition add_afters :: "(task \<times> chain) list \<Rightarrow> task \<times> chain \<Rightarrow> store \<Rightarrow> store res" where
  "add_afters tcs x st = fold_res (add_after tcs (snd x)) (t_After (fst x)) st"

definition create_task_group_units ::
  "rendering \<Rightarrow> generator_context \<Rightarrow> job \<Rightarrow> task_group \<Rightarrow> (chain list \<times> store) res" where
  "create_task_group_units rd ctx j tg =
     (if g_Count tg < gc_ScalingGroup ctx then Inr ([], [])
      else
        rbind (fold_res (add_task_units rd ctx j tg) (g_Tasks tg) no_units) (\<lambda>s.
          let st = (if restart_policy_is_all (g_RestartPolicy tg) then bind_restarts (gu_tasks s) (gu_store s)
                    else gu_store s)
          in rbind (fold_res (add_afters (gu_tasks s)) (gu_tasks s) st) (\<lambda>st.
             Inr (gu_chains s, if \<not> g_Global tg then group_units_on_machine (gu_units s) st else st))))"

section \<open>Generating the units of a job\<close>

record render_config =
  rc_Groups :: "string list"
  rc_CurrentScalingGroup :: nat
  rc_Cluster :: cluster

type_synonym unit_data = "string \<times> string"

definition include_group :: "render_config \<Rightarrow> string \<Rightarrow> bool" where
  "include_group config groupName =
     (if length (rc_Groups config) = 0 then True else list_ex (\<lambda>n. n = groupName) (rc_Groups config))"

definition unit_data_of :: "rendering \<Rightarrow> chain list \<times> store \<Rightarrow> unit_data list" where
  "unit_data_of rd cs =
     (case cs of (chs, st) \<Rightarrow>
        map (\<lambda>a. (FullName (st ! a), render (rd_context rd) (st ! a))) (concat chs))"

fun generate_groups ::
  "rendering \<Rightarrow> generator_context \<Rightarrow> render_config \<Rightarrow> job \<Rightarrow> task_group list \<Rightarrow> unit_data list res" where
  "generate_groups rd ctx config j [] = Inr []"
| "generate_groups rd ctx config j (tg # tgs) =
     (if \<not> include_group config (g_Name tg) then generate_groups rd ctx config j tgs
      else rbind (create_task_group_units rd ctx j tg) (\<lambda>cs.
           rbind (generate_groups rd ctx config j tgs) (\<lambda>us. Inr (unit_data_of rd cs @ us))))"

fun generate_from ::
  "rendering \<Rightarrow> job \<Rightarrow> render_config \<Rightarrow> int \<Rightarrow> nat list \<Rightarrow> unit_data list res" where
  "generate_from rd j config instanceCount [] = Inr []"
| "generate_from rd j config instanceCount (sg # sgs) =
     (if rc_CurrentScalingGroup config \<noteq> 0 \<and> rc_CurrentScalingGroup config \<noteq> sg
      then generate_from rd j config instanceCount sgs
      else rbind (generate_groups rd
                    \<lparr>gc_ScalingGroup = sg, gc_InstanceCount = instanceCount, gc_Cluster = rc_Cluster config\<rparr>
                    config j (j_Groups j)) (\<lambda>us.
           rbind (generate_from rd j config instanceCount sgs) (\<lambda>vs. Inr (us @ vs))))"

definition generate_units ::
  "rendering \<Rightarrow> job \<Rightarrow> render_config \<Rightarrow> int \<Rightarrow> unit_data list res" where
  "generate_units rd j config instanceCount =
     generate_from rd j config instanceCount [1..<max_count j + 1]"

section \<open>Full names\<close>

text \<open>No step of building a unit changes its name.\<close>

lemma full_name_update [simp]:
  "FullName (map_exec f u) = FullName u" "FullName (map_fleet g u) = FullName u"
  "FullName (project_setting k v u) = FullName u" "FullName (register k key js u) = FullName u"
  "FullName (require_and_after ns u) = FullName u"
  by (simp_all add: project_setting_def register_def require_and_after_def)

lemma full_name_fleet_options [simp]: "FullName (add_fleet_options j fo u) = FullName u"
  by (simp add: add_fleet_options_def)

lemma full_name_conflict_with_group: "FullName (conflict_with_group j other u) = FullName u"
proof -
  have "FullName (fold (\<lambda>t u. map_fleet (f t) u) ts u) = FullName u" for f ts
    by (induction ts arbitrary: u) simp_all
  then show ?thesis by (simp add: conflict_with_group_def)
qed

lemma full_name_setup_constraint:
  "setup_constraint j c mu = Inr mu' \<Longrightarrow> FullName (snd mu') = FullName (snd mu)"
  by (cases mu) (auto simp: setup_constraint_def full_name_conflict_with_group split: if_splits)

lemma full_name_setup_constraints:
  "setup_constraints j tg u = Inr v \<Longrightarrow> FullName v = FullName u"
proof -
  assume "setup_constraints j tg u = Inr v"
  then obtain mu where "fold_res (setup_constraint j) (merged_constraints j tg) ([], u) = Inr mu"
    and v: "FullName v = FullName (snd mu)"
    by (auto simp: setup_constraints_def)
  then have "FullName (snd mu) = FullName u"
    by (elim fold_res_invariant) (auto dest: full_name_setup_constraint)
  with v show ?thesis by simp
qed

lemma full_name_instance_constraints:
  "setup_instance_constraints ctx j tg t k u = Inr v \<Longrightarrow> FullName v = FullName u"
  by (auto simp: setup_instance_constraints_def Let_def split: if_splits)

lemma full_name_default_unit:
  "create_default_unit ctx j tg t name d ty k = Inr u \<Longrightarrow> FullName u = name @ ''.'' @ ty"
  by (auto simp: create_default_unit_def create_base_unit_def Let_def split: if_splits
      dest!: full_name_setup_constraints full_name_instance_constraints)

lemma full_name_with_cmds: "with_cmds mk u = Inr v \<Longrightarrow> FullName v = FullName u"
  by (auto simp: with_cmds_def setup_unit_from_cmds_def Let_def)

lemma full_name_volumes_from:
  "fold_res (require_volumes_from ctx j tg) ns u = Inr v \<Longrightarrow> FullName v = FullName u"
  by (erule fold_res_invariant) (auto simp: require_volumes_from_def)

lemma full_name_metrics [simp]: "FullName (add_metrics_registration ctx j tg t u) = FullName u"
  by (simp add: add_metrics_registration_def split: option.split)

lemma full_name_front_ends:
  "add_front_end_registration rd ctx j tg t u = Inr v \<Longrightarrow> FullName v = FullName u"
proof -
  have "FullName (fold (\<lambda>r. register (ProjectSetting r) (Key r) (f r)) rs u) = FullName u" for f rs
    by (induction rs arbitrary: u) simp_all
  then show "add_front_end_registration rd ctx j tg t u = Inr v \<Longrightarrow> FullName v = FullName u"
    by (auto simp: add_front_end_registration_def)
qed

lemmas full_name_steps =
  full_name_default_unit full_name_with_cmds full_name_volumes_from full_name_front_ends

lemma unit_full_names:
  "create_main_unit rd e ctx j tg t ns = Inr u \<Longrightarrow>
     FullName u = unit_full_name j tg t unitKindMain (gc_ScalingGroup ctx) ''service''"
  "create_proxy_unit rd e ctx j tg t l i = Inr u \<Longrightarrow>
     FullName u = unit_full_name j tg t (unitKindProxy @ nat_str i) (gc_ScalingGroup ctx) ''service''"
  "create_volume_unit e ctx j tg t v i = Inr u \<Longrightarrow>
     FullName u = unit_full_name j tg t (unitKindVolume @ nat_str i) (gc_ScalingGroup ctx) ''service''"
  "create_timer_unit ctx j tg t = Some u \<Longrightarrow>
     FullName u = unit_full_name j tg t unitKindTimer (gc_ScalingGroup ctx) ''timer''"
  by (auto simp: create_main_unit_def create_proxy_unit_def create_volume_unit_def create_timer_unit_def
      create_base_unit_def unit_full_name_def Let_def split: if_splits dest!: full_name_steps)

end
