(* ===== verification/FleetRenderLaws.thy ===== *)
theory FleetRenderLaws
  imports FleetRender
begin

text \<open>
  What the fleet renderer generates. The names are computed without building the units: every task
  of a group gives one unit per TCP link, per shared volume, a main unit and, with a schedule, a
  timer. All names of a job are different and are recognised by the scheduler as belonging to their
  job, group and scaling group. The relations between units of a group are those the group asks for.
\<close>

section \<open>Names of the units of a task\<close>

definition tcp_links :: "task \<Rightarrow> link list" where
  "tcp_links t = filter (\<lambda>l. link_type_is_tcp (l_Type l)) (t_Links t)"

definition shared_indices :: "volume list \<Rightarrow> nat list" where
  "shared_indices vs = filter (\<lambda>i. \<not> volume_is_local (vs ! i)) [0..<length vs]"

text \<open>The kinds, with the type, of the units of a task; the main chain, then the timer.\<close>

definition main_kinds :: "task \<Rightarrow> (string \<times> string) list" where
  "main_kinds t =
     map (\<lambda>i. (unitKindProxy @ nat_str i, ''service'')) [0..<length (tcp_links t)] @
     map (\<lambda>i. (unitKindVolume @ nat_str i, ''service'')) (shared_indices (t_Volumes t)) @
     [(unitKindMain, ''service'')]"

definition timer_kinds :: "task \<Rightarrow> (string \<times> string) list" where
  "timer_kinds t = (if t_Timer t = '''' then [] else [(unitKindTimer, ''timer'')])"

definition task_kinds :: "task \<Rightarrow> (string \<times> string) list" where
  "task_kinds t = main_kinds t @ timer_kinds t"

definition unit_names_of :: "job \<Rightarrow> task_group \<Rightarrow> nat \<Rightarrow> task \<Rightarrow> string list" where
  "unit_names_of j tg sg t = map (\<lambda>(k, ty). unit_full_name j tg t k sg ty) (task_kinds t)"

lemma proxy_names:
  "create_proxy_units rd e ctx j tg t ls i = Inr us \<Longrightarrow>
     map FullName us = map (\<lambda>i. unit_full_name j tg t (unitKindProxy @ nat_str i) (gc_ScalingGroup ctx) ''service'')
       [i..<i + length (filter (\<lambda>l. link_type_is_tcp (l_Type l)) ls)]"
proof (induction ls arbitrary: i us)
  case (Cons l ls)
  then show ?case by (auto simp: unit_full_names upt_rec [of i] split: if_splits)
qed simp

lemma shared_indices_Cons:
  "shared_indices (v # vs) = (if volume_is_local v then [] else [0]) @ map Suc (shared_indices vs)"
proof -
  have "filter (\<lambda>i. \<not> volume_is_local ((v # vs) ! i)) (map Suc [0..<length vs]) = map Suc (shared_indices vs)"
    by (simp add: shared_indices_def filter_map comp_def)
  then show ?thesis
    by (simp add: shared_indices_def upt_conv_Cons map_Suc_upt [symmetric] del: upt_Suc)
qed

lemma volume_names:
  "create_volume_units e ctx j tg t vs i = Inr us \<Longrightarrow>
     map FullName us = map (\<lambda>k. unit_full_name j tg t (unitKindVolume @ nat_str (i + k)) (gc_ScalingGroup ctx) ''service'')
       (shared_indices vs)"
proof (induction vs arbitrary: i us)
  case (Cons v vs)
  then show ?case by (fastforce simp: unit_full_names shared_indices_Cons comp_def split: if_splits)
qed (simp add: shared_indices_def)

text \<open>The first chain holds the sidekicks and the main unit, the second one the timer.\<close>

lemma create_task_units_names:
  assumes "create_task_units rd ctx j tg t = Inr uss"
  obtains main where "uss = main # tl uss" "main \<noteq> []"
    "map FullName main = map (\<lambda>(k, ty). unit_full_name j tg t k (gc_ScalingGroup ctx) ty) (main_kinds t)"
    "map FullName (concat (tl uss)) = map (\<lambda>(k, ty). unit_full_name j tg t k (gc_ScalingGroup ctx) ty) (timer_kinds t)"
proof -
  obtain e ps vs m where p: "create_proxy_units rd e ctx j tg t (t_Links t) 0 = Inr ps"
    and v: "create_volume_units e ctx j tg t (t_Volumes t) 0 = Inr vs"
    and m: "create_main_unit rd e ctx j tg t (map FullName (ps @ vs)) = Inr m"
    and uss: "uss = (ps @ vs @ [m]) # (case create_timer_unit ctx j tg t of None \<Rightarrow> [] | Some timer \<Rightarrow> [[timer]])"
    using assms by (auto simp: create_task_units_def)
  have "map FullName (ps @ vs @ [m]) = map (\<lambda>(k, ty). unit_full_name j tg t k (gc_ScalingGroup ctx) ty) (main_kinds t)"
    using proxy_names [OF p] volume_names [OF v] unit_full_names(1) [OF m]
    by (simp add: main_kinds_def comp_def tcp_links_def)
  moreover have "map FullName (concat (tl uss)) =
      map (\<lambda>(k, ty). unit_full_name j tg t k (gc_ScalingGroup ctx) ty) (timer_kinds t)"
    using unit_full_names(4) [of ctx j tg t]
    by (auto simp: uss timer_kinds_def create_timer_unit_def Let_def split: option.split)
  ultimately show thesis using that [of "ps @ vs @ [m]"] uss by simp
qed

lemma create_task_units_full_names:
  "create_task_units rd ctx j tg t = Inr uss \<Longrightarrow>
     map FullName (concat uss) = unit_names_of j tg (gc_ScalingGroup ctx) t"
proof (elim create_task_units_names)
  fix main assume u: "uss = main # tl uss" and
    n: "map FullName main = map (\<lambda>(k, ty). unit_full_name j tg t k (gc_ScalingGroup ctx) ty) (main_kinds t)"
      "map FullName (concat (tl uss)) = map (\<lambda>(k, ty). unit_full_name j tg t k (gc_ScalingGroup ctx) ty) (timer_kinds t)"
  have "concat uss = main @ concat (tl uss)" using u by (metis concat.simps(2))
  with n show ?thesis by (simp add: unit_names_of_def task_kinds_def)
qed

section \<open>Kinds are proper and distinct\<close>

lemma task_kinds_shape:
  assumes "(k, ty) \<in> set (task_kinds t)"
  obtains k' where "k = CHR ''-'' # k'" "tag_ok k'" "types_ok ty"
proof -
  have "\<exists>k'. k = CHR ''-'' # k' \<and> tag_ok k' \<and> types_ok ty"
    using assms
    by (auto simp: task_kinds_def main_kinds_def timer_kinds_def tag_ok_def types_ok_def
        unitKindMain_def unitKindVolume_def unitKindProxy_def unitKindTimer_def split: if_splits)
  with that show thesis by blast
qed

lemma task_kinds_distinct: "distinct (map fst (task_kinds t))"
proof -
  have "distinct (shared_indices (t_Volumes t))" by (simp add: shared_indices_def)
  then show ?thesis
    by (auto simp: task_kinds_def main_kinds_def timer_kinds_def comp_def distinct_map inj_on_def
        unitKindMain_def unitKindVolume_def unitKindProxy_def unitKindTimer_def)
qed

section \<open>The units of a group\<close>

lemma allocate_simps [simp]:
  "concat (allocate n uss) = [n..<n + length (concat uss)]"
  "c \<in> set (allocate n uss) \<Longrightarrow> a \<in> set c \<Longrightarrow> a < n + length (concat uss)"
proof -
  show e: "concat (allocate n uss) = [n..<n + length (concat uss)]" for n
  proof (induction uss arbitrary: n)
    case (Cons us uss)
    have "[n..<n + length us] @ [n + length us..<n + length us + k] = [n..<n + length us + k]" for k
      by (simp add: upt_add_eq_append [symmetric])
    with Cons show ?case by (simp add: add.assoc)
  qed simp
  show "c \<in> set (allocate n uss) \<Longrightarrow> a \<in> set c \<Longrightarrow> a < n + length (concat uss)"
  proof -
    assume "c \<in> set (allocate n uss)" "a \<in> set c"
    then have "a \<in> set (concat (allocate n uss))" by auto
    then show "a < n + length (concat uss)" unfolding e by simp
  qed
qed

lemma store_le_names: "store_le st st' \<Longrightarrow> map FullName st' = map FullName st"
  by (auto simp: store_le_def list_all2_conv_all_nth unit_le_facts(1) intro: nth_equalityI)

definition linked :: "chain \<Rightarrow> store \<Rightarrow> bool" where
  "linked c st \<longleftrightarrow> (\<forall>i. 0 < i \<and> i < length c \<longrightarrow>
     needs st (c ! (i - 1)) (c ! i) \<and> needs st (c ! i) (c ! (i - 1)) \<and>
     starts_after st (c ! i) (c ! (i - 1)) \<and> same_machine st (c ! i) (c ! (i - 1)))"

lemma linked_mono: "store_le st st' \<Longrightarrow> linked c st \<Longrightarrow> linked c st'"
  unfolding linked_def by (blast intro: relations_mono)

lemma linked_append: "linked c st \<Longrightarrow> linked c (st @ st')"
proof -
  have "needs st a b \<Longrightarrow> needs (st @ st') a b" "starts_after st a b \<Longrightarrow> starts_after (st @ st') a b"
    "same_machine st a b \<Longrightarrow> same_machine (st @ st') a b" for a b
    by (simp_all add: needs_def starts_after_def same_machine_def full_name_at_def nth_append)
  then show "linked c st \<Longrightarrow> linked c (st @ st')" unfolding linked_def by blast
qed

lemma link_chain_linked: "\<forall>a \<in> set c. a < length st \<Longrightarrow> linked c (link_chain c st)"
  unfolding linked_def
proof (intro allI impI)
  fix i assume a: "\<forall>a \<in> set c. a < length st" and i: "0 < i \<and> i < length c"
  then have "1 < length c" by linarith
  from link_chain_relations(1) [OF a this, of "i - 1"] link_chain_relations(2) [OF a this, of i] i
  show "needs (link_chain c st) (c ! (i - 1)) (c ! i) \<and> needs (link_chain c st) (c ! i) (c ! (i - 1)) \<and>
     starts_after (link_chain c st) (c ! i) (c ! (i - 1)) \<and> same_machine (link_chain c st) (c ! i) (c ! (i - 1))"
    by simp
qed

lemma fold_link_le: "store_le st (fold link_chain chs st)"
  by (rule fold_store_le) (rule link_chain_le)

lemma fold_linked:
  assumes "c \<in> set chs" "\<forall>a \<in> set c. a < length st"
  shows "linked c (fold link_chain chs st)"
proof (rule fold_establish [OF link_chain_le assms(1)])
  fix s assume "store_le st s"
  then show "linked c (link_chain c s)" using assms(2) by (simp add: link_chain_linked store_le_length)
qed (rule linked_mono)

text \<open>What holds while the tasks are added.\<close>

definition main_names :: "job \<Rightarrow> task_group \<Rightarrow> nat \<Rightarrow> task \<Rightarrow> string list" where
  "main_names j tg sg t = map (\<lambda>(k, ty). unit_full_name j tg t k sg ty) (main_kinds t)"

definition main_chain :: "job \<Rightarrow> task_group \<Rightarrow> nat \<Rightarrow> store \<Rightarrow> task \<times> chain \<Rightarrow> bool" where
  "main_chain j tg sg st x \<longleftrightarrow>
     (\<forall>a \<in> set (snd x). a < length st) \<and> map (full_name_at st) (snd x) = main_names j tg sg (fst x)"

lemma main_chain_mono: "store_le st st' \<Longrightarrow> main_chain j tg sg st x \<Longrightarrow> main_chain j tg sg st' x"
  unfolding main_chain_def using store_le_name store_le_length by (metis (no_types, lifting) map_eq_conv)

lemma main_chain_append: "main_chain j tg sg st x \<Longrightarrow> main_chain j tg sg (st @ st') x"
proof -
  assume x: "main_chain j tg sg st x"
  then have "full_name_at (st @ st') a = full_name_at st a" if "a \<in> set (snd x)" for a
    using that by (simp add: main_chain_def full_name_at_def nth_append)
  then have "map (full_name_at (st @ st')) (snd x) = map (full_name_at st) (snd x)" by simp
  with x show ?thesis by (auto simp: main_chain_def)
qed

definition group_inv :: "job \<Rightarrow> task_group \<Rightarrow> nat \<Rightarrow> task list \<Rightarrow> group_units \<Rightarrow> bool" where
  "group_inv j tg sg ts s \<longleftrightarrow>
     map FullName (gu_store s) = concat (map (unit_names_of j tg sg) ts) \<and>
     concat (gu_chains s) = [0..<length (gu_store s)] \<and> gu_units s = [0..<length (gu_store s)] \<and>
     (\<forall>c \<in> set (gu_chains s). linked c (gu_store s)) \<and>
     map fst (gu_tasks s) = ts \<and> snd ` set (gu_tasks s) \<subseteq> set (gu_chains s) \<and>
     (\<forall>x \<in> set (gu_tasks s). main_chain j tg sg (gu_store s) x)"

lemma group_inv_step:
  assumes inv: "group_inv j tg (gc_ScalingGroup ctx) ts s" and step: "add_task_units rd ctx j tg t s = Inr s'"
  shows "group_inv j tg (gc_ScalingGroup ctx) (ts @ [t]) s'"
proof -
  let ?sg = "gc_ScalingGroup ctx" and ?n = "length (gu_store s)"
  obtain uss where uss: "create_task_units rd ctx j tg t = Inr uss" using step by (auto simp: add_task_units_def)
  obtain m where m: "uss = m # tl uss" "map FullName m = main_names j tg ?sg t"
    using create_task_units_names [OF uss] unfolding main_names_def by metis
  define st0 where "st0 = gu_store s @ concat uss"
  define chs where "chs = allocate ?n uss"
  define st where "st = fold link_chain chs st0"
  define c where "c = [?n..<?n + length m]"
  have chs: "chs = c # tl chs" unfolding chs_def c_def by (subst m(1), subst (2) m(1)) simp
  have s': "s' = \<lparr>gu_store = st, gu_chains = gu_chains s @ chs, gu_tasks = gu_tasks s @ [(t, c)],
      gu_units = gu_units s @ [?n..<?n + length (concat uss)]\<rparr>"
    using step uss chs by (simp add: add_task_units_def Let_def st_def st0_def chs_def [symmetric] split: list.splits)
  have le: "store_le st0 st" unfolding st_def by (rule fold_link_le)
  have len: "length st = ?n + length (concat uss)" using store_le_length [OF le] by (simp add: st0_def)
  have pre: "store_le (gu_store s @ concat uss) st" using le by (simp add: st0_def)
  have names: "map FullName st = map FullName (gu_store s) @ unit_names_of j tg ?sg t"
    using store_le_names [OF le] create_task_units_full_names [OF uss] by (simp add: st0_def)
  have cu: "concat uss = m @ concat (tl uss)" using m(1) by (metis concat.simps(2))
  then have cl: "\<forall>a \<in> set c. a < length st" by (auto simp: len c_def)
  have "full_name_at st a = full_name_at st0 a" if "a \<in> set c" for a
    using store_le_name [OF le, of a] cl that store_le_length [OF le] by simp
  then have "map (full_name_at st) c = map (full_name_at st0) c" by simp
  also have "\<dots> = map FullName m"
    by (rule nth_equalityI) (simp_all add: c_def full_name_at_def st0_def nth_append cu)
  finally have mc: "map (full_name_at st) c = main_names j tg ?sg t" using m(2) by simp
  have linked_old: "linked d st" if d: "d \<in> set (gu_chains s)" for d
  proof -
    have "linked d (gu_store s)" using inv d by (simp add: group_inv_def)
    then have "linked d st0" unfolding st0_def by (rule linked_append)
    then show ?thesis by (rule linked_mono [OF le])
  qed
  have linked_new: "linked d st" if "d \<in> set chs" for d
    unfolding st_def by (rule fold_linked [OF that]) (use that in \<open>auto simp: chs_def st0_def dest: allocate_simps(2)\<close>)
  have "concat (gu_chains s @ chs) = [0..<length st]" "gu_units s @ [?n..<?n + length (concat uss)] = [0..<length st]"
    using inv by (simp_all add: group_inv_def chs_def len upt_add_eq_append [of 0, symmetric, simplified])
  moreover have "main_chain j tg ?sg st x" if "x \<in> set (gu_tasks s)" for x
    using main_chain_mono [OF pre main_chain_append] inv that by (simp add: group_inv_def)
  moreover have "main_chain j tg ?sg st (t, c)" using mc cl by (simp add: main_chain_def)
  moreover have "c \<in> set chs" by (subst chs) simp
  ultimately show ?thesis
    using inv names linked_old linked_new by (auto simp: group_inv_def s')
qed

lemma group_inv_fold:
  "fold_res (add_task_units rd ctx j tg) ts s = Inr s' \<Longrightarrow> group_inv j tg (gc_ScalingGroup ctx) us s \<Longrightarrow>
     group_inv j tg (gc_ScalingGroup ctx) (us @ ts) s'"
proof (induction ts arbitrary: s us)
  case (Cons t ts)
  then obtain s1 where s1: "add_task_units rd ctx j tg t s = Inr s1"
    "fold_res (add_task_units rd ctx j tg) ts s1 = Inr s'" by auto
  from Cons.IH [OF s1(2) group_inv_step [OF Cons.prems(2) s1(1)]] show ?case by simp
qed simp

lemma group_inv_tasks:
  "fold_res (add_task_units rd ctx j tg) ts no_units = Inr s \<Longrightarrow> group_inv j tg (gc_ScalingGroup ctx) ts s"
  by (drule group_inv_fold [where us = "[]"]) (simp_all add: no_units_def group_inv_def)

section \<open>Restarts and order\<close>

lemma bind_restarts_le: "store_le st (bind_restarts tcs st)"
  unfolding bind_restarts_def by (intro fold_store_le) (simp add: bind_restart_to_le)

lemma bind_restarts_needs:
  assumes i: "i < length tcs" "k < length tcs" "i \<noteq> k"
    and ab: "a \<in> set (snd (tcs ! i))" "b \<in> set (snd (tcs ! k))" "a < length st" "b < length st"
  shows "needs (bind_restarts tcs st) a b"
  unfolding bind_restarts_def
proof (rule fold_establish [where x = i])
  fix s assume s: "store_le st s"
  show "needs (fold (\<lambda>k st. if i = k then st else bind_restart_to (snd (tcs ! i)) (snd (tcs ! k)) st) [0..<length tcs] s) a b"
  proof (rule fold_establish [where x = k])
    fix s' assume "store_le s s'"
    then have "length s' = length st" using s by (simp add: store_le_length)
    then show "needs (if i = k then s' else bind_restart_to (snd (tcs ! i)) (snd (tcs ! k)) s') a b"
      using i(3) ab by (simp add: bind_restart_to_relations)
  qed (use i relations_mono in \<open>auto simp: bind_restart_to_le\<close>)
next
  show "store_le s (fold (\<lambda>k st. if i = k then st else bind_restart_to (snd (tcs ! i)) (snd (tcs ! k)) st) [0..<length tcs] s)" for i s
    by (rule fold_store_le) (simp add: bind_restart_to_le)
qed (use i relations_mono in auto)

lemma fold_res_le:
  assumes "\<And>x s s'. f x s = Inr s' \<Longrightarrow> store_le s s'" and "fold_res f xs st = Inr st'"
  shows "store_le st st'"
  using assms(2)
proof (rule fold_res_invariant [where P = "store_le st"])
  show "store_le st s \<Longrightarrow> f x s = Inr s' \<Longrightarrow> store_le st s'" for x s s'
    using assms(1) store_le_trans by blast
qed simp

lemma fold_res_establish:
  assumes "\<And>x s s'. f x s = Inr s' \<Longrightarrow> store_le s s'" and "fold_res f xs st = Inr st'" "x \<in> set xs"
    and "\<And>s s'. store_le st s \<Longrightarrow> f x s = Inr s' \<Longrightarrow> P s'" and mono: "\<And>s s'. P s \<Longrightarrow> store_le s s' \<Longrightarrow> P s'"
  shows "P st'"
  using assms(2-4)
proof (induction xs arbitrary: st)
  case (Cons y ys)
  then obtain s1 where s1: "f y st = Inr s1" "fold_res f ys s1 = Inr st'" by auto
  have le: "store_le st s1" "store_le s1 st'" using assms(1) s1(1) fold_res_le [OF assms(1) s1(2)] by auto
  show ?case
  proof (cases "x = y")
    case True
    then have "P s1" using Cons.prems(3) [OF store_le_refl] s1(1) by simp
    then show ?thesis using mono le(2) by blast
  next
    case False
    then show ?thesis
      using Cons.IH [OF s1(2)] Cons.prems(2,3) store_le_trans [OF le(1)] by (metis set_ConsD)
  qed
qed simp

lemma add_after_le: "add_after tcs c n s = Inr s' \<Longrightarrow> store_le s s'"
  by (auto simp: add_after_def chain_after_le)

lemma add_afters_le: "add_afters tcs x s = Inr s' \<Longrightarrow> store_le s s'"
  unfolding add_afters_def by (rule fold_res_le [OF add_after_le])

lemma add_afters_starts:
  assumes st: "fold_res (add_afters tcs) tcs st = Inr st'" and x: "x \<in> set tcs" "n \<in> set (t_After (fst x))"
    and c: "find_chain tcs n = Inr c" and ab: "a \<in> set (snd x)" "b \<in> set c" "a < length st" "b < length st"
  shows "starts_after st' a b"
proof (rule fold_res_establish [OF add_afters_le st x(1)])
  fix s s1 assume s: "store_le st s" and s1: "add_afters tcs x s = Inr s1"
  show "starts_after s1 a b"
  proof (rule fold_res_establish [OF add_after_le s1 [unfolded add_afters_def] x(2)])
    fix r r' assume "store_le s r" "add_after tcs (snd x) n r = Inr r'"
    then have "r' = chain_after (snd x) c r" "length r = length st"
      using c s by (simp_all add: add_after_def store_le_length)
    with ab show "starts_after r' a b" by (simp add: chain_after_relations)
  qed (auto intro: add_after_le relations_mono)
qed (auto intro: add_afters_le relations_mono)

section \<open>A group\<close>

text \<open>All a group yields: the names in order, and the relations between its units.\<close>

lemma create_task_group_units_effect:
  assumes "create_task_group_units rd ctx j tg = Inr (chs, st)" "gc_ScalingGroup ctx \<le> g_Count tg"
  obtains s where "group_inv j tg (gc_ScalingGroup ctx) (g_Tasks tg) s" "store_le (gu_store s) st" "chs = gu_chains s"
    "restart_policy_is_all (g_RestartPolicy tg) \<Longrightarrow> store_le (bind_restarts (gu_tasks s) (gu_store s)) st"
    "\<exists>st0. store_le (gu_store s) st0 \<and> (\<exists>st1. fold_res (add_afters (gu_tasks s)) (gu_tasks s) st0 = Inr st1 \<and> store_le st1 st)"
    "\<not> g_Global tg \<Longrightarrow> \<exists>st1. store_le (gu_store s) st1 \<and> st = group_units_on_machine (gu_units s) st1"
proof -
  obtain s where s: "fold_res (add_task_units rd ctx j tg) (g_Tasks tg) no_units = Inr s"
    using assms by (auto simp: create_task_group_units_def)
  define st0 where "st0 = (if restart_policy_is_all (g_RestartPolicy tg) then bind_restarts (gu_tasks s) (gu_store s) else gu_store s)"
  obtain st1 where st1: "fold_res (add_afters (gu_tasks s)) (gu_tasks s) st0 = Inr st1"
    and st: "chs = gu_chains s" "st = (if \<not> g_Global tg then group_units_on_machine (gu_units s) st1 else st1)"
    using assms s by (auto simp: create_task_group_units_def Let_def st0_def)
  have le0: "store_le (gu_store s) st0" by (simp add: st0_def bind_restarts_le)
  have le1: "store_le st0 st1" by (rule fold_res_le [OF add_afters_le st1])
  have le2: "store_le st1 st" by (simp add: st group_units_on_machine_le)
  show thesis
  proof (rule that [OF group_inv_tasks [OF s] _ st(1)])
    show "store_le (gu_store s) st" using le0 le1 le2 store_le_trans by blast
    show "store_le (bind_restarts (gu_tasks s) (gu_store s)) st" if "restart_policy_is_all (g_RestartPolicy tg)"
      using that le1 le2 store_le_trans by (auto simp: st0_def)
    show "\<exists>st0. store_le (gu_store s) st0 \<and> (\<exists>st1. fold_res (add_afters (gu_tasks s)) (gu_tasks s) st0 = Inr st1 \<and> store_le st1 st)"
      using le0 st1 le2 by blast
    show "\<exists>st1. store_le (gu_store s) st1 \<and> st = group_units_on_machine (gu_units s) st1" if "\<not> g_Global tg"
      using that st le0 le1 store_le_trans by auto
  qed
qed

text \<open>The relations as they read off the names of the units.\<close>

definition requires_unit :: "store \<Rightarrow> string \<Rightarrow> string \<Rightarrow> bool" where
  "requires_unit st x y \<longleftrightarrow> (\<exists>u \<in> set st. FullName u = x \<and> y \<in> set (Requires (ExecOptions u)))"

definition after_unit :: "store \<Rightarrow> string \<Rightarrow> string \<Rightarrow> bool" where
  "after_unit st x y \<longleftrightarrow> (\<exists>u \<in> set st. FullName u = x \<and> y \<in> set (after (ExecOptions u)))"

definition machine_of_unit :: "store \<Rightarrow> string \<Rightarrow> string \<Rightarrow> bool" where
  "machine_of_unit st x y \<longleftrightarrow> (\<exists>u \<in> set st. FullName u = x \<and> y \<in> set (machineOf (UnitFleetOptions u)))"

lemma relations_named:
  "needs st a b \<Longrightarrow> requires_unit st (full_name_at st a) (full_name_at st b)"
  "starts_after st a b \<Longrightarrow> after_unit st (full_name_at st a) (full_name_at st b)"
  "same_machine st a b \<Longrightarrow> machine_of_unit st (full_name_at st a) (full_name_at st b)"
  by (auto simp: needs_def starts_after_def same_machine_def requires_unit_def after_unit_def machine_of_unit_def
      full_name_at_def)

lemma main_chain_nth:
  "main_chain j tg sg st x \<Longrightarrow> i < length (snd x) \<Longrightarrow> full_name_at st (snd x ! i) = main_names j tg sg (fst x) ! i"
  "main_chain j tg sg st x \<Longrightarrow> length (snd x) = length (main_names j tg sg (fst x))"
  by (auto simp: main_chain_def dest: arg_cong [where f = length]) (metis nth_map)

lemma main_chain_at:
  assumes "main_chain j tg sg st x" "n \<in> set (main_names j tg sg (fst x))"
  obtains a where "a \<in> set (snd x)" "a < length st" "full_name_at st a = n"
proof -
  have "n \<in> full_name_at st ` set (snd x)" using assms by (metis main_chain_def list.set_map)
  with that assms(1) show thesis by (auto simp: main_chain_def)
qed

lemma group_task_chain:
  assumes created: "create_task_group_units rd ctx j tg = Inr (chs, st)" and sg: "gc_ScalingGroup ctx \<le> g_Count tg"
    and "t \<in> set (g_Tasks tg)"
  obtains s c where "group_inv j tg (gc_ScalingGroup ctx) (g_Tasks tg) s" "store_le (gu_store s) st"
    "(t, c) \<in> set (gu_tasks s)" "main_chain j tg (gc_ScalingGroup ctx) st (t, c)" "linked c st"
  using create_task_group_units_effect [OF created sg]
proof cases
  case (1 s)
  then have "t \<in> fst ` set (gu_tasks s)" using assms unfolding group_inv_def by (metis list.set_map)
  then obtain c where c: "(t, c) \<in> set (gu_tasks s)" by auto
  moreover have "main_chain j tg (gc_ScalingGroup ctx) (gu_store s) (t, c)" "linked c (gu_store s)"
    using 1(1) c by (force simp: group_inv_def)+
  ultimately show thesis using that 1(1,2) main_chain_mono linked_mono by blast
qed

lemma group_linked:
  assumes created: "create_task_group_units rd ctx j tg = Inr (chs, st)" and sg: "gc_ScalingGroup ctx \<le> g_Count tg"
    and t: "t \<in> set (g_Tasks tg)" and ns: "ns = main_names j tg (gc_ScalingGroup ctx) t" and i: "0 < i" "i < length ns"
  shows "requires_unit st (ns ! (i - 1)) (ns ! i)" "requires_unit st (ns ! i) (ns ! (i - 1))"
    "after_unit st (ns ! i) (ns ! (i - 1))" "machine_of_unit st (ns ! i) (ns ! (i - 1))"
proof -
  obtain c where c: "main_chain j tg (gc_ScalingGroup ctx) st (t, c)" "linked c st"
    using group_task_chain [OF created sg t] by metis
  have l: "length c = length ns" using main_chain_nth(2) [OF c(1)] ns by simp
  then have n: "full_name_at st (c ! (i - 1)) = ns ! (i - 1)" "full_name_at st (c ! i) = ns ! i"
    using main_chain_nth(1) [OF c(1)] i ns by simp_all
  have r: "needs st (c ! (i - 1)) (c ! i)" "needs st (c ! i) (c ! (i - 1))" "starts_after st (c ! i) (c ! (i - 1))"
    "same_machine st (c ! i) (c ! (i - 1))" using c(2) i l by (auto simp: linked_def)
  show "requires_unit st (ns ! (i - 1)) (ns ! i)" "requires_unit st (ns ! i) (ns ! (i - 1))"
    "after_unit st (ns ! i) (ns ! (i - 1))" "machine_of_unit st (ns ! i) (ns ! (i - 1))"
    using relations_named(1) [OF r(1)] relations_named(1) [OF r(2)] relations_named(2) [OF r(3)]
      relations_named(3) [OF r(4)] by (simp_all only: n)
qed

lemma group_restart_all:
  assumes created: "create_task_group_units rd ctx j tg = Inr (chs, st)" and sg: "gc_ScalingGroup ctx \<le> g_Count tg"
    and all: "restart_policy_is_all (g_RestartPolicy tg)" and t: "t \<in> set (g_Tasks tg)" "t' \<in> set (g_Tasks tg)" "t \<noteq> t'"
    and n: "n \<in> set (main_names j tg (gc_ScalingGroup ctx) t)" "n' \<in> set (main_names j tg (gc_ScalingGroup ctx) t')"
  shows "requires_unit st n n'"
  using create_task_group_units_effect [OF created sg]
proof cases
  case (1 s)
  let ?tcs = "gu_tasks s"
  have fst: "map fst ?tcs = g_Tasks tg" using 1(1) by (simp add: group_inv_def)
  have "t \<in> set (map fst ?tcs)" "t' \<in> set (map fst ?tcs)" using t fst by simp_all
  then obtain i k where i: "i < length ?tcs" "fst (?tcs ! i) = t" and k: "k < length ?tcs" "fst (?tcs ! k) = t'"
    by (auto simp: in_set_conv_nth)
  have "i \<noteq> k" using i k t(3) by auto
  have mc: "main_chain j tg (gc_ScalingGroup ctx) (gu_store s) (?tcs ! i)"
    "main_chain j tg (gc_ScalingGroup ctx) (gu_store s) (?tcs ! k)"
    using 1(1) i k by (simp_all add: group_inv_def)
  obtain a where a: "a \<in> set (snd (?tcs ! i))" "a < length (gu_store s)" "full_name_at (gu_store s) a = n"
    using main_chain_at [OF mc(1)] n(1) i(2) by metis
  obtain b where b: "b \<in> set (snd (?tcs ! k))" "b < length (gu_store s)" "full_name_at (gu_store s) b = n'"
    using main_chain_at [OF mc(2)] n(2) k(2) by metis
  have "needs (bind_restarts ?tcs (gu_store s)) a b"
    using i(1) k(1) \<open>i \<noteq> k\<close> a b by (simp add: bind_restarts_needs)
  then have "needs st a b" by (rule relations_mono(1) [OF 1(4) [OF all]])
  from relations_named(1) [OF this] show ?thesis
    using a b store_le_name [OF 1(2)] by simp
qed

lemma group_after:
  assumes created: "create_task_group_units rd ctx j tg = Inr (chs, st)" and sg: "gc_ScalingGroup ctx \<le> g_Count tg"
    and dist: "distinct (map t_Name (g_Tasks tg))"
    and t: "t \<in> set (g_Tasks tg)" "t' \<in> set (g_Tasks tg)" "t_Name t' \<in> set (t_After t)"
    and n: "n \<in> set (main_names j tg (gc_ScalingGroup ctx) t)" "n' \<in> set (main_names j tg (gc_ScalingGroup ctx) t')"
  shows "after_unit st n n'"
  using create_task_group_units_effect [OF created sg]
proof cases
  case (1 s)
  let ?tcs = "gu_tasks s"
  have fst: "map fst ?tcs = g_Tasks tg" using 1(1) by (simp add: group_inv_def)
  have "t \<in> fst ` set ?tcs" "t' \<in> fst ` set ?tcs" using t fst by (metis list.set_map)+
  then obtain c c' where c: "(t, c) \<in> set ?tcs" and c': "(t', c') \<in> set ?tcs" by auto
  have "map (\<lambda>x. t_Name (fst x)) ?tcs = map t_Name (map fst ?tcs)" by simp
  then have "distinct (map (\<lambda>x. t_Name (fst x)) ?tcs)" using dist fst by simp
  then have f: "find_chain ?tcs (t_Name t') = Inr c'"
    using find_key [of "\<lambda>x. t_Name (fst x)" ?tcs "(t', c')"] c' by (simp add: find_chain_def)
  have mc: "main_chain j tg (gc_ScalingGroup ctx) (gu_store s) (t, c)"
    "main_chain j tg (gc_ScalingGroup ctx) (gu_store s) (t', c')"
    using 1(1) c c' by (simp_all add: group_inv_def)
  obtain a where a: "a \<in> set c" "a < length (gu_store s)" "full_name_at (gu_store s) a = n"
    using main_chain_at [OF mc(1)] n(1) by auto
  obtain b where b: "b \<in> set c'" "b < length (gu_store s)" "full_name_at (gu_store s) b = n'"
    using main_chain_at [OF mc(2)] n(2) by auto
  obtain st0 st1 where st: "store_le (gu_store s) st0" "fold_res (add_afters ?tcs) ?tcs st0 = Inr st1" "store_le st1 st"
    using 1(5) by blast
  have "starts_after st1 a b"
    by (rule add_afters_starts [OF st(2) c _ f]) (use a b t(3) store_le_length [OF st(1)] in auto)
  then have "starts_after st a b" by (rule relations_mono(2) [OF st(3)])
  from relations_named(2) [OF this] show ?thesis
    using a b store_le_name [OF 1(2)] by simp
qed

lemma group_names:
  assumes created: "create_task_group_units rd ctx j tg = Inr (chs, st)" and sg: "gc_ScalingGroup ctx \<le> g_Count tg"
  shows
  "map FullName st = concat (map (unit_names_of j tg (gc_ScalingGroup ctx)) (g_Tasks tg))"
  "concat chs = [0..<length st]"
proof -
  from create_task_group_units_effect [OF created sg]
  show "map FullName st = concat (map (unit_names_of j tg (gc_ScalingGroup ctx)) (g_Tasks tg))"
    "concat chs = [0..<length st]"
    using store_le_names store_le_length by (cases; simp add: group_inv_def)+
qed

lemma group_same_machine:
  assumes created: "create_task_group_units rd ctx j tg = Inr (chs, st)" and sg: "gc_ScalingGroup ctx \<le> g_Count tg"
    and local: "\<not> g_Global tg" and i: "0 < i" "i < length st"
  shows "machine_of_unit st (FullName (st ! i)) (FullName (st ! 0))"
  using create_task_group_units_effect [OF created sg]
proof cases
  case (1 s)
  from 1(6) [OF local] obtain st1 where st1: "store_le (gu_store s) st1" "st = group_units_on_machine (gu_units s) st1"
    by blast
  have u: "gu_units s = [0..<length (gu_store s)]" using 1(1) by (simp add: group_inv_def)
  have l: "length (gu_store s) = length st" "length st1 = length st"
    using store_le_length [OF 1(2)] store_le_length [OF st1(1)] by simp_all
  have "same_machine st (gu_units s ! i) (gu_units s ! 0)"
    unfolding st1(2) by (rule group_units_on_machine_relations) (use u l i in auto)
  moreover have "[0..<length st] ! 0 = 0" using i by (intro nth_upt [of 0 0, simplified]) auto
  ultimately have "same_machine st i 0" using u l i by (metis nth_upt add_0)
  from relations_named(3) [OF this] show ?thesis by (simp add: full_name_at_def)
qed

end
