(* ===== verification/FleetDeployment.thy ===== *)
theory FleetDeployment
  imports FleetScheduler FleetRenderLaws
begin

text \<open>
  Deploying a job on fleet: the fleet renderer and the fleet scheduler under the deployment of
  \<^verbatim>\<open>deployment/run.go\<close>. The names of the generated units of a valid job are all
  different and the scheduler recognises each of them, which is what the laws of the deployment ask
  of a generator; the results about the deployment then hold for the program as it is put together.
\<close>

section \<open>The generator of a deployment\<close>

text \<open>\<^verbatim>\<open>generateScalingGroupUnits\<close> with the fleet renderer.\<close>

definition generate_scaling_group_units ::
  "rendering \<Rightarrow> job \<Rightarrow> deployment \<Rightarrow> cluster \<Rightarrow> nat \<Rightarrow> unit_data list res" where
  "generate_scaling_group_units rd j d c scalingGroup =
     generate_units rd j
       \<lparr>rc_Groups = groupSelection d, rc_CurrentScalingGroup = scalingGroup, rc_Cluster = c\<rparr>
       (InstanceCount c)"

definition run_fleet ::
  "rendering \<Rightarrow> 'o tunnel \<Rightarrow> job \<Rightarrow> deployment \<Rightarrow> cluster \<Rightarrow> 'o fleet_state world \<Rightarrow> nat res \<times> 'o fleet_state world" where
  "run_fleet rd f j d c w =
     run d (fleet_scheduler f (j_Name j)) (generate_scaling_group_units rd j d c) (max_count j) w"

definition destroy_fleet ::
  "'o tunnel \<Rightarrow> job \<Rightarrow> deployment \<Rightarrow> 'o fleet_state world \<Rightarrow> unit res \<times> 'o fleet_state world" where
  "destroy_fleet f j d w = destroy_deployment d (fleet_scheduler f (j_Name j)) w"

section \<open>Names of the generated units\<close>

definition group_unit_names :: "job \<Rightarrow> nat \<Rightarrow> task_group \<Rightarrow> string list" where
  "group_unit_names j sg tg =
     (if g_Count tg < sg then [] else concat (map (unit_names_of j tg sg) (g_Tasks tg)))"

definition scaling_group_names :: "render_config \<Rightarrow> job \<Rightarrow> nat \<Rightarrow> string list" where
  "scaling_group_names config j sg =
     concat (map (group_unit_names j sg) (filter (\<lambda>tg. include_group config (g_Name tg)) (j_Groups j)))"

lemma unit_data_names: "map fst (unit_data_of rd (chs, st)) = map (full_name_at st) (concat chs)"
  by (simp add: unit_data_of_def full_name_at_def comp_def)

lemma group_unit_data_names:
  assumes "create_task_group_units rd ctx j tg = Inr cs"
  shows "map fst (unit_data_of rd cs) = group_unit_names j (gc_ScalingGroup ctx) tg"
proof (cases "gc_ScalingGroup ctx \<le> g_Count tg")
  case True
  obtain chs st where cs: "cs = (chs, st)" by fastforce
  have "map (full_name_at st) [0..<length st] = map FullName st"
    by (rule nth_equalityI) (simp_all add: full_name_at_def)
  with True group_names [OF assms [unfolded cs] True] show ?thesis
    by (simp add: cs unit_data_names group_unit_names_def)
next
  case False
  with assms show ?thesis
    by (auto simp: create_task_group_units_def group_unit_names_def unit_data_of_def)
qed

lemma generate_groups_names:
  "generate_groups rd ctx config j tgs = Inr us \<Longrightarrow>
     map fst us = concat (map (group_unit_names j (gc_ScalingGroup ctx))
       (filter (\<lambda>tg. include_group config (g_Name tg)) tgs))"
proof (induction tgs arbitrary: us)
  case (Cons tg tgs)
  then show ?case by (auto simp: group_unit_data_names split: if_splits)
qed simp

lemma generate_from_names:
  "generate_from rd j config n sgs = Inr us \<Longrightarrow>
     map fst us = concat (map (scaling_group_names config j)
       (filter (\<lambda>sg. rc_CurrentScalingGroup config = 0 \<or> rc_CurrentScalingGroup config = sg) sgs))"
proof (induction sgs arbitrary: us)
  case (Cons sg sgs)
  then show ?case by (auto simp: generate_groups_names scaling_group_names_def split: if_splits)
qed simp

lemma generate_units_names:
  assumes "generate_units rd j config n = Inr us"
  shows "map fst us = concat (map (scaling_group_names config j)
    (filter (\<lambda>sg. rc_CurrentScalingGroup config = 0 \<or> rc_CurrentScalingGroup config = sg) [1..<max_count j + 1]))"
  by (rule generate_from_names) (use assms in \<open>simp add: generate_units_def\<close>)

lemma filter_eq_upt: "a \<le> x \<Longrightarrow> x < b \<Longrightarrow> filter (\<lambda>y. x = y) [a..<b] = [x]"
  by (induction b) (auto simp: less_Suc_eq filter_empty_conv)

lemma scaling_group_units_names:
  assumes "generate_scaling_group_units rd j d c sg = Inr us" "0 < sg" "sg \<le> max_count j"
  shows "map fst us = scaling_group_names
    \<lparr>rc_Groups = groupSelection d, rc_CurrentScalingGroup = sg, rc_Cluster = c\<rparr> j sg"
  using generate_units_names [OF assms(1) [unfolded generate_scaling_group_units_def]]
    filter_eq_upt [of 1 sg "max_count j + 1"] assms(2,3) by (simp del: upt_Suc)

section \<open>All names are different\<close>

text \<open>A name of the generator: a unit of a task, in a scaling group its task group has.\<close>

definition generated_name :: "job \<Rightarrow> task_group \<Rightarrow> nat \<Rightarrow> string \<Rightarrow> bool" where
  "generated_name j tg sg n \<longleftrightarrow>
     sg \<le> g_Count tg \<and> (\<exists>t \<in> set (g_Tasks tg). n \<in> set (unit_names_of j tg sg t))"

lemma group_unit_names_iff: "n \<in> set (group_unit_names j sg tg) \<longleftrightarrow> generated_name j tg sg n"
  by (auto simp: group_unit_names_def generated_name_def)

lemma scaling_group_names_iff:
  "n \<in> set (scaling_group_names config j sg) \<longleftrightarrow>
     (\<exists>tg \<in> set (j_Groups j). include_group config (g_Name tg) \<and> generated_name j tg sg n)"
  by (auto simp: scaling_group_names_def group_unit_names_def generated_name_def)

lemma unit_names_of_elem:
  assumes "n \<in> set (unit_names_of j tg sg t)"
  obtains k ty where "(CHR ''-'' # k, ty) \<in> set (task_kinds t)" "tag_ok k" "types_ok ty"
    "n = unit_full_name j tg t (CHR ''-'' # k) sg ty"
proof -
  obtain k ty where k: "(k, ty) \<in> set (task_kinds t)" "n = unit_full_name j tg t k sg ty"
    using assms by (auto simp: unit_names_of_def)
  from task_kinds_shape [OF k(1)] that k show thesis by metis
qed

lemma names_same:
  assumes j: "job_ok j" and tg: "tg \<in> set (j_Groups j)" "t \<in> set (g_Tasks tg)"
    and tg': "tg' \<in> set (j_Groups j)" "t' \<in> set (g_Tasks tg')"
    and sg: "0 < sg" "sg \<le> g_Count tg" "0 < sg'" "sg' \<le> g_Count tg'" "max_count j < 2 ^ 63"
    and n: "n \<in> set (unit_names_of j tg sg t)" "n \<in> set (unit_names_of j tg' sg' t')"
  shows "tg = tg' \<and> t = t' \<and> sg = sg'"
proof -
  have b: "sg < 2 ^ 63" "sg' < 2 ^ 63"
    using sg max_count_bounds(1) [OF tg(1)] max_count_bounds(1) [OF tg'(1)] by linarith+
  from n(1) obtain k ty where k: "tag_ok k" "n = unit_full_name j tg t (CHR ''-'' # k) sg ty"
    by (rule unit_names_of_elem)
  from n(2) obtain k' ty' where k': "tag_ok k'" "n = unit_full_name j tg' t' (CHR ''-'' # k') sg' ty'"
    by (rule unit_names_of_elem)
  have nm: "named j tg t" "named j tg' t'" by (rule job_ok_named [OF j tg]) (rule job_ok_named [OF j tg'])
  have e: "g_Name tg = g_Name tg'" "t_Name t = t_Name t'" "instance_part tg sg = instance_part tg' sg'"
    using unit_full_name_inj [OF nm k(1) k'(1) b] k(2) k'(2) by metis+
  have tge: "tg = tg'"
    using job_ok_distinct [OF j] e(1) tg(1) tg'(1) by (auto simp: distinct_map dest: inj_onD)
  moreover have "t = t'"
    using group_ok_distinct [OF job_ok_group [OF j tg(1)]] e(2) tg(2) tg'(2) tge
    by (auto simp: distinct_map dest: inj_onD)
  moreover have "sg = sg'"
    using e(3) instance_part_inj [OF b, of tg] tge sg by auto
  ultimately show ?thesis by simp
qed

lemma unit_names_of_distinct:
  assumes "named j tg t" "sg < 2 ^ 63"
  shows "distinct (unit_names_of j tg sg t)"
  unfolding unit_names_of_def distinct_map
proof
  show "distinct (task_kinds t)" using task_kinds_distinct [of t] by (simp add: distinct_map)
  show "inj_on (\<lambda>(k, ty). unit_full_name j tg t k sg ty) (set (task_kinds t))"
  proof (rule inj_onI, clarify)
    fix k ty k' ty' assume m: "(k, ty) \<in> set (task_kinds t)" "(k', ty') \<in> set (task_kinds t)"
      and e: "unit_full_name j tg t k sg ty = unit_full_name j tg t k' sg ty'"
    from task_kinds_shape [OF m(1)] obtain a where a: "k = CHR ''-'' # a" "tag_ok a" by metis
    from task_kinds_shape [OF m(2)] obtain b where b: "k' = CHR ''-'' # b" "tag_ok b" by metis
    from unit_full_name_inj [OF assms(1,1) a(2) b(2) assms(2,2)] e a b show "k = k' \<and> ty = ty'" by metis
  qed
qed

lemma scaling_group_names_distinct:
  assumes j: "job_ok j" "max_count j < 2 ^ 63" "0 < sg"
  shows "distinct (scaling_group_names config j sg)"
  unfolding scaling_group_names_def
proof (rule distinct_concat_map)
  show "distinct (filter (\<lambda>tg. include_group config (g_Name tg)) (j_Groups j))"
    using job_ok_distinct [OF j(1)] by (simp add: distinct_map)
next
  fix tg assume "tg \<in> set (filter (\<lambda>tg. include_group config (g_Name tg)) (j_Groups j))"
  then have tg: "tg \<in> set (j_Groups j)" by simp
  show "distinct (group_unit_names j sg tg)"
  proof (cases "g_Count tg < sg")
    case False
    then have sg: "sg \<le> g_Count tg" "sg < 2 ^ 63" using max_count_bounds(1) [OF tg] j(2) by linarith+
    have "distinct (concat (map (unit_names_of j tg sg) (g_Tasks tg)))"
    proof (rule distinct_concat_map)
      show "distinct (g_Tasks tg)" using group_ok_distinct [OF job_ok_group [OF j(1) tg]] by (simp add: distinct_map)
      show "distinct (unit_names_of j tg sg t)" if "t \<in> set (g_Tasks tg)" for t
        by (rule unit_names_of_distinct [OF job_ok_named [OF j(1) tg that] sg(2)])
      show "set (unit_names_of j tg sg t) \<inter> set (unit_names_of j tg sg t') = {}"
        if "t \<in> set (g_Tasks tg)" "t' \<in> set (g_Tasks tg)" "t \<noteq> t'" for t t'
        using names_same [OF j(1) tg that(1) tg that(2) j(3) sg(1) j(3) sg(1) j(2)] that(3) by blast
    qed
    with False show ?thesis by (simp add: group_unit_names_def)
  qed (simp add: group_unit_names_def)
next
  fix tg tg' assume "tg \<in> set (filter (\<lambda>tg. include_group config (g_Name tg)) (j_Groups j))"
    "tg' \<in> set (filter (\<lambda>tg. include_group config (g_Name tg)) (j_Groups j))" and ne: "tg \<noteq> tg'"
  then have tg: "tg \<in> set (j_Groups j)" "tg' \<in> set (j_Groups j)" by simp_all
  show "set (group_unit_names j sg tg) \<inter> set (group_unit_names j sg tg') = {}"
    unfolding disjoint_iff group_unit_names_iff generated_name_def
    using names_same [OF j(1) tg(1) _ tg(2) _ j(3) _ j(3) _ j(2)] ne by blast
qed

lemma scaling_groups_disjoint:
  assumes j: "job_ok j" "max_count j < 2 ^ 63" "0 < sg" "0 < sg'" "sg \<noteq> sg'"
  shows "set (scaling_group_names config j sg) \<inter> set (scaling_group_names config' j sg') = {}"
proof -
  have False if n: "n \<in> set (scaling_group_names config j sg)" "n \<in> set (scaling_group_names config' j sg')" for n
  proof -
    from n obtain tg tg' where "tg \<in> set (j_Groups j)" "tg' \<in> set (j_Groups j)"
      "generated_name j tg sg n" "generated_name j tg' sg' n"
      by (auto simp: scaling_group_names_iff)
    then show False
      using names_same [OF j(1) _ _ _ _ j(3) _ j(4) _ j(2)] j(5) unfolding generated_name_def by metis
  qed
  then show ?thesis by blast
qed

end
