(* ===== verification/FleetRun.thy ===== *)
theory FleetRun
  imports FleetDeployment
begin

text \<open>
  The deployment of a valid job on fleet as a whole: what a run leaves in the cluster, what it does
  not touch, and when it changes nothing. The generated names meet the assumptions of the results on
  \<^verbatim>\<open>Run\<close>, so those are instantiated with the fleet scheduler and the fleet renderer.
\<close>

section \<open>The scheduler recognises the generated names\<close>

lemma generated_name_recognised:
  assumes j: "job_ok j" "max_count j < 2 ^ 63" and tg: "tg \<in> set (j_Groups j)" and sg: "0 < sg"
    and n: "generated_name j tg sg n"
  shows "is_unit_for_job n (j_Name j)" "is_unit_for_task_group n (j_Name j) (g_Name tg)"
    "is_unit_for_scaling_group n (j_Name j) sg' \<longleftrightarrow> sg' = sg"
    "name_ok l h jn \<Longrightarrow> is_unit_for_job n jn \<Longrightarrow> jn = j_Name j"
    "name_ok l h gn \<Longrightarrow> is_unit_for_task_group n (j_Name j) gn \<Longrightarrow> gn = g_Name tg"
proof -
  obtain t where t: "t \<in> set (g_Tasks tg)" "n \<in> set (unit_names_of j tg sg t)" and c: "sg \<le> g_Count tg"
    using n by (auto simp: generated_name_def)
  from t(2) obtain k ty where k: "tag_ok k" "types_ok ty" "n = unit_full_name j tg t (CHR ''-'' # k) sg ty"
    by (rule unit_names_of_elem)
  have nm: "named j tg t" by (rule job_ok_named [OF j(1) tg t(1)])
  have jn: "name_ok 3 30 (j_Name j)" "name_ok 2 30 (g_Name tg)" using nm by (simp_all add: named_def)
  have b: "sg < 2 ^ 63" using c max_count_bounds(1) [OF tg] j(2) by linarith
  show "is_unit_for_job n (j_Name j)" using unit_job_iff [OF nm k(2) jn(1)] k(3) by simp
  show "is_unit_for_task_group n (j_Name j) (g_Name tg)" using unit_task_group_iff [OF nm k(2) jn] k(3) by simp
  show "is_unit_for_scaling_group n (j_Name j) sg' \<longleftrightarrow> sg' = sg"
    unfolding k(3) by (rule unit_scaling_group_iff [OF nm k(2,1) b]) (use c sg in simp)
  show "name_ok l h jn \<Longrightarrow> is_unit_for_job n jn \<Longrightarrow> jn = j_Name j"
    using unit_job_iff [OF nm k(2)] k(3) by blast
  show "name_ok l h gn \<Longrightarrow> is_unit_for_task_group n (j_Name j) gn \<Longrightarrow> gn = g_Name tg"
    using unit_task_group_iff [OF nm k(2) jn(1)] k(3) by blast
qed

section \<open>The generated scaling groups\<close>

lemma generated_groups:
  assumes "generate_scaling_groups gen d m = Inr sgs"
  shows "list_all2 (\<lambda>sg x. fst x = sg \<and> gen sg = Inr (snd x))
    (filter (sgs_includes (scalingGroupSelection d)) [1..<m + 1]) sgs"
  using assms unfolding generate_scaling_groups_def map_res_ok
  by (rule list_all2_mono) auto

lemma generated_groups_mem:
  assumes "generate_scaling_groups gen d m = Inr sgs" "(sg, us) \<in> set sgs"
  shows "0 < sg \<and> sg \<le> m \<and> sgs_includes (scalingGroupSelection d) sg \<and> gen sg = Inr us"
proof -
  let ?L = "filter (sgs_includes (scalingGroupSelection d)) [1..<m + 1]"
  obtain i where i: "i < length sgs" "sgs ! i = (sg, us)" using assms(2) by (auto simp: in_set_conv_nth)
  note a = generated_groups [OF assms(1)]
  have "fst (sgs ! i) = ?L ! i \<and> gen (?L ! i) = Inr (snd (sgs ! i))" by (rule list_all2_nthD2 [OF a i(1)])
  moreover have "?L ! i \<in> set ?L" using i(1) list_all2_lengthD [OF a] by (intro nth_mem) simp
  ultimately show ?thesis using i(2) by (auto simp del: upt_Suc)
qed

definition selection_config :: "deployment \<Rightarrow> cluster \<Rightarrow> nat \<Rightarrow> render_config" where
  "selection_config d c sg = \<lparr>rc_Groups = groupSelection d, rc_CurrentScalingGroup = sg, rc_Cluster = c\<rparr>"

lemma generated_units:
  assumes "generate_scaling_groups (generate_scaling_group_units rd j d c) d (max_count j) = Inr sgs" "(sg, us) \<in> set sgs"
  shows "map fst us = scaling_group_names (selection_config d c sg) j sg"
  using generated_groups_mem [OF assms] scaling_group_units_names unfolding selection_config_def by blast

lemma generated_all_names:
  assumes "generate_scaling_groups (generate_scaling_group_units rd j d c) d (max_count j) = Inr sgs"
  shows "concat (map (\<lambda>(sg, us). map fst us) sgs) =
    concat (map (\<lambda>sg. scaling_group_names (selection_config d c sg) j sg)
      (filter (sgs_includes (scalingGroupSelection d)) [1..<max_count j + 1]))"
proof -
  have "map (\<lambda>(sg, us). map fst us) sgs = map (\<lambda>sg. scaling_group_names (selection_config d c sg) j sg) (map fst sgs)"
    using generated_units [OF assms] by auto
  moreover have "map fst sgs = filter (sgs_includes (scalingGroupSelection d)) [1..<max_count j + 1]"
    using generated_groups [OF assms] by (auto simp: list_all2_conv_all_nth intro: nth_equalityI)
  ultimately show ?thesis by simp
qed

lemma generated_names_distinct:
  assumes j: "job_ok j" "max_count j < 2 ^ 63"
    and g: "generate_scaling_groups (generate_scaling_group_units rd j d c) d (max_count j) = Inr sgs"
  shows "distinct (concat (map (\<lambda>(sg, us). map fst us) sgs))"
  unfolding generated_all_names [OF g]
proof (rule distinct_concat_map)
  fix sg sg' assume "sg \<in> set (filter (sgs_includes (scalingGroupSelection d)) [1..<max_count j + 1])"
    "sg' \<in> set (filter (sgs_includes (scalingGroupSelection d)) [1..<max_count j + 1])" and ne: "sg \<noteq> sg'"
  then have "0 < sg" "0 < sg'" by (simp_all del: upt_Suc)
  then show "set (scaling_group_names (selection_config d c sg) j sg) \<inter>
      set (scaling_group_names (selection_config d c sg') j sg') = {}"
    by (rule scaling_groups_disjoint [OF j _ _ ne])
qed (use scaling_group_names_distinct [OF j] in \<open>simp_all del: upt_Suc\<close>)

text \<open>A unit of the cluster that has a generated name is a unit of the selection.\<close>

lemma generated_selected:
  assumes j: "job_ok j" "max_count j < 2 ^ 63"
    and g: "generate_scaling_groups (generate_scaling_group_units rd j d c) d (max_count j) = Inr sgs"
    and u: "(sg, us) \<in> set sgs" "u \<in> set us"
  shows "unit_name_predicate d (fleet_scheduler f (j_Name j)) (fst u)" "is_unit_for_scaling_group (fst u) (j_Name j) sg"
    "\<exists>tg \<in> set (j_Groups j). generated_name j tg sg (fst u)"
proof -
  note m = generated_groups_mem [OF g u(1)]
  have "fst u \<in> set (map fst us)" using u(2) by simp
  then obtain tg where tg: "tg \<in> set (j_Groups j)" "include_group (selection_config d c sg) (g_Name tg)"
    "generated_name j tg sg (fst u)"
    by (auto simp: generated_units [OF g u(1)] scaling_group_names_iff)
  note r = generated_name_recognised [OF j tg(1) conjunct1 [OF m] tg(3)]
  show "is_unit_for_scaling_group (fst u) (j_Name j) sg" using r(3) by simp
  show "\<exists>tg \<in> set (j_Groups j). generated_name j tg sg (fst u)" using tg by blast
  show "unit_name_predicate d (fleet_scheduler f (j_Name j)) (fst u)"
    using r(1-3) m tg(2)
    by (auto simp: unit_name_predicate_def fleet_scheduler_def sgs_include_all_def sgs_includes_def
        tgs_include_all_def include_group_def selection_config_def list_ex_iff split: if_splits)
qed

text \<open>Reading the operations off the record of the fleet scheduler.\<close>

lemma fleet_scheduler_sel:
  "unit_id (fleet_scheduler f jn) = (\<lambda>u. u)" "data_id (fleet_scheduler f jn) = fst"
  "ListUnits (fleet_scheduler f jn) = fleet_list"
  "IsUnitForScalingGroup (fleet_scheduler f jn) = (\<lambda>u sg. is_unit_for_scaling_group u jn sg)"
  "IsUnitForJob (fleet_scheduler f jn) = (\<lambda>u. is_unit_for_job u jn)"
  "IsUnitForTaskGroup (fleet_scheduler f jn) = (\<lambda>u g. is_unit_for_task_group u jn g)"
  by (simp_all add: fleet_scheduler_def)

section \<open>What a run achieves\<close>

text \<open>The units of the cluster that the deployment regards as its own.\<close>

definition selected_unit :: "'o tunnel \<Rightarrow> job \<Rightarrow> deployment \<Rightarrow> string \<Rightarrow> bool" where
  "selected_unit f j d n \<longleftrightarrow> unit_name_predicate d (fleet_scheduler f (j_Name j)) n"

lemma job_units_fleet:
  assumes "fleet_ok s" "fleet_list s = Inr us"
  shows "names_of (fleet_scheduler f jn) (scheduler_laws.job_units (fleet_scheduler f jn) d s) =
    {n. fleet_view f s n \<noteq> None \<and> unit_name_predicate d (fleet_scheduler f jn) n}"
proof -
  have "set us = {n. fleet_view f s n \<noteq> None}"
    using fleet.list_view [OF assms(1), of f jn us] assms(2) by (simp add: fleet_scheduler_sel)
  then show ?thesis
    using assms(2) by (auto simp: fleet.job_units_def names_of_def fleet_scheduler_sel)
qed

lemma run_fleet_listed: "run_fleet rd f j d c w = (Inr k, w') \<Longrightarrow> \<exists>us. fleet_list (w_cluster w) = Inr us"
  by (auto simp: run_fleet_def run_def fleet_scheduler_sel split: sum.splits)

lemma run_fleet_generated:
  "run_fleet rd f j d c w = (Inr k, w') \<Longrightarrow>
     \<exists>sgs. generate_scaling_groups (generate_scaling_group_units rd j d c) d (max_count j) = Inr sgs"
  by (auto simp: run_fleet_def run_def Let_def split: sum.splits prod.splits)

theorem run_fleet_effect:
  assumes j: "job_ok j" "max_count j < 2 ^ 63" and s: "fleet_ok (w_cluster w)"
    and r: "run_fleet rd f j d c w = (Inr k, w')"
    and g: "generate_scaling_groups (generate_scaling_group_units rd j d c) d (max_count j) = Inr sgs"
  shows "(sg, us) \<in> set sgs \<Longrightarrow> u \<in> set us \<Longrightarrow>
      \<exists>x. fleet_view f (w_cluster w') (fst u) = Some x \<and> fleet_accepts f u x"
    "selected_unit f j d n \<Longrightarrow> n \<notin> (\<Union>(sg, us) \<in> set sgs. fst ` set us) \<Longrightarrow> fleet_view f (w_cluster w') n = None"
    "\<not> selected_unit f j d n \<Longrightarrow> fleet_view f (w_cluster w') n = fleet_view f (w_cluster w) n"
proof -
  let ?sc = "fleet_scheduler f (j_Name j)"
  have gen: "generated ?sc sgs = (\<Union>(sg, us) \<in> set sgs. fst ` set us)"
    by (simp add: generated_def data_names_def fleet_scheduler_sel)
  have dist: "distinct (scheduler_laws.names_list (fleet_scheduler f (j_Name j)) sgs)"
    using generated_names_distinct [OF j g] by (simp add: fleet.names_list_def fleet_scheduler_sel)
  obtain units where us: "fleet_list (w_cluster w) = Inr units" using run_fleet_listed [OF r] by blast
  note J = job_units_fleet [OF s us, of f "j_Name j" d]
  note c = fleet.run_converges [OF r [unfolded run_fleet_def] g s dist]
  have c: "(\<forall>(sg, us) \<in> set sgs. scheduler_laws.up_to_date (fleet_scheduler f (j_Name j)) (fleet_view f) (fleet_accepts f) us (w_cluster w')) \<and>
    (\<forall>n \<in> names_of ?sc (scheduler_laws.job_units (fleet_scheduler f (j_Name j)) d (w_cluster w)) - generated ?sc sgs. fleet_view f (w_cluster w') n = None) \<and>
    (\<forall>n. n \<notin> names_of ?sc (scheduler_laws.job_units (fleet_scheduler f (j_Name j)) d (w_cluster w)) \<union> generated ?sc sgs \<union> {} \<longrightarrow>
      fleet_view f (w_cluster w') n = fleet_view f (w_cluster w) n)"
    by (rule c) (use generated_selected(1,2) [OF j g] in \<open>auto simp: fleet_scheduler_sel\<close>)
  have sel: "selected_unit f j d n" if n: "n \<in> generated ?sc sgs" for n
  proof -
    from n obtain sg us u where "(sg, us) \<in> set sgs" "u \<in> set us" "n = fst u" by (auto simp: gen)
    then show ?thesis using generated_selected(1) [OF j g] by (simp add: selected_unit_def)
  qed
  show "\<exists>x. fleet_view f (w_cluster w') (fst u) = Some x \<and> fleet_accepts f u x"
    if "(sg, us) \<in> set sgs" "u \<in> set us"
    using c that by (fastforce simp: fleet.up_to_date_def fleet_scheduler_sel)
  show "fleet_view f (w_cluster w') n = None"
    if n: "selected_unit f j d n" "n \<notin> (\<Union>(sg, us) \<in> set sgs. fst ` set us)"
  proof (cases "fleet_view f (w_cluster w) n = None")
    case True
    with c n J show ?thesis by (auto simp: gen)
  next
    case False
    with c n J show ?thesis by (auto simp: gen selected_unit_def)
  qed
  show "fleet_view f (w_cluster w') n = fleet_view f (w_cluster w) n" if n: "\<not> selected_unit f j d n"
    using c J n sel by (auto simp: selected_unit_def)
qed

section \<open>Whatever the outcome\<close>

lemma fleet_list_distinct:
  assumes "fleet_ok s" "fleet_list s = Inr us"
  shows "distinct us" "set us = {n. fleet_view f s n \<noteq> None}"
  using tunnel_list_effect [of "fs_registry s"] assms
  by (auto simp: fleet_list_def fleet_ok_def fleet_view_def)

lemma job_units_selected:
  "n \<in> names_of (fleet_scheduler f (j_Name j)) (scheduler_laws.job_units (fleet_scheduler f (j_Name j)) d s) \<Longrightarrow>
     selected_unit f j d n"
  by (auto simp: fleet.job_units_def names_of_def fleet_scheduler_sel selected_unit_def split: sum.splits)

lemma run_fleet_frame:
  assumes j: "job_ok j" "max_count j < 2 ^ 63" and r: "run_fleet rd f j d c w = (res, w')"
    and n: "\<not> selected_unit f j d n"
  shows "fleet_view f (w_cluster w') n = fleet_view f (w_cluster w) n"
proof (rule fleet.run_frame [OF r [unfolded run_fleet_def]])
  show "n \<notin> names_of (fleet_scheduler f (j_Name j))
      (scheduler_laws.job_units (fleet_scheduler f (j_Name j)) d (w_cluster w))"
    using job_units_selected n by blast
  show "n \<notin> {}" by simp
  fix sgs assume g: "generate_scaling_groups (generate_scaling_group_units rd j d c) d (max_count j) = Inr sgs"
  show "n \<notin> generated (fleet_scheduler f (j_Name j)) sgs"
    using generated_selected(1) [OF j g] n
    by (fastforce simp: generated_def data_names_def fleet_scheduler_sel selected_unit_def)
qed

text \<open>A unit of another job is never selected.\<close>

lemma selected_unit_job: "selected_unit f j d n \<Longrightarrow> is_unit_for_job n (j_Name j)"
proof -
  have "is_unit_for_task_group n (j_Name j) g \<Longrightarrow> is_unit_for_job n (j_Name j)" for g
    by (auto simp: is_unit_for_task_group_def is_unit_for_job_def prefix_def split: if_splits)
  then show "selected_unit f j d n \<Longrightarrow> is_unit_for_job n (j_Name j)"
    by (auto simp: selected_unit_def unit_name_predicate_def fleet_scheduler_sel list_ex_iff split: if_splits)
qed

lemma other_job_not_selected:
  assumes j: "job_ok j" and j': "job_ok j'" "max_count j' < 2 ^ 63" "tg \<in> set (j_Groups j')" "0 < sg"
    and n: "generated_name j' tg sg n" and ne: "j_Name j \<noteq> j_Name j'"
  shows "\<not> selected_unit f j d n"
  using generated_name_recognised(4) [OF j' n, of 3 30 "j_Name j"] selected_unit_job ne j
  by (auto simp: job_ok_def)

lemma run_fleet_refused:
  assumes "run_fleet rd f j d c w = (res, w')" "fleet_ok (w_cluster w)"
    and "w_answers w = [] \<or> \<not> hd (w_answers w)" "\<not> force d" "\<not> autoContinue d"
  shows "fleet_view f (w_cluster w') = fleet_view f (w_cluster w)"
  by (rule ext, rule fleet.run_refused [OF assms(1) [unfolded run_fleet_def]])
    (use assms fleet_list_distinct in \<open>auto simp: fleet.refuses_def fleet_scheduler_sel\<close>)

lemma destroy_fleet_effect:
  assumes "destroy_fleet f j d w = (res, w')" "fleet_ok (w_cluster w)"
  shows "\<not> selected_unit f j d n \<Longrightarrow> fleet_view f (w_cluster w') n = fleet_view f (w_cluster w) n"
    "is_ok res \<Longrightarrow> selected_unit f j d n \<Longrightarrow> fleet_view f (w_cluster w') n = None"
    "\<not> force d \<Longrightarrow> w_answers w = [] \<or> \<not> hd (w_answers w) \<Longrightarrow> fleet_view f (w_cluster w') = fleet_view f (w_cluster w)"
proof -
  note e = fleet.destroy_deployment_effect [OF assms(1) [unfolded destroy_fleet_def]]
  show "\<not> selected_unit f j d n \<Longrightarrow> fleet_view f (w_cluster w') n = fleet_view f (w_cluster w) n"
    using e(1) job_units_selected by blast
  show "\<not> force d \<Longrightarrow> w_answers w = [] \<or> \<not> hd (w_answers w) \<Longrightarrow> fleet_view f (w_cluster w') = fleet_view f (w_cluster w)"
    by (rule e(3))
  show "fleet_view f (w_cluster w') n = None" if "is_ok res" "selected_unit f j d n"
  proof -
    obtain us where "fleet_list (w_cluster w) = Inr us"
      using tunnel_list_effect assms(2) unfolding fleet_list_def fleet_ok_def by metis
    from job_units_fleet [OF assms(2) this, of f "j_Name j" d] that e(1) e(2) [OF assms(2)]
    show ?thesis by (cases "fleet_view f (w_cluster w) n = None") (auto simp: selected_unit_def)
  qed
qed

section \<open>A settled cluster\<close>

text \<open>
  The selected units of the cluster are the generated ones, none has changed content and none has
  failed. The cached status, where there is one, is that of the cluster.
\<close>

definition fleet_settled ::
  "'o tunnel \<Rightarrow> job \<Rightarrow> deployment \<Rightarrow> (nat \<times> unit_data list) list \<Rightarrow> 'o fleet_state \<Rightarrow> bool" where
  "fleet_settled f j d sgs s \<longleftrightarrow>
     (\<forall>n. fleet_view f s n \<noteq> None \<and> selected_unit f j d n \<longleftrightarrow> n \<in> (\<Union>(sg, us) \<in> set sgs. fst ` set us)) \<and>
     (\<forall>(sg, us) \<in> set sgs. \<forall>u \<in> set us. fleet_has_changed f u s = Inr False) \<and>
     (\<exists>m. tunnel_status (fs_registry s) = Inr m \<and> fs_status s \<in> {None, Some m} \<and>
        (\<forall>n. fleet_view f s n \<noteq> None \<and> selected_unit f j d n \<longrightarrow>
           (\<exists>st. status_get m n = Some st \<and> st \<noteq> ''failed'')))"

lemma run_fleet_settled:
  assumes j: "job_ok j" "max_count j < 2 ^ 63" and s: "fleet_ok (w_cluster w)" and f: "\<not> force d"
    and g: "generate_scaling_groups (generate_scaling_group_units rd j d c) d (max_count j) = Inr sgs" "sgs \<noteq> []"
    and st: "fleet_settled f j d sgs (w_cluster w)"
  shows "\<exists>w'. run_fleet rd f j d c w = (Inr 0, w') \<and> fs_registry (w_cluster w') = fs_registry (w_cluster w) \<and>
    w_answers w' = w_answers w"
proof -
  let ?sc = "fleet_scheduler f (j_Name j)" and ?s = "w_cluster w"
  let ?G = "\<Union>(sg, us) \<in> set sgs. fst ` set us"
  obtain m where m: "tunnel_status (fs_registry ?s) = Inr m" "fs_status ?s \<in> {None, Some m}"
    "\<forall>n. fleet_view f ?s n \<noteq> None \<and> selected_unit f j d n \<longrightarrow> (\<exists>st. status_get m n = Some st \<and> st \<noteq> ''failed'')"
    using st unfolding fleet_settled_def by blast
  define S :: "'a fleet_state set"
    where "S = {s'. fs_registry s' = fs_registry ?s \<and> fs_status s' \<in> {None, Some m}}"
  obtain us where us: "fleet_list ?s = Inr us"
    using tunnel_list_effect s unfolding fleet_list_def fleet_ok_def by metis
  have dus: "distinct us" and sus: "n \<in> set us \<longleftrightarrow> fleet_view f ?s n \<noteq> None" for n
    using fleet_list_distinct(1) [OF s us] fleet_list_distinct(2) [OF s us, of f] by auto
  have G: "fleet_view f ?s n \<noteq> None \<and> selected_unit f j d n \<longleftrightarrow> n \<in> ?G" for n
    using st unfolding fleet_settled_def by blast
  have J: "set (filter (unit_name_predicate d ?sc) us) = ?G"
  proof (rule set_eqI)
    show "n \<in> set (filter (unit_name_predicate d ?sc) us) \<longleftrightarrow> n \<in> ?G" for n
      using sus [of n] G [of n] by (simp add: selected_unit_def)
  qed
  have dist: "distinct (concat (map (\<lambda>(sg, us). map fst us) sgs))" by (rule generated_names_distinct [OF j g(1)])
  have "\<exists>w'. run d ?sc (generate_scaling_group_units rd j d c) (max_count j) w = (Inr 0, w') \<and>
      w_cluster w' \<in> S \<and> w_answers w' = w_answers w"
  proof (rule run_settled [OF _ _ g _ _ f])
    show "ListUnits ?sc ?s = Inr us" by (simp add: fleet_scheduler_sel us)
    show "ValidateCluster ?sc ?s = (Inr (), ?s)" by (simp add: fleet_scheduler_def)
    show "?s \<in> S" using m by (simp add: S_def)
    show "distinct (concat (map (\<lambda>(sg, units). map (data_id ?sc) units) sgs))"
      using dist by (simp add: fleet_scheduler_sel)
    show "\<forall>u \<in> set us. unit_name_predicate d ?sc u \<longrightarrow> unit_id ?sc u \<in> generated ?sc sgs"
    proof (intro ballI impI)
      fix u assume "u \<in> set us" "unit_name_predicate d ?sc u"
      then have "u \<in> set (filter (unit_name_predicate d ?sc) us)" by simp
      then have "u \<in> ?G" by (simp only: J)
      then show "unit_id ?sc u \<in> generated ?sc sgs"
        by (simp add: fleet_scheduler_sel generated_def data_names_def)
    qed
    show "\<forall>s \<in> S. \<forall>u \<in> set us. unit_name_predicate d ?sc u \<longrightarrow> (\<exists>s' \<in> S. GetState ?sc u s = (Inr False, s'))"
    proof (intro ballI impI)
      fix s u assume s: "s \<in> S" and u: "u \<in> set us" "unit_name_predicate d ?sc u"
      then obtain st where st: "status_get m u = Some st" "st \<noteq> ''failed''"
        using m(3) sus by (auto simp: selected_unit_def)
      have "fleet_get_status s = (Inr m, s\<lparr>fs_status := Some m\<rparr>)"
        using s m(1) by (auto simp: S_def fleet_get_status_def)
      then have "fleet_get_state u s = (Inr False, s\<lparr>fs_status := Some m\<rparr>)"
        using st by (simp add: fleet_get_state_def)
      then show "\<exists>s' \<in> S. GetState ?sc u s = (Inr False, s')"
        using s by (auto simp: fleet_scheduler_def S_def)
    qed
    show "\<forall>sgu \<in> set sgs. settled_step ?sc S (filter (unit_name_predicate d ?sc) us) sgu"
    proof
      fix sgu assume sgu: "sgu \<in> set sgs"
      obtain sg units where e: "sgu = (sg, units)" by fastforce
      have mem: "(sg, units) \<in> set sgs" using sgu e by simp
      let ?L = "filter (\<lambda>u. is_unit_for_scaling_group u (j_Name j) sg) (filter (unit_name_predicate d ?sc) us)"
      have "set ?L = fst ` set units"
      proof (intro set_eqI iffI)
        fix n assume n: "n \<in> set ?L"
        then have "n \<in> set (filter (unit_name_predicate d ?sc) us)" by simp
        then have "n \<in> ?G" by (simp only: J)
        then obtain sg' us' where x: "(sg', us') \<in> set sgs" "n \<in> fst ` set us'" by blast
        then obtain u where u: "u \<in> set us'" "n = fst u" by auto
        obtain tg where tg: "tg \<in> set (j_Groups j)" "generated_name j tg sg' n"
          using generated_selected(3) [OF j g(1) x(1) u(1)] u(2) by auto
        have "0 < sg'" using generated_groups_mem [OF g(1) x(1)] by simp
        from generated_name_recognised(3) [OF j tg(1) this tg(2), of sg] n have "sg' = sg" by simp
        then have "gen = us'" if "(sg, gen) \<in> set sgs" for gen
          using generated_groups_mem [OF g(1) that] generated_groups_mem [OF g(1) x(1)] by simp
        with mem x(2) show "n \<in> fst ` set units" by blast
      next
        fix n assume n: "n \<in> fst ` set units"
        then obtain u where u: "u \<in> set units" "n = fst u" by auto
        have "n \<in> ?G" using n mem by auto
        then have "n \<in> set (filter (unit_name_predicate d ?sc) us)" by (simp only: J)
        with generated_selected(2) [OF j g(1) mem u(1)] u(2) show "n \<in> set ?L" by simp
      qed
      moreover have "distinct ?L" using dus by simp
      moreover have "distinct (map fst units)"
      proof -
        have "map fst units \<in> set (map (\<lambda>(sg, us). map fst us) sgs)" using mem by force
        with dist show ?thesis by (metis (no_types, lifting) distinct_concat_iff)
      qed
      ultimately have "mset ?L = mset (map fst units)"
        by (metis list.set_map set_eq_iff_mset_eq_distinct)
      moreover have "fleet_has_changed f u s' = Inr False" if "s' \<in> S" "u \<in> set units" for s' u
      proof -
        have "fleet_has_changed f u s' = fleet_has_changed f u ?s"
          using that(1) by (simp add: fleet_has_changed_def S_def)
        then show ?thesis using st mem that(2) by (auto simp: fleet_settled_def)
      qed
      ultimately show "settled_step ?sc S (filter (unit_name_predicate d ?sc) us) sgu"
        by (simp add: settled_step_def e fleet_scheduler_def)
    qed
  qed
  then show ?thesis by (auto simp: run_fleet_def S_def)
qed

end
