(* ===== verification/FleetTotal.thy ===== *)
theory FleetTotal
  imports FleetRun
begin

text \<open>
  Which valid jobs the fleet renderer can render. The renderer fails for an unknown engine, for
  secrets without a job ID, for a constraint it does not know, and for a global group with more
  instances than the cluster has constraints for; nothing else stops it, so a job that passes
  \<^verbatim>\<open>Validate\<close> and these checks is rendered for every scaling group.
\<close>

definition renderable_constraint :: "job \<Rightarrow> constraint \<Rightarrow> bool" where
  "renderable_constraint j c \<longleftrightarrow>
     (if prefix MetaAttributePrefix (Attribute c) \<or> Attribute c = AttributeNodeID
      then operator_equals c OperatorEqual
      else Attribute c = AttributeTaskGroup \<and> operator_equals c OperatorNotEqual \<and>
        list_ex (\<lambda>tg. g_Name tg = Value c) (j_Groups j))"

definition renderable_task :: "rendering \<Rightarrow> job \<Rightarrow> task \<Rightarrow> bool" where
  "renderable_task rd j t \<longleftrightarrow>
     t_Engine t = ''docker'' \<and> (t_Secrets t \<noteq> [] \<longrightarrow> j_ID j \<noteq> '''') \<and>
     list_all (\<lambda>s. is_ok (rd_secret_hash rd s)) (t_Secrets t) \<and> is_ok (json_task (rd_crypto rd) t)"

definition renderable_group :: "rendering \<Rightarrow> job \<Rightarrow> cluster \<Rightarrow> task_group \<Rightarrow> bool" where
  "renderable_group rd j c tg \<longleftrightarrow>
     list_all (renderable_task rd j) (g_Tasks tg) \<and> list_all (renderable_constraint j) (merged_constraints j tg) \<and>
     (g_Global tg \<and> 1 < g_Count tg \<longrightarrow>
        int (g_Count tg) \<le> int (length (fo_GlobalInstanceConstraints (FleetOptions c))))"

definition renderable :: "rendering \<Rightarrow> job \<Rightarrow> cluster \<Rightarrow> bool" where
  "renderable rd j c \<longleftrightarrow> list_all (renderable_group rd j c) (j_Groups j)"

section \<open>Loops that cannot fail\<close>

lemma is_ok_rbind: "is_ok (rbind m f) \<longleftrightarrow> (\<exists>x. m = Inr x \<and> is_ok (f x))"
  by (cases m) auto

lemma is_ok_rbindI: "is_ok m \<Longrightarrow> (\<And>x. m = Inr x \<Longrightarrow> is_ok (f x)) \<Longrightarrow> is_ok (rbind m f)"
  by (cases m) auto

lemma fold_res_total: "(\<And>x s. x \<in> set xs \<Longrightarrow> is_ok (f x s)) \<Longrightarrow> is_ok (fold_res f xs s)"
proof (induction xs arbitrary: s)
  case (Cons x xs)
  then have "is_ok (f x s)" "\<And>s. is_ok (fold_res f xs s)" by simp_all
  then show ?case by (auto simp: is_ok_rbind is_ok_iff)
qed simp

section \<open>Constraints\<close>

lemma setup_constraint_total:
  assumes j: "job_ok j" and c: "renderable_constraint j c"
  shows "is_ok (setup_constraint j c mu)"
proof (cases "prefix MetaAttributePrefix (Attribute c) \<or> Attribute c = AttributeNodeID")
  case True
  with c show ?thesis by (cases mu) (auto simp: setup_constraint_def renderable_constraint_def)
next
  case False
  with c have a: "Attribute c = AttributeTaskGroup" "operator_equals c OperatorNotEqual"
    "list_ex (\<lambda>tg. g_Name tg = Value c) (j_Groups j)" by (simp_all add: renderable_constraint_def)
  then obtain tg where tg: "tg \<in> set (j_Groups j)" "g_Name tg = Value c" by (auto simp: list_ex_iff)
  have "task_group_name_validate (Value c) = Inr ()" "job_task_group j (Value c) = Inr tg"
    using job_task_group_found [OF j tg(1)] ok_names(2) [OF job_ok_group [OF j tg(1)]] tg(2) by auto
  with a False show ?thesis
    by (cases mu) (simp add: setup_constraint_def AttributeTaskGroup_def AttributeNodeID_def MetaAttributePrefix_def
        del: validate_ok)
qed

lemma setup_constraints_total:
  assumes "job_ok j" "list_all (renderable_constraint j) (merged_constraints j tg)"
  shows "is_ok (setup_constraints j tg u)"
proof -
  have "is_ok (fold_res (setup_constraint j) (merged_constraints j tg) ([], u))"
    by (rule fold_res_total) (use assms setup_constraint_total in \<open>simp add: list_all_iff\<close>)
  then show ?thesis by (auto simp: setup_constraints_def is_ok_rbind is_ok_iff split: prod.split)
qed

lemma setup_instance_constraints_total:
  assumes "renderable_group rd j (gc_Cluster ctx) tg" "0 < gc_ScalingGroup ctx" "gc_ScalingGroup ctx \<le> g_Count tg"
    "g_Count tg < 2 ^ 63"
  shows "is_ok (setup_instance_constraints ctx j tg t k u)"
proof -
  have "int_of_uint (g_Count tg) = int (g_Count tg)" using assms(4) by (simp add: int_of_uint_def Let_def)
  with assms show ?thesis
    by (auto simp: setup_instance_constraints_def renderable_group_def Let_def)
qed

lemma create_default_unit_total:
  assumes "job_ok j" "renderable_group rd j (gc_Cluster ctx) tg" "0 < gc_ScalingGroup ctx"
    "gc_ScalingGroup ctx \<le> g_Count tg" "g_Count tg < 2 ^ 63"
  shows "is_ok (create_default_unit ctx j tg t name d ty k)"
proof -
  have "list_all (renderable_constraint j) (merged_constraints j tg)"
    using assms(2) by (simp add: renderable_group_def)
  from setup_constraints_total [OF assms(1) this] setup_instance_constraints_total [OF assms(2-5)]
  show ?thesis
    unfolding create_default_unit_def Let_def is_ok_rbind by (metis is_ok_iff)
qed

section \<open>Commands\<close>

lemma network_total:
  assumes "network_ok (t_Network t)"
  shows "is_ok (create_docker_cmd e env (t_Network t))" "is_ok (add_docker_network_args j tg t ec)"
  using assms by (auto simp: network_ok_def create_docker_cmd_def add_docker_network_args_def)

lemma secret_file_path_total:
  "is_ok (hash s) \<Longrightarrow> fst (target_file s) \<Longrightarrow> is_ok (secret_file_path hash j tg t sg s)"
  by (auto simp: secret_file_path_def is_ok_rbind is_ok_iff target_file_def split: if_splits)

lemma extract_secrets_total:
  "list_all (\<lambda>s. is_ok (hash s)) ss \<Longrightarrow> is_ok (extract_secrets e hash j tg t sg img ss env)"
proof (induction ss arbitrary: env)
  case (Cons s ss)
  then have IH: "\<exists>x. extract_secrets e hash j tg t sg img ss env' = Inr x" for env'
    using Cons by (simp add: is_ok_iff)
  show ?case
  proof (cases "fst (target_file s)")
    case True
    obtain p where "secret_file_path hash j tg t sg s = Inr p"
      using secret_file_path_total [OF _ True] Cons.prems by (force simp: is_ok_iff)
    with IH True show ?thesis by (fastforce simp: is_ok_rbind split: prod.split)
  next
    case False
    with IH show ?thesis by (fastforce simp: is_ok_rbind split: prod.split)
  qed
qed simp

lemma create_secrets_total:
  assumes "renderable_task rd j t"
  shows "is_ok (create_secrets_exec_start_pre e (rd_secret_hash rd) j tg t img env sg)"
proof -
  obtain x where "extract_secrets e (rd_secret_hash rd) j tg t sg img (t_Secrets t) env = Inr x"
    using extract_secrets_total assms by (fastforce simp: renderable_task_def is_ok_iff)
  then show ?thesis
    using assms by (cases x) (auto simp: create_secrets_exec_start_pre_def renderable_task_def Let_def split: prod.split)
qed

lemma secret_file_args_total:
  "list_all (\<lambda>s. is_ok (hash s)) ss \<Longrightarrow> is_ok (secret_file_args hash j tg t sg ss)"
proof (induction ss)
  case (Cons s ss)
  then show ?case
    using secret_file_path_total [of hash s j tg t sg] by (auto simp: is_ok_rbind is_ok_iff)
qed simp

lemma volumes_from_args_total:
  "set ns \<subseteq> t_Name ` set (g_Tasks tg) \<Longrightarrow> is_ok (volumes_from_args j tg sg ns)"
proof (induction ns)
  case (Cons n ns)
  then obtain other where "group_task tg n = Inr other"
    using names_present [of "[n]" tg] by auto
  with Cons show ?case by (auto simp: is_ok_rbind is_ok_iff)
qed simp

lemma create_main_cmds_total:
  assumes "task_ok tg t" "renderable_task rd j t"
  shows "is_ok (create_main_cmds e imgs (rd_secret_hash rd) j tg t env sg)"
proof -
  have "list_all (\<lambda>s. is_ok (rd_secret_hash rd s)) (t_Secrets t)" using assms(2) by (simp add: renderable_task_def)
  note sa = secret_file_args_total [OF this]
  have "set (t_VolumesFrom t) \<subseteq> t_Name ` set (g_Tasks tg)" "network_ok (t_Network t)"
    using assms(1) by (simp_all add: task_ok_def)
  note va = volumes_from_args_total [OF this(1)] and na = network_total [OF this(2)]
  have "is_ok (create_main_docker_cmd_line e (rd_secret_hash rd) j tg t img env sg)" for img
    unfolding create_main_docker_cmd_line_def is_ok_rbind Let_def
    using sa va na by (metis is_ok_iff is_ok.simps(2))
  then show ?thesis
    unfolding create_main_cmds_def Let_def is_ok_rbind
    using create_secrets_total [OF assms(2)]
    by (fastforce simp: is_ok_iff is_ok_rbind split: prod.split)
qed

lemma create_proxy_cmds_total:
  "network_ok (t_Network t) \<Longrightarrow> is_ok (create_proxy_cmds e imgs j tg t l i env sg)"
  using network_total(1) [of t e env]
  by (auto simp: create_proxy_cmds_def create_proxy_docker_cmd_line_def is_ok_rbind is_ok_iff Let_def split: prod.split)

lemma create_volume_cmds_total: "is_ok (create_volume_cmds e j tg t v i p h env sg)"
  by (auto simp: create_volume_cmds_def create_volume_docker_cmd_line_def Let_def split: prod.split)

lemma with_cmds_total: "(\<And>env. is_ok (mk env)) \<Longrightarrow> is_ok (with_cmds mk u)"
  by (auto simp: with_cmds_def is_ok_rbind is_ok_iff split: prod.split)

section \<open>Registrations\<close>

lemma add_users_total: "is_ok (json_task c t) \<Longrightarrow> is_ok (add_users c t us sel)"
  by (auto simp: add_users_def is_ok_rbind is_ok_iff)

lemma add_front_end_registration_total:
  assumes "is_ok (json_task (rd_crypto rd) t)"
  shows "is_ok (add_front_end_registration rd ctx j tg t u)"
proof -
  note us = add_users_total [OF assms]
  have pub: "is_ok (fold_res (add_public (rd_crypto rd) t rw) frs v)" for rw frs v
    by (rule fold_res_total) (use us in \<open>auto simp: add_public_def is_ok_rbind is_ok_iff\<close>)
  have priv: "is_ok (fold_res (add_private (rd_crypto rd) fleet_frontend_names j tg t sg rw) frs v)" for sg rw frs v
  proof (rule fold_res_total)
    fix fr v
    obtain sel where "add_users (rd_crypto rd) t (vf_Users fr) (private_selector rw fr) = Inr sel"
      using us by (auto simp: is_ok_iff)
    then show "is_ok (add_private (rd_crypto rd) fleet_frontend_names j tg t sg rw fr v)"
      by (simp add: add_private_def fleet_frontend_names_def Let_def)
  qed
  have "is_ok (create_front_end_records (rd_crypto rd) fleet_frontend_names j tg t sg False)" for sg
  proof -
    obtain v where v: "fold_res (add_public (rd_crypto rd) t (rewrite_rules t)) (t_PublicFrontEnds t)
        (start_vars t (target_service_name j tg t) sg) = Inr v"
      using pub by (metis is_ok_iff)
    obtain v' where v': "fold_res (add_private (rd_crypto rd) fleet_frontend_names j tg t sg (rewrite_rules t))
        (t_PrivateFrontEnds t) v = Inr v'"
      using priv by (metis is_ok_iff)
    have n: "CreateServiceName fleet_frontend_names j tg t = Inr (service_name j tg t)"
      "CreateTargetServiceName fleet_frontend_names j tg t = Inr (target_service_name j tg t)"
      by (simp_all add: fleet_frontend_names_def)
    show ?thesis by (simp add: create_front_end_records_def n Let_def v v' del: fold_res.simps)
  qed
  then show ?thesis by (auto simp: add_front_end_registration_def is_ok_rbind is_ok_iff)
qed

section \<open>Units\<close>

lemma is_ok_obtain: "is_ok m \<Longrightarrow> (\<And>x. m = Inr x \<Longrightarrow> thesis) \<Longrightarrow> thesis"
  by (auto simp: is_ok_iff)

text \<open>What a task needs for all of its units.\<close>

definition task_renders :: "rendering \<Rightarrow> generator_context \<Rightarrow> job \<Rightarrow> task_group \<Rightarrow> task \<Rightarrow> bool" where
  "task_renders rd ctx j tg t \<longleftrightarrow>
     job_ok j \<and> group_ok tg \<and> t \<in> set (g_Tasks tg) \<and> renderable_group rd j (gc_Cluster ctx) tg \<and>
     0 < gc_ScalingGroup ctx \<and> gc_ScalingGroup ctx \<le> g_Count tg \<and> g_Count tg < 2 ^ 63"

lemma task_renders_facts:
  assumes "task_renders rd ctx j tg t"
  shows "task_ok tg t" "renderable_task rd j t" "network_ok (t_Network t)"
    "is_ok (create_default_unit ctx j tg t name d ty k)"
proof -
  have a: "job_ok j" "group_ok tg" "t \<in> set (g_Tasks tg)" "renderable_group rd j (gc_Cluster ctx) tg"
    "0 < gc_ScalingGroup ctx" "gc_ScalingGroup ctx \<le> g_Count tg" "g_Count tg < 2 ^ 63"
    using assms by (simp_all add: task_renders_def)
  show "task_ok tg t" by (rule group_ok_task [OF a(2,3)])
  then show "network_ok (t_Network t)" by (simp add: task_ok_def)
  show "renderable_task rd j t" using a(3,4) by (simp add: renderable_group_def list_all_iff)
  show "is_ok (create_default_unit ctx j tg t name d ty k)"
    by (rule create_default_unit_total [OF a(1,4-7)])
qed

lemma create_proxy_unit_total:
  assumes "task_renders rd ctx j tg t"
  shows "is_ok (create_proxy_unit rd e ctx j tg t l i)"
proof -
  note f = task_renders_facts [OF assms]
  show ?thesis
    unfolding create_proxy_unit_def Let_def
    by (intro is_ok_rbindI f(4) with_cmds_total create_proxy_cmds_total f(3))
qed

lemma create_volume_unit_total:
  assumes "task_renders rd ctx j tg t"
  shows "is_ok (create_volume_unit e ctx j tg t v i)"
  unfolding create_volume_unit_def Let_def
  by (intro is_ok_rbindI task_renders_facts(4) [OF assms] with_cmds_total create_volume_cmds_total)

lemma create_main_unit_total:
  assumes "task_renders rd ctx j tg t"
  shows "is_ok (create_main_unit rd e ctx j tg t ns)"
proof -
  note f = task_renders_facts [OF assms]
  have json: "is_ok (json_task (rd_crypto rd) t)" using f(2) by (simp add: renderable_task_def)
  have vols: "is_ok (fold_res (require_volumes_from ctx j tg) (t_VolumesFrom t) u)" for u
  proof (rule fold_res_total)
    fix n u assume "n \<in> set (t_VolumesFrom t)"
    then have "set [n] \<subseteq> t_Name ` set (g_Tasks tg)" using f(1) by (auto simp: task_ok_def)
    then show "is_ok (require_volumes_from ctx j tg n u)"
      unfolding names_present [symmetric] by (auto simp: require_volumes_from_def is_ok_rbind)
  qed
  show ?thesis
    unfolding create_main_unit_def Let_def
    by (intro is_ok_rbindI f(4) with_cmds_total create_main_cmds_total f(1,2) vols
        add_front_end_registration_total json)
qed

lemma create_proxy_units_total:
  "task_renders rd ctx j tg t \<Longrightarrow> is_ok (create_proxy_units rd e ctx j tg t ls i)"
proof (induction ls arbitrary: i)
  case (Cons l ls)
  then show ?case by (auto intro!: is_ok_rbindI create_proxy_unit_total)
qed simp

lemma create_volume_units_total:
  "task_renders rd ctx j tg t \<Longrightarrow> is_ok (create_volume_units e ctx j tg t vs i)"
proof (induction vs arbitrary: i)
  case (Cons v vs)
  then show ?case by (auto intro!: is_ok_rbindI create_volume_unit_total)
qed simp

lemma create_task_units_total:
  assumes "task_renders rd ctx j tg t"
  shows "is_ok (create_task_units rd ctx j tg t)"
proof -
  have "t_Engine t = ''docker''" using task_renders_facts(2) [OF assms] by (simp add: renderable_task_def)
  then have e: "new_engine ctx t = Inr (new_docker_engine (gc_Cluster ctx))" by (simp add: new_engine_def)
  obtain ps where ps: "create_proxy_units rd (new_docker_engine (gc_Cluster ctx)) ctx j tg t (t_Links t) 0 = Inr ps"
    using create_proxy_units_total [OF assms] by (rule is_ok_obtain)
  obtain vs where vs: "create_volume_units (new_docker_engine (gc_Cluster ctx)) ctx j tg t (t_Volumes t) 0 = Inr vs"
    using create_volume_units_total [OF assms] by (rule is_ok_obtain)
  obtain m where m: "create_main_unit rd (new_docker_engine (gc_Cluster ctx)) ctx j tg t (map FullName (ps @ vs)) = Inr m"
    using create_main_unit_total [OF assms] by (rule is_ok_obtain)
  show ?thesis by (simp only: create_task_units_def e ps vs m rbind.simps is_ok.simps)
qed

section \<open>Groups and jobs\<close>

lemma create_task_group_units_total:
  assumes j: "job_ok j" and tg: "tg \<in> set (j_Groups j)" and r: "renderable_group rd j (gc_Cluster ctx) tg"
    and sg: "0 < gc_ScalingGroup ctx" and b: "max_count j < 2 ^ 63"
  shows "is_ok (create_task_group_units rd ctx j tg)"
proof (cases "gc_ScalingGroup ctx \<le> g_Count tg")
  case True
  note ok = job_ok_group [OF j tg]
  have "g_Count tg < 2 ^ 63" using max_count_bounds(1) [OF tg] b by linarith
  then have t: "task_renders rd ctx j tg t" if "t \<in> set (g_Tasks tg)" for t
    using that j ok r sg True by (simp add: task_renders_def)
  have "is_ok (fold_res (add_task_units rd ctx j tg) (g_Tasks tg) no_units)"
    by (rule fold_res_total) (use create_task_units_total [OF t] in \<open>auto simp: add_task_units_def is_ok_rbind is_ok_iff Let_def\<close>)
  then obtain s where s: "fold_res (add_task_units rd ctx j tg) (g_Tasks tg) no_units = Inr s" by (rule is_ok_obtain)
  have fst: "map fst (gu_tasks s) = g_Tasks tg" using group_inv_tasks [OF s] by (simp add: group_inv_def)
  have "is_ok (fold_res (add_afters (gu_tasks s)) (gu_tasks s) st)" for st
  proof (rule fold_res_total)
    fix x st assume "x \<in> set (gu_tasks s)"
    then have "fst x \<in> set (g_Tasks tg)" using fst by (metis image_eqI list.set_map)
    then have after: "set (t_After (fst x)) \<subseteq> t_Name ` set (g_Tasks tg)"
      using group_ok_task [OF ok] by (simp add: task_ok_def)
    have "is_ok (add_after (gu_tasks s) (snd x) n st')" if "n \<in> set (t_After (fst x))" for n st'
    proof -
      have "n \<in> t_Name ` set (map fst (gu_tasks s))" using after that fst by auto
      then have "List.find (\<lambda>x. t_Name (fst x) = n) (gu_tasks s) \<noteq> None" by (auto simp: find_None_set)
      then show ?thesis by (auto simp: add_after_def find_chain_def)
    qed
    then show "is_ok (add_afters (gu_tasks s) x st)" unfolding add_afters_def by (rule fold_res_total)
  qed
  with True s show ?thesis by (auto simp: create_task_group_units_def is_ok_rbind is_ok_iff Let_def)
qed (simp add: create_task_group_units_def)

lemma generate_groups_total:
  assumes "job_ok j" "max_count j < 2 ^ 63" "0 < gc_ScalingGroup ctx"
    and "set tgs \<subseteq> set (j_Groups j)" "list_all (renderable_group rd j (gc_Cluster ctx)) tgs"
  shows "is_ok (generate_groups rd ctx config j tgs)"
  using assms(4,5)
proof (induction tgs)
  case (Cons tg tgs)
  then have "is_ok (create_task_group_units rd ctx j tg)" using create_task_group_units_total assms(1-3) by simp
  with Cons show ?case by (auto simp: is_ok_rbind is_ok_iff)
qed simp

lemma generate_from_total:
  assumes "job_ok j" "max_count j < 2 ^ 63" "renderable rd j (rc_Cluster config)"
  shows "0 \<notin> set sgs \<Longrightarrow> is_ok (generate_from rd j config n sgs)"
proof (induction sgs)
  case (Cons sg sgs)
  then have "is_ok (generate_groups rd
      \<lparr>gc_ScalingGroup = sg, gc_InstanceCount = n, gc_Cluster = rc_Cluster config\<rparr> config j (j_Groups j))"
    by (intro generate_groups_total) (use assms in \<open>auto simp: renderable_def\<close>)
  with Cons show ?case by (auto simp: is_ok_rbind is_ok_iff)
qed simp

lemma generate_total:
  assumes "job_ok j" "max_count j < 2 ^ 63" "renderable rd j c"
  shows "is_ok (generate_scaling_group_units rd j d c sg)"
  unfolding generate_scaling_group_units_def generate_units_def
  by (rule generate_from_total) (use assms in auto)

text \<open>So the scaling groups of a deployment are generated.\<close>

lemma map_res_total: "(\<And>x. x \<in> set xs \<Longrightarrow> is_ok (f x)) \<Longrightarrow> is_ok (map_res f xs)"
  by (induction xs) (auto simp: is_ok_rbind is_ok_iff)

lemma generate_scaling_groups_total:
  assumes "job_ok j" "max_count j < 2 ^ 63" "renderable rd j c"
  shows "is_ok (generate_scaling_groups (generate_scaling_group_units rd j d c) d m)"
  unfolding generate_scaling_groups_def
  by (rule map_res_total) (use generate_total [OF assms] in \<open>auto simp: is_ok_rbind is_ok_iff\<close>)

end
