(* ===== verification/Examples.thy ===== *)
theory Examples
  imports FleetTotal
begin

text \<open>
  Small jobs, a cluster and a tunnel for the witnesses: \<open>ex_job\<close> has a group of two
  scaling groups with a database that shares a volume and a web task that starts after it and
  restarts with it; \<open>tiny_job\<close> has a single task and is deployed as a whole. That the jobs
  render is shown without computing the text of the units.
\<close>

definition ex_task :: "string \<Rightarrow> task" where
  "ex_task n = empty_task\<lparr>t_Name := n, t_Type := ''service'', t_Engine := ''docker'', t_Network := ''default'',
     t_Image := \<lparr>di_Registry = '''', di_Namespace = '''', di_Repository = n, di_Version = ''''\<rparr>\<rparr>"

definition ex_volume :: volume where
  "ex_volume = \<lparr>v_Path = ''/data'', v_Type = VolumeTypeInstance, v_HostPath = '''', v_Options = [], v_MountOptions = []\<rparr>"

definition ex_db :: task where "ex_db = (ex_task ''db'')\<lparr>t_Volumes := [ex_volume]\<rparr>"

definition ex_web :: task where
  "ex_web = (ex_task ''web'')\<lparr>t_After := [''db''],
     t_PublicFrontEnds := [\<lparr>pf_Domain = ''a.b'', pf_PathPrefix = '''', pf_SslCert = '''', pf_Port = 80, pf_HostPort = 0,
       pf_Users = [], pf_Mode = '''', pf_Weight = 0\<rparr>]\<rparr>"

definition ex_group :: task_group where
  "ex_group = \<lparr>g_Name = ''app'', g_Count = 2, g_Global = False, g_Tasks = [ex_db, ex_web], g_Constraints = [],
     g_RestartPolicy = ''all''\<rparr>"

definition ex_job :: job where
  "ex_job = \<lparr>j_ID = ''id'', j_Name = ''shop'', j_Groups = [ex_group], j_Constraints = [], j_Dependencies = []\<rparr>"

definition ex_cluster :: cluster where
  "ex_cluster = \<lparr>Stack = ''s'', c_Domain = ''d'', Tunnel = ''s.d'', InstanceCount = 3, Orchestrator = ''fleet'',
     DockerOptions = \<lparr>LoggingArgs = [], EnvFile = ''''\<rparr>,
     FleetOptions = \<lparr>fo_After = [], fo_Wants = [], fo_Requires = [], fo_GlobalInstanceConstraints = [''odd=true'', ''even=true'']\<rparr>,
     KubernetesOptions = \<lparr>KubeConfig = '''', ko_Context = '''', RegistrySecrets = [],
       ko_GlobalInstanceConstraints = [], ko_Domain = ''cluster.local''\<rparr>,
     c_Network = ''default''\<rparr>"

definition ex_crypto :: crypto where
  "ex_crypto = \<lparr>json_task = (\<lambda>t. Inr (t_Name t)), sha256_hex = (\<lambda>s. s), crypt = (\<lambda>p s. p @ s)\<rparr>"

definition ex_rendering :: rendering where
  "ex_rendering = \<lparr>rd_images = no_images, rd_secret_hash = (\<lambda>s. Inr (s_Path s)), rd_crypto = ex_crypto,
     rd_context = \<lparr>ProjectName = ''j2'', ProjectVersion = ''1'', ProjectBuild = ''b''\<rparr>\<rparr>"

text \<open>A fleet that parses a unit to its text and brings every unit to its target state at once.\<close>

definition ex_codec :: "string codec" where
  "ex_codec = \<lparr>uc_parse = (\<lambda>c. Inr c), uc_string = (\<lambda>o'. o'), uc_global = (\<lambda>_. False), uc_valid = (\<lambda>_ _. True)\<rparr>"

definition ex_engine :: "string engine_step" where
  "ex_engine r = ((\<lambda>n. map_option rj_TargetState (map_of (fr_jobs r) n)), [])"

definition ex_tunnel :: "string tunnel" where
  "ex_tunnel = \<lparr>tn_codec = ex_codec, tn_engine = ex_engine, tn_NoBlock = False, tn_BlockAttempts = 0, tn_patience = 3\<rparr>"

definition ex_installed :: "string \<Rightarrow> string \<times> string reg_job" where
  "ex_installed n = (n, \<lparr>rj_Name = n, rj_Unit = ''x'', rj_TargetState = ''launched'', rj_State = Some ''launched''\<rparr>)"

text \<open>A cluster with an old unit of the job and a unit of another job; the user says yes.\<close>

definition ex_world :: "string fleet_state world" where
  "ex_world =
     \<lparr>w_cluster = \<lparr>fs_registry = \<lparr>fr_jobs = [ex_installed ''shop-app-old-mn@1.service'', ex_installed ''blog-app-db-mn@1.service''],
        fr_states = []\<rparr>, fs_status = None\<rparr>,
      w_answers = [True, True, True], w_schedules = [[2, 0, 2]]\<rparr>"

definition ex_deployment :: deployment where
  "ex_deployment = \<lparr>groupSelection = [], scalingGroupSelection = 0, force = False, autoContinue = False\<rparr>"

definition tiny_group :: task_group where
  "tiny_group = \<lparr>g_Name = ''app'', g_Count = 1, g_Global = False, g_Tasks = [ex_task ''db''], g_Constraints = [],
     g_RestartPolicy = ''''\<rparr>"

definition tiny_job :: job where
  "tiny_job = \<lparr>j_ID = '''', j_Name = ''shop'', j_Groups = [tiny_group], j_Constraints = [], j_Dependencies = []\<rparr>"

definition ex_context :: generator_context where
  "ex_context = \<lparr>gc_ScalingGroup = 1, gc_InstanceCount = 3, gc_Cluster = ex_cluster\<rparr>"

definition blog_job :: job where
  "blog_job = tiny_job\<lparr>j_Name := ''blog''\<rparr>"

lemmas ex_defs = ex_task_def ex_volume_def ex_db_def ex_web_def ex_group_def ex_job_def ex_cluster_def
  tiny_group_def tiny_job_def blog_job_def empty_task_def

lemma ex_jobs_ok: "job_ok ex_job" "job_ok tiny_job" "job_ok blog_job"
  unfolding job_validate_ok [where u = "()", symmetric] by code_simp+

lemma ex_counts: "max_count ex_job = 2" "max_count tiny_job = 1" "max_count blog_job = 1"
  by (simp_all add: max_count_def ex_defs)

section \<open>The jobs render\<close>

lemma ex_sel: "j_Name ex_job = ''shop''" "j_Groups ex_job = [ex_group]" "j_Name tiny_job = ''shop''"
    "j_Groups tiny_job = [tiny_group]" "j_Name blog_job = ''blog''" "j_Groups blog_job = [tiny_group]"
  by (simp_all add: ex_job_def tiny_job_def blog_job_def)

lemma ex_renderable: "renderable ex_rendering ex_job ex_cluster" "renderable ex_rendering tiny_job ex_cluster"
  by code_simp+

lemma ex_group_units:
  assumes "ctx = \<lparr>gc_ScalingGroup = 1, gc_InstanceCount = 3, gc_Cluster = ex_cluster\<rparr>"
  shows "\<exists>chs st. create_task_group_units ex_rendering ctx ex_job ex_group = Inr (chs, st)"
proof -
  have "renderable_group ex_rendering ex_job ex_cluster ex_group"
    using ex_renderable(1) by (simp add: renderable_def ex_sel)
  then have "is_ok (create_task_group_units ex_rendering ctx ex_job ex_group)"
    by (intro create_task_group_units_total ex_jobs_ok) (simp_all add: assms ex_counts ex_sel)
  then show ?thesis by (auto simp: is_ok_iff)
qed

lemma tiny_generated:
  "\<exists>content. generate_scaling_group_units ex_rendering tiny_job ex_deployment ex_cluster 1 =
     Inr [(''shop-app-db-mn@1.service'', content)]"
proof -
  have "is_ok (generate_scaling_group_units ex_rendering tiny_job ex_deployment ex_cluster 1)"
    by (intro generate_total ex_jobs_ok ex_renderable) (simp add: ex_counts)
  then obtain us where us: "generate_scaling_group_units ex_rendering tiny_job ex_deployment ex_cluster 1 = Inr us"
    by (rule is_ok_obtain)
  have "map fst us = [''shop-app-db-mn@1.service'']"
    unfolding scaling_group_units_names [OF us zero_less_one, unfolded ex_counts, OF order_refl]
    by code_simp
  with us show ?thesis by (cases us) auto
qed

text \<open>Deploying the small job removes the old unit of the job and leaves the other job alone.\<close>

definition tiny_gen :: "string \<Rightarrow> nat \<Rightarrow> (string \<times> string) list res" where
  "tiny_gen content sg = Inr [(''shop-app-db-mn@1.service'', content)]"

lemma tiny_generate_scaling_groups:
  "\<exists>content. generate_scaling_groups (generate_scaling_group_units ex_rendering tiny_job ex_deployment ex_cluster)
     ex_deployment (max_count tiny_job) = Inr [(1, [(''shop-app-db-mn@1.service'', content)])] \<and>
     run_fleet ex_rendering ex_tunnel tiny_job ex_deployment ex_cluster w =
       run ex_deployment (fleet_scheduler ex_tunnel ''shop'') (tiny_gen content) 1 w"
proof -
  obtain content where c: "generate_scaling_group_units ex_rendering tiny_job ex_deployment ex_cluster 1 =
      Inr [(''shop-app-db-mn@1.service'', content)]"
    using tiny_generated by blast
  have g: "generate_scaling_groups (generate_scaling_group_units ex_rendering tiny_job ex_deployment ex_cluster)
      ex_deployment (max_count tiny_job) = Inr [(1, [(''shop-app-db-mn@1.service'', content)])]"
    "generate_scaling_groups (tiny_gen content) ex_deployment 1 = Inr [(1, [(''shop-app-db-mn@1.service'', content)])]"
    using c by (simp_all add: generate_scaling_groups_def ex_counts ex_deployment_def sgs_includes_def tiny_gen_def)
  have "run_fleet ex_rendering ex_tunnel tiny_job ex_deployment ex_cluster w =
      run ex_deployment (fleet_scheduler ex_tunnel ''shop'') (tiny_gen content) 1 w"
    unfolding run_fleet_def run_def g ex_sel g(2) [folded ex_counts(2)] ..
  with g(1) show ?thesis by blast
qed

lemma tiny_run:
  "fst (run ex_deployment (fleet_scheduler ex_tunnel ''shop'') (tiny_gen content) 1 ex_world) = Inr 1"
  by code_simp

text \<open>A cluster on which the small job is running as generated.\<close>

definition settled_world :: "string \<Rightarrow> string fleet_state world" where
  "settled_world content =
     \<lparr>w_cluster = \<lparr>fs_registry = \<lparr>
        fr_jobs = [(''shop-app-db-mn@1.service'', \<lparr>rj_Name = ''shop-app-db-mn@1.service'', rj_Unit = content,
          rj_TargetState = ''launched'', rj_State = Some ''launched''\<rparr>), ex_installed ''blog-app-db-mn@1.service''],
        fr_states = [(''shop-app-db-mn@1.service'', ''active'')]\<rparr>, fs_status = None\<rparr>,
      w_answers = [True], w_schedules = []\<rparr>"

lemma settled_world_ok:
  "fleet_ok (w_cluster (settled_world content))"
  "fleet_settled ex_tunnel tiny_job ex_deployment [(1, [(''shop-app-db-mn@1.service'', content)])]
     (w_cluster (settled_world content))"
proof -
  show "fleet_ok (w_cluster (settled_world content))"
    by (simp add: fleet_ok_def reg_ok_def settled_world_def ex_installed_def)
  have view: "fleet_view ex_tunnel (w_cluster (settled_world content)) n \<noteq> None \<longleftrightarrow>
      n = ''shop-app-db-mn@1.service'' \<or> n = ''blog-app-db-mn@1.service''" for n
    by (simp add: fleet_view_def reg_view_def settled_world_def ex_installed_def)
  have sel: "selected_unit ex_tunnel tiny_job ex_deployment ''shop-app-db-mn@1.service''"
    "\<not> selected_unit ex_tunnel tiny_job ex_deployment ''blog-app-db-mn@1.service''"
    by code_simp+
  have "fleet_has_changed ex_tunnel (''shop-app-db-mn@1.service'', content) (w_cluster (settled_world content)) = Inr False"
    by (simp add: fleet_has_changed_def tunnel_cat_def api_unit_def map_unit_to_schema_def compare_unit_content_iff
        settled_world_def ex_tunnel_def ex_codec_def)
  moreover have "tunnel_status (fs_registry (w_cluster (settled_world content))) =
      Inr [(''shop-app-db-mn@1.service'', ''active'')]"
    by (simp add: tunnel_status_def api_unit_states_def settled_world_def new_status_map_def go_sort_id)
  moreover have none: "fs_status (w_cluster (settled_world content)) = None" by (simp add: settled_world_def)
  ultimately show "fleet_settled ex_tunnel tiny_job ex_deployment [(1, [(''shop-app-db-mn@1.service'', content)])]
     (w_cluster (settled_world content))"
    using sel by (auto simp: fleet_settled_def view [simplified] status_get_def none)
qed

end
