(* ===== verification/K8sNames.thy ===== *)
theory K8sNames
  imports FrontendNames
begin

text \<open>
  Names of Kubernetes resources: \<^verbatim>\<open>pkg/kubernetes/names.go\<close>,
  \<^verbatim>\<open>render/kubernetes/names.go\<close> and the front end name builder of
  \<^verbatim>\<open>render/kubernetes/ingress.go\<close>. A resource name has no underscores, so two
  valid names with underscores can meet in one resource name; without them names stay apart. The
  name a job uses for a dependency is the one the other job gives its service.
\<close>

definition k8s_resource_name :: "string \<Rightarrow> string" where
  "k8s_resource_name fullName =
     to_lower (replace_char CHR ''_'' CHR ''-'' (replace_char CHR ''/'' CHR ''-'' fullName))"

definition resource_name :: "string \<Rightarrow> string \<Rightarrow> string" where
  "resource_name fullName kind = k8s_resource_name (fullName @ kind)"

definition kindDeployment :: string where "kindDeployment = ''-depl''"
definition kindDaemonSet :: string where "kindDaemonSet = ''-dset''"
definition kindJob :: string where "kindJob = ''-job''"
definition kindIngress :: string where "kindIngress = ''-igr''"
definition kindSecret :: string where "kindSecret = ''-sec''"
definition kindService :: string where "kindService = ''-srv''"
definition kindVolume :: string where "kindVolume = ''-vol''"

definition task_ingress_name :: "task_group \<Rightarrow> task \<Rightarrow> string" where
  "task_ingress_name tg t = resource_name (g_Name tg @ ''-'' @ t_Name t) kindIngress"

definition task_service_name :: "task_group \<Rightarrow> task \<Rightarrow> string" where
  "task_service_name tg t = resource_name (g_Name tg @ ''-'' @ t_Name t) kindService"

definition task_secret_name :: "task_group \<Rightarrow> task \<Rightarrow> string" where
  "task_secret_name tg t = resource_name (g_Name tg @ ''-'' @ t_Name t) kindSecret"

definition task_service_dns_name :: "job \<Rightarrow> task_group \<Rightarrow> task \<Rightarrow> string \<Rightarrow> string" where
  "task_service_dns_name j tg t clusterDomain =
     task_service_name tg t @ ''.'' @ k8s_resource_name (j_Name j) @ ''.svc.'' @ clusterDomain"

text \<open>The errors of the three accessors are dropped; the parts found so far are used.\<close>

definition dependency_service_name :: "dependency \<Rightarrow> string" where
  "dependency_service_name d =
     (case fst (link_parse (d_Name d)) of (j, tg, t, _) \<Rightarrow>
        (let local = resource_name (tg @ ''-'' @ t) kindService
         in resource_name (local @ ''.'' @ j) ''''))"

definition dependency_service_dns_name :: "dependency \<Rightarrow> string \<Rightarrow> string" where
  "dependency_service_dns_name d clusterDomain =
     (let local = dependency_service_name d in local @ ''.svc.'' @ clusterDomain)"

section \<open>Front end names\<close>

definition create_target_service_name :: "job \<Rightarrow> task_group \<Rightarrow> task \<Rightarrow> string res" where
  "create_target_service_name j tg t =
     (if is_proxy (t_Type t) then
        rbind (link_resolve j (t_Target t)) (\<lambda>target.
          case target of
            Inl (ttg, tt) \<Rightarrow> Inr (task_service_name ttg tt)
          | Inr dep \<Rightarrow> Inr (dependency_service_name dep))
      else Inr (task_service_name tg t))"

definition k8s_frontend_names :: "cluster \<Rightarrow> name_builder" where
  "k8s_frontend_names c =
     \<lparr>CreateServiceName = (\<lambda>j tg t. Inr (task_service_name tg t)),
      CreateTargetServiceName = create_target_service_name,
      CreatePrivateDomainNames = (\<lambda>j tg t.
        Inr [task_service_dns_name j tg t (ko_Domain (KubernetesOptions c)), task_private_domain_name j tg t]),
      CreateInstanceSpecificPrivateDomainNames = (\<lambda>j tg t inst. Inl OtherError)\<rparr>"

section \<open>What a resource name keeps\<close>

definition k8s_char :: "char \<Rightarrow> char" where
  "k8s_char c = (if c = CHR ''/'' \<or> c = CHR ''_'' then CHR ''-'' else lower_char c)"

lemma k8s_resource_name_map: "k8s_resource_name s = map k8s_char s"
proof -
  have "lower_char CHR ''-'' = CHR ''-''" by (simp add: lower_char_def)
  then show ?thesis by (auto simp: k8s_resource_name_def to_lower_def replace_char_def k8s_char_def)
qed

lemma k8s_resource_name_simps [simp]:
  "k8s_resource_name (a @ b) = k8s_resource_name a @ k8s_resource_name b" "k8s_resource_name '''' = ''''"
  by (simp_all add: k8s_resource_name_map)

lemma k8s_resource_name_Cons [simp]: "k8s_resource_name (c # s) = k8s_char c # k8s_resource_name s"
  by (simp add: k8s_resource_name_map)

lemma k8s_char_literals [simp]:
  "k8s_char CHR ''-'' = CHR ''-''" "k8s_char CHR ''_'' = CHR ''-''" "k8s_char CHR ''.'' = CHR ''.''"
  "k8s_char CHR ''b'' = CHR ''b''" "k8s_char CHR ''c'' = CHR ''c''" "k8s_char CHR ''d'' = CHR ''d''"
  "k8s_char CHR ''e'' = CHR ''e''" "k8s_char CHR ''g'' = CHR ''g''" "k8s_char CHR ''i'' = CHR ''i''"
  "k8s_char CHR ''j'' = CHR ''j''" "k8s_char CHR ''l'' = CHR ''l''" "k8s_char CHR ''o'' = CHR ''o''"
  "k8s_char CHR ''p'' = CHR ''p''" "k8s_char CHR ''r'' = CHR ''r''" "k8s_char CHR ''s'' = CHR ''s''"
  "k8s_char CHR ''t'' = CHR ''t''" "k8s_char CHR ''v'' = CHR ''v''"
  by code_simp+

lemma k8s_char_idem [simp]: "k8s_char (k8s_char c) = k8s_char c"
proof -
  have "k8s_char (lower_char c) = lower_char c" if "c \<noteq> CHR ''/''" "c \<noteq> CHR ''_''"
  proof (cases "65 \<le> (of_char c :: nat) \<and> (of_char c :: nat) \<le> 90")
    case True
    let ?d = "char_of (of_char c + 32 :: nat)"
    have d: "(of_char ?d :: nat) = of_char c + 32" using True by simp
    have "?d \<noteq> CHR ''/''" "?d \<noteq> CHR ''_''" using d True by (auto simp del: of_char_of)
    with True d show ?thesis by (simp add: k8s_char_def lower_char_def)
  next
    case False
    then have "lower_char c = c" unfolding lower_char_def by (rule if_not_P)
    with that show ?thesis by (simp add: k8s_char_def)
  qed
  moreover have "k8s_char c = (if c = CHR ''/'' \<or> c = CHR ''_'' then CHR ''-'' else lower_char c)" by (rule k8s_char_def)
  ultimately show ?thesis by auto
qed

lemma k8s_resource_name_idem [simp]: "k8s_resource_name (k8s_resource_name s) = k8s_resource_name s"
  by (simp add: k8s_resource_name_map)

lemma k8s_resource_name_ok:
  assumes "name_ok lo hi s" shows "k8s_resource_name s = dashed s"
proof -
  have "k8s_char c = (if c = CHR ''_'' then CHR ''-'' else c)" if "c \<in> set s" for c
  proof -
    have "name_char c" using name_ok_free [OF assms] that by blast
    then have "\<not> (65 \<le> (of_char c :: nat) \<and> (of_char c :: nat) \<le> 90)"
    proof (elim disjE [OF iffD1 [OF name_char_def]])
      assume "is_digit c \<or> c = CHR ''_''"
      then show ?thesis
      proof
        assume "is_digit c"
        then show ?thesis unfolding is_digit_def by linarith
      qed simp
    qed linarith
    then have "lower_char c = c" unfolding lower_char_def by (rule if_not_P)
    moreover have "c \<noteq> CHR ''/''" using \<open>name_char c\<close> by auto
    ultimately show ?thesis unfolding k8s_char_def by simp
  qed
  then show ?thesis by (simp add: k8s_resource_name_map replace_char_def)
qed

lemma task_resource_names:
  assumes "named j tg t"
  shows "task_service_name tg t = dashed (g_Name tg) @ ''-'' @ dashed (t_Name t) @ ''-srv''"
    "task_secret_name tg t = dashed (g_Name tg) @ ''-'' @ dashed (t_Name t) @ ''-sec''"
    "task_ingress_name tg t = dashed (g_Name tg) @ ''-'' @ dashed (t_Name t) @ ''-igr''"
  using assms k8s_resource_name_ok [of 2 30 "g_Name tg"] k8s_resource_name_ok [of 2 30 "t_Name t"]
  by (simp_all add: named_def resource_name_def task_service_name_def task_secret_name_def task_ingress_name_def
      kindService_def kindSecret_def kindIngress_def)

text \<open>The name used for a dependency is the name of the service it stands for.\<close>

lemma dependency_dns_name:
  assumes "link_parse (d_Name d) = ((j_Name j, g_Name tg, t_Name t, i), Inr u)"
  shows "dependency_service_dns_name d clusterDomain = task_service_dns_name j tg t clusterDomain"
  using assms
  by (simp add: dependency_service_dns_name_def dependency_service_name_def task_service_dns_name_def
      task_service_name_def resource_name_def kindService_def)

section \<open>Names that stay apart\<close>

definition plain_names :: "job \<Rightarrow> task_group \<Rightarrow> task \<Rightarrow> bool" where
  "plain_names j tg t \<longleftrightarrow> named j tg t \<and> CHR ''_'' \<notin> set (g_Name tg) \<and> CHR ''_'' \<notin> set (t_Name t)"

lemma task_service_name_inj:
  assumes "plain_names j tg t" "plain_names j' tg' t'" "task_service_name tg t = task_service_name tg' t'"
  shows "g_Name tg = g_Name tg' \<and> t_Name t = t_Name t'"
proof -
  have n: "named j tg t" "named j' tg' t'" using assms(1,2) by (simp_all add: plain_names_def)
  have "g_Name tg @ CHR ''-'' # t_Name t @ ''-srv'' = g_Name tg' @ CHR ''-'' # t_Name t' @ ''-srv''"
    using assms task_resource_names(1) [OF n(1)] task_resource_names(1) [OF n(2)] by (simp add: plain_names_def)
  then show ?thesis using n by (simp add: append_sep_inj)
qed

interpretation k8s_names: frontend_names "k8s_frontend_names c" plain_names "\<lambda>j tg t. (g_Name tg, t_Name t)" for c
proof
  show "plain_names j tg t \<Longrightarrow> plain_names j' tg' t' \<Longrightarrow>
      CreateServiceName (k8s_frontend_names c) j tg t = CreateServiceName (k8s_frontend_names c) j' tg' t' \<Longrightarrow>
      (g_Name tg, t_Name t) = (g_Name tg', t_Name t')" for j tg t j' tg' t'
    unfolding k8s_frontend_names_def by (auto dest: task_service_name_inj)
qed (simp_all add: k8s_frontend_names_def)

end
