(* ===== verification/Pods.thy ===== *)
theory Pods
  imports Model K8sNames "HOL-Library.AList"
begin

text \<open>
  Pods: \<^verbatim>\<open>render/kubernetes/pod.go\<close>. The pods under construction are a store
  that the map from task names points into; a merged pod stays in the store but nothing points to it
  any more. \<^verbatim>\<open>sortTasks\<close> may run forever, so its loop is a partial function:
  \<open>None\<close> is a call that does not return. It returns exactly when the
  \<^verbatim>\<open>After\<close> lists of the pod have no cycle.
\<close>

record pod =
  pod_index :: nat
  pod_name :: string
  pod_tasks :: "task list"

section \<open>Predicates on pods\<close>

definition has_service_tasks :: "pod \<Rightarrow> bool" where
  "has_service_tasks p = list_ex (\<lambda>t. is_service (t_Type t)) (pod_tasks p)"

definition has_oneshot_tasks :: "pod \<Rightarrow> bool" where
  "has_oneshot_tasks p = list_ex (\<lambda>t. is_oneshot (t_Type t)) (pod_tasks p)"

definition has_rw_host_volumes :: "pod \<Rightarrow> bool" where
  "has_rw_host_volumes p =
     list_ex (\<lambda>t. list_ex (\<lambda>v. volume_is_local v \<and> \<not> volume_is_read_only v) (t_Volumes t)) (pod_tasks p)"

text \<open>The index \<^verbatim>\<open>i-i\<close> of the network check is 0: every task is compared with the first.\<close>

definition same_network :: "task list \<Rightarrow> bool" where
  "same_network ts = (case ts of [] \<Rightarrow> True | t # us \<Rightarrow> list_all (\<lambda>u. t_Network t = t_Network u) us)"

definition pod_validate :: "pod \<Rightarrow> unit res" where
  "pod_validate p =
     (if pod_name p = '''' then Inl OtherError
      else if \<not> same_network (pod_tasks p) then Inl OtherError
      else if has_oneshot_tasks p \<and> has_service_tasks p then Inl OtherError
      else if 1 < length (filter (\<lambda>t. t_Metrics t \<noteq> None) (pod_tasks p)) then Inl OtherError
      else Inr ())"

section \<open>Sorting the tasks of a pod\<close>

definition swap :: "'a list \<Rightarrow> nat \<Rightarrow> nat \<Rightarrow> 'a list" where
  "swap xs i k = xs[i := xs ! k, k := xs ! i]"

text \<open>The first name of an \<^verbatim>\<open>After\<close> list whose task stands behind position \<open>i\<close>.\<close>

fun later_task :: "task list \<Rightarrow> nat \<Rightarrow> string list \<Rightarrow> nat option" where
  "later_task ts i [] = None"
| "later_task ts i (n # ns) =
     (if int i < index_by_name ts n then Some (nat (index_by_name ts n)) else later_task ts i ns)"

partial_function (option) sort_loop :: "task list \<Rightarrow> nat \<Rightarrow> task list option" where
  "sort_loop ts i =
     (if i < length ts then
        (case later_task ts i (t_After (ts ! i)) of
           Some k \<Rightarrow> sort_loop (swap ts i k) i
         | None \<Rightarrow> sort_loop ts (i + 1))
      else Some ts)"

declare sort_loop.simps [code]

definition sort_tasks :: "task list \<Rightarrow> task list option" where
  "sort_tasks ts = sort_loop (go_sort t_Name ts) 0"

section \<open>Grouping tasks\<close>

type_synonym pods = "(string \<times> nat) list \<times> pod list"

fun single_pods :: "nat \<Rightarrow> task list \<Rightarrow> pods" where
  "single_pods i [] = ([], [])"
| "single_pods i (t # ts) =
     (case single_pods (i + 1) ts of (m, ps) \<Rightarrow>
        (if map_of m (t_Name t) = None then (t_Name t, i) # m else m,
         \<lparr>pod_index = i, pod_name = '''', pod_tasks = [t]\<rparr> # ps))"

definition group_tasks :: "string \<Rightarrow> string \<Rightarrow> pods \<Rightarrow> pods res" where
  "group_tasks n1 n2 s =
     (case s of (m, ps) \<Rightarrow>
        case map_of m n1 of
          None \<Rightarrow> Inl OtherError
        | Some p1 \<Rightarrow>
            (case map_of m n2 of
               None \<Rightarrow> Inl OtherError
             | Some p2 \<Rightarrow>
                 if p1 = p2 then Inr (m, ps)
                 else
                   let moved = pod_tasks (ps ! p2)
                   in Inr (fold (\<lambda>t m. AList.update (t_Name t) p1 m) moved m,
                        ps[p1 := (ps ! p1)\<lparr>pod_tasks := pod_tasks (ps ! p1) @ moved\<rparr>])))"

definition group_with :: "task \<Rightarrow> pods \<Rightarrow> pods res" where
  "group_with t s =
     rbind (fold_res (group_tasks (t_Name t)) (t_VolumesFrom t) s) (fold_res (group_tasks (t_Name t)) (t_After t))"

fun lowest_task :: "int \<Rightarrow> string \<Rightarrow> task list \<Rightarrow> int \<times> string" where
  "lowest_task lowest name [] = (lowest, name)"
| "lowest_task lowest name (t # ts) =
     (if 0 \<le> t_OriginalIndex t \<and> (lowest < 0 \<or> t_OriginalIndex t < lowest)
      then lowest_task (t_OriginalIndex t) (t_Name t) ts
      else lowest_task lowest name ts)"

definition create_pod_name :: "pod \<Rightarrow> task_group \<Rightarrow> string" where
  "create_pod_name p tg =
     (case lowest_task (-1) '''' (pod_tasks p) of (lowest, name) \<Rightarrow>
        if lowest < 0 then resource_name (g_Name tg) '''' else resource_name (g_Name tg) (''-'' @ name))"

definition finish_pod :: "task_group \<Rightarrow> pod \<Rightarrow> pod res" where
  "finish_pod tg p =
     (case sort_tasks (pod_tasks p) of
        None \<Rightarrow> Inl Hang
      | Some ts \<Rightarrow> Inr (p\<lparr>pod_name := create_pod_name p tg, pod_tasks := ts\<rparr>))"

definition group_task_into_pods :: "task_group \<Rightarrow> pod list res" where
  "group_task_into_pods tg =
     (if restart_policy_is_all (g_RestartPolicy tg) then
        (let p = \<lparr>pod_index = 0, pod_name = resource_name (g_Name tg) '''', pod_tasks = g_Tasks tg\<rparr>
         in rbind (pod_validate p) (\<lambda>_. Inr [p]))
      else
        rbind (fold_res group_with (g_Tasks tg) (single_pods 0 (g_Tasks tg))) (\<lambda>s.
          case s of (m, ps) \<Rightarrow>
            rbind (map_res (\<lambda>i. finish_pod tg (ps ! i)) (remdups (map snd m))) (\<lambda>result.
            let result = go_sort pod_index result
            in rbind (iter_res pod_validate result) (\<lambda>_. Inr result))))"

end
