(* ===== verification/PodLaws.thy ===== *)
theory PodLaws
  imports Pods Validation
begin

text \<open>
  What grouping tasks into pods guarantees. Sorting returns exactly when the
  \<^verbatim>\<open>After\<close> lists have no cycle, and then every task stands behind the tasks it
  names. The pods are a partition of the tasks that keeps tasks together that share volumes or name each
  other.
\<close>

declare map_of_eq_Some_iff [simp del]

section \<open>Sorting\<close>

lemma swap_simps [simp]:
  "length (swap xs i k) = length xs"
  "i < length xs \<Longrightarrow> k < length xs \<Longrightarrow> mset (swap xs i k) = mset xs"
  "i < length xs \<Longrightarrow> swap xs i k ! i = xs ! k"
  by (cases "k = i"; auto simp: swap_def mset_swap nth_list_update)+

lemma swap_nth:
  assumes "i < k" "k < length xs" "b < length xs"
  shows "swap xs i k ! b = (if b = i then xs ! k else if b = k then xs ! i else xs ! b)"
  using assms by (auto simp: swap_def nth_list_update)

lemma index_by_name_Some:
  assumes "0 \<le> index_by_name ts n"
  shows "nat (index_by_name ts n) < length ts \<and> t_Name (ts ! nat (index_by_name ts n)) = n"
proof -
  have n: "n \<in> t_Name ` set ts" and i: "index_by_name ts n = int (length (takeWhile (\<lambda>t. t_Name t \<noteq> n) ts))"
    using assms by (auto simp: index_by_name_def index_by_name_from split: if_splits)
  let ?k = "length (takeWhile (\<lambda>t. t_Name t \<noteq> n) ts)"
  have l: "?k < length ts"
  proof (rule ccontr)
    assume "\<not> ?k < length ts"
    then have "takeWhile (\<lambda>t. t_Name t \<noteq> n) ts = ts"
      by (metis length_takeWhile_le nat_less_le takeWhile_eq_take take_all_iff)
    then show False using n by (auto simp: takeWhile_eq_all_conv)
  qed
  then have "\<not> t_Name (ts ! ?k) \<noteq> n" by (rule nth_length_takeWhile)
  with i l show ?thesis by simp
qed

lemma index_by_name_nth:
  assumes "distinct (map t_Name ts)" "b < length ts"
  shows "index_by_name ts (t_Name (ts ! b)) = int b"
proof -
  have "0 \<le> index_by_name ts (t_Name (ts ! b))"
    using assms(2) by (auto simp: index_by_name_def index_by_name_from)
  from index_by_name_Some [OF this] this assms show ?thesis
    by (metis (no_types, lifting) distinct_conv_nth int_nat_eq length_map nth_map)
qed

lemma later_task_cases:
  "later_task ts i ns = Some k \<Longrightarrow> i < k \<and> k < length ts \<and> t_Name (ts ! k) \<in> set ns"
  "later_task ts i ns = None \<Longrightarrow> n \<in> set ns \<Longrightarrow> index_by_name ts n \<le> int i"
proof -
  show "later_task ts i ns = Some k \<Longrightarrow> i < k \<and> k < length ts \<and> t_Name (ts ! k) \<in> set ns"
  proof (induction ns)
    case (Cons n ns)
    then show ?case using index_by_name_Some [of ts n] by (auto split: if_splits)
  qed simp
  show "later_task ts i ns = None \<Longrightarrow> n \<in> set ns \<Longrightarrow> index_by_name ts n \<le> int i"
    by (induction ns) (auto split: if_splits)
qed

text \<open>The first \<open>i\<close> tasks name no task behind them.\<close>

definition ordered_to :: "task list \<Rightarrow> nat \<Rightarrow> bool" where
  "ordered_to ts i \<longleftrightarrow> (\<forall>a < i. \<forall>b. a < b \<and> b < length ts \<longrightarrow> t_Name (ts ! b) \<notin> set (t_After (ts ! a)))"

lemma ordered_to_swap:
  assumes "ordered_to ts i" "i < k" "k < length ts"
  shows "ordered_to (swap ts i k) i"
  unfolding ordered_to_def
proof (intro allI impI)
  fix a b assume a: "a < i" and b: "a < b \<and> b < length (swap ts i k)"
  let ?b = "if b = i then k else if b = k then i else b"
  have "a < ?b \<and> ?b < length ts" using a b assms by auto
  then have "t_Name (ts ! ?b) \<notin> set (t_After (ts ! a))" using assms(1) a by (simp add: ordered_to_def)
  then show "t_Name (swap ts i k ! b) \<notin> set (t_After (swap ts i k ! a))"
    using a b assms(2,3) by (simp add: swap_nth split: if_splits)
qed

lemma ordered_to_Suc:
  assumes "ordered_to ts i" "distinct (map t_Name ts)" "later_task ts i (t_After (ts ! i)) = None"
  shows "ordered_to ts (i + 1)"
  unfolding ordered_to_def
proof (intro allI impI)
  fix a b assume a: "a < i + 1" and b: "a < b \<and> b < length ts"
  show "t_Name (ts ! b) \<notin> set (t_After (ts ! a))"
  proof (cases "a = i")
    case True
    then show ?thesis
      using later_task_cases(2) [OF assms(3), of "t_Name (ts ! b)"] index_by_name_nth [OF assms(2), of b] b by auto
  next
    case False
    then show ?thesis using assms(1) a b by (simp add: ordered_to_def)
  qed
qed

lemma distinct_mset: "mset xs = mset ys \<Longrightarrow> distinct (map f xs) \<longleftrightarrow> distinct (map f ys)"
  by (metis mset_eq_imp_distinct_iff mset_map)

lemma sort_loop_sound:
  assumes "sort_loop ts i = Some ts'" "distinct (map t_Name ts)" "ordered_to ts i"
  shows "mset ts' = mset ts \<and> ordered_to ts' (length ts')"
proof -
  have "distinct (map t_Name ts) \<longrightarrow> ordered_to ts i \<longrightarrow> mset ts' = mset ts \<and> ordered_to ts' (length ts')"
  proof (rule sort_loop.raw_induct [OF _ assms(1)])
    fix loop ts i ts'
    assume IH: "\<And>ts i ts'. loop ts i = Some ts' \<Longrightarrow>
        distinct (map t_Name ts) \<longrightarrow> ordered_to ts i \<longrightarrow> mset ts' = mset ts \<and> ordered_to ts' (length ts')"
      and e: "(if i < length ts
        then case later_task ts i (t_After (ts ! i)) of None \<Rightarrow> loop ts (i + 1) | Some k \<Rightarrow> loop (swap ts i k) i
        else Some ts) = Some ts'"
    show "distinct (map t_Name ts) \<longrightarrow> ordered_to ts i \<longrightarrow> mset ts' = mset ts \<and> ordered_to ts' (length ts')"
    proof (intro impI)
      assume d: "distinct (map t_Name ts)" and o': "ordered_to ts i"
      show "mset ts' = mset ts \<and> ordered_to ts' (length ts')"
      proof (cases "i < length ts")
        case False
        with e o' show ?thesis by (auto simp: ordered_to_def)
      next
        case i: True
        show ?thesis
        proof (cases "later_task ts i (t_After (ts ! i))")
          case None
          with e i IH [of ts "i + 1" ts'] d ordered_to_Suc [OF o' d None] show ?thesis by simp
        next
          case (Some k)
          note k = later_task_cases(1) [OF Some]
          have m: "mset (swap ts i k) = mset ts" using i k by simp
          then have "distinct (map t_Name (swap ts i k))" using d distinct_mset by blast
          with e i IH [of "swap ts i k" i ts'] Some m ordered_to_swap [OF o'] k show ?thesis by simp
        qed
      qed
    qed
  qed
  with assms(2,3) show ?thesis by simp
qed

text \<open>The names a task is to come after, without its own.\<close>

definition after_rel :: "task list \<Rightarrow> (string \<times> string) set" where
  "after_rel ts = {(u, t_Name t) | u t. t \<in> set ts \<and> u \<in> t_Name ` set ts \<and> u \<in> set (t_After t) \<and> u \<noteq> t_Name t}"

lemma after_relI:
  "t \<in> set ts \<Longrightarrow> u \<in> set ts \<Longrightarrow> t_Name u \<in> set (t_After t) \<Longrightarrow> t_Name u \<noteq> t_Name t \<Longrightarrow>
    (t_Name u, t_Name t) \<in> after_rel ts"
  unfolding after_rel_def by blast

lemma after_rel_mset: "mset ts = mset us \<Longrightarrow> after_rel ts = after_rel us"
  using mset_eq_setD [of ts us] by (simp add: after_rel_def)

lemma finite_after_rel: "finite (after_rel ts)"
proof (rule finite_subset)
  show "after_rel ts \<subseteq> t_Name ` set ts \<times> t_Name ` set ts" by (auto simp: after_rel_def)
qed simp

lemma sort_loop_total_at:
  assumes wf: "wf (after_rel ts)" and next_pos: "\<And>us. mset us = mset ts \<Longrightarrow> \<exists>ts'. sort_loop us (i + 1) = Some ts'"
    and us: "mset us = mset ts" "distinct (map t_Name us)" "i < length us"
  shows "\<exists>ts'. sort_loop us i = Some ts'"
proof -
  have "\<forall>us. n = t_Name (us ! i) \<longrightarrow> mset us = mset ts \<longrightarrow> distinct (map t_Name us) \<longrightarrow> i < length us \<longrightarrow>
      (\<exists>ts'. sort_loop us i = Some ts')" for n
    using wf
  proof (induction n rule: wf_induct_rule)
    case (less n)
    show ?case
    proof (intro allI impI)
      fix us assume n: "n = t_Name (us ! i)" and m: "mset us = mset ts" and d: "distinct (map t_Name us)"
        and i: "i < length us"
      show "\<exists>ts'. sort_loop us i = Some ts'"
      proof (cases "later_task us i (t_After (us ! i))")
        case None
        with next_pos [OF m] i show ?thesis by (simp add: sort_loop.simps [of us i])
      next
        case (Some k)
        note k = later_task_cases(1) [OF Some]
        then have "t_Name (us ! k) \<noteq> t_Name (us ! i)"
          using d i by (metis distinct_conv_nth length_map nat_less_le nth_map)
        then have r: "(t_Name (us ! k), n) \<in> after_rel ts"
          unfolding after_rel_mset [OF m [symmetric]] n using k i by (intro after_relI) auto
        have s: "mset (swap us i k) = mset us" using k i by simp
        have "\<exists>ts'. sort_loop (swap us i k) i = Some ts'"
          using less.IH [OF r, rule_format, of "swap us i k"] s m d i distinct_mset [OF s, of t_Name] by simp
        with Some i show ?thesis by (simp add: sort_loop.simps [of us i])
      qed
    qed
  qed
  with us show ?thesis by blast
qed

lemma sort_loop_total:
  assumes "wf (after_rel ts)" "distinct (map t_Name ts)" "mset us = mset ts"
  shows "\<exists>ts'. sort_loop us i = Some ts'"
  using assms(3)
proof (induction "length ts - i" arbitrary: us i)
  case 0
  then have "length us \<le> i" by (metis diff_is_0_eq mset_eq_length)
  then show ?case by (simp add: sort_loop.simps [of us i])
next
  case (Suc l)
  have l: "length us = length ts" using Suc.prems mset_eq_length by blast
  show ?case
  proof (rule sort_loop_total_at [OF assms(1) _ Suc.prems])
    show "\<exists>ts'. sort_loop us (i + 1) = Some ts'" if "mset us = mset ts" for us
      using Suc.hyps(1) [of "i + 1" us] Suc.hyps(2) that by simp
    show "distinct (map t_Name us)" using assms(2) Suc.prems distinct_mset by blast
    show "i < length us" using l Suc.hyps(2) by simp
  qed
qed

text \<open>A sorted list numbers the tasks, and the relation goes up in these numbers.\<close>

lemma ordered_acyclic:
  assumes "ordered_to ts (length ts)" "distinct (map t_Name ts)"
  shows "acyclic (after_rel ts)"
proof -
  have "after_rel ts \<subseteq> measure (\<lambda>n. nat (index_by_name ts n))"
  proof (rule subrelI)
    fix u n assume "(u, n) \<in> after_rel ts"
    then obtain t u' where t: "t \<in> set ts" "u' \<in> set ts" "n = t_Name t" "u = t_Name u'" "u \<in> set (t_After t)" "u \<noteq> n"
      unfolding after_rel_def by blast
    then obtain a b where ab: "a < length ts" "b < length ts" "n = t_Name (ts ! a)" "u = t_Name (ts ! b)"
        "u \<in> set (t_After (ts ! a))" "u \<noteq> n"
      by (metis in_set_conv_nth)
    then have "\<not> a < b" using assms(1) by (auto simp: ordered_to_def)
    with ab have "b < a" by (metis linorder_neqE_nat)
    with ab show "(u, n) \<in> measure (\<lambda>n. nat (index_by_name ts n))"
      using index_by_name_nth [OF assms(2)] by simp
  qed
  then show ?thesis using acyclic_subset wf_acyclic wf_measure by blast
qed

lemma sort_tasks_sound:
  assumes "sort_tasks ts = Some ts'" "distinct (map t_Name ts)"
  shows "mset ts' = mset ts" "ordered_to ts' (length ts')"
proof -
  have d: "distinct (map t_Name (go_sort t_Name ts))" using assms(2) distinct_mset [of "go_sort t_Name ts" ts] by simp
  show "mset ts' = mset ts" "ordered_to ts' (length ts')"
    using sort_loop_sound [OF assms(1) [unfolded sort_tasks_def] d] by (simp_all add: ordered_to_def)
qed

lemma sort_tasks_returns:
  assumes "distinct (map t_Name ts)"
  shows "(\<exists>ts'. sort_tasks ts = Some ts') \<longleftrightarrow> acyclic (after_rel ts)"
proof
  assume "\<exists>ts'. sort_tasks ts = Some ts'"
  then obtain ts' where s: "sort_tasks ts = Some ts'" ..
  note m = sort_tasks_sound [OF s assms]
  show "acyclic (after_rel ts)"
    using ordered_acyclic [OF m(2)] assms distinct_mset [OF m(1), of t_Name] after_rel_mset [OF m(1)] by simp
next
  assume "acyclic (after_rel ts)"
  then have "wf (after_rel ts)" using finite_acyclic_wf finite_after_rel by blast
  then show "\<exists>ts'. sort_tasks ts = Some ts'"
    unfolding sort_tasks_def using sort_loop_total [OF _ assms] by simp
qed

section \<open>Grouping\<close>

text \<open>
  Every pod the map points to holds the tasks whose names point to it, no more and no fewer.
\<close>

definition grouped :: "task list \<Rightarrow> pods \<Rightarrow> bool" where
  "grouped ts s \<longleftrightarrow>
     (case s of (m, ps) \<Rightarrow>
        distinct (map fst m) \<and> dom (map_of m) = t_Name ` set ts \<and>
        (\<forall>i < length ps. pod_index (ps ! i) = i) \<and>
        (\<forall>i \<in> ran (map_of m). i < length ps \<and>
           mset (pod_tasks (ps ! i)) = mset (filter (\<lambda>t. map_of m (t_Name t) = Some i) ts)))"

lemma single_pods_grouped:
  assumes "single_pods i ts = (m, ps)" "distinct (map t_Name ts)"
  shows "length ps = length ts \<and> distinct (map fst m) \<and> dom (map_of m) = t_Name ` set ts \<and>
    (\<forall>k < length ps. pod_index (ps ! k) = i + k \<and> pod_tasks (ps ! k) = [ts ! k] \<and>
       map_of m (t_Name (ts ! k)) = Some (i + k))"
  using assms
proof (induction i ts arbitrary: m ps rule: single_pods.induct)
  case (2 i t ts)
  obtain m' ps' where s: "single_pods (i + 1) ts = (m', ps')" by (cases "single_pods (i + 1) ts")
  with 2 have IH: "length ps' = length ts" "distinct (map fst m')" "dom (map_of m') = t_Name ` set ts"
      "\<forall>k < length ps'. pod_index (ps' ! k) = i + 1 + k \<and> pod_tasks (ps' ! k) = [ts ! k] \<and>
         map_of m' (t_Name (ts ! k)) = Some (i + 1 + k)"
    by auto
  have n: "map_of m' (t_Name t) = None" using IH(3) 2(3) by (auto simp: dom_def)
  with s 2(2) have m: "m = (t_Name t, i) # m'" "ps = \<lparr>pod_index = i, pod_name = '''', pod_tasks = [t]\<rparr> # ps'"
    by auto
  have "t_Name t \<notin> fst ` set m'" using n by (simp add: map_of_eq_None_iff)
  moreover have "t_Name (ts ! k) \<noteq> t_Name t" if "k < length ts" for k
    using nth_mem [OF that] 2(3) by (metis distinct.simps(2) image_eqI list.set_map list.simps(9))
  moreover have "dom (map_of m) = t_Name ` set (t # ts)" using IH(3) m by simp
  ultimately show ?case using IH(1,2,4) m by (auto simp: nth_Cons split: nat.splits)
qed simp

lemma filter_one: "distinct xs \<Longrightarrow> x \<in> set xs \<Longrightarrow> filter (\<lambda>y. y = x) xs = [x]"
proof (induction xs)
  case (Cons y ys)
  then show ?case by (cases "x \<in> set ys") (auto simp: filter_empty_conv)
qed simp

lemma grouped_single:
  assumes "distinct (map t_Name ts)"
  shows "grouped ts (single_pods 0 ts)"
proof -
  obtain m ps where s: "single_pods 0 ts = (m, ps)" by (cases "single_pods 0 ts")
  note p = single_pods_grouped [OF s assms]
  have "i < length ps \<and> mset (pod_tasks (ps ! i)) = mset (filter (\<lambda>t. map_of m (t_Name t) = Some i) ts)"
    if "i \<in> ran (map_of m)" for i
  proof -
    from that obtain n where n: "map_of m n = Some i" by (auto simp: ran_def)
    with p have "n \<in> t_Name ` set ts" by blast
    then obtain k where k: "k < length ts" "n = t_Name (ts ! k)" by (auto simp: in_set_conv_nth)
    with p n have ik: "i = k" by simp
    have "filter (\<lambda>t. map_of m (t_Name t) = Some i) ts = filter (\<lambda>t. t = ts ! i) ts"
    proof (rule filter_cong)
      fix t assume "t \<in> set ts"
      then obtain b where "b < length ts" "t = ts ! b" by (auto simp: in_set_conv_nth)
      moreover have "distinct ts" using assms by (auto simp: distinct_map)
      ultimately show "(map_of m (t_Name t) = Some i) = (t = ts ! i)" using p k ik by (auto simp: nth_eq_iff_index_eq)
    qed simp
    also have "mset \<dots> = {#ts ! i#}"
      using k ik assms filter_one [of ts "ts ! i"] by (simp add: distinct_map)
    finally show ?thesis using p k ik by simp
  qed
  then have "\<forall>i \<in> ran (map_of m). i < length ps \<and>
      mset (pod_tasks (ps ! i)) = mset (filter (\<lambda>t. map_of m (t_Name t) = Some i) ts)" by blast
  moreover have "\<forall>k < length ps. pod_index (ps ! k) = k" using p by simp
  ultimately show ?thesis unfolding grouped_def s prod.case using p by blast
qed

lemma update_all_lookup:
  "map_of (fold (\<lambda>t m. AList.update (t_Name t) p m) us m) n = (if n \<in> t_Name ` set us then Some p else map_of m n)"
  by (induction us arbitrary: m) (auto simp: update_conv')

lemma update_all_distinct:
  "distinct (map fst m) \<Longrightarrow> distinct (map fst (fold (\<lambda>t m. AList.update (t_Name t) p m) us m))"
  by (induction us arbitrary: m) (auto simp: distinct_update)

text \<open>Grouping two tasks merges their pods.\<close>

lemma group_tasks_step:
  assumes "grouped ts (m, ps)" "group_tasks n1 n2 (m, ps) = Inr (m', ps')"
  obtains p1 p2 where "map_of m n1 = Some p1" "map_of m n2 = Some p2"
    "map_of m' = (\<lambda>n. if map_of m n = Some p2 then Some p1 else map_of m n)"
    "grouped ts (m', ps')"
proof -
  from assms(2) obtain p1 p2 where p: "map_of m n1 = Some p1" "map_of m n2 = Some p2"
    by (auto simp: group_tasks_def split: option.splits)
  show ?thesis
  proof (cases "p1 = p2")
    case True
    with p assms(2) have s: "m' = m" "ps' = ps" by (simp_all add: group_tasks_def)
    have "map_of m' = (\<lambda>n. if map_of m n = Some p2 then Some p1 else map_of m n)"
      using True s by (intro ext) simp
    with p assms(1) s that show ?thesis by simp
  next
    case False
    let ?moved = "pod_tasks (ps ! p2)"
    have m': "m' = fold (\<lambda>t m. AList.update (t_Name t) p1 m) ?moved m"
      and ps': "ps' = ps[p1 := (ps ! p1)\<lparr>pod_tasks := pod_tasks (ps ! p1) @ ?moved\<rparr>]"
      using assms(2) p False by (auto simp: group_tasks_def Let_def)
    have g: "distinct (map fst m)" "dom (map_of m) = t_Name ` set ts" "\<forall>i < length ps. pod_index (ps ! i) = i"
      "\<And>i. i \<in> ran (map_of m) \<Longrightarrow> i < length ps \<and>
         mset (pod_tasks (ps ! i)) = mset (filter (\<lambda>t. map_of m (t_Name t) = Some i) ts)"
      using assms(1) by (auto simp: grouped_def)
    have r: "p1 \<in> ran (map_of m)" "p2 \<in> ran (map_of m)" using p by (auto simp: ran_def)
    note g1 = g(4) [OF r(1)] and g2 = g(4) [OF r(2)]
    have "set ?moved = set (filter (\<lambda>t. map_of m (t_Name t) = Some p2) ts)" using g2 mset_eq_setD by blast
    moreover have "n \<in> t_Name ` set ts" if "map_of m n = Some p2" for n using that g(2) by blast
    ultimately have moved: "n \<in> t_Name ` set ?moved \<longleftrightarrow> map_of m n = Some p2" for n by auto
    have l: "map_of m' = (\<lambda>n. if map_of m n = Some p2 then Some p1 else map_of m n)"
      unfolding m' update_all_lookup moved ..
    have "i < length ps' \<and> mset (pod_tasks (ps' ! i)) = mset (filter (\<lambda>t. map_of m' (t_Name t) = Some i) ts)"
      if i: "i \<in> ran (map_of m')" for i
    proof -
      from i have i: "i \<in> ran (map_of m)" "i \<noteq> p2" using False r(1) by (auto simp: l ran_def split: if_splits)
      note gi = g(4) [OF i(1)]
      show ?thesis
      proof (cases "i = p1")
        case False
        then have "(map_of m' n = Some i) = (map_of m n = Some i)" for n using i by (auto simp: l)
        with False gi show ?thesis by (simp add: ps')
      next
        case True
        have "mset (filter (\<lambda>t. map_of m' (t_Name t) = Some p1) us) =
            mset (filter (\<lambda>t. map_of m (t_Name t) = Some p1) us) + mset (filter (\<lambda>t. map_of m (t_Name t) = Some p2) us)"
          for us using \<open>p1 \<noteq> p2\<close> by (induction us) (auto simp: l)
        note split = this [of ts]
        show ?thesis using True g1 g2 split by (simp add: ps' l)
      qed
    qed
    moreover have "dom (map_of m') = t_Name ` set ts" using g(2) p by (auto simp: l dom_def split: if_splits)
    moreover have "\<forall>i < length ps'. pod_index (ps' ! i) = i" using g(3) g1 by (simp add: ps' nth_list_update)
    moreover have "distinct (map fst m')" unfolding m' by (rule update_all_distinct [OF g(1)])
    ultimately have "grouped ts (m', ps')" by (simp add: grouped_def)
    with p l that show ?thesis by blast
  qed
qed

text \<open>Two names in one pod, and states in which more names are together.\<close>

definition together :: "pods \<Rightarrow> string \<Rightarrow> string \<Rightarrow> bool" where
  "together s a b \<longleftrightarrow> map_of (fst s) a = map_of (fst s) b"

definition coarser :: "pods \<Rightarrow> pods \<Rightarrow> bool" where
  "coarser s s' \<longleftrightarrow> (\<forall>a b. together s a b \<longrightarrow> together s' a b)"

lemma coarser_simps: "coarser s s" "coarser s s' \<Longrightarrow> coarser s' s'' \<Longrightarrow> coarser s s''"
  "together s a b \<Longrightarrow> coarser s s' \<Longrightarrow> together s' a b"
  by (auto simp: coarser_def)

lemma group_tasks_keeps:
  assumes "grouped ts s" "group_tasks n1 n2 s = Inr s'"
  shows "grouped ts s'" "together s' n1 n2" "coarser s s'"
proof -
  obtain m ps where s: "s = (m, ps)" by (cases s)
  obtain m' ps' where s': "s' = (m', ps')" by (cases s')
  from group_tasks_step [OF assms [unfolded s s']] obtain p1 p2 where
    p: "map_of m n1 = Some p1" "map_of m n2 = Some p2"
      "map_of m' = (\<lambda>n. if map_of m n = Some p2 then Some p1 else map_of m n)" and g: "grouped ts (m', ps')" .
  show "grouped ts s'" using g s' by simp
  show "together s' n1 n2" using p s' by (simp add: together_def)
  show "coarser s s'" using p s s' by (simp add: together_def coarser_def)
qed

lemma group_tasks_ok:
  assumes "grouped ts s" "n1 \<in> t_Name ` set ts" "n2 \<in> t_Name ` set ts"
  shows "is_ok (group_tasks n1 n2 s)"
proof -
  obtain m ps where s: "s = (m, ps)" by (cases s)
  with assms have "map_of m n1 \<noteq> None" "map_of m n2 \<noteq> None" by (auto simp: grouped_def)
  with s show ?thesis by (auto simp: group_tasks_def Let_def)
qed

text \<open>A loop whose every round makes its own fact true and keeps the facts of the others.\<close>

lemma fold_res_establishes:
  assumes "fold_res f xs s = Inr s'" "P s"
    and step: "\<And>x s s'. x \<in> set xs \<Longrightarrow> P s \<Longrightarrow> f x s = Inr s' \<Longrightarrow> P s' \<and> Q x s' \<and> le s s'"
    and le: "\<And>s. le s s" "\<And>s s' s''. le s s' \<Longrightarrow> le s' s'' \<Longrightarrow> le s s''" "\<And>x s s'. Q x s \<Longrightarrow> le s s' \<Longrightarrow> Q x s'"
  shows "P s' \<and> (\<forall>x \<in> set xs. Q x s') \<and> le s s'"
  using assms(1,2) step
proof (induction xs arbitrary: s)
  case (Cons x xs)
  from Cons.prems(1) obtain s1 where s1: "f x s = Inr s1" "fold_res f xs s1 = Inr s'" by auto
  from Cons.prems(3) [OF _ Cons.prems(2) s1(1)] have 1: "P s1" "Q x s1" "le s s1" by simp_all
  have "P s' \<and> (\<forall>x \<in> set xs. Q x s') \<and> le s1 s'"
    by (rule Cons.IH [OF s1(2) 1(1)]) (rule Cons.prems(3), simp_all)
  with 1 le show ?case by (metis set_ConsD)
qed (simp add: le)

lemma fold_group_tasks:
  assumes "fold_res (group_tasks n) ns s = Inr s'" "grouped ts s"
  shows "grouped ts s' \<and> (\<forall>x \<in> set ns. together s' n x) \<and> coarser s s'"
proof (rule fold_res_establishes [where P = "grouped ts" and Q = "\<lambda>x s. together s n x" and le = coarser, OF assms])
  show "grouped ts s' \<and> together s' n x \<and> coarser s s'"
    if "x \<in> set ns" "grouped ts s" "group_tasks n x s = Inr s'" for x s s'
    using group_tasks_keeps [OF that(2,3)] by simp
qed (auto intro: coarser_simps)

lemma group_with_keeps:
  assumes "group_with t s = Inr s'" "grouped ts s"
  shows "grouped ts s' \<and> (\<forall>x \<in> set (t_VolumesFrom t) \<union> set (t_After t). together s' (t_Name t) x) \<and> coarser s s'"
proof -
  from assms(1) obtain s1 where s1: "fold_res (group_tasks (t_Name t)) (t_VolumesFrom t) s = Inr s1"
      "fold_res (group_tasks (t_Name t)) (t_After t) s1 = Inr s'"
    by (auto simp: group_with_def)
  from fold_group_tasks [OF s1(1) assms(2)] have 1: "grouped ts s1" "coarser s s1"
      "\<forall>x \<in> set (t_VolumesFrom t). together s1 (t_Name t) x" by simp_all
  from fold_group_tasks [OF s1(2) 1(1)] 1 coarser_simps show ?thesis by blast
qed

lemma group_with_all:
  assumes "fold_res group_with us s = Inr s'" "grouped ts s"
  shows "grouped ts s' \<and>
    (\<forall>t \<in> set us. \<forall>x \<in> set (t_VolumesFrom t) \<union> set (t_After t). together s' (t_Name t) x) \<and> coarser s s'"
proof (rule fold_res_establishes [where P = "grouped ts" and le = coarser and
        Q = "\<lambda>t s. \<forall>x \<in> set (t_VolumesFrom t) \<union> set (t_After t). together s (t_Name t) x", OF assms])
  show "grouped ts s' \<and> (\<forall>x \<in> set (t_VolumesFrom t) \<union> set (t_After t). together s' (t_Name t) x) \<and> coarser s s'"
    if "t \<in> set us" "grouped ts s" "group_with t s = Inr s'" for t s s'
    using group_with_keeps [OF that(3,2)] .
qed (blast intro: coarser_simps)+

lemma fold_res_is_ok:
  assumes "P s" "\<And>x s. x \<in> set xs \<Longrightarrow> P s \<Longrightarrow> is_ok (f x s)"
    and "\<And>x s s'. x \<in> set xs \<Longrightarrow> P s \<Longrightarrow> f x s = Inr s' \<Longrightarrow> P s'"
  shows "is_ok (fold_res f xs s)"
  using assms
proof (induction xs arbitrary: s)
  case (Cons x xs)
  from Cons.prems(1,2) have "is_ok (f x s)" by simp
  then obtain s1 where s1: "f x s = Inr s1" by (cases "f x s") simp_all
  have "P s1" by (rule Cons.prems(3) [OF _ Cons.prems(1) s1]) simp
  then have "is_ok (fold_res f xs s1)" by (rule Cons.IH) (rule Cons.prems; simp)+
  with s1 show ?case by simp
qed simp

lemma group_with_ok:
  assumes "grouped ts s" "t \<in> set ts" "set (t_VolumesFrom t) \<union> set (t_After t) \<subseteq> t_Name ` set ts"
  shows "is_ok (group_with t s)"
proof -
  have ok: "is_ok (fold_res (group_tasks (t_Name t)) ns s)" if "set ns \<subseteq> t_Name ` set ts" "grouped ts s" for ns s
  proof (rule fold_res_is_ok [of "grouped ts"])
    show "is_ok (group_tasks (t_Name t) x s)" if "x \<in> set ns" "grouped ts s" for x s
      using that \<open>set ns \<subseteq> t_Name ` set ts\<close> assms(2) by (auto intro: group_tasks_ok)
  qed (use that group_tasks_keeps in auto)
  from ok [of "t_VolumesFrom t" s] assms obtain s1 where s1: "fold_res (group_tasks (t_Name t)) (t_VolumesFrom t) s = Inr s1"
    by (cases "fold_res (group_tasks (t_Name t)) (t_VolumesFrom t) s") auto
  from fold_group_tasks [OF this assms(1)] ok [of "t_After t" s1] assms(3) s1 show ?thesis by (simp add: group_with_def)
qed

section \<open>The pods of a task group\<close>

lemma mset_partition:
  assumes "distinct is"
  shows "mset (concat (map (\<lambda>i. filter (\<lambda>t. f t = Some i) ts) is)) = mset (filter (\<lambda>t. f t \<in> Some ` set is) ts)"
  using assms
proof (induction "is")
  case (Cons i "is")
  have "mset (filter (\<lambda>t. f t \<in> Some ` set (i # is)) us) =
      mset (filter (\<lambda>t. f t = Some i) us) + mset (filter (\<lambda>t. f t \<in> Some ` set is) us)" for us
    using Cons.prems by (induction us) auto
  with Cons show ?case by simp
qed simp

lemma mset_concat_map: "mset xs = mset ys \<Longrightarrow> mset (concat (map f xs)) = mset (concat (map f ys))"
proof -
  have "mset (concat (map f zs)) = \<Sum>\<^sub># (image_mset (\<lambda>x. mset (f x)) (mset zs))" for zs
    by (induction zs) simp_all
  then show "mset xs = mset ys \<Longrightarrow> mset (concat (map f xs)) = mset (concat (map f ys))" by simp
qed

lemma finish_pod_Inr:
  assumes "finish_pod tg p = Inr p'" "distinct (map t_Name (pod_tasks p))"
  shows "mset (pod_tasks p') = mset (pod_tasks p)" "ordered_to (pod_tasks p') (length (pod_tasks p'))"
    "pod_index p' = pod_index p"
proof -
  from assms(1) obtain ts where "sort_tasks (pod_tasks p) = Some ts"
      "p' = p\<lparr>pod_name := create_pod_name p tg, pod_tasks := ts\<rparr>"
    by (auto simp: finish_pod_def split: option.splits)
  with sort_tasks_sound [OF this(1) assms(2)] show "mset (pod_tasks p') = mset (pod_tasks p)"
      "ordered_to (pod_tasks p') (length (pod_tasks p'))" "pod_index p' = pod_index p" by simp_all
qed

text \<open>The pods before their tasks are sorted: one for every address of the map.\<close>

lemma grouped_facts:
  assumes "grouped ts (m, ps)" "distinct (map t_Name ts)"
  shows "i \<in> set (map snd m) \<Longrightarrow> distinct (map t_Name (pod_tasks (ps ! i)))"
    and "i \<in> set (map snd m) \<Longrightarrow> t \<in> set (pod_tasks (ps ! i)) \<longleftrightarrow> t \<in> set ts \<and> map_of m (t_Name t) = Some i"
    and "mset (concat (map (\<lambda>i. pod_tasks (ps ! i)) (remdups (map snd m)))) = mset ts"
    and "t \<in> set ts \<Longrightarrow> \<exists>i \<in> set (map snd m). map_of m (t_Name t) = Some i"
proof -
  have r: "set (map snd m) = ran (map_of m)" using assms(1) by (simp add: grouped_def ran_distinct)
  have g: "mset (pod_tasks (ps ! i)) = mset (filter (\<lambda>t. map_of m (t_Name t) = Some i) ts)" if "i \<in> set (map snd m)" for i
    using that assms(1) unfolding r by (auto simp: grouped_def)
  show in_map: "\<exists>i \<in> set (map snd m). map_of m (t_Name t) = Some i" if t: "t \<in> set ts" for t
  proof -
    have "t_Name t \<in> dom (map_of m)" using assms(1) t by (simp add: grouped_def)
    then show ?thesis unfolding r by (auto simp: ran_def)
  qed
  show "i \<in> set (map snd m) \<Longrightarrow> distinct (map t_Name (pod_tasks (ps ! i)))"
    using distinct_mset [OF g] distinct_map_filter [OF assms(2)] by blast
  show "i \<in> set (map snd m) \<Longrightarrow> t \<in> set (pod_tasks (ps ! i)) \<longleftrightarrow> t \<in> set ts \<and> map_of m (t_Name t) = Some i"
    using mset_eq_setD [OF g] by auto
  have "mset (concat (map (\<lambda>i. pod_tasks (ps ! i)) is)) =
      mset (concat (map (\<lambda>i. filter (\<lambda>t. map_of m (t_Name t) = Some i) ts) is))" if "set is \<subseteq> set (map snd m)" for "is"
    using that g by (induction "is") simp_all
  then have "mset (concat (map (\<lambda>i. pod_tasks (ps ! i)) (remdups (map snd m)))) =
      mset (filter (\<lambda>t. map_of m (t_Name t) \<in> Some ` set (map snd m)) ts)"
    using mset_partition [of "remdups (map snd m)"] by (metis distinct_remdups set_remdups subset_refl)
  also have "filter (\<lambda>t. map_of m (t_Name t) \<in> Some ` set (map snd m)) ts = ts"
    using in_map by (subst filter_id_conv) blast
  finally show "mset (concat (map (\<lambda>i. pod_tasks (ps ! i)) (remdups (map snd m)))) = mset ts" .
qed

text \<open>Without the policy \<^verbatim>\<open>all\<close>: the map, and the list it is turned into.\<close>

lemma pods_of_map:
  assumes "group_task_into_pods tg = Inr ps" "distinct (map t_Name (g_Tasks tg))"
    and "\<not> restart_policy_is_all (g_RestartPolicy tg)"
  obtains m st where "grouped (g_Tasks tg) (m, st)"
    "\<forall>t \<in> set (g_Tasks tg). \<forall>x \<in> set (t_VolumesFrom t) \<union> set (t_After t). map_of m (t_Name t) = map_of m x"
    "\<exists>result. map_res (\<lambda>i. finish_pod tg (st ! i)) (remdups (map snd m)) = Inr result \<and> mset ps = mset result"
    "\<forall>p \<in> set ps. pod_validate p = Inr ()"
proof -
  from assms obtain m st result where
    s: "fold_res group_with (g_Tasks tg) (single_pods 0 (g_Tasks tg)) = Inr (m, st)"
      "map_res (\<lambda>i. finish_pod tg (st ! i)) (remdups (map snd m)) = Inr result"
      "ps = go_sort pod_index result" "\<forall>p \<in> set ps. pod_validate p = Inr ()"
    by (auto simp: group_task_into_pods_def Let_def)
  note g = group_with_all [OF s(1) grouped_single [OF assms(2)]]
  show ?thesis by (rule that [of m st]) (use g s in \<open>auto simp: together_def\<close>)
qed

lemma pods_partition:
  assumes "group_task_into_pods tg = Inr ps" "distinct (map t_Name (g_Tasks tg))"
  shows "mset (concat (map pod_tasks ps)) = mset (g_Tasks tg)"
proof (cases "restart_policy_is_all (g_RestartPolicy tg)")
  case True
  with assms show ?thesis by (auto simp: group_task_into_pods_def Let_def)
next
  case False
  from pods_of_map [OF assms False] obtain m st result where
    m: "grouped (g_Tasks tg) (m, st)" "map_res (\<lambda>i. finish_pod tg (st ! i)) (remdups (map snd m)) = Inr result"
      "mset ps = mset result" by metis
  note f = grouped_facts [OF m(1) assms(2)]
  have "mset (concat (map pod_tasks result)) = mset (concat (map (\<lambda>i. pod_tasks (st ! i)) is))"
    if "list_all2 (\<lambda>i p. finish_pod tg (st ! i) = Inr p) is result" "set is \<subseteq> set (map snd m)" for "is" result
    using that by (induction rule: list_all2_induct) (simp_all add: finish_pod_Inr(1) f(1))
  from this [OF m(2) [unfolded map_res_ok]] f(3) mset_concat_map [OF m(3), of pod_tasks] show ?thesis
    by simp
qed

lemma pods_keep_together:
  assumes "group_task_into_pods tg = Inr ps" "distinct (map t_Name (g_Tasks tg))"
    and "p \<in> set ps" "t \<in> set (pod_tasks p)" "t' \<in> set (g_Tasks tg)"
    and "t_Name t' \<in> set (t_VolumesFrom t) \<union> set (t_After t)"
  shows "t' \<in> set (pod_tasks p)"
proof (cases "restart_policy_is_all (g_RestartPolicy tg)")
  case True
  with assms show ?thesis by (auto simp: group_task_into_pods_def Let_def)
next
  case False
  from pods_of_map [OF assms(1,2) False] obtain m st result where
    m: "grouped (g_Tasks tg) (m, st)" "map_res (\<lambda>i. finish_pod tg (st ! i)) (remdups (map snd m)) = Inr result"
      "mset ps = mset result"
      "\<forall>t \<in> set (g_Tasks tg). \<forall>x \<in> set (t_VolumesFrom t) \<union> set (t_After t). map_of m (t_Name t) = map_of m x"
    by metis
  note f = grouped_facts [OF m(1) assms(2)]
  have "p \<in> set result" using assms(3) mset_eq_setD [OF m(3)] by simp
  then obtain i where i: "i \<in> set (remdups (map snd m))" "finish_pod tg (st ! i) = Inr p"
    using map_res_set [OF m(2)] by blast
  then have s: "set (pod_tasks p) = set (pod_tasks (st ! i))"
    using finish_pod_Inr(1) [OF i(2)] f(1) [of i] mset_eq_setD by (metis set_remdups)
  then show ?thesis using f(2) [of i] i(1) assms(4-6) m(4) by (metis set_remdups)
qed

lemma pods_ordered:
  assumes "group_task_into_pods tg = Inr ps" "distinct (map t_Name (g_Tasks tg))"
    and "\<not> restart_policy_is_all (g_RestartPolicy tg)" "p \<in> set ps"
  shows "ordered_to (pod_tasks p) (length (pod_tasks p))"
proof -
  from pods_of_map [OF assms(1-3)] obtain m st result where
    m: "grouped (g_Tasks tg) (m, st)" "map_res (\<lambda>i. finish_pod tg (st ! i)) (remdups (map snd m)) = Inr result"
      "mset ps = mset result"
    by metis
  have "p \<in> set result" using assms(4) mset_eq_setD [OF m(3)] by simp
  then obtain i where "i \<in> set (remdups (map snd m))" "finish_pod tg (st ! i) = Inr p"
    using map_res_set [OF m(2)] by blast
  with grouped_facts(1) [OF m(1) assms(2)] finish_pod_Inr(2) show ?thesis by auto
qed

section \<open>Cycles\<close>

lemma map_res_Err:
  assumes "\<forall>x \<in> set xs. f x = Inl e \<or> is_ok (f x)"
  shows "map_res f xs = Inl e \<longleftrightarrow> (\<exists>x \<in> set xs. f x = Inl e)" "is_ok (map_res f xs) \<longleftrightarrow> (\<forall>x \<in> set xs. is_ok (f x))"
proof -
  have "(map_res f xs = Inl e \<longleftrightarrow> (\<exists>x \<in> set xs. f x = Inl e)) \<and>
      (is_ok (map_res f xs) \<longleftrightarrow> (\<forall>x \<in> set xs. is_ok (f x)))"
    using assms
  proof (induction xs)
    case (Cons x xs)
    then have IH: "map_res f xs = Inl e \<longleftrightarrow> (\<exists>x \<in> set xs. f x = Inl e)"
      "is_ok (map_res f xs) \<longleftrightarrow> (\<forall>x \<in> set xs. is_ok (f x))" by simp_all
    from Cons.prems have "f x = Inl e \<or> is_ok (f x)" by simp
    then show ?case
      by (cases "f x"; cases "map_res f xs"; use IH in \<open>simp\<close>)
  qed simp
  then show "map_res f xs = Inl e \<longleftrightarrow> (\<exists>x \<in> set xs. f x = Inl e)"
    "is_ok (map_res f xs) \<longleftrightarrow> (\<forall>x \<in> set xs. is_ok (f x))" by simp_all
qed

lemma pod_validate_returns: "iter_res pod_validate ps \<noteq> Inl Hang"
proof (induction ps)
  case (Cons p ps)
  have "pod_validate p \<noteq> Inl Hang" by (simp add: pod_validate_def)
  with Cons show ?case by (cases "pod_validate p") simp_all
qed simp

lemma after_rel_mono: "set ts \<subseteq> set us \<Longrightarrow> after_rel ts \<subseteq> after_rel us"
  unfolding after_rel_def by blast

text \<open>A walk along the relation stays in the pod it starts in, so a cycle is the cycle of one pod.\<close>

lemma cycle_in_pod:
  assumes g: "grouped ts (m, ps)" "distinct (map t_Name ts)"
    and t: "\<forall>t \<in> set ts. \<forall>x \<in> set (t_After t). map_of m (t_Name t) = map_of m x"
    and xy: "(x, y) \<in> (after_rel ts)\<^sup>+" and i: "i \<in> set (map snd m)" "map_of m x = Some i"
  shows "(x, y) \<in> (after_rel (pod_tasks (ps ! i)))\<^sup>+ \<and> map_of m y = Some i"
  using xy
proof (induction rule: trancl_induct)
  have along: "(a, b) \<in> after_rel (pod_tasks (ps ! i)) \<and> map_of m b = Some i"
    if ab: "(a, b) \<in> after_rel ts" "map_of m a = Some i" for a b
  proof -
    from ab(1) obtain v u where vu: "v \<in> set ts" "u \<in> set ts" "b = t_Name v" "a = t_Name u"
        "t_Name u \<in> set (t_After v)" "t_Name u \<noteq> t_Name v"
      unfolding after_rel_def by blast
    have "map_of m (t_Name v) = map_of m (t_Name u)" using t vu by blast
    then have b: "map_of m b = Some i" using ab(2) vu by simp
    have "v \<in> set (pod_tasks (ps ! i))" "u \<in> set (pod_tasks (ps ! i))"
      using grouped_facts(2) [OF g i(1)] vu b ab(2) by auto
    from after_relI [OF this vu(5,6)] b vu(3,4) show ?thesis by simp
  qed
  {
    case (base y)
    from along [OF base i(2)] show ?case by blast
  next
    case (step y z)
    from step(3) along [OF step(2)] show ?case by (meson trancl.trancl_into_trancl)
  }
qed

lemma acyclic_pods:
  assumes g: "grouped ts (m, ps)" "distinct (map t_Name ts)"
    and t: "\<forall>t \<in> set ts. \<forall>x \<in> set (t_After t). map_of m (t_Name t) = map_of m x"
  shows "acyclic (after_rel ts) \<longleftrightarrow> (\<forall>i \<in> set (map snd m). acyclic (after_rel (pod_tasks (ps ! i))))"
proof
  assume "acyclic (after_rel ts)"
  moreover have "after_rel (pod_tasks (ps ! i)) \<subseteq> after_rel ts" if "i \<in> set (map snd m)" for i
    using grouped_facts(2) [OF g that] by (intro after_rel_mono) auto
  ultimately show "\<forall>i \<in> set (map snd m). acyclic (after_rel (pod_tasks (ps ! i)))" using acyclic_subset by blast
next
  assume a: "\<forall>i \<in> set (map snd m). acyclic (after_rel (pod_tasks (ps ! i)))"
  show "acyclic (after_rel ts)" unfolding acyclic_def
  proof (intro allI notI)
    fix x assume x: "(x, x) \<in> (after_rel ts)\<^sup>+"
    then obtain y where "(x, y) \<in> after_rel ts" by (metis tranclD)
    then obtain u where "u \<in> set ts" "x = t_Name u" unfolding after_rel_def by blast
    then obtain i where i: "i \<in> set (map snd m)" "map_of m x = Some i" using grouped_facts(4) [OF g] by blast
    from cycle_in_pod [OF g t x i] a i(1) show False by (auto simp: acyclic_def)
  qed
qed

lemma group_hangs:
  assumes "\<not> restart_policy_is_all (g_RestartPolicy tg)" "distinct (map t_Name (g_Tasks tg))"
    and "\<forall>t \<in> set (g_Tasks tg). set (t_VolumesFrom t) \<union> set (t_After t) \<subseteq> t_Name ` set (g_Tasks tg)"
  shows "group_task_into_pods tg = Inl Hang \<longleftrightarrow> \<not> acyclic (after_rel (g_Tasks tg))"
proof -
  let ?ts = "g_Tasks tg"
  have "is_ok (fold_res group_with ?ts (single_pods 0 ?ts))"
  proof (rule fold_res_is_ok [of "grouped ?ts"])
    show "grouped ?ts (single_pods 0 ?ts)" by (rule grouped_single [OF assms(2)])
    show "is_ok (group_with t s)" if "t \<in> set ?ts" "grouped ?ts s" for t s
      using group_with_ok [OF that(2,1)] assms(3) that(1) by simp
    show "grouped ?ts s'" if "t \<in> set ?ts" "grouped ?ts s" "group_with t s = Inr s'" for t s s'
      using group_with_keeps [OF that(3,2)] by simp
  qed
  then obtain m st where s: "fold_res group_with ?ts (single_pods 0 ?ts) = Inr (m, st)"
    by (cases "fold_res group_with ?ts (single_pods 0 ?ts)") auto
  note g = group_with_all [OF s grouped_single [OF assms(2)]]
  then have gr: "grouped ?ts (m, st)" and t: "\<forall>t \<in> set ?ts. \<forall>x \<in> set (t_After t). map_of m (t_Name t) = map_of m x"
    by (auto simp: together_def)
  let ?f = "\<lambda>i. finish_pod tg (st ! i)"
  have f: "?f i = Inl Hang \<or> is_ok (?f i)" for i by (simp add: finish_pod_def split: option.splits)
  then have m: "map_res ?f (remdups (map snd m)) = Inl Hang \<longleftrightarrow> (\<exists>i \<in> set (map snd m). ?f i = Inl Hang)"
    "is_ok (map_res ?f (remdups (map snd m))) \<longleftrightarrow> (\<forall>i \<in> set (map snd m). is_ok (?f i))"
    using map_res_Err [of "remdups (map snd m)" ?f Hang] by (simp_all only: set_remdups) blast+
  have "group_task_into_pods tg = Inl Hang \<longleftrightarrow> map_res ?f (remdups (map snd m)) = Inl Hang"
    using assms(1) s pod_validate_returns
    by (cases "map_res ?f (remdups (map snd m))") (auto simp: group_task_into_pods_def Let_def rbind_eq_Err)
  also have "\<dots> \<longleftrightarrow> (\<exists>i \<in> set (map snd m). sort_tasks (pod_tasks (st ! i)) = None)"
    unfolding m by (auto simp: finish_pod_def split: option.splits)
  also have "\<dots> \<longleftrightarrow> (\<exists>i \<in> set (map snd m). \<not> acyclic (after_rel (pod_tasks (st ! i))))"
    using sort_tasks_returns grouped_facts(1) [OF gr assms(2)] by (metis not_None_eq)
  also have "\<dots> \<longleftrightarrow> \<not> acyclic (after_rel ?ts)" using acyclic_pods [OF gr assms(2) t] by blast
  finally show ?thesis .
qed

end
