(* ===== verification/K8sObjects.thy ===== *)
theory K8sObjects
  imports Encoding "HOL-Library.AList"
begin

text \<open>
  The Kubernetes resources the renderer builds: the types of
  \<^verbatim>\<open>deps/github.com/YakLabs/k8s-client\<close> with the fields the code sets, their
  constructors, and the JSON form of the values that are stored in annotations. A map with string
  keys is an association list; JSON objects made from maps have their keys sorted.
\<close>

section \<open>Metadata\<close>

record object_meta =
  om_Name :: string
  om_Namespace :: string
  om_ResourceVersion :: string
  om_Labels :: "(string \<times> string) list"
  om_Annotations :: "(string \<times> string) list"

definition new_object_meta :: "string \<Rightarrow> string \<Rightarrow> object_meta" where
  "new_object_meta namespace name =
     \<lparr>om_Name = name, om_Namespace = namespace, om_ResourceVersion = '''', om_Labels = [], om_Annotations = []\<rparr>"

definition set_label :: "string \<Rightarrow> string \<Rightarrow> object_meta \<Rightarrow> object_meta" where
  "set_label key val m = m\<lparr>om_Labels := AList.update key val (om_Labels m)\<rparr>"

definition set_annotation :: "string \<Rightarrow> string \<Rightarrow> object_meta \<Rightarrow> object_meta" where
  "set_annotation key val m = m\<lparr>om_Annotations := AList.update key val (om_Annotations m)\<rparr>"

section \<open>Containers and pods\<close>

record container_port =
  cp_HostPort :: int
  cp_ContainerPort :: int
  cp_Protocol :: string
  cp_HostIP :: string

datatype env_source = FieldRef string string | SecretKeyRef string string

record env_var =
  ev_Name :: string
  ev_Value :: string
  ev_ValueFrom :: "env_source option"

record volume_mount =
  vm_Name :: string
  vm_ReadOnly :: bool
  vm_MountPath :: string

record container =
  ct_Name :: string
  ct_Image :: string
  ct_Args :: "string list"
  ct_Ports :: "container_port list"
  ct_Env :: "env_var list"
  ct_VolumeMounts :: "volume_mount list"
  ct_TerminationMessagePath :: string
  ct_ImagePullPolicy :: string

datatype volume_source =
    EmptyDir string
  | HostPathSource string
  | SecretSource string "(string \<times> string) list" int

record k8s_volume =
  kv_Name :: string
  kv_Source :: volume_source

record pod_spec =
  ps_Volumes :: "k8s_volume list"
  ps_Containers :: "container list"
  ps_RestartPolicy :: string
  ps_DNSPolicy :: string
  ps_HostNetwork :: bool
  ps_ImagePullSecrets :: "string list"

record pod_template =
  pt_Meta :: object_meta
  pt_Spec :: pod_spec

section \<open>Affinity\<close>

record node_requirement =
  nr_Key :: string
  nr_Operator :: string
  nr_Values :: "string list"

record pod_term =
  pa_MatchLabels :: "(string \<times> string) list"
  pa_TopologyKey :: string

record affinity =
  af_Node :: "node_requirement list option"
  af_Pod :: "pod_term option"
  af_AntiPod :: "pod_term option"

section \<open>Resources\<close>

record k8s_deployment =
  kd_Meta :: object_meta
  kd_Replicas :: int
  kd_MaxUnavailable :: int
  kd_MaxSurge :: int
  kd_Template :: pod_template

record k8s_daemon_set =
  ks_Meta :: object_meta
  ks_Template :: pod_template

record k8s_job =
  kj_Meta :: object_meta
  kj_Completions :: int
  kj_Parallelism :: int
  kj_Template :: pod_template

text \<open>\<open>None\<close> is the nil map.\<close>

record k8s_secret =
  kx_Meta :: object_meta
  kx_Type :: string
  kx_Data :: "(string \<times> string) list option"

record service_port =
  sv_Name :: string
  sv_Port :: int
  sv_Protocol :: string
  sv_TargetPort :: int
  sv_NodePort :: int

record k8s_service =
  kr_Meta :: object_meta
  kr_Type :: string
  kr_Ports :: "service_port list"
  kr_Selector :: "(string \<times> string) list"
  kr_ClusterIP :: string
  kr_ExternalName :: string
  kr_SessionAffinity :: string

record ingress_backend =
  ib_ServiceName :: string
  ib_ServicePort :: int

record ingress_rule =
  ir_Host :: string
  ir_Path :: string
  ir_Backend :: ingress_backend

record k8s_ingress =
  ki_Meta :: object_meta
  ki_Rules :: "ingress_rule list"

datatype k8s_object =
    ODeployment k8s_deployment
  | ODaemonSet k8s_daemon_set
  | OJob k8s_job
  | OSecret k8s_secret
  | OService k8s_service
  | OIngress k8s_ingress

fun object_meta_of :: "k8s_object \<Rightarrow> object_meta" where
  "object_meta_of (ODeployment d) = kd_Meta d"
| "object_meta_of (ODaemonSet d) = ks_Meta d"
| "object_meta_of (OJob d) = kj_Meta d"
| "object_meta_of (OSecret d) = kx_Meta d"
| "object_meta_of (OService d) = kr_Meta d"
| "object_meta_of (OIngress d) = ki_Meta d"

definition empty_template :: pod_template where
  "empty_template = \<lparr>pt_Meta = \<lparr>om_Name = '''', om_Namespace = '''', om_ResourceVersion = '''', om_Labels = [], om_Annotations = []\<rparr>,
     pt_Spec = \<lparr>ps_Volumes = [], ps_Containers = [], ps_RestartPolicy = '''', ps_DNSPolicy = '''', ps_HostNetwork = False,
       ps_ImagePullSecrets = []\<rparr>\<rparr>"

definition new_deployment :: "string \<Rightarrow> string \<Rightarrow> k8s_deployment" where
  "new_deployment namespace name =
     \<lparr>kd_Meta = new_object_meta namespace name, kd_Replicas = 0, kd_MaxUnavailable = 0, kd_MaxSurge = 0,
      kd_Template = empty_template\<rparr>"

definition new_daemon_set :: "string \<Rightarrow> string \<Rightarrow> k8s_daemon_set" where
  "new_daemon_set namespace name = \<lparr>ks_Meta = new_object_meta namespace name, ks_Template = empty_template\<rparr>"

definition new_job :: "string \<Rightarrow> string \<Rightarrow> k8s_job" where
  "new_job namespace name =
     \<lparr>kj_Meta = new_object_meta namespace name, kj_Completions = 0, kj_Parallelism = 0, kj_Template = empty_template\<rparr>"

definition new_secret :: "string \<Rightarrow> string \<Rightarrow> k8s_secret" where
  "new_secret namespace name = \<lparr>kx_Meta = new_object_meta namespace name, kx_Type = '''', kx_Data = Some []\<rparr>"

definition new_service :: "string \<Rightarrow> string \<Rightarrow> k8s_service" where
  "new_service namespace name =
     \<lparr>kr_Meta = new_object_meta namespace name, kr_Type = ''ClusterIP'', kr_Ports = [], kr_Selector = [],
      kr_ClusterIP = '''', kr_ExternalName = '''', kr_SessionAffinity = ''None''\<rparr>"

definition new_ingress :: "string \<Rightarrow> string \<Rightarrow> k8s_ingress" where
  "new_ingress namespace name = \<lparr>ki_Meta = new_object_meta namespace name, ki_Rules = []\<rparr>"

section \<open>JSON of annotations\<close>

definition json_map :: "(string \<times> string) list \<Rightarrow> json" where
  "json_map m = JObj (map (\<lambda>(k, v). (k, JStr v)) (go_sort fst m))"

definition omit_none :: "string \<Rightarrow> ('a \<Rightarrow> json) \<Rightarrow> 'a option \<Rightarrow> (string \<times> json) list" where
  "omit_none k f x = (case x of None \<Rightarrow> [] | Some y \<Rightarrow> [(k, f y)])"

definition container_port_json :: "container_port \<Rightarrow> json" where
  "container_port_json p = JObj (
     omit_empty ''hostPort'' (JNum (cp_HostPort p)) @ [(''containerPort'', JNum (cp_ContainerPort p))] @
     omit_empty ''protocol'' (JStr (cp_Protocol p)) @ omit_empty ''hostIP'' (JStr (cp_HostIP p)))"

fun env_source_json :: "env_source \<Rightarrow> json" where
  "env_source_json (FieldRef version path) =
     JObj [(''fieldRef'', JObj [(''apiVersion'', JStr version), (''fieldPath'', JStr path)])]"
| "env_source_json (SecretKeyRef name key) =
     JObj [(''secretKeyRef'', JObj [(''name'', JStr name), (''key'', JStr key)])]"

definition env_var_json :: "env_var \<Rightarrow> json" where
  "env_var_json v = JObj (
     [(''name'', JStr (ev_Name v))] @ omit_empty ''value'' (JStr (ev_Value v)) @
     omit_none ''valueFrom'' env_source_json (ev_ValueFrom v))"

definition volume_mount_json :: "volume_mount \<Rightarrow> json" where
  "volume_mount_json m = JObj (
     [(''name'', JStr (vm_Name m))] @ omit_empty ''readOnly'' (JBool (vm_ReadOnly m)) @
     [(''mountPath'', JStr (vm_MountPath m))])"

definition container_json :: "container \<Rightarrow> json" where
  "container_json c = JObj (
     [(''name'', JStr (ct_Name c)), (''image'', JStr (ct_Image c))] @
     omit_empty ''args'' (JArr (map JStr (ct_Args c))) @
     omit_empty ''ports'' (JArr (map container_port_json (ct_Ports c))) @
     omit_empty ''env'' (JArr (map env_var_json (ct_Env c))) @
     [(''resources'', JObj [])] @
     omit_empty ''volumeMounts'' (JArr (map volume_mount_json (ct_VolumeMounts c))) @
     omit_empty ''terminationMessagePath'' (JStr (ct_TerminationMessagePath c)) @
     [(''imagePullPolicy'', JStr (ct_ImagePullPolicy c))])"

definition node_requirement_json :: "node_requirement \<Rightarrow> json" where
  "node_requirement_json r = JObj (
     omit_empty ''key'' (JStr (nr_Key r)) @ omit_empty ''operator'' (JStr (nr_Operator r)) @
     omit_empty ''values'' (JArr (map JStr (nr_Values r))))"

definition pod_term_json :: "pod_term \<Rightarrow> json" where
  "pod_term_json t =
     JObj [(''requiredDuringSchedulingIgnoredDuringExecution'',
       JArr [JObj (
         [(''labelSelector'', JObj (if pa_MatchLabels t = [] then [] else [(''matchLabels'', json_map (pa_MatchLabels t))]))] @
         omit_empty ''topologyKey'' (JStr (pa_TopologyKey t)))])]"

definition node_affinity_json :: "node_requirement list \<Rightarrow> json" where
  "node_affinity_json rs =
     JObj [(''requiredDuringSchedulingIgnoredDuringExecution'',
       JObj [(''nodeSelectorTerms'', JArr [JObj [(''matchExpressions'', JArr (map node_requirement_json rs))]])])]"

definition affinity_json :: "affinity \<Rightarrow> json" where
  "affinity_json a = JObj (
     omit_none ''nodeAffinity'' node_affinity_json (af_Node a) @
     omit_none ''podAffinity'' pod_term_json (af_Pod a) @
     omit_none ''podAntiAffinity'' pod_term_json (af_AntiPod a))"

section \<open>Lookup after update\<close>

lemma map_of_set_label [simp]:
  "map_of (om_Labels (set_label k v m)) = (map_of (om_Labels m))(k \<mapsto> v)"
  by (simp add: set_label_def update_conv')

lemma set_label_simps [simp]:
  "om_Name (set_label k v m) = om_Name m" "om_Namespace (set_label k v m) = om_Namespace m"
  "om_Annotations (set_label k v m) = om_Annotations m" "om_ResourceVersion (set_label k v m) = om_ResourceVersion m"
  by (simp_all add: set_label_def)

lemma map_of_set_annotation [simp]:
  "map_of (om_Annotations (set_annotation k v m)) = (map_of (om_Annotations m))(k \<mapsto> v)"
  by (simp add: set_annotation_def update_conv')

lemma set_annotation_simps [simp]:
  "om_Name (set_annotation k v m) = om_Name m" "om_Namespace (set_annotation k v m) = om_Namespace m"
  "om_Labels (set_annotation k v m) = om_Labels m" "om_ResourceVersion (set_annotation k v m) = om_ResourceVersion m"
  by (simp_all add: set_annotation_def)

lemma new_object_meta_simps [simp]:
  "om_Name (new_object_meta ns n) = n" "om_Namespace (new_object_meta ns n) = ns"
  "om_Labels (new_object_meta ns n) = []" "om_Annotations (new_object_meta ns n) = []"
  "om_ResourceVersion (new_object_meta ns n) = ''''"
  by (simp_all add: new_object_meta_def)

end
