(* ===== verification/PodSpecs.thy ===== *)
theory PodSpecs
  imports PodLaws K8sObjects FleetUnits
begin

text \<open>
  Pod templates: \<^verbatim>\<open>container.go\<close>, \<^verbatim>\<open>port.go\<close>,
  \<^verbatim>\<open>envvar.go\<close>, \<^verbatim>\<open>volume.go\<close>, the extraction containers of
  \<^verbatim>\<open>secret.go\<close>, \<^verbatim>\<open>affinity.go\<close>, \<^verbatim>\<open>labels.go\<close>,
  \<^verbatim>\<open>metrics.go\<close>, \<^verbatim>\<open>pod_spec.go\<close> and \<^verbatim>\<open>pod_template_spec.go\<close>
  of \<^verbatim>\<open>render/kubernetes\<close>. The SHA-256 of a host path is taken from the record
  \<open>crypto\<close>.
\<close>

record k8s_context =
  kc_Cluster :: cluster
  kc_Namespace :: string
  kc_ImageVaultMonkey :: string

definition EnvVarPodIP :: string where "EnvVarPodIP = ''J2_POD_IP''"
definition EnvVarPodName :: string where "EnvVarPodName = ''J2_POD_NAME''"
definition EnvVarNodeName :: string where "EnvVarNodeName = ''J2_NODE_NAME''"
definition EnvVarNamespace :: string where "EnvVarNamespace = ''J2_NAMESPACE''"
definition EnvVarVaultAddress :: string where "EnvVarVaultAddress = ''VAULT_ADDR''"
definition EnvVarVaultCACert :: string where "EnvVarVaultCACert = ''VAULT_CACERT''"
definition SecretClusterInfo :: string where "SecretClusterInfo = ''j2-cluster-info''"
definition SecretVaultInfo :: string where "SecretVaultInfo = ''j2-vault-info''"
definition LoadBalancerDNS :: string where "LoadBalancerDNS = ''lb-lb-srv.base''"

section \<open>Labels and annotations\<close>

definition LabelJobName :: string where "LabelJobName = ''j2.job.name''"
definition LabelTaskGroupName :: string where "LabelTaskGroupName = ''j2.taskgroup.name''"
definition LabelTaskGroupFullName :: string where "LabelTaskGroupFullName = ''j2.taskgroup.fullname''"
definition LabelPodName :: string where "LabelPodName = ''j2.pod.name''"

lemmas label_defs = LabelJobName_def LabelTaskGroupName_def LabelTaskGroupFullName_def LabelPodName_def

definition set_job_labels :: "job \<Rightarrow> object_meta \<Rightarrow> object_meta" where
  "set_job_labels j m = set_label LabelJobName (k8s_resource_name (j_Name j)) m"

definition set_task_group_labels_annotations :: "job \<Rightarrow> task_group \<Rightarrow> object_meta \<Rightarrow> object_meta" where
  "set_task_group_labels_annotations j tg m =
     set_label LabelTaskGroupFullName (k8s_resource_name (group_full_name j tg))
       (set_label LabelTaskGroupName (k8s_resource_name (g_Name tg)) (set_job_labels j m))"

definition set_pod_labels :: "job \<Rightarrow> task_group \<Rightarrow> pod \<Rightarrow> object_meta \<Rightarrow> object_meta" where
  "set_pod_labels j tg p m =
     set_label LabelPodName (k8s_resource_name (pod_name p)) (set_task_group_labels_annotations j tg m)"

definition create_pod_selector :: "(string \<times> string) list \<Rightarrow> pod \<Rightarrow> (string \<times> string) list" where
  "create_pod_selector input p = AList.update LabelPodName (k8s_resource_name (pod_name p)) input"

definition add_prometheus_annotations :: "metrics \<Rightarrow> object_meta \<Rightarrow> object_meta" where
  "add_prometheus_annotations mt m =
     (if m_Path mt \<noteq> '''' \<and> m_Port mt \<noteq> 0
      then set_annotation ''prometheus.io/port'' (itoa (m_Port mt))
             (set_annotation ''prometheus.io/path'' (m_Path mt)
               (set_annotation ''prometheus.io/scrape'' ''true'' m))
      else m)"

definition add_j2_metrics_annotations :: "metrics \<Rightarrow> object_meta \<Rightarrow> object_meta" where
  "add_j2_metrics_annotations mt m =
     (if m_RulesPath mt \<noteq> ''''
      then set_annotation ''j2.pulcy.com/metrics''
             (''['' @ metrics_json \<lparr>mr_ServiceName = '''', mr_ServicePort = m_Port mt, mr_MetricsPath = '''',
                mr_RulesPath = m_RulesPath mt\<rparr> @ '']'') m
      else m)"

fun add_metrics_of :: "task list \<Rightarrow> object_meta \<Rightarrow> object_meta" where
  "add_metrics_of [] m = m"
| "add_metrics_of (t # ts) m =
     (case t_Metrics t of
        None \<Rightarrow> add_metrics_of ts m
      | Some mt \<Rightarrow> add_j2_metrics_annotations mt (add_prometheus_annotations mt m))"

definition add_metrics_annotations :: "pod \<Rightarrow> object_meta \<Rightarrow> object_meta" where
  "add_metrics_annotations p m = add_metrics_of (pod_tasks p) m"

section \<open>Containers\<close>

definition new_container :: "string \<Rightarrow> string \<Rightarrow> container" where
  "new_container name img =
     \<lparr>ct_Name = name, ct_Image = img, ct_Args = [], ct_Ports = [], ct_Env = [], ct_VolumeMounts = [],
      ct_TerminationMessagePath = ''/dev/termination-log'', ct_ImagePullPolicy = ''Always''\<rparr>"

definition create_container_port :: "string \<Rightarrow> bool \<Rightarrow> container_port res" where
  "create_container_port port hostNetwork =
     rbind (port_mapping_parse port) (\<lambda>p.
       Inr \<lparr>cp_HostPort = (if has_host_port p then HostPort p else if hostNetwork then ContainerPort p else 0),
            cp_ContainerPort = ContainerPort p,
            cp_Protocol = (if port_is_udp p then ''UDP'' else ''TCP''),
            cp_HostIP = (if has_host_ip p then HostIP p else '''')\<rparr>)"

definition create_env_var_from_field :: "string \<Rightarrow> string \<Rightarrow> env_var" where
  "create_env_var_from_field key fieldPath =
     \<lparr>ev_Name = key, ev_Value = '''', ev_ValueFrom = Some (FieldRef ''v1'' fieldPath)\<rparr>"

definition create_env_var_from_secret :: "string \<Rightarrow> string \<Rightarrow> string \<Rightarrow> env_var" where
  "create_env_var_from_secret envKey secretName secretKey =
     \<lparr>ev_Name = envKey, ev_Value = '''', ev_ValueFrom = Some (SecretKeyRef secretName secretKey)\<rparr>"

section \<open>Volumes\<close>

definition create_volume_name :: "crypto \<Rightarrow> string \<Rightarrow> volume \<Rightarrow> string res" where
  "create_volume_name c tgName v =
     (if v_Type v = VolumeTypeLocal
      then Inr (resource_name tgName (kindVolume @ ''-'' @ take 16 (sha256_hex c (v_HostPath v))))
      else Inl OtherError)"

fun append_volumes :: "k8s_volume list \<Rightarrow> k8s_volume list \<Rightarrow> k8s_volume list" where
  "append_volumes vols [] = vols"
| "append_volumes vols (v # vs) =
     (if kv_Name v \<in> kv_Name ` set vols then append_volumes vols vs else append_volumes (vols @ [v]) vs)"

definition add_volume :: "crypto \<Rightarrow> task_group \<Rightarrow> volume \<Rightarrow> k8s_volume list \<Rightarrow> k8s_volume list res" where
  "add_volume c tg v vols =
     rbind (create_volume_name c (g_Name tg) v) (\<lambda>volName.
       if volume_is_local v
       then Inr (append_volumes vols [\<lparr>kv_Name = volName, kv_Source = HostPathSource (v_HostPath v)\<rparr>])
       else Inl OtherError)"

definition create_volumes :: "crypto \<Rightarrow> task_group \<Rightarrow> pod \<Rightarrow> k8s_volume list res" where
  "create_volumes c tg p =
     fold_res (\<lambda>t. fold_res (add_volume c tg) (t_Volumes t)) (pod_tasks p) []"

section \<open>Secrets\<close>

definition caCertPath :: string where "caCertPath = ''/etc/vault/vault.crt''"

text \<open>\<^verbatim>\<open>path.Dir\<close>: the clean form of everything up to the last slash.\<close>

definition path_dir :: "string \<Rightarrow> string" where
  "path_dir p = path_clean (rev (dropWhile (\<lambda>c. c \<noteq> CHR ''/'') (rev p)))"

definition path_base :: "string \<Rightarrow> string" where
  "path_base p =
     (if p = '''' then ''.''
      else let q = rev (dropWhile (\<lambda>c. c = CHR ''/'') (rev p));
               b = rev (takeWhile (\<lambda>c. c \<noteq> CHR ''/'') (rev q))
           in if b = '''' then ''/'' else b)"

definition vault_info_volume :: "string \<Rightarrow> k8s_volume" where
  "vault_info_volume name =
     \<lparr>kv_Name = name, kv_Source = SecretSource SecretVaultInfo [(EnvVarVaultCACert, path_base caCertPath)] 420\<rparr>"

definition vault_info_mount :: "string \<Rightarrow> volume_mount" where
  "vault_info_mount name = \<lparr>vm_Name = name, vm_ReadOnly = True, vm_MountPath = path_dir caCertPath\<rparr>"

definition vault_env :: "env_var list" where
  "vault_env =
     [create_env_var_from_secret EnvVarVaultAddress SecretVaultInfo EnvVarVaultAddress,
      create_env_var_from_field EnvVarNodeName ''spec.nodeName'',
      create_env_var_from_field EnvVarPodIP ''status.podIP'']"

definition env_ref :: "string \<Rightarrow> string" where
  "env_ref v = ''$('' @ v @ '')''"

definition create_secret_env_var_extraction_container ::
  "k8s_context \<Rightarrow> job \<Rightarrow> task_group \<Rightarrow> task \<Rightarrow> secret list \<Rightarrow> (container \<times> k8s_volume list) res" where
  "create_secret_env_var_extraction_container ctx j tg t secrets =
     (if j_ID j = '''' then Inl OtherError
      else
        let args = [''extract'', ''env'', ''--job-id'', j_ID j, ''--kubernetes-pod-name'', env_ref EnvVarNodeName,
               ''--kubernetes-pod-ip'', env_ref EnvVarPodIP,
               ''--kubernetes-cluster-info-secret-name'', SecretClusterInfo,
               ''--kubernetes-secret-name'', task_secret_name tg t, ''--vault-cacert'', caCertPath] @
              map (\<lambda>s. s_Environment s @ ''='' @ vault_path s) secrets;
            c = (new_container (resource_name (task_full_name j tg t) ''-vm'') (kc_ImageVaultMonkey ctx))
              \<lparr>ct_ImagePullPolicy := ''IfNotPresent'', ct_Args := args,
               ct_VolumeMounts := [vault_info_mount ''vault-info-env''], ct_Env := vault_env\<rparr>
        in Inr (c, [vault_info_volume ''vault-info-env'']))"

text \<open>The folder all file secrets of a task must be in.\<close>

fun secrets_folder :: "string \<Rightarrow> secret list \<Rightarrow> string res" where
  "secrets_folder folder [] = Inr folder"
| "secrets_folder folder (s # ss) =
     (let sFolder = path_dir (snd (target_file s))
      in if folder = '''' then secrets_folder sFolder ss
         else if sFolder \<noteq> folder then Inl OtherError
         else secrets_folder folder ss)"

definition secret_file_container ::
  "k8s_context \<Rightarrow> job \<Rightarrow> task_group \<Rightarrow> task \<Rightarrow> string \<Rightarrow> nat \<Rightarrow> secret \<Rightarrow> container" where
  "secret_file_container ctx j tg t folder i s =
     (new_container (resource_name (task_full_name j tg t) (''-vmf'' @ nat_str i)) (kc_ImageVaultMonkey ctx))
       \<lparr>ct_ImagePullPolicy := ''IfNotPresent'',
        ct_Args := [''extract'', ''file'', ''--job-id'', j_ID j, ''--kubernetes-pod-name'', env_ref EnvVarNodeName,
          ''--kubernetes-pod-ip'', env_ref EnvVarPodIP, ''--kubernetes-cluster-info-secret-name'', SecretClusterInfo,
          ''--vault-cacert'', caCertPath, ''--target'', snd (target_file s), vault_path s],
        ct_VolumeMounts := [\<lparr>vm_Name = ''vault-files'', vm_ReadOnly = False, vm_MountPath = folder\<rparr>,
          vault_info_mount ''vault-info-file''],
        ct_Env := vault_env\<rparr>"

fun secret_file_containers ::
  "k8s_context \<Rightarrow> job \<Rightarrow> task_group \<Rightarrow> task \<Rightarrow> string \<Rightarrow> nat \<Rightarrow> secret list \<Rightarrow> container list" where
  "secret_file_containers ctx j tg t folder i [] = []"
| "secret_file_containers ctx j tg t folder i (s # ss) =
     secret_file_container ctx j tg t folder i s # secret_file_containers ctx j tg t folder (i + 1) ss"

definition create_secret_file_extraction_containers ::
  "k8s_context \<Rightarrow> job \<Rightarrow> task_group \<Rightarrow> task \<Rightarrow> secret list \<Rightarrow>
     (container list \<times> k8s_volume list \<times> volume_mount list) res" where
  "create_secret_file_extraction_containers ctx j tg t secrets =
     (if j_ID j = '''' then Inl OtherError
      else rbind (secrets_folder '''' secrets) (\<lambda>folder.
        if folder \<in> {'''', ''.'', ''/''} then Inl OtherError
        else Inr (secret_file_containers ctx j tg t folder 0 secrets,
               [\<lparr>kv_Name = ''vault-files'', kv_Source = EmptyDir ''Memory''\<rparr>, vault_info_volume ''vault-info-file''],
               [\<lparr>vm_Name = ''vault-files'', vm_ReadOnly = True, vm_MountPath = folder\<rparr>])))"

section \<open>The containers of a task\<close>

text \<open>
  The tasks whose volumes a task mounts: a list that grows while it is walked through.
\<close>

fun add_mount_tasks :: "task list \<Rightarrow> string list \<Rightarrow> task list \<Rightarrow> task list res" where
  "add_mount_tasks pts [] mounts = Inr mounts"
| "add_mount_tasks pts (n # ns) mounts =
     (if index_by_name mounts n < 0 then
        (let otherIndex = index_by_name pts n
         in if otherIndex < 0 then Inl OtherError
            else add_mount_tasks pts ns (mounts @ [pts ! nat otherIndex]))
      else add_mount_tasks pts ns mounts)"

lemma index_by_name_bounds:
  "index_by_name ts n < 0 \<longleftrightarrow> n \<notin> t_Name ` set ts"
  "0 \<le> index_by_name ts n \<Longrightarrow> nat (index_by_name ts n) < length ts \<and> t_Name (ts ! nat (index_by_name ts n)) = n"
  using index_by_name_Some [of ts n] by (auto simp: index_by_name_def index_by_name_from)

lemma add_mount_tasks_grows:
  assumes "add_mount_tasks pts ns mounts = Inr m"
  shows "m = mounts \<or> card (t_Name ` set pts - t_Name ` set m) < card (t_Name ` set pts - t_Name ` set mounts)"
  using assms
proof (induction pts ns mounts rule: add_mount_tasks.induct)
  case (2 pts n ns mounts)
  show ?case
  proof (cases "index_by_name mounts n < 0")
    case True
    let ?i = "index_by_name pts n"
    from True 2(3) have i: "\<not> ?i < 0" and r: "add_mount_tasks pts ns (mounts @ [pts ! nat ?i]) = Inr m"
      by (auto simp: Let_def split: if_splits)
    from i index_by_name_bounds(2) [of pts n] have t: "nat ?i < length pts" "t_Name (pts ! nat ?i) = n" by simp_all
    have "n \<in> t_Name ` set pts" using t by (metis image_eqI nth_mem)
    moreover have "n \<notin> t_Name ` set mounts" using True index_by_name_bounds(1) by blast
    ultimately have "t_Name ` set pts - t_Name ` set (mounts @ [pts ! nat ?i]) \<subset> t_Name ` set pts - t_Name ` set mounts"
      using t(2) by auto
    then have "card (t_Name ` set pts - t_Name ` set (mounts @ [pts ! nat ?i])) < card (t_Name ` set pts - t_Name ` set mounts)"
      by (intro psubset_card_mono) simp_all
    with 2(1) [OF True refl i r] show ?thesis by auto
  next
    case False
    with 2 show ?thesis by simp
  qed
qed simp

function mount_loop :: "task list \<Rightarrow> nat \<Rightarrow> task list \<Rightarrow> task list res" where
  "mount_loop pts i mounts =
     (if i < length mounts then
        (case add_mount_tasks pts (t_VolumesFrom (mounts ! i)) mounts of
           Inl e \<Rightarrow> Inl e
         | Inr m \<Rightarrow> mount_loop pts (i + 1) m)
      else Inr mounts)"
  by pat_completeness auto

termination
proof (relation "measures [\<lambda>(pts, i, mounts). card (t_Name ` set pts - t_Name ` set mounts),
    \<lambda>(pts, i, mounts). length mounts - i]")
  fix pts i mounts m
  assume "i < length mounts" "add_mount_tasks pts (t_VolumesFrom (mounts ! i)) mounts = Inr m"
  with add_mount_tasks_grows [OF this(2)]
  show "((pts, i + 1, m), pts, i, mounts) \<in> measures [\<lambda>(pts, i, mounts). card (t_Name ` set pts - t_Name ` set mounts),
      \<lambda>(pts, i, mounts). length mounts - i]"
    by auto
qed simp

declare mount_loop.simps [simp del]

definition create_mount :: "crypto \<Rightarrow> string \<Rightarrow> volume \<Rightarrow> volume_mount res" where
  "create_mount c tgName v =
     rbind (create_volume_name c tgName v) (\<lambda>volName.
       Inr \<lparr>vm_Name = volName, vm_ReadOnly = volume_is_read_only v, vm_MountPath = v_Path v\<rparr>)"

definition secret_env_var :: "task_group \<Rightarrow> task \<Rightarrow> secret \<Rightarrow> env_var" where
  "secret_env_var tg t s =
     create_env_var_from_secret (snd (target_environment s)) (task_secret_name tg t) (snd (target_environment s))"

text \<open>
  The result is the init containers, the containers and the extra volumes. A secret with an environment
  target is not extracted to a file.
\<close>

definition create_task_containers ::
  "crypto \<Rightarrow> k8s_context \<Rightarrow> job \<Rightarrow> task_group \<Rightarrow> pod \<Rightarrow> task \<Rightarrow> bool \<Rightarrow>
     (container list \<times> container list \<times> k8s_volume list) res" where
  "create_task_containers c ctx j tg p t hostNetwork =
     (if is_proxy (t_Type t) then Inr ([], [], [])
      else
        rbind (map_res (\<lambda>port. create_container_port port hostNetwork) (t_Ports t)) (\<lambda>ports.
        let env = go_sort ev_Name (map (\<lambda>(k, v). \<lparr>ev_Name = k, ev_Value = v, ev_ValueFrom = None\<rparr>) (t_Environment t));
            envSecrets = filter (\<lambda>s. fst (target_environment s)) (t_Secrets t);
            fileSecrets = filter (\<lambda>s. \<not> fst (target_environment s) \<and> fst (target_file s)) (t_Secrets t);
            env = env @ map (secret_env_var tg t) envSecrets
        in
        rbind (if 0 < length envSecrets
               then rbind (create_secret_env_var_extraction_container ctx j tg t envSecrets) (\<lambda>(c, vs). Inr ([c], vs))
               else Inr ([], [])) (\<lambda>(envInit, envVols).
        rbind (if 0 < length fileSecrets then create_secret_file_extraction_containers ctx j tg t fileSecrets
               else Inr ([], [], [])) (\<lambda>(fileInit, fileVols, fileMounts).
        let env = env @ [create_env_var_from_field EnvVarPodIP ''status.podIP'',
              create_env_var_from_field EnvVarPodName ''metadata.name'',
              create_env_var_from_field EnvVarNamespace ''metadata.namespace'',
              create_env_var_from_field EnvVarNodeName ''spec.nodeName'']
        in
        rbind (mount_loop (pod_tasks p) 0 [t]) (\<lambda>mountTasks.
        rbind (map_res (create_mount c (g_Name tg)) (concat (map t_Volumes mountTasks))) (\<lambda>mounts.
          let ct = (new_container (resource_name (task_full_name j tg t) '''') (image_string (t_Image t)))
                \<lparr>ct_Args := t_Args t, ct_Ports := ports, ct_Env := env, ct_VolumeMounts := fileMounts @ mounts\<rparr>;
              init = envInit @ fileInit
          in Inr (if is_service (t_Type t) then (init, [ct], envVols @ fileVols)
                  else if is_oneshot (t_Type t) then (init @ [ct], [], envVols @ fileVols)
                  else (init, [], envVols @ fileVols))))))))"

section \<open>Affinity\<close>

text \<open>The three selectors the loop fills.\<close>

type_synonym selectors = "node_requirement list \<times> pod_term option \<times> pod_term option"

definition node_requirement_of :: "string \<Rightarrow> constraint \<Rightarrow> node_requirement res" where
  "node_requirement_of key c =
     (if operator_equals c OperatorEqual then Inr \<lparr>nr_Key = key, nr_Operator = ''In'', nr_Values = [Value c]\<rparr>
      else if operator_equals c OperatorNotEqual
        then Inr \<lparr>nr_Key = key, nr_Operator = ''NotIn'', nr_Values = [Value c]\<rparr>
      else Inl ValidationError)"

definition select_group :: "string \<Rightarrow> pod_term option \<Rightarrow> pod_term option" where
  "select_group fullName tm =
     (let labels = (case tm of None \<Rightarrow> [] | Some t \<Rightarrow> pa_MatchLabels t)
      in Some \<lparr>pa_MatchLabels = AList.update LabelTaskGroupFullName (k8s_resource_name fullName) labels,
           pa_TopologyKey = ''node''\<rparr>)"

definition add_selector :: "job \<Rightarrow> constraint \<Rightarrow> selectors \<Rightarrow> selectors res" where
  "add_selector j c s =
     (case s of (nodes, pods, antis) \<Rightarrow>
        if prefix MetaAttributePrefix (Attribute c) then
          rbind (node_requirement_of (drop (length MetaAttributePrefix) (Attribute c)) c) (\<lambda>r.
            Inr (nodes @ [r], pods, antis))
        else if Attribute c = AttributeNodeID then
          rbind (node_requirement_of ''id'' c) (\<lambda>r. Inr (nodes @ [r], pods, antis))
        else if Attribute c = AttributeTaskGroup then
          rbind (task_group_name_validate (Value c)) (\<lambda>_.
          rbind (job_task_group j (Value c)) (\<lambda>group.
            if operator_equals c OperatorEqual then Inr (nodes, select_group (group_full_name j group) pods, antis)
            else if operator_equals c OperatorNotEqual
              then Inr (nodes, pods, select_group (group_full_name j group) antis)
            else Inl ValidationError))
        else Inl ValidationError)"

definition create_affinity :: "job \<Rightarrow> constraint list \<Rightarrow> affinity option res" where
  "create_affinity j constraints =
     (if length constraints = 0 then Inr None
      else rbind (fold_res (add_selector j) constraints ([], None, None)) (\<lambda>(nodes, pods, antis).
        Inr (Some \<lparr>af_Node = (if 0 < length nodes then Some nodes else None), af_Pod = pods, af_AntiPod = antis\<rparr>)))"

section \<open>Pod templates\<close>

definition get_restart_policy :: "pod \<Rightarrow> bool \<Rightarrow> string" where
  "get_restart_policy p requireAlways =
     (if requireAlways then ''Always''
      else
        (let oneShotTasks = length (filter (\<lambda>t. is_oneshot (t_Type t)) (pod_tasks p));
             serviceTasks = length (filter (\<lambda>t. \<not> is_oneshot (t_Type t) \<and> is_service (t_Type t)) (pod_tasks p))
         in if serviceTasks = 0 \<and> 0 < oneShotTasks then ''OnFailure'' else ''Always''))"

text \<open>The variables of the loop over the tasks: host network, volumes, init containers, containers.\<close>

type_synonym spec_vars = "bool \<times> k8s_volume list \<times> container list \<times> container list"

definition add_task_containers ::
  "crypto \<Rightarrow> k8s_context \<Rightarrow> job \<Rightarrow> task_group \<Rightarrow> pod \<Rightarrow> task \<Rightarrow> spec_vars \<Rightarrow> spec_vars res" where
  "add_task_containers c ctx j tg p t s =
     (case s of (hostNetwork, vols, inits, cts) \<Rightarrow>
        let hostNetwork = (if network_is_host (t_Network t) then True else hostNetwork)
        in rbind (create_task_containers c ctx j tg p t hostNetwork) (\<lambda>(initContainers, containers, extraVols).
          Inr (hostNetwork, append_volumes vols extraVols, inits @ initContainers, cts @ containers)))"

definition init_annotations :: "container list \<Rightarrow> (string \<times> string) list" where
  "init_annotations inits =
     (if 0 < length inits
      then (let raw = json_print (JArr (map container_json inits))
            in [(''pod.alpha.kubernetes.io/init-containers'', raw), (''pod.beta.kubernetes.io/init-containers'', raw)])
      else [])"

text \<open>Without a container the last init container becomes the container of the pod.\<close>

definition create_pod_spec ::
  "crypto \<Rightarrow> k8s_context \<Rightarrow> job \<Rightarrow> task_group \<Rightarrow> pod \<Rightarrow> bool \<Rightarrow> (pod_spec \<times> (string \<times> string) list) res" where
  "create_pod_spec c ctx j tg p requireAlways =
     rbind (create_volumes c tg p) (\<lambda>volumes.
     rbind (fold_res (add_task_containers c ctx j tg p) (pod_tasks p) (False, volumes, [], [])) (\<lambda>(hostNetwork, vols, inits, cts).
       let promote = (0 < length inits \<and> length cts = 0);
           containers = (if promote then [last inits] else cts);
           inits = (if promote then butlast inits else inits)
       in Inr (\<lparr>ps_Volumes = vols, ps_Containers = containers, ps_RestartPolicy = get_restart_policy p requireAlways,
             ps_DNSPolicy = ''ClusterFirst'', ps_HostNetwork = hostNetwork,
             ps_ImagePullSecrets = RegistrySecrets (KubernetesOptions (kc_Cluster ctx))\<rparr>,
           init_annotations inits)))"

definition create_pod_template_spec ::
  "crypto \<Rightarrow> k8s_context \<Rightarrow> job \<Rightarrow> task_group \<Rightarrow> pod \<Rightarrow> bool \<Rightarrow> pod_template res" where
  "create_pod_template_spec c ctx j tg p requireAlways =
     (let meta = add_metrics_annotations p (set_pod_labels j tg p (new_object_meta (kc_Namespace ctx) (pod_name p)))
      in rbind (create_pod_spec c ctx j tg p requireAlways) (\<lambda>(spec, annotations).
        let meta = fold (\<lambda>(k, v). set_annotation k v) annotations meta;
            constraints = fold (\<lambda>t cs. constraints_merge cs (merged_constraints j tg)) (pod_tasks p) []
        in if 0 < length constraints then
             rbind (create_affinity j constraints) (\<lambda>a.
               let raw = (case a of None \<Rightarrow> ''null'' | Some a \<Rightarrow> json_print (affinity_json a))
               in Inr \<lparr>pt_Meta = set_annotation ''scheduler.alpha.kubernetes.io/affinity'' raw meta, pt_Spec = spec\<rparr>)
           else Inr \<lparr>pt_Meta = meta, pt_Spec = spec\<rparr>))"

end
