(* ===== verification/K8sRender.thy ===== *)
theory K8sRender
  imports PodSpecs FleetRender
begin

text \<open>
  The resources of a job: \<^verbatim>\<open>service.go\<close>, \<^verbatim>\<open>ingress.go\<close>,
  \<^verbatim>\<open>deployment.go\<close>, \<^verbatim>\<open>daemonset.go\<close>, \<^verbatim>\<open>job.go\<close>,
  \<^verbatim>\<open>secret.go\<close> and \<^verbatim>\<open>generator.go\<close> of
  \<^verbatim>\<open>render/kubernetes\<close>.
\<close>

text \<open>The conversion \<^verbatim>\<open>int32(i)\<close>.\<close>

definition int32 :: "int \<Rightarrow> int" where
  "int32 i = (i + 2 ^ 31) mod 2 ^ 32 - 2 ^ 31"

lemma int32_id: "- (2 ^ 31) \<le> i \<Longrightarrow> i < 2 ^ 31 \<Longrightarrow> int32 i = i"
  by (simp add: int32_def)

section \<open>Services\<close>

text \<open>An error of \<^verbatim>\<open>Parse\<close> is dropped here; the zero mapping has port 0.\<close>

definition port_found :: "string list \<Rightarrow> int \<Rightarrow> bool" where
  "port_found ports containerPort =
     list_ex (\<lambda>p. (case port_mapping_parse p of Inl _ \<Rightarrow> 0 | Inr pm \<Rightarrow> ContainerPort pm) = containerPort) ports"

definition add_port :: "int \<Rightarrow> string list \<Rightarrow> string list" where
  "add_port port ports = (if port_found ports port then ports else ports @ [itoa port])"

definition collect_ports :: "task \<Rightarrow> string list" where
  "collect_ports t =
     (let ports = fold (\<lambda>f ps. if pf_Port f \<noteq> 0 then add_port (pf_Port f) ps else ps) (t_PublicFrontEnds t) (t_Ports t);
          ports = fold (\<lambda>f ps. if vf_Port f \<noteq> 0 then add_port (vf_Port f) ps else ps) (t_PrivateFrontEnds t) ports
      in case t_Metrics t of None \<Rightarrow> ports | Some m \<Rightarrow> add_port (m_Port m) ports)"

definition get_host_mapped_ports :: "string list \<Rightarrow> string list" where
  "get_host_mapped_ports mappings =
     filter (\<lambda>m. case port_mapping_parse m of Inl _ \<Rightarrow> False | Inr pm \<Rightarrow> HostIP pm = ''0.0.0.0'') mappings"

definition service_meta :: "k8s_context \<Rightarrow> job \<Rightarrow> task_group \<Rightarrow> pod \<Rightarrow> object_meta \<Rightarrow> object_meta" where
  "service_meta ctx j tg p m = add_metrics_annotations p (set_task_group_labels_annotations j tg m)"

definition service_port_name :: "parsed_port_mapping \<Rightarrow> string" where
  "service_port_name pp = to_lower (itoa (ContainerPort pp) @ ''-'' @ protocol_string pp)"

definition create_service_port :: "string \<Rightarrow> service_port res" where
  "create_service_port port =
     rbind (port_mapping_parse port) (\<lambda>pp.
       Inr \<lparr>sv_Name = service_port_name pp, sv_Port = int32 (ContainerPort pp), sv_Protocol = protocol_string pp,
            sv_TargetPort = int32 (ContainerPort pp), sv_NodePort = 0\<rparr>)"

definition create_node_port :: "string \<Rightarrow> service_port res" where
  "create_node_port port =
     rbind (port_mapping_parse port) (\<lambda>pp.
       let hostPort = (if has_host_port pp then HostPort pp else ContainerPort pp)
       in Inr \<lparr>sv_Name = service_port_name pp, sv_Port = int32 (ContainerPort pp), sv_Protocol = protocol_string pp,
            sv_TargetPort = int32 (ContainerPort pp), sv_NodePort = int32 hostPort\<rparr>)"

definition create_pod_services ::
  "k8s_context \<Rightarrow> job \<Rightarrow> task_group \<Rightarrow> pod \<Rightarrow> task \<Rightarrow> k8s_service list res" where
  "create_pod_services ctx j tg p t =
     (let d = new_service (kc_Namespace ctx) (task_service_name tg t);
          d = d\<lparr>kr_Meta := service_meta ctx j tg p (kr_Meta d), kr_Selector := create_pod_selector (kr_Selector d) p\<rparr>
      in rbind (map_res create_service_port (collect_ports t)) (\<lambda>ports.
         let d = d\<lparr>kr_Ports := ports\<rparr>; hmPorts = get_host_mapped_ports (t_Ports t)
         in if \<not> network_is_host (t_Network t) \<and> 0 < length hmPorts then
              (let h = new_service (kc_Namespace ctx) (task_service_name tg t @ ''-host'');
                   h = h\<lparr>kr_Meta := service_meta ctx j tg p (kr_Meta h), kr_Type := ''NodePort'',
                     kr_Selector := create_pod_selector (kr_Selector h) p\<rparr>
               in rbind (map_res create_node_port hmPorts) (\<lambda>ports. Inr [d, h\<lparr>kr_Ports := ports\<rparr>]))
            else Inr [d]))"

definition create_proxy_service ::
  "k8s_context \<Rightarrow> job \<Rightarrow> task_group \<Rightarrow> pod \<Rightarrow> task \<Rightarrow> k8s_service res" where
  "create_proxy_service ctx j tg p t =
     (let d = new_service (kc_Namespace ctx) (task_service_name tg t);
          d = d\<lparr>kr_Meta := service_meta ctx j tg p (kr_Meta d), kr_Selector := [], kr_Type := ''ExternalName''\<rparr>;
          domain = ko_Domain (KubernetesOptions (kc_Cluster ctx))
      in if t_Rewrite t \<noteq> None then Inr (d\<lparr>kr_ExternalName := LoadBalancerDNS @ ''.svc.'' @ domain\<rparr>)
         else rbind (link_resolve j (t_Target t)) (\<lambda>target.
           case target of
             Inl (ttg, tt) \<Rightarrow> Inr (d\<lparr>kr_ExternalName := task_service_dns_name j ttg tt domain\<rparr>)
           | Inr dep \<Rightarrow> Inr (d\<lparr>kr_ExternalName := dependency_service_dns_name dep domain\<rparr>)))"

definition create_task_services :: "k8s_context \<Rightarrow> job \<Rightarrow> task_group \<Rightarrow> pod \<Rightarrow> task \<Rightarrow> k8s_service list res" where
  "create_task_services ctx j tg p t =
     (if is_proxy (t_Type t) then rbind (create_proxy_service ctx j tg p t) (\<lambda>s. Inr [s])
      else if is_service (t_Type t) then
        (if 0 < length (t_Ports t) \<or> 0 < length (t_PublicFrontEnds t) \<or> 0 < length (t_PrivateFrontEnds t)
         then create_pod_services ctx j tg p t else Inr [])
      else Inr [])"

definition create_services :: "k8s_context \<Rightarrow> job \<Rightarrow> task_group \<Rightarrow> pod \<Rightarrow> k8s_service list res" where
  "create_services ctx j tg p = rbind (map_res (create_task_services ctx j tg p) (pod_tasks p)) (\<lambda>ss. Inr (concat ss))"

section \<open>Ingresses\<close>

definition create_ingress_backend :: "job \<Rightarrow> task_group \<Rightarrow> task \<Rightarrow> int \<Rightarrow> ingress_backend res" where
  "create_ingress_backend j tg t port =
     (if is_proxy (t_Type t) \<and> t_Rewrite t = None then
        rbind (link_resolve j (t_Target t)) (\<lambda>target.
          case target of
            Inl (ttg, tt) \<Rightarrow>
              (let port = (if port = 0 then 80 else port)
               in Inr \<lparr>ib_ServiceName = task_service_name ttg tt, ib_ServicePort = task_public_front_end_port tt port\<rparr>)
          | Inr dep \<Rightarrow>
              Inr \<lparr>ib_ServiceName = dependency_service_name dep,
                   ib_ServicePort = (if port = 0 then dependency_private_front_end_port dep port else port)\<rparr>)
      else Inr \<lparr>ib_ServiceName = task_service_name tg t, ib_ServicePort = port\<rparr>)"

text \<open>The map from ports to backends and the rules so far.\<close>

type_synonym ingress_vars = "(int \<times> ingress_backend) list \<times> ingress_rule list"

definition add_rule :: "job \<Rightarrow> task_group \<Rightarrow> task \<Rightarrow> string \<Rightarrow> string \<Rightarrow> int \<Rightarrow> ingress_vars \<Rightarrow> ingress_vars res" where
  "add_rule j tg t host pathPrefix port s =
     (case s of (port2Backend, rules) \<Rightarrow>
        rbind (case map_of port2Backend port of
                 Some b \<Rightarrow> Inr (port2Backend, b)
               | None \<Rightarrow> rbind (create_ingress_backend j tg t port) (\<lambda>b. Inr (AList.update port b port2Backend, b)))
          (\<lambda>(port2Backend, backend).
             Inr (port2Backend, rules @ [\<lparr>ir_Host = host, ir_Path = pathPrefix, ir_Backend = backend\<rparr>])))"

definition RobinFrontendRecordsAnnotationKey :: string where
  "RobinFrontendRecordsAnnotationKey = ''pulcy.com.robin.frontend.records''"

definition create_frontend_ingress ::
  "crypto \<Rightarrow> k8s_context \<Rightarrow> job \<Rightarrow> task_group \<Rightarrow> task \<Rightarrow> k8s_ingress option res" where
  "create_frontend_ingress c ctx j tg t =
     (if length (t_PublicFrontEnds t) = 0 \<and> length (t_PrivateFrontEnds t) = 0 then Inr None
      else
        let d = new_ingress (kc_Namespace ctx) (task_ingress_name tg t);
            meta = set_task_group_labels_annotations j tg (ki_Meta d);
            host = task_service_dns_name j tg t (ko_Domain (KubernetesOptions (kc_Cluster ctx)))
        in
        rbind (fold_res (\<lambda>f. add_rule j tg t (pf_Domain f) (if pf_PathPrefix f = '''' then ''/'' else pf_PathPrefix f)
                 (pf_Port f)) (t_PublicFrontEnds t) ([], [])) (\<lambda>s.
        rbind (fold_res (\<lambda>f. add_rule j tg t host ''/'' (vf_Port f)) (t_PrivateFrontEnds t) s) (\<lambda>(port2Backend, rules).
        rbind (create_front_end_records c (k8s_frontend_names (kc_Cluster ctx)) j tg t 1 False) (\<lambda>records.
          let meta = (if 0 < length records
                then set_annotation RobinFrontendRecordsAnnotationKey
                       (''['' @ join '','' (map (\<lambda>r. frontend_json (Record r)) records) @ '']'') meta
                else meta)
          in Inr (Some (d\<lparr>ki_Meta := meta, ki_Rules := rules\<rparr>))))))"

definition create_ingresses :: "crypto \<Rightarrow> k8s_context \<Rightarrow> job \<Rightarrow> task_group \<Rightarrow> pod \<Rightarrow> k8s_ingress list res" where
  "create_ingresses c ctx j tg p =
     rbind (map_res (create_frontend_ingress c ctx j tg) (pod_tasks p)) (\<lambda>is. Inr (List.map_filter (\<lambda>i. i) is))"

section \<open>Workloads and secrets\<close>

definition create_deployments ::
  "crypto \<Rightarrow> k8s_context \<Rightarrow> job \<Rightarrow> task_group \<Rightarrow> pod \<Rightarrow> k8s_deployment list res" where
  "create_deployments c ctx j tg p =
     (if g_Global tg then Inr []
      else if \<not> has_service_tasks p then Inr []
      else
        let maxSurge = (if has_rw_host_volumes p then 0 else int_of_uint (g_Count tg));
            d = new_deployment (kc_Namespace ctx) (resource_name (pod_name p) kindDeployment)
        in rbind (create_pod_template_spec c ctx j tg p True) (\<lambda>template.
           Inr [d\<lparr>kd_Meta := set_task_group_labels_annotations j tg (kd_Meta d), kd_Replicas := int_of_uint (g_Count tg),
             kd_MaxUnavailable := 1, kd_MaxSurge := maxSurge, kd_Template := template\<rparr>]))"

definition create_daemon_sets ::
  "crypto \<Rightarrow> k8s_context \<Rightarrow> job \<Rightarrow> task_group \<Rightarrow> pod \<Rightarrow> k8s_daemon_set list res" where
  "create_daemon_sets c ctx j tg p =
     (if \<not> g_Global tg then Inr []
      else if \<not> has_service_tasks p then Inr []
      else
        let d = new_daemon_set (kc_Namespace ctx) (resource_name (pod_name p) kindDaemonSet)
        in rbind (create_pod_template_spec c ctx j tg p True) (\<lambda>template.
           Inr [d\<lparr>ks_Meta := set_task_group_labels_annotations j tg (ks_Meta d), ks_Template := template\<rparr>]))"

definition create_jobs :: "crypto \<Rightarrow> k8s_context \<Rightarrow> job \<Rightarrow> task_group \<Rightarrow> pod \<Rightarrow> k8s_job list res" where
  "create_jobs c ctx j tg p =
     (if has_service_tasks p \<or> \<not> has_oneshot_tasks p then Inr []
      else
        let d = new_job (kc_Namespace ctx) (resource_name (pod_name p) kindJob)
        in rbind (create_pod_template_spec c ctx j tg p False) (\<lambda>template.
           Inr [d\<lparr>kj_Meta := set_task_group_labels_annotations j tg (kj_Meta d), kj_Completions := 1, kj_Parallelism := 1,
             kj_Template := template\<rparr>]))"

definition create_secrets :: "k8s_context \<Rightarrow> job \<Rightarrow> task_group \<Rightarrow> pod \<Rightarrow> k8s_secret list" where
  "create_secrets ctx j tg p =
     map (\<lambda>t. let d = new_secret (kc_Namespace ctx) (task_secret_name tg t)
              in d\<lparr>kx_Meta := set_task_group_labels_annotations j tg (kx_Meta d)\<rparr>)
       (filter (\<lambda>t. length (t_Secrets t) \<noteq> 0) (pod_tasks p))"

section \<open>Generation\<close>

definition normalize_task :: "task \<Rightarrow> task" where
  "normalize_task t =
     (if network_is_weave (t_Network t) \<or> network_is_default (t_Network t)
      then t\<lparr>t_Network := NetworkTypeDefault\<rparr> else t)"

definition generate_pod_objects ::
  "crypto \<Rightarrow> k8s_context \<Rightarrow> job \<Rightarrow> task_group \<Rightarrow> pod \<Rightarrow> k8s_object list res" where
  "generate_pod_objects c ctx j tg p =
     rbind (create_deployments c ctx j tg p) (\<lambda>deployments.
     rbind (create_daemon_sets c ctx j tg p) (\<lambda>daemonSets.
     rbind (create_jobs c ctx j tg p) (\<lambda>jobs.
     let secrets = create_secrets ctx j tg p in
     rbind (create_services ctx j tg p) (\<lambda>services.
     rbind (create_ingresses c ctx j tg p) (\<lambda>ingresses.
       Inr (map ODeployment deployments @ map ODaemonSet daemonSets @ map OJob jobs @ map OSecret secrets @
            map OService services @ map OIngress ingresses))))))"

definition k8s_context_of :: "images \<Rightarrow> job \<Rightarrow> render_config \<Rightarrow> k8s_context" where
  "k8s_context_of im j config =
     \<lparr>kc_Cluster = rc_Cluster config, kc_Namespace = k8s_resource_name (j_Name j), kc_ImageVaultMonkey = VaultMonkey im\<rparr>"

definition generate_group_objects ::
  "crypto \<Rightarrow> k8s_context \<Rightarrow> job \<Rightarrow> task_group \<Rightarrow> k8s_object list res" where
  "generate_group_objects c ctx j tg =
     rbind (group_task_into_pods tg) (\<lambda>pods.
     rbind (map_res (generate_pod_objects c ctx j tg) pods) (\<lambda>objs. Inr (concat objs)))"

definition generate_k8s_units :: "crypto \<Rightarrow> images \<Rightarrow> job \<Rightarrow> render_config \<Rightarrow> k8s_object list res" where
  "generate_k8s_units c im j config =
     (if rc_CurrentScalingGroup config \<noteq> 1 then Inr []
      else rbind (map_res (generate_group_objects c (k8s_context_of im j config) j)
               (filter (\<lambda>tg. include_group config (g_Name tg)) (j_Groups j)))
             (\<lambda>objs. Inr (concat objs)))"

end
