(* ===== verification/K8sUnits.thy ===== *)
theory K8sUnits
  imports PodSpecs
begin

text \<open>
  The units of the Kubernetes scheduler: \<^verbatim>\<open>pkg/kubernetes\<close>. The API server is
  the record \<open>k8s_client\<close>, one function per kind of call, with the kind of the object as an
  argument where the client has one method per kind; reading does not change its state. \<open>Now\<close>
  and \<open>Sleep\<close> are the clock, in nanoseconds. Two lists or maps that differ only in being
  nil are equal here. \<open>lv_Extra\<close> tells that an object of the cluster has a value in a field
  the code neither sets nor ignores when it compares. A loop that polls the server takes fuel, and
  the result is \<open>Hang\<close> when that is used up.
\<close>

section \<open>The API server\<close>

datatype kind = KDeployment | KDaemonSet | KJob | KService | KSecret | KIngress

fun kind_of :: "k8s_object \<Rightarrow> kind" where
  "kind_of (ODeployment _) = KDeployment"
| "kind_of (ODaemonSet _) = KDaemonSet"
| "kind_of (OJob _) = KJob"
| "kind_of (OSecret _) = KSecret"
| "kind_of (OService _) = KService"
| "kind_of (OIngress _) = KIngress"

definition object_name :: "k8s_object \<Rightarrow> string" where
  "object_name d = om_Name (object_meta_of d)"

definition object_namespace :: "k8s_object \<Rightarrow> string" where
  "object_namespace d = om_Namespace (object_meta_of d)"

record deployment_status =
  ds_ObservedGeneration :: int
  ds_UpdatedReplicas :: int
  ds_AvailableReplicas :: int

record live =
  lv_Object :: k8s_object
  lv_Deployment :: "deployment_status option"
  lv_JobFailed :: "int option"
  lv_Extra :: bool

record pod_info =
  pi_Meta :: object_meta
  pi_HostIP :: string
  pi_Phase :: string

record 's k8s_client =
  GetObject :: "kind \<Rightarrow> string \<Rightarrow> string \<Rightarrow> 's \<Rightarrow> live res"
  ListObjects :: "kind \<Rightarrow> string \<Rightarrow> 's \<Rightarrow> k8s_object list res"
  CreateObject :: "string \<Rightarrow> k8s_object \<Rightarrow> 's \<Rightarrow> unit res \<times> 's"
  UpdateObject :: "string \<Rightarrow> k8s_object \<Rightarrow> 's \<Rightarrow> unit res \<times> 's"
  DeleteObject :: "kind \<Rightarrow> string \<Rightarrow> string \<Rightarrow> 's \<Rightarrow> unit res \<times> 's"
  ListPods :: "string \<Rightarrow> (string \<times> string) list \<Rightarrow> 's \<Rightarrow> pod_info list res"
  DeletePod :: "string \<Rightarrow> string \<Rightarrow> 's \<Rightarrow> unit res \<times> 's"
  ListReplicaSets :: "string \<Rightarrow> (string \<times> string) list \<Rightarrow> 's \<Rightarrow> object_meta list res"
  DeleteReplicaSet :: "string \<Rightarrow> string \<Rightarrow> 's \<Rightarrow> unit res \<times> 's"
  GetNamespace :: "string \<Rightarrow> 's \<Rightarrow> unit res"
  CreateNamespace :: "string \<Rightarrow> 's \<Rightarrow> unit res \<times> 's"
  ListNodes :: "'s \<Rightarrow> unit res"
  Now :: "'s \<Rightarrow> int"
  Sleep :: "int \<Rightarrow> 's \<Rightarrow> 's"

definition Second :: int where "Second = 1000000000"
definition Minute :: int where "Minute = 60 * Second"

definition deploymentStartTimeout :: int where "deploymentStartTimeout = Minute"
definition daemonSetPodStartTimeout :: int where "daemonSetPodStartTimeout = Minute"

section \<open>Comparing objects\<close>

text \<open>
  The differences of two maps: a key of the first must be in the second, and only values and keys that
  are \<open>free\<close> may differ.
\<close>

definition same_map_but :: "(string \<Rightarrow> bool) \<Rightarrow> (string \<times> string) list \<Rightarrow> (string \<times> string) list \<Rightarrow> bool" where
  "same_map_but free a b \<longleftrightarrow>
     list_all (\<lambda>(k, _). case map_of b k of None \<Rightarrow> False | Some v \<Rightarrow> map_of a k = Some v \<or> free k) a \<and>
     list_all (\<lambda>(k, _). map_of a k \<noteq> None \<or> free k) b"

definition str_contains :: "string \<Rightarrow> string \<Rightarrow> bool" where
  "str_contains s sub \<longleftrightarrow> sublist sub s"

definition unwatched :: "string \<Rightarrow> bool" where
  "unwatched key \<longleftrightarrow> \<not> str_contains key ''pulcy'' \<and> \<not> str_contains key ''prometheus''"

definition is_same_object_meta :: "object_meta \<Rightarrow> object_meta \<Rightarrow> string list \<Rightarrow> bool" where
  "is_same_object_meta self other ignoredLabels \<longleftrightarrow>
     om_Name self = om_Name other \<and> om_Namespace self = om_Namespace other \<and>
     same_map_but (\<lambda>l. l \<in> set ignoredLabels) (om_Labels self) (om_Labels other) \<and>
     same_map_but unwatched (om_Annotations self) (om_Annotations other)"

definition is_same_pod_template_spec :: "pod_template \<Rightarrow> pod_template \<Rightarrow> string list \<Rightarrow> bool" where
  "is_same_pod_template_spec self other ignoredLabels \<longleftrightarrow>
     is_same_object_meta (pt_Meta self) (pt_Meta other) ignoredLabels \<and> pt_Spec self = pt_Spec other"

definition is_same_deployment_spec :: "k8s_deployment \<Rightarrow> k8s_deployment \<Rightarrow> bool" where
  [simp]: "is_same_deployment_spec a b \<longleftrightarrow>
     is_same_pod_template_spec (kd_Template a) (kd_Template b) [] \<and> kd_Replicas a = kd_Replicas b \<and>
     kd_MaxUnavailable a = kd_MaxUnavailable b \<and> kd_MaxSurge a = kd_MaxSurge b"

definition is_same_daemon_set_spec :: "k8s_daemon_set \<Rightarrow> k8s_daemon_set \<Rightarrow> bool" where
  [simp]: "is_same_daemon_set_spec a b \<longleftrightarrow> is_same_pod_template_spec (ks_Template a) (ks_Template b) []"

definition is_same_job_spec :: "k8s_job \<Rightarrow> k8s_job \<Rightarrow> bool" where
  [simp]: "is_same_job_spec a b \<longleftrightarrow>
     is_same_pod_template_spec (kj_Template a) (kj_Template b) [''controller-uid'', ''job-name''] \<and>
     kj_Completions a = kj_Completions b \<and> kj_Parallelism a = kj_Parallelism b"

definition is_same_secret_type :: "k8s_secret \<Rightarrow> k8s_secret \<Rightarrow> bool" where
  [simp]: "is_same_secret_type a b \<longleftrightarrow> kx_Type a = '''' \<or> kx_Type a = kx_Type b"

definition is_same_service_spec :: "k8s_service \<Rightarrow> k8s_service \<Rightarrow> bool" where
  [simp]: "is_same_service_spec a b \<longleftrightarrow>
     kr_Type a = kr_Type b \<and> kr_Ports a = kr_Ports b \<and>
     same_map_but (\<lambda>_. False) (kr_Selector a) (kr_Selector b) \<and>
     kr_ExternalName a = kr_ExternalName b \<and> kr_SessionAffinity a = kr_SessionAffinity b"

definition is_same_ingress_spec :: "k8s_ingress \<Rightarrow> k8s_ingress \<Rightarrow> bool" where
  [simp]: "is_same_ingress_spec a b \<longleftrightarrow> ki_Rules a = ki_Rules b"

fun is_same_spec :: "k8s_object \<Rightarrow> k8s_object \<Rightarrow> bool" where
  "is_same_spec (ODeployment a) (ODeployment b) = is_same_deployment_spec a b"
| "is_same_spec (ODaemonSet a) (ODaemonSet b) = is_same_daemon_set_spec a b"
| "is_same_spec (OJob a) (OJob b) = is_same_job_spec a b"
| "is_same_spec (OSecret a) (OSecret b) = is_same_secret_type a b"
| "is_same_spec (OService a) (OService b) = is_same_service_spec a b"
| "is_same_spec (OIngress a) (OIngress b) = is_same_ingress_spec a b"
| "is_same_spec _ _ = False"

definition is_equal :: "k8s_object \<Rightarrow> live \<Rightarrow> bool res" where
  "is_equal d current =
     (if kind_of (lv_Object current) \<noteq> kind_of d then Inl OtherError
      else Inr (is_same_object_meta (object_meta_of d) (object_meta_of (lv_Object current)) [] \<and>
        is_same_spec d (lv_Object current) \<and> \<not> lv_Extra current))"

definition has_labels :: "object_meta \<Rightarrow> (string \<times> string) list \<Rightarrow> bool" where
  "has_labels m labels \<longleftrightarrow> list_all (\<lambda>(k, _). map_of (om_Labels m) k = map_of labels k) labels"

section \<open>Reading\<close>

definition get_current :: "'s k8s_client \<Rightarrow> k8s_object \<Rightarrow> 's \<Rightarrow> live res" where
  "get_current c d s = GetObject c (kind_of d) (object_namespace d) (object_name d) s"

definition deployment_is_valid_state :: "'s k8s_client \<Rightarrow> k8s_deployment \<Rightarrow> 's \<Rightarrow> bool res" where
  "deployment_is_valid_state c d s =
     rbind (get_current c (ODeployment d) s) (\<lambda>current.
       Inr (case lv_Deployment current of
              None \<Rightarrow> False
            | Some status \<Rightarrow> ds_AvailableReplicas status = kd_Replicas d))"

definition job_is_valid_state :: "'s k8s_client \<Rightarrow> k8s_job \<Rightarrow> 's \<Rightarrow> bool res" where
  "job_is_valid_state c d s =
     rbind (get_current c (OJob d) s) (\<lambda>current.
       Inr (case lv_JobFailed current of None \<Rightarrow> False | Some failed \<Rightarrow> failed = 0))"

fun is_valid_state :: "'s k8s_client \<Rightarrow> k8s_object \<Rightarrow> 's \<Rightarrow> bool res" where
  "is_valid_state c (ODeployment d) s = deployment_is_valid_state c d s"
| "is_valid_state c (OJob d) s = job_is_valid_state c d s"
| "is_valid_state c _ s = Inr True"

section \<open>Destroying\<close>

definition delete_replica_sets :: "'s k8s_client \<Rightarrow> string \<Rightarrow> (string \<times> string) list \<Rightarrow> 's \<Rightarrow> unit res \<times> 's" where
  "delete_replica_sets c namespace labelSelector s =
     (case ListReplicaSets c namespace labelSelector s of
        Inl e \<Rightarrow> (Inl e, s)
      | Inr items \<Rightarrow>
          each_res (\<lambda>rs s. if \<not> has_labels rs labelSelector then (Inr (), s)
                           else DeleteReplicaSet c namespace (om_Name rs) s) items s)"

definition delete_pods :: "'s k8s_client \<Rightarrow> string \<Rightarrow> (string \<times> string) list \<Rightarrow> 's \<Rightarrow> unit res \<times> 's" where
  "delete_pods c namespace labelSelector s =
     (case ListPods c namespace labelSelector s of
        Inl e \<Rightarrow> (Inl e, s)
      | Inr items \<Rightarrow>
          each_res (\<lambda>p s. if \<not> has_labels (pi_Meta p) labelSelector then (Inr (), s)
                          else DeletePod c namespace (om_Name (pi_Meta p)) s) items s)"

definition delete_current :: "'s k8s_client \<Rightarrow> k8s_object \<Rightarrow> 's \<Rightarrow> unit res \<times> 's" where
  "delete_current c d s = DeleteObject c (kind_of d) (object_namespace d) (object_name d) s"

definition destroy_deployment_object :: "'s k8s_client \<Rightarrow> k8s_object \<Rightarrow> 's \<Rightarrow> unit res \<times> 's" where
  "destroy_deployment_object c d s =
     (case get_current c d s of
        Inl e \<Rightarrow> (Inl e, s)
      | Inr current \<Rightarrow>
          (let labelSelector = om_Labels (object_meta_of (lv_Object current))
           in sbind (delete_current c d s) (\<lambda>_ s.
              sbind (delete_replica_sets c (object_namespace d) labelSelector (Sleep c Second s)) (\<lambda>_ s.
                delete_pods c (object_namespace d) labelSelector (Sleep c Second s)))))"

definition destroy_job_object :: "'s k8s_client \<Rightarrow> k8s_object \<Rightarrow> 's \<Rightarrow> unit res \<times> 's" where
  "destroy_job_object c d s =
     (case get_current c d s of
        Inl e \<Rightarrow> (Inl e, s)
      | Inr current \<Rightarrow>
          (let labelSelector = om_Labels (object_meta_of (lv_Object current))
           in sbind (delete_current c d s) (\<lambda>_. delete_pods c (object_namespace d) labelSelector)))"

definition destroy_object :: "'s k8s_client \<Rightarrow> k8s_object \<Rightarrow> 's \<Rightarrow> unit res \<times> 's" where
  "destroy_object c d s =
     (case d of
        ODeployment _ \<Rightarrow> destroy_deployment_object c d s
      | OJob _ \<Rightarrow> destroy_job_object c d s
      | _ \<Rightarrow> delete_current c d s)"

section \<open>Starting\<close>

fun map_meta :: "(object_meta \<Rightarrow> object_meta) \<Rightarrow> k8s_object \<Rightarrow> k8s_object" where
  "map_meta f (ODeployment d) = ODeployment (d\<lparr>kd_Meta := f (kd_Meta d)\<rparr>)"
| "map_meta f (ODaemonSet d) = ODaemonSet (d\<lparr>ks_Meta := f (ks_Meta d)\<rparr>)"
| "map_meta f (OJob d) = OJob (d\<lparr>kj_Meta := f (kj_Meta d)\<rparr>)"
| "map_meta f (OSecret d) = OSecret (d\<lparr>kx_Meta := f (kx_Meta d)\<rparr>)"
| "map_meta f (OService d) = OService (d\<lparr>kr_Meta := f (kr_Meta d)\<rparr>)"
| "map_meta f (OIngress d) = OIngress (d\<lparr>ki_Meta := f (ki_Meta d)\<rparr>)"

definition update_metadata_from_current :: "k8s_object \<Rightarrow> k8s_object \<Rightarrow> k8s_object" where
  "update_metadata_from_current d current =
     map_meta (\<lambda>m. m\<lparr>om_ResourceVersion := om_ResourceVersion (object_meta_of current)\<rparr>) d"

text \<open>
  The wait for a deployment. Seeing that all pods are updated goes round the loop at once, without
  looking at the clock.
\<close>

fun wait_until_started ::
  "'s k8s_client \<Rightarrow> nat \<Rightarrow> k8s_deployment \<Rightarrow> int \<Rightarrow> int \<Rightarrow> nat \<Rightarrow> 's \<Rightarrow> unit res \<times> 's" where
  "wait_until_started c 0 d lastGeneration start state s = (Inl Hang, s)"
| "wait_until_started c (Suc fuel) d lastGeneration start state s =
     (case GetObject c KDeployment (om_Namespace (kd_Meta d)) (om_Name (kd_Meta d)) s of
        Inl e \<Rightarrow> (Inl e, s)
      | Inr current \<Rightarrow>
          (let again = (\<lambda>state. if deploymentStartTimeout < Now c s - start then (Inl OtherError, s)
                 else wait_until_started c fuel d lastGeneration start state (Sleep c (2 * Second) s))
           in case lv_Deployment current of
                None \<Rightarrow> again state
              | Some status \<Rightarrow>
                  if state = 0 then again (if ds_ObservedGeneration status \<noteq> lastGeneration then 1 else 0)
                  else if state = 1 then
                    (if ds_UpdatedReplicas status = kd_Replicas d
                     then wait_until_started c fuel d lastGeneration start 2 s else again 1)
                  else if ds_AvailableReplicas status = kd_Replicas d then (Inr (), s)
                  else again state))"

definition start_deployment :: "'s k8s_client \<Rightarrow> nat \<Rightarrow> k8s_deployment \<Rightarrow> 's \<Rightarrow> unit res \<times> 's" where
  "start_deployment c fuel d s =
     (let u = ODeployment d; ns = object_namespace u
      in case get_current c u s of
           Inr current \<Rightarrow>
             (case lv_Deployment current of
                None \<Rightarrow> (Inl Panic, s)
              | Some status \<Rightarrow>
                  sbind (UpdateObject c ns (update_metadata_from_current u (lv_Object current)) s) (\<lambda>_ s.
                    wait_until_started c fuel d (ds_ObservedGeneration status) (Now c s) 0 s))
         | Inl _ \<Rightarrow> sbind (CreateObject c ns u s) (\<lambda>_ s. wait_until_started c fuel d 0 (Now c s) 0 s))"

text \<open>The pods found while rotating: whether a new one is running, or an error when one has failed.\<close>

fun new_pod_running :: "pod_info \<Rightarrow> pod_info list \<Rightarrow> bool \<Rightarrow> bool res" where
  "new_pod_running pod [] running = Inr running"
| "new_pod_running pod (p # ps) running =
     (if pi_HostIP p \<noteq> pi_HostIP pod \<or> om_Name (pi_Meta p) = om_Name (pi_Meta pod) then new_pod_running pod ps running
      else if pi_Phase p = ''Running'' \<or> pi_Phase p = ''Succeeded'' then new_pod_running pod ps True
      else if pi_Phase p = ''Failed'' then Inl OtherError
      else new_pod_running pod ps running)"

fun wait_for_pod ::
  "'s k8s_client \<Rightarrow> nat \<Rightarrow> (string \<times> string) list \<Rightarrow> pod_info \<Rightarrow> int \<Rightarrow> 's \<Rightarrow> unit res \<times> 's" where
  "wait_for_pod c 0 labelSelector pod start s = (Inl Hang, s)"
| "wait_for_pod c (Suc fuel) labelSelector pod start s =
     (case rbind (ListPods c (om_Namespace (pi_Meta pod)) labelSelector s) (\<lambda>items. new_pod_running pod items False) of
        Inl e \<Rightarrow> (Inl e, s)
      | Inr running \<Rightarrow>
          if daemonSetPodStartTimeout < Now c s - start then (Inl OtherError, s)
          else (let s = Sleep c Second s
                in if running then (Inr (), s) else wait_for_pod c fuel labelSelector pod start s))"

definition rotate_pods ::
  "'s k8s_client \<Rightarrow> nat \<Rightarrow> pod_info list \<Rightarrow> (string \<times> string) list \<Rightarrow> 's \<Rightarrow> unit res \<times> 's" where
  "rotate_pods c fuel pods labelSelector =
     each_res (\<lambda>pod s.
       sbind (DeletePod c (om_Namespace (pi_Meta pod)) (om_Name (pi_Meta pod)) s) (\<lambda>_ s.
       sbind (wait_for_pod c fuel labelSelector pod (Now c s) s) (\<lambda>_ s. (Inr (), Sleep c (5 * Second) s)))) pods"

definition start_daemon_set :: "'s k8s_client \<Rightarrow> nat \<Rightarrow> k8s_daemon_set \<Rightarrow> 's \<Rightarrow> unit res \<times> 's" where
  "start_daemon_set c fuel d s =
     (let u = ODaemonSet d; ns = object_namespace u
      in case get_current c u s of
           Inr current \<Rightarrow>
             (let labelSelector = om_Labels (ks_Meta d)
              in case ListPods c ns labelSelector s of
                   Inl e \<Rightarrow> (Inl e, s)
                 | Inr pods \<Rightarrow>
                     sbind (UpdateObject c ns (update_metadata_from_current u (lv_Object current)) s)
                       (\<lambda>_. rotate_pods c fuel pods labelSelector))
         | Inl _ \<Rightarrow> CreateObject c ns u s)"

definition start_secret :: "'s k8s_client \<Rightarrow> k8s_secret \<Rightarrow> 's \<Rightarrow> unit res \<times> 's" where
  "start_secret c d s =
     (let u = OSecret d; ns = object_namespace u
      in case get_current c u s of
           Inr current \<Rightarrow>
             (if \<not> has_labels (object_meta_of (lv_Object current)) (om_Labels (kx_Meta d))
              then UpdateObject c ns (update_metadata_from_current u (lv_Object current)) s
              else (Inr (), s))
         | Inl _ \<Rightarrow> CreateObject c ns u s)"

fun cluster_ip :: "k8s_object \<Rightarrow> string" where
  "cluster_ip (OService d) = kr_ClusterIP d"
| "cluster_ip _ = ''''"

definition start_service :: "'s k8s_client \<Rightarrow> k8s_service \<Rightarrow> 's \<Rightarrow> unit res \<times> 's" where
  "start_service c d s =
     (let u = OService d; ns = object_namespace u
      in case get_current c u s of
           Inr current \<Rightarrow>
             UpdateObject c ns (update_metadata_from_current
               (OService (d\<lparr>kr_ClusterIP := cluster_ip (lv_Object current)\<rparr>)) (lv_Object current)) s
         | Inl _ \<Rightarrow> CreateObject c ns u s)"

text \<open>Jobs and ingresses.\<close>

definition start_plain :: "'s k8s_client \<Rightarrow> k8s_object \<Rightarrow> 's \<Rightarrow> unit res \<times> 's" where
  "start_plain c u s =
     (let ns = object_namespace u
      in case get_current c u s of
           Inr current \<Rightarrow> UpdateObject c ns (update_metadata_from_current u (lv_Object current)) s
         | Inl _ \<Rightarrow> CreateObject c ns u s)"

fun start_object :: "'s k8s_client \<Rightarrow> nat \<Rightarrow> k8s_object \<Rightarrow> 's \<Rightarrow> unit res \<times> 's" where
  "start_object c fuel (ODeployment d) = start_deployment c fuel d"
| "start_object c fuel (ODaemonSet d) = start_daemon_set c fuel d"
| "start_object c fuel (OSecret d) = start_secret c d"
| "start_object c fuel (OService d) = start_service c d"
| "start_object c fuel (OJob d) = start_plain c (OJob d)"
| "start_object c fuel (OIngress d) = start_plain c (OIngress d)"

end
