(* ===== verification/K8sUnitLaws.thy ===== *)
theory K8sUnitLaws
  imports K8sUnits
begin

text \<open>
  What the operations on the units do to the objects of the API server. The server is any client that
  meets \<open>api_laws\<close>, stated through \<open>st\<close>, the object kept under a kind, a namespace
  and a name, without the fields the cluster manages itself (\<open>core\<close>). The waits end: a
  minute after they start at the latest.
\<close>

section \<open>Objects without what the cluster manages\<close>

definition watched :: "(string \<times> string) list \<Rightarrow> (string \<times> string) list" where
  "watched m = filter (\<lambda>(k, _). \<not> unwatched k) m"

definition core_meta :: "object_meta \<Rightarrow> object_meta" where
  "core_meta m = m\<lparr>om_ResourceVersion := '''', om_Annotations := watched (om_Annotations m)\<rparr>"

fun core :: "k8s_object \<Rightarrow> k8s_object" where
  "core (OService d) = OService (d\<lparr>kr_Meta := core_meta (kr_Meta d), kr_ClusterIP := ''''\<rparr>)"
| "core (OSecret d) = OSecret (d\<lparr>kx_Meta := core_meta (kx_Meta d), kx_Data := None\<rparr>)"
| "core d = map_meta core_meta d"

text \<open>The object \<open>x\<close> has everything the code configures in \<open>d\<close>.\<close>

definition agrees :: "k8s_object \<Rightarrow> k8s_object \<Rightarrow> bool" where
  "agrees d x \<longleftrightarrow>
     object_name d = object_name x \<and> object_namespace d = object_namespace x \<and>
     same_map_but (\<lambda>_. False) (om_Labels (object_meta_of d)) (om_Labels (object_meta_of x)) \<and>
     same_map_but (\<lambda>_. False) (watched (om_Annotations (object_meta_of d))) (watched (om_Annotations (object_meta_of x))) \<and>
     is_same_spec d x"

text \<open>A secret that has the labels is left alone.\<close>

definition k8s_accepts :: "k8s_object \<Rightarrow> k8s_object \<Rightarrow> bool" where
  "k8s_accepts d x \<longleftrightarrow>
     (if kind_of d = KSecret
      then kind_of x = KSecret \<and> object_name d = object_name x \<and> has_labels (object_meta_of x) (om_Labels (object_meta_of d))
      else agrees d x)"

lemma object_meta_of_core [simp]: "object_meta_of (core d) = core_meta (object_meta_of d)"
  by (cases d) simp_all

lemma object_meta_of_map_meta [simp]: "object_meta_of (map_meta f d) = f (object_meta_of d)"
  by (cases d) simp_all

lemma kind_of_simps [simp]: "kind_of (core d) = kind_of d" "kind_of (map_meta f d) = kind_of d"
  by (cases d; simp)+

lemma core_meta_simps [simp]:
  "om_Name (core_meta m) = om_Name m" "om_Namespace (core_meta m) = om_Namespace m"
  "om_Labels (core_meta m) = om_Labels m" "om_Annotations (core_meta m) = watched (om_Annotations m)"
  by (simp_all add: core_meta_def)

lemma watched_idem [simp]: "watched (watched m) = watched m"
  by (simp add: watched_def case_prod_unfold)

lemma map_of_watched: "map_of (watched m) k = (if unwatched k then None else map_of m k)"
  by (induction m) (auto simp: watched_def)

lemma same_map_but_iff:
  "same_map_but free a b \<longleftrightarrow>
     (\<forall>k. map_of a k \<noteq> None \<longrightarrow> map_of b k \<noteq> None \<and> (map_of a k = map_of b k \<or> free k)) \<and>
     (\<forall>k. map_of b k \<noteq> None \<longrightarrow> map_of a k \<noteq> None \<or> free k)"
proof -
  have dom: "(\<exists>v. (k, v) \<in> set m) \<longleftrightarrow> map_of m k \<noteq> None" for k and m :: "(string \<times> string) list"
    by (force simp: map_of_eq_None_iff)
  have "list_all (\<lambda>(k, _). P k) m \<longleftrightarrow> (\<forall>k. map_of m k \<noteq> None \<longrightarrow> P k)" for P and m :: "(string \<times> string) list"
    unfolding list_all_iff dom [symmetric] by fastforce
  then show ?thesis unfolding same_map_but_def
    by (auto split: option.splits) (metis option.exhaust)
qed

lemma same_map_but_exact: "same_map_but (\<lambda>_. False) a b \<longleftrightarrow> map_of a = map_of b"
  unfolding same_map_but_iff fun_eq_iff by (metis option.exhaust)

lemma same_map_but_watched:
  "same_map_but unwatched a b \<Longrightarrow> same_map_but (\<lambda>_. False) (watched a) (watched b)"
  unfolding same_map_but_exact fun_eq_iff unfolding same_map_but_iff map_of_watched by metis

lemma is_same_spec_kind: "is_same_spec d x \<Longrightarrow> kind_of x = kind_of d"
  by (cases d; cases x) simp_all

lemma is_same_spec_core [simp]: "is_same_spec d (core x) = is_same_spec d x"
  by (cases d; cases x) simp_all

lemma is_same_spec_map_meta [simp]: "is_same_spec (map_meta f d) x = is_same_spec d x"
  by (cases d; cases x) simp_all

text \<open>The check of \<^verbatim>\<open>HasChanged\<close> sees everything that is configured.\<close>

lemma is_equal_agrees: "is_equal d current = Inr True \<Longrightarrow> agrees d (core (lv_Object current))"
  by (auto simp: is_equal_def agrees_def is_same_object_meta_def object_name_def object_namespace_def
      same_map_but_watched split: if_splits)

lemma agrees_kind: "agrees d x \<Longrightarrow> kind_of x = kind_of d"
  by (simp add: agrees_def is_same_spec_kind)

lemma has_labels_iff: "has_labels m ls \<longleftrightarrow> map_of ls \<subseteq>\<^sub>m map_of (om_Labels m)"
  by (auto simp: has_labels_def list_all_iff map_le_def dom_map_of_conv_image_fst)

lemma agrees_updated [simp]: "agrees (update_metadata_from_current d y) x \<longleftrightarrow> agrees d x"
  by (simp add: agrees_def update_metadata_from_current_def object_name_def object_namespace_def)

lemma updated_simps [simp]:
  "kind_of (update_metadata_from_current d y) = kind_of d" "object_name (update_metadata_from_current d y) = object_name d"
  "object_namespace (update_metadata_from_current d y) = object_namespace d"
  by (simp_all add: update_metadata_from_current_def object_name_def object_namespace_def)

lemma service_ip_simps [simp]:
  "agrees (OService (d\<lparr>kr_ClusterIP := a\<rparr>)) x \<longleftrightarrow> agrees (OService d) x"
  "object_name (OService (d\<lparr>kr_ClusterIP := a\<rparr>)) = object_name (OService d)"
  "object_namespace (OService (d\<lparr>kr_ClusterIP := a\<rparr>)) = object_namespace (OService d)"
  by (cases x; simp add: agrees_def object_name_def object_namespace_def)+

section \<open>What is relied on in the API server\<close>

type_synonym 's store = "'s \<Rightarrow> kind \<Rightarrow> string \<Rightarrow> string \<Rightarrow> k8s_object option"

text \<open>Nothing else than the object of one kind and name changes.\<close>

definition only_at :: "'s store \<Rightarrow> kind \<Rightarrow> string \<Rightarrow> string \<Rightarrow> 's \<Rightarrow> 's \<Rightarrow> bool" where
  "only_at st k ns n s s' \<longleftrightarrow>
     (\<forall>k' ns' n'. (k', ns', n') \<noteq> (k, ns, n) \<longrightarrow> st s' k' ns' n' = st s k' ns' n')"

definition reads_well :: "'s k8s_client \<Rightarrow> 's store \<Rightarrow> bool" where
  "reads_well c st \<longleftrightarrow>
     (\<forall>s k ns n x. st s k ns n = Some x \<longrightarrow> kind_of x = k \<and> object_name x = n \<and> object_namespace x = ns) \<and>
     (\<forall>s k ns n l. GetObject c k ns n s = Inr l \<longrightarrow> st s k ns n = Some (core (lv_Object l))) \<and>
     (\<forall>s k ns us. ListObjects c k ns s = Inr us \<longrightarrow>
        (\<forall>u \<in> set us. object_namespace u = ns \<and> st s k ns (object_name u) = Some (core u)) \<and>
        (\<forall>n. st s k ns n \<noteq> None \<longrightarrow> n \<in> object_name ` set us))"

definition writes_well :: "'s k8s_client \<Rightarrow> 's store \<Rightarrow> bool" where
  "writes_well c st \<longleftrightarrow>
     (\<forall>s ns d r s'. CreateObject c ns d s = (r, s') \<or> UpdateObject c ns d s = (r, s') \<longrightarrow>
        only_at st (kind_of d) ns (object_name d) s s' \<and>
        (is_ok r \<longrightarrow> ns = object_namespace d \<longrightarrow> (\<exists>x. st s' (kind_of d) ns (object_name d) = Some x \<and> agrees d x))) \<and>
     (\<forall>s k ns n r s'. DeleteObject c k ns n s = (r, s') \<longrightarrow>
        only_at st k ns n s s' \<and> (st s' k ns n = None \<or> st s' k ns n = st s k ns n) \<and>
        (is_ok r \<longrightarrow> st s k ns n \<noteq> None \<and> st s' k ns n = None))"

definition keeps_objects :: "'s k8s_client \<Rightarrow> 's store \<Rightarrow> bool" where
  "keeps_objects c st \<longleftrightarrow>
     (\<forall>s ns n. st (snd (DeletePod c ns n s)) = st s) \<and> (\<forall>s ns n. st (snd (DeleteReplicaSet c ns n s)) = st s) \<and>
     (\<forall>s ns. st (snd (CreateNamespace c ns s)) = st s) \<and> (\<forall>s t. st (Sleep c t s) = st s)"

definition keeps_time :: "'s k8s_client \<Rightarrow> bool" where
  "keeps_time c \<longleftrightarrow> (\<forall>s t. 0 \<le> t \<longrightarrow> Now c s + t \<le> Now c (Sleep c t s))"

definition api_laws :: "'s k8s_client \<Rightarrow> 's store \<Rightarrow> bool" where
  "api_laws c st \<longleftrightarrow> reads_well c st \<and> writes_well c st \<and> keeps_objects c st"

lemma api_reads:
  assumes "api_laws c st"
  shows "st s k ns n = Some x \<Longrightarrow> kind_of x = k \<and> object_name x = n \<and> object_namespace x = ns"
    "GetObject c k ns n s = Inr l \<Longrightarrow> st s k ns n = Some (core (lv_Object l))"
    "ListObjects c k ns s = Inr us \<Longrightarrow> u \<in> set us \<Longrightarrow>
       object_namespace u = ns \<and> st s k ns (object_name u) = Some (core u)"
    "ListObjects c k ns s = Inr us \<Longrightarrow> st s k ns n \<noteq> None \<Longrightarrow> n \<in> object_name ` set us"
proof -
  from assms have r: "reads_well c st" by (simp add: api_laws_def)
  show "st s k ns n = Some x \<Longrightarrow> kind_of x = k \<and> object_name x = n \<and> object_namespace x = ns"
    using r unfolding reads_well_def by blast
  show "GetObject c k ns n s = Inr l \<Longrightarrow> st s k ns n = Some (core (lv_Object l))"
    using r unfolding reads_well_def by blast
  show "ListObjects c k ns s = Inr us \<Longrightarrow> u \<in> set us \<Longrightarrow>
      object_namespace u = ns \<and> st s k ns (object_name u) = Some (core u)"
    using r unfolding reads_well_def by blast
  show "ListObjects c k ns s = Inr us \<Longrightarrow> st s k ns n \<noteq> None \<Longrightarrow> n \<in> object_name ` set us"
    using r unfolding reads_well_def by blast
qed

lemma api_writes:
  assumes "api_laws c st"
  shows "CreateObject c ns d s = (r, s') \<or> UpdateObject c ns d s = (r, s') \<Longrightarrow> only_at st (kind_of d) ns (object_name d) s s'"
    "CreateObject c ns d s = (r, s') \<or> UpdateObject c ns d s = (r, s') \<Longrightarrow> is_ok r \<Longrightarrow> ns = object_namespace d \<Longrightarrow>
       \<exists>x. st s' (kind_of d) ns (object_name d) = Some x \<and> agrees d x"
    "DeleteObject c k ns n s = (r, s') \<Longrightarrow> only_at st k ns n s s'"
    "DeleteObject c k ns n s = (r, s') \<Longrightarrow> st s' k ns n = None \<or> st s' k ns n = st s k ns n"
    "DeleteObject c k ns n s = (r, s') \<Longrightarrow> is_ok r \<Longrightarrow> st s k ns n \<noteq> None \<and> st s' k ns n = None"
proof -
  from assms have w: "writes_well c st" by (simp add: api_laws_def)
  show "CreateObject c ns d s = (r, s') \<or> UpdateObject c ns d s = (r, s') \<Longrightarrow> only_at st (kind_of d) ns (object_name d) s s'"
    using w unfolding writes_well_def by blast
  show "CreateObject c ns d s = (r, s') \<or> UpdateObject c ns d s = (r, s') \<Longrightarrow> is_ok r \<Longrightarrow> ns = object_namespace d \<Longrightarrow>
      \<exists>x. st s' (kind_of d) ns (object_name d) = Some x \<and> agrees d x"
    using w unfolding writes_well_def by blast
  show "DeleteObject c k ns n s = (r, s') \<Longrightarrow> only_at st k ns n s s'"
    using w unfolding writes_well_def by blast
  show "DeleteObject c k ns n s = (r, s') \<Longrightarrow> st s' k ns n = None \<or> st s' k ns n = st s k ns n"
    using w unfolding writes_well_def by blast
  show "DeleteObject c k ns n s = (r, s') \<Longrightarrow> is_ok r \<Longrightarrow> st s k ns n \<noteq> None \<and> st s' k ns n = None"
    using w unfolding writes_well_def by blast
qed

lemma api_keeps:
  assumes "api_laws c st"
  shows "DeletePod c ns n s = (r, s') \<Longrightarrow> st s' = st s" "DeleteReplicaSet c ns n s = (r, s') \<Longrightarrow> st s' = st s"
    "CreateNamespace c ns s = (r, s') \<Longrightarrow> st s' = st s" "st (Sleep c t s) = st s"
  using assms unfolding api_laws_def keeps_objects_def by (metis snd_conv)+

lemma only_at_refl [simp]: "only_at st k ns n s s"
  by (simp add: only_at_def)

lemma only_at_same: "only_at st k ns n s s' \<Longrightarrow> st s'' = st s' \<Longrightarrow> only_at st k ns n s s''"
  by (simp add: only_at_def)

section \<open>Effects\<close>

lemma each_res_keeps:
  assumes "\<And>x s r s'. x \<in> set xs \<Longrightarrow> f x s = (r, s') \<Longrightarrow> st s' = st s"
  shows "each_res f xs s = (r, s') \<Longrightarrow> st s' = st s"
  using assms
proof (induction xs arbitrary: s)
  case (Cons x xs)
  from Cons.prems(1) show ?case unfolding each_res.simps
  proof (cases rule: sbind_cases)
    case (err e)
    show ?thesis by (rule Cons.prems(2) [OF _ err(1)]) simp
  next
    case (ok y s1)
    then show ?thesis using Cons.IH [OF ok(2)] Cons.prems(2) by (metis list.set_intros)
  qed
qed simp

lemma delete_pods_keeps: "api_laws c st \<Longrightarrow> delete_pods c ns ls s = (r, s') \<Longrightarrow> st s' = st s"
  unfolding delete_pods_def
  by (auto split: sum.splits if_splits elim!: each_res_keeps [rotated] dest: api_keeps)

lemma delete_replica_sets_keeps: "api_laws c st \<Longrightarrow> delete_replica_sets c ns ls s = (r, s') \<Longrightarrow> st s' = st s"
  unfolding delete_replica_sets_def
  by (auto split: sum.splits if_splits elim!: each_res_keeps [rotated] dest: api_keeps)

lemma wait_until_started_keeps:
  assumes "api_laws c st"
  shows "wait_until_started c fuel d g start state s = (r, s') \<Longrightarrow> st s' = st s"
  using api_keeps(4) [OF assms]
  by (induction c fuel d g start state s rule: wait_until_started.induct)
    (auto simp: Let_def split: sum.splits option.splits if_splits)

lemma wait_for_pod_keeps:
  assumes "api_laws c st"
  shows "wait_for_pod c fuel ls pod start s = (r, s') \<Longrightarrow> st s' = st s"
  using api_keeps(4) [OF assms]
  by (induction c fuel ls pod start s rule: wait_for_pod.induct)
    (auto simp: Let_def split: sum.splits if_splits)

lemma rotate_pods_keeps:
  assumes "api_laws c st"
  shows "rotate_pods c fuel pods ls s = (r, s') \<Longrightarrow> st s' = st s"
  unfolding rotate_pods_def
proof (erule each_res_keeps [rotated])
  fix pod s r s'
  assume "sbind (DeletePod c (om_Namespace (pi_Meta pod)) (om_Name (pi_Meta pod)) s) (\<lambda>_ s.
    sbind (wait_for_pod c fuel ls pod (Now c s) s) (\<lambda>_ s. (Inr (), Sleep c (5 * Second) s))) = (r, s')"
  then show "st s' = st s"
    by (auto elim!: sbind_cases simp: api_keeps(4) [OF assms] dest!: api_keeps(1) [OF assms] wait_for_pod_keeps [OF assms])
qed

lemma destroy_object_effect:
  assumes laws: "api_laws c st" and d: "destroy_object c d s = (r, s')"
  defines "k \<equiv> kind_of d" and "ns \<equiv> object_namespace d" and "n \<equiv> object_name d"
  shows "only_at st k ns n s s'" "st s' k ns n = None \<or> st s' k ns n = st s k ns n"
    "is_ok r \<Longrightarrow> st s k ns n \<noteq> None \<and> st s' k ns n = None"
proof -
  have "s' = s \<and> \<not> is_ok r \<or> (\<exists>r1 s1. DeleteObject c k ns n s = (r1, s1) \<and> st s' = st s1 \<and> (is_ok r \<longrightarrow> is_ok r1))"
    using d unfolding destroy_object_def destroy_deployment_object_def destroy_job_object_def delete_current_def k_def ns_def n_def
    by (auto split: k8s_object.splits sum.splits elim!: sbind_cases
        simp: Let_def api_keeps(4) [OF laws] dest!: delete_pods_keeps [OF laws] delete_replica_sets_keeps [OF laws])
  then have "only_at st k ns n s s' \<and> (st s' k ns n = None \<or> st s' k ns n = st s k ns n) \<and>
      (is_ok r \<longrightarrow> st s k ns n \<noteq> None \<and> st s' k ns n = None)"
  proof (elim disjE exE conjE)
    fix r1 s1 assume del: "DeleteObject c k ns n s = (r1, s1)" and e: "st s' = st s1" "is_ok r \<longrightarrow> is_ok r1"
    show ?thesis
      using only_at_same [OF api_writes(3) [OF laws del] e(1)] api_writes(4,5) [OF laws del] e by auto
  qed simp
  then show "only_at st k ns n s s'" "st s' k ns n = None \<or> st s' k ns n = st s k ns n"
    "is_ok r \<Longrightarrow> st s k ns n \<noteq> None \<and> st s' k ns n = None" by blast+
qed

text \<open>The two outcomes of starting: the object is written, or a secret is left as it is.\<close>

definition puts :: "'s k8s_client \<Rightarrow> k8s_object \<Rightarrow> 's \<Rightarrow> unit res \<Rightarrow> 's \<Rightarrow> bool" where
  "puts c d s r s1 \<longleftrightarrow> (\<exists>d'. kind_of d' = kind_of d \<and> object_name d' = object_name d \<and>
     object_namespace d' = object_namespace d \<and> (\<forall>x. agrees d' x = agrees d x) \<and>
     (CreateObject c (object_namespace d) d' s = (r, s1) \<or> UpdateObject c (object_namespace d) d' s = (r, s1)))"

lemma puts_create: "CreateObject c (object_namespace d) d s = (r, s1) \<Longrightarrow> puts c d s r s1"
  unfolding puts_def by blast

lemma puts_update:
  "UpdateObject c (object_namespace d) (update_metadata_from_current d y) s = (r, s1) \<Longrightarrow> puts c d s r s1"
  unfolding puts_def by (intro exI [of _ "update_metadata_from_current d y"]) simp

lemma puts_service:
  "UpdateObject c (object_namespace (OService d)) (update_metadata_from_current (OService (d\<lparr>kr_ClusterIP := a\<rparr>)) y) s
     = (r, s1) \<Longrightarrow> puts c (OService d) s r s1"
  unfolding puts_def
  by (intro exI [of _ "update_metadata_from_current (OService (d\<lparr>kr_ClusterIP := a\<rparr>)) y"]) simp

lemma start_object_puts:
  assumes laws: "api_laws c st" and d: "start_object c fuel d s = (r, s')"
  shows "s' = s \<and> \<not> is_ok r \<or>
    (\<exists>r1 s1. puts c d s r1 s1 \<and> st s' = st s1 \<and> (is_ok r \<longrightarrow> is_ok r1)) \<or>
    s' = s \<and> kind_of d = KSecret \<and> (\<exists>current. get_current c d s = Inr current \<and>
      has_labels (object_meta_of (lv_Object current)) (om_Labels (object_meta_of d)))"
proof (cases d)
  case (ODeployment x)
  with d show ?thesis
    by (auto simp: start_deployment_def Let_def split: sum.splits option.splits elim!: sbind_cases
        dest!: wait_until_started_keeps [OF laws] dest: puts_create puts_update) (metis is_ok.simps puts_create puts_update)+
next
  case (ODaemonSet x)
  with d show ?thesis
    by (auto simp: start_daemon_set_def Let_def split: sum.splits option.splits elim!: sbind_cases
        dest!: rotate_pods_keeps [OF laws]) (metis is_ok.simps puts_create puts_update)+
next
  case (OSecret x)
  with d show ?thesis
    by (auto simp: start_secret_def Let_def split: sum.splits if_splits) (metis puts_create puts_update)+
next
  case (OService x)
  with d show ?thesis
    by (auto simp: start_service_def Let_def split: sum.splits) (metis puts_create puts_service)+
next
  case (OJob x)
  with d show ?thesis
    by (auto simp: start_plain_def Let_def split: sum.splits) (metis puts_create puts_update)+
next
  case (OIngress x)
  with d show ?thesis
    by (auto simp: start_plain_def Let_def split: sum.splits) (metis puts_create puts_update)+
qed

lemma agrees_accepts:
  assumes "agrees d x" shows "k8s_accepts d x"
proof -
  have "has_labels (object_meta_of x) (om_Labels (object_meta_of d))"
    using assms by (simp add: agrees_def same_map_but_exact has_labels_iff)
  then show ?thesis using assms by (simp add: k8s_accepts_def agrees_kind) (simp add: agrees_def)
qed

lemma start_object_effect:
  assumes laws: "api_laws c st" and d: "start_object c fuel d s = (r, s')"
  defines "k \<equiv> kind_of d" and "ns \<equiv> object_namespace d" and "n \<equiv> object_name d"
  shows "only_at st k ns n s s'" "is_ok r \<Longrightarrow> \<exists>x. st s' k ns n = Some x \<and> k8s_accepts d x"
proof -
  have "only_at st k ns n s s' \<and> (is_ok r \<longrightarrow> (\<exists>x. st s' k ns n = Some x \<and> k8s_accepts d x))"
    using start_object_puts [OF laws d]
  proof (elim disjE exE conjE)
    fix r1 s1 assume p: "puts c d s r1 s1" and e: "st s' = st s1" "is_ok r \<longrightarrow> is_ok r1"
    then obtain d' where d': "kind_of d' = k" "object_name d' = n" "object_namespace d' = ns" "\<forall>x. agrees d' x = agrees d x"
      "CreateObject c ns d' s = (r1, s1) \<or> UpdateObject c ns d' s = (r1, s1)"
      unfolding puts_def k_def ns_def n_def by blast
    from api_writes(1,2) [OF laws d'(5)] d'(1-4) e agrees_accepts show ?thesis
      using only_at_same [OF _ e(1)] by auto
  next
    fix current assume sec: "s' = s" "kind_of d = KSecret" "get_current c d s = Inr current"
      "has_labels (object_meta_of (lv_Object current)) (om_Labels (object_meta_of d))"
    from sec(3) have x: "st s k ns n = Some (core (lv_Object current))"
      using api_reads(2) [OF laws] by (simp add: get_current_def k_def ns_def n_def)
    moreover have "kind_of (core (lv_Object current)) = k \<and> object_name (core (lv_Object current)) = n"
      using api_reads(1) [OF laws x] by blast
    moreover have "has_labels (object_meta_of (core (lv_Object current))) (om_Labels (object_meta_of d))"
      using sec(4) by (simp add: has_labels_def)
    ultimately show ?thesis using sec(1,2) by (simp add: k8s_accepts_def k_def n_def)
  qed simp
  then show "only_at st k ns n s s'" "is_ok r \<Longrightarrow> \<exists>x. st s' k ns n = Some x \<and> k8s_accepts d x" by blast+
qed

lemma unchanged_accepts:
  assumes laws: "api_laws c st" and g: "get_current c d s = Inr current" and e: "is_equal d current = Inr True"
  shows "\<exists>x. st s (kind_of d) (object_namespace d) (object_name d) = Some x \<and> agrees d x"
  using api_reads(2) [OF laws] g is_equal_agrees [OF e] by (auto simp: get_current_def)

section \<open>The waits end\<close>

text \<open>The rounds that are left: every round but one sleeps two seconds.\<close>

definition wait_rounds :: "int \<Rightarrow> nat" where
  "wait_rounds left = nat (left div (2 * Second) + 1)"

lemma wait_rounds_less: "0 \<le> left \<Longrightarrow> left' \<le> left - 2 * Second \<Longrightarrow> wait_rounds left' < wait_rounds left"
proof -
  assume a: "0 \<le> left" "left' \<le> left - 2 * Second"
  have "left' div (2 * Second) \<le> (left - 2 * Second) div (2 * Second)"
    using a(2) by (intro zdiv_mono1) (simp_all add: Second_def)
  also have "\<dots> = left div (2 * Second) - 1" by (simp add: Second_def)
  finally have "left' div (2 * Second) < left div (2 * Second)" by simp
  moreover have "0 \<le> left div (2 * Second)" using a(1) by (simp add: Second_def pos_imp_zdiv_nonneg_iff)
  ultimately show ?thesis by (simp add: wait_rounds_def)
qed

lemma wait_rounds_minute: "left \<le> Minute \<Longrightarrow> wait_rounds left \<le> 31"
proof -
  assume "left \<le> Minute"
  then have "left div (2 * Second) \<le> Minute div (2 * Second)" by (intro zdiv_mono1) (simp_all add: Second_def)
  then show ?thesis by (simp add: wait_rounds_def Minute_def Second_def)
qed

definition settles :: "unit res \<times> 's \<Rightarrow> unit res \<times> 's \<Rightarrow> bool" where
  "settles a b \<longleftrightarrow> a = b \<and> fst a \<noteq> Inl Hang"

lemma settles_if [simp]: "settles (if b then x else y) (if b then x else y') \<longleftrightarrow> (if b then settles x x else settles y y')"
  by simp

lemma wait_until_started_fuel:
  assumes t: "keeps_time c" and h: "\<And>k ns n s. GetObject c k ns n s \<noteq> Inl Hang"
  shows "wait_rounds (Minute - (Now c s - start)) + (if state < 2 then 1 else 0) < fuel \<Longrightarrow>
    wait_rounds (Minute - (Now c s - start)) + (if state < 2 then 1 else 0) < fuel' \<Longrightarrow>
    settles (wait_until_started c fuel d g start state s) (wait_until_started c fuel' d g start state s)"
proof (induction fuel arbitrary: fuel' state s)
  case (Suc fuel)
  let ?get = "GetObject c KDeployment (om_Namespace (kd_Meta d)) (om_Name (kd_Meta d)) s"
  obtain f' where f': "fuel' = Suc f'" using Suc.prems(2) by (cases fuel') auto
  let ?left = "Minute - (Now c s - start)"
  let ?again = "\<lambda>fuel state. if deploymentStartTimeout < Now c s - start then (Inl OtherError, s)
    else wait_until_started c fuel d g start state (Sleep c (2 * Second) s)"
  have again: "settles (?again fuel state') (?again f' state')"
    if st: "state \<le> state'" for state'
  proof (cases "deploymentStartTimeout < Now c s - start")
    case False
    have "Now c s + 2 * Second \<le> Now c (Sleep c (2 * Second) s)"
      using t by (simp add: keeps_time_def Second_def)
    then have "wait_rounds (Minute - (Now c (Sleep c (2 * Second) s) - start)) < wait_rounds ?left"
      using False by (intro wait_rounds_less) (simp_all add: deploymentStartTimeout_def)
    moreover have "(if state' < 2 then 1 else 0) \<le> (if state < 2 then 1 else (0::nat))" using st by simp
    ultimately have "settles (wait_until_started c fuel d g start state' (Sleep c (2 * Second) s))
        (wait_until_started c f' d g start state' (Sleep c (2 * Second) s))"
      using Suc.prems f' by (intro Suc.IH) linarith+
    with False show ?thesis by simp
  qed (simp add: settles_def)
  have go: "settles (wait_until_started c fuel d g start 2 s) (wait_until_started c f' d g start 2 s)" if "state = 1"
    using Suc.prems f' that by (intro Suc.IH) simp_all
  show ?case
  proof (cases ?get)
    case (Inl e)
    with h show ?thesis by (auto simp: f' settles_def)
  next
    case (Inr current)
    show ?thesis
    proof (cases "lv_Deployment current")
      case None
      with Inr again [of state] show ?thesis by (simp add: f')
    next
      case (Some status)
      consider "state = 0" | "state = 1" | "2 \<le> state" by linarith
      then show ?thesis
      proof cases
        case 1
        with Inr Some again [of 1] again [of 0] show ?thesis by (auto simp: f' simp del: One_nat_def split: if_splits)
      next
        case 2
        with Inr Some again [of 1] go show ?thesis by (auto simp: f' simp del: One_nat_def split: if_splits)
      next
        case 3
        with Inr Some again [of state] show ?thesis by (auto simp: f' settles_def simp del: One_nat_def split: if_splits)
      qed
    qed
  qed
qed simp

lemma wait_for_pod_fuel:
  assumes t: "keeps_time c" and h: "\<And>ns ls s. ListPods c ns ls s \<noteq> Inl Hang"
  shows "nat ((Minute - (Now c s - start)) div Second + 1) < fuel \<Longrightarrow>
    nat ((Minute - (Now c s - start)) div Second + 1) < fuel' \<Longrightarrow>
    settles (wait_for_pod c fuel ls pod start s) (wait_for_pod c fuel' ls pod start s)"
proof (induction fuel arbitrary: fuel' s)
  case (Suc fuel)
  obtain f' where f': "fuel' = Suc f'" using Suc.prems(2) by (cases fuel') auto
  have new: "new_pod_running pod items b \<noteq> Inl Hang" for items b
    by (induction pod items b rule: new_pod_running.induct) auto
  let ?m = "rbind (ListPods c (om_Namespace (pi_Meta pod)) ls s) (\<lambda>items. new_pod_running pod items False)"
  have m: "?m \<noteq> Inl Hang" using h new by (auto simp: rbind_eq_Err)
  show ?case
  proof (cases "\<exists>b. ?m = Inr b \<and> \<not> b \<and> \<not> daemonSetPodStartTimeout < Now c s - start")
    case False
    with m show ?thesis by (auto simp: f' Let_def settles_def split: sum.splits)
  next
    case True
    let ?s = "Sleep c Second s"
    have "Now c s + Second \<le> Now c ?s" using t by (simp add: keeps_time_def Second_def)
    moreover have "0 \<le> Minute - (Now c s - start)" using True by (auto simp: daemonSetPodStartTimeout_def)
    ultimately have "nat ((Minute - (Now c ?s - start)) div Second + 1) < nat ((Minute - (Now c s - start)) div Second + 1)"
      by (simp add: Second_def) linarith
    then have "settles (wait_for_pod c fuel ls pod start ?s) (wait_for_pod c f' ls pod start ?s)"
      using Suc.prems f' by (intro Suc.IH) linarith+
    with True show ?thesis by (auto simp: f' Let_def)
  qed
qed simp

end
