(* ===== verification/K8sScheduler.thy ===== *)
theory K8sScheduler
  imports K8sUnitLaws DeploymentLaws
begin

text \<open>
  The Kubernetes implementation of the scheduler interface: \<^verbatim>\<open>scheduler/kubernetes\<close>.
  Its state is that of the API server. The goroutines of \<^verbatim>\<open>Start\<close> and
  \<^verbatim>\<open>Destroy\<close>, one for each unit, run one after another in the order
  \<open>sp_Order\<close>; all of them run, and the first error is the result. It meets the laws of
  \<^theory_text>\<open>scheduler_laws\<close> for every API server that meets \<open>api_laws\<close>.
\<close>

record 's k8s_setup =
  sp_Client :: "'s k8s_client"
  sp_Order :: "'s \<Rightarrow> k8s_object list \<Rightarrow> k8s_object list"
  sp_Fuel :: nat
  sp_Getenv :: "string \<Rightarrow> string"
  sp_ReadFile :: "string \<Rightarrow> string res"

record k8s_scheduler_data =
  sd_DefaultNamespace :: string
  sd_JobName :: string
  sd_Cluster :: cluster

section \<open>Listing\<close>

definition list_units :: "'s k8s_client \<Rightarrow> string \<Rightarrow> 's \<Rightarrow> k8s_object list res" where
  "list_units c defaultNamespace s =
     rbind (map_res (\<lambda>k. ListObjects c k defaultNamespace s)
       [KDeployment, KDaemonSet, KJob, KService, KSecret, KIngress]) (\<lambda>lists. Inr (concat lists))"

section \<open>The cluster configuration\<close>

definition EnvVarClusterID :: string where "EnvVarClusterID = ''CLUSTER_ID''"
definition EnvVarVaultCAPath :: string where "EnvVarVaultCAPath = ''VAULT_CAPATH''"
definition DockerRegistrySecretDataFieldDockerConfigJSON :: string where
  "DockerRegistrySecretDataFieldDockerConfigJSON = ''.dockerconfigjson''"
definition DockerRegistrySecretTypeDockerConfigJSON :: string where
  "DockerRegistrySecretTypeDockerConfigJSON = ''kubernetes.io/dockerconfigjson''"

fun secret_of :: "k8s_object \<Rightarrow> k8s_secret res" where
  "secret_of (OSecret x) = Inr x"
| "secret_of _ = Inl OtherError"

definition get_secret :: "'s k8s_client \<Rightarrow> string \<Rightarrow> string \<Rightarrow> 's \<Rightarrow> k8s_secret res" where
  "get_secret c namespace name s = rbind (GetObject c KSecret namespace name s) (\<lambda>l. secret_of (lv_Object l))"

definition secret_data :: "k8s_secret \<Rightarrow> string \<Rightarrow> string option" where
  "secret_data x key = (case kx_Data x of None \<Rightarrow> None | Some m \<Rightarrow> map_of m key)"

definition check_registry_secret :: "'s k8s_client \<Rightarrow> string \<Rightarrow> 's \<Rightarrow> string \<Rightarrow> unit res" where
  "check_registry_secret c ns s secretName =
     rbind (get_secret c ns secretName s) (\<lambda>secret.
     rbind (guard (secret_data secret DockerRegistrySecretDataFieldDockerConfigJSON \<noteq> None) OtherError) (\<lambda>_.
       guard (kx_Type secret = DockerRegistrySecretTypeDockerConfigJSON) OtherError))"

definition check_cluster :: "'s k8s_client \<Rightarrow> k8s_scheduler_data \<Rightarrow> 's \<Rightarrow> unit res" where
  "check_cluster c q s =
     (let ns = sd_DefaultNamespace q
      in rbind (get_secret c ns SecretVaultInfo s) (\<lambda>vaultInfo.
         rbind (guard (secret_data vaultInfo EnvVarVaultAddress \<noteq> None) OtherError) (\<lambda>_.
         rbind (guard (secret_data vaultInfo EnvVarVaultCACert \<noteq> None \<or> secret_data vaultInfo EnvVarVaultCAPath \<noteq> None)
           OtherError) (\<lambda>_.
         rbind (get_secret c ns SecretClusterInfo s) (\<lambda>clusterInfo.
         rbind (guard (secret_data clusterInfo EnvVarClusterID \<noteq> None) OtherError) (\<lambda>_.
           iter_res (check_registry_secret c ns s) (RegistrySecrets (KubernetesOptions (sd_Cluster q)))))))))"

definition ensure_namespace :: "'s k8s_client \<Rightarrow> string \<Rightarrow> 's \<Rightarrow> unit res \<times> 's" where
  "ensure_namespace c namespace s =
     (case GetNamespace c namespace s of
        Inl _ \<Rightarrow> CreateNamespace c namespace s
      | Inr _ \<Rightarrow> (Inr (), s))"

text \<open>Writing to the nil map of a secret that has no data panics.\<close>

fun set_data :: "(string \<times> string) list \<Rightarrow> k8s_secret \<Rightarrow> k8s_secret res" where
  "set_data [] x = Inr x"
| "set_data ((k, v) # vals) x =
     (case kx_Data x of
        None \<Rightarrow> Inl Panic
      | Some m \<Rightarrow> set_data vals (x\<lparr>kx_Data := Some (AList.update k v m)\<rparr>))"

definition update_secret ::
  "'s k8s_client \<Rightarrow> string \<Rightarrow> string \<Rightarrow> (string \<times> string) list \<Rightarrow> string \<Rightarrow> 's \<Rightarrow> unit res \<times> 's" where
  "update_secret c ns secretName vals secretType s =
     (let found = get_secret c ns secretName s;
          create = (case found of Inl _ \<Rightarrow> True | Inr _ \<Rightarrow> False);
          secret = (case found of Inl _ \<Rightarrow> new_secret ns secretName | Inr x \<Rightarrow> x);
          secret = (if secretType \<noteq> '''' then secret\<lparr>kx_Type := secretType\<rparr> else secret)
      in case set_data vals secret of
           Inl e \<Rightarrow> (Inl e, s)
         | Inr secret \<Rightarrow> if create then CreateObject c ns (OSecret secret) s else UpdateObject c ns (OSecret secret) s)"

record cluster_config =
  cc_ClusterID :: string
  cc_VaultAddress :: string
  cc_VaultCACert :: string
  cc_VaultCAPath :: string

definition env_vault_ca_cert :: "'s k8s_setup \<Rightarrow> string" where
  "env_vault_ca_cert u =
     (let caCertPath = sp_Getenv u ''VAULT_CACERT''
      in if caCertPath = '''' then '''' else (case sp_ReadFile u caCertPath of Inl _ \<Rightarrow> '''' | Inr raw \<Rightarrow> raw))"

definition env_cluster_config :: "'s k8s_setup \<Rightarrow> cluster_config" where
  "env_cluster_config u =
     \<lparr>cc_ClusterID = '''', cc_VaultAddress = sp_Getenv u ''VAULT_ADDR'', cc_VaultCACert = env_vault_ca_cert u,
      cc_VaultCAPath = ''''\<rparr>"

definition base_cluster_id :: "'s k8s_client \<Rightarrow> 's \<Rightarrow> string" where
  "base_cluster_id c s =
     (case get_secret c ''base'' SecretClusterInfo s of
        Inl _ \<Rightarrow> ''''
      | Inr secret \<Rightarrow> (case secret_data secret EnvVarClusterID of None \<Rightarrow> '''' | Some v \<Rightarrow> v))"

definition add_registry_config ::
  "'s k8s_client \<Rightarrow> 's \<Rightarrow> string \<Rightarrow> (string \<times> string) list \<Rightarrow> (string \<times> string) list" where
  "add_registry_config c s secretName configs =
     (case get_secret c ''base'' secretName s of
        Inl _ \<Rightarrow> configs
      | Inr secret \<Rightarrow>
          (case secret_data secret DockerRegistrySecretDataFieldDockerConfigJSON of
             None \<Rightarrow> configs
           | Some config \<Rightarrow>
               if kx_Type secret \<noteq> DockerRegistrySecretTypeDockerConfigJSON then configs
               else AList.update secretName config configs))"

definition write_cluster_secrets ::
  "'s k8s_client \<Rightarrow> k8s_scheduler_data \<Rightarrow> cluster_config \<Rightarrow> string \<Rightarrow> (string \<times> string) list \<Rightarrow> 's \<Rightarrow> unit res \<times> 's" where
  "write_cluster_secrets c q config clusterID registrySecretConfigs s =
     (let ns = sd_DefaultNamespace q
      in sbind (ensure_namespace c ns s) (\<lambda>_ s.
         sbind (update_secret c ns SecretVaultInfo
             [(EnvVarVaultAddress, cc_VaultAddress config), (EnvVarVaultCACert, cc_VaultCACert config),
              (EnvVarVaultCAPath, cc_VaultCAPath config)] '''' s) (\<lambda>_ s.
         sbind (update_secret c ns SecretClusterInfo [(EnvVarClusterID, clusterID)] '''' s) (\<lambda>_ s.
         sbind (each_res (\<lambda>(secretName, config). update_secret c ns secretName
             [(DockerRegistrySecretDataFieldDockerConfigJSON, config)] DockerRegistrySecretTypeDockerConfigJSON)
             registrySecretConfigs s) (\<lambda>_ s.
           (ListNodes c s, s))))))"

definition configure_cluster :: "'s k8s_client \<Rightarrow> k8s_scheduler_data \<Rightarrow> cluster_config \<Rightarrow> 's \<Rightarrow> unit res \<times> 's" where
  "configure_cluster c q config s =
     (if cc_ClusterID config = '''' then
        (let clusterID = (if sd_DefaultNamespace q \<noteq> ''base'' then base_cluster_id c s else '''');
             configs = (if sd_DefaultNamespace q \<noteq> ''base''
               then fold (add_registry_config c s) (RegistrySecrets (KubernetesOptions (sd_Cluster q))) [] else [])
         in if clusterID = '''' then (Inl OtherError, s)
            else write_cluster_secrets c q config clusterID configs s)
      else write_cluster_secrets c q config (cc_ClusterID config) [] s)"

text \<open>The error of configuring is dropped; a panic in it ends the program.\<close>

definition validate_cluster :: "'s k8s_setup \<Rightarrow> k8s_scheduler_data \<Rightarrow> 's \<Rightarrow> unit res \<times> 's" where
  "validate_cluster u q s =
     (let c = sp_Client u
      in case check_cluster c q s of
           Inr _ \<Rightarrow> (Inr (), s)
         | Inl _ \<Rightarrow>
             (case configure_cluster c q (env_cluster_config u) s of
                (r, s) \<Rightarrow> (if r = Inl Panic then Inl Panic else check_cluster c q s, s)))"

section \<open>Units\<close>

definition k8s_get_state :: "'s k8s_client \<Rightarrow> k8s_object \<Rightarrow> 's \<Rightarrow> bool res \<times> 's" where
  "k8s_get_state c u s = (rbind (is_valid_state c u s) (\<lambda>ok. Inr (\<not> ok)), s)"

definition k8s_has_changed :: "'s k8s_client \<Rightarrow> k8s_object \<Rightarrow> 's \<Rightarrow> bool res" where
  "k8s_has_changed c d s =
     rbind (get_current c d s) (\<lambda>current. rbind (is_equal d current) (\<lambda>eq. Inr (\<not> eq)))"

fun run_all :: "('a \<Rightarrow> 's \<Rightarrow> unit res \<times> 's) \<Rightarrow> 'a list \<Rightarrow> 's \<Rightarrow> unit res \<times> 's" where
  "run_all f [] s = (Inr (), s)"
| "run_all f (x # xs) s =
     (case f x s of (r, s1) \<Rightarrow> case run_all f xs s1 of (r', s2) \<Rightarrow> (first_error r r', s2))"

definition k8s_destroy :: "'s k8s_setup \<Rightarrow> reason \<Rightarrow> k8s_object list \<Rightarrow> 's \<Rightarrow> unit res \<times> 's" where
  "k8s_destroy u reason units s =
     (if reason \<noteq> ReasonObsolete then (Inr (), s)
      else run_all (destroy_object (sp_Client u)) (sp_Order u s units) s)"

definition start_unit :: "'s k8s_client \<Rightarrow> nat \<Rightarrow> k8s_object \<Rightarrow> 's \<Rightarrow> unit res \<times> 's" where
  "start_unit c fuel d s = sbind (ensure_namespace c (object_namespace d) s) (\<lambda>_. start_object c fuel d)"

definition k8s_start :: "'s k8s_setup \<Rightarrow> k8s_object list \<Rightarrow> 's \<Rightarrow> unit res \<times> 's" where
  "k8s_start u units s = run_all (start_unit (sp_Client u) (sp_Fuel u)) (sp_Order u s units) s"

definition label_of :: "k8s_object \<Rightarrow> string \<Rightarrow> string" where
  "label_of u key = (case map_of (om_Labels (object_meta_of u)) key of None \<Rightarrow> '''' | Some v \<Rightarrow> v)"

definition k8s_unit_for_job :: "k8s_scheduler_data \<Rightarrow> k8s_object \<Rightarrow> bool" where
  "k8s_unit_for_job q u \<longleftrightarrow> label_of u LabelJobName = k8s_resource_name (sd_JobName q)"

definition k8s_unit_for_task_group :: "k8s_scheduler_data \<Rightarrow> k8s_object \<Rightarrow> string \<Rightarrow> bool" where
  "k8s_unit_for_task_group q u g \<longleftrightarrow>
     (if \<not> k8s_unit_for_job q u then False else label_of u LabelTaskGroupName = k8s_resource_name g)"

definition new_k8s_scheduler :: "job \<Rightarrow> cluster \<Rightarrow> k8s_scheduler_data" where
  "new_k8s_scheduler j c =
     \<lparr>sd_DefaultNamespace = k8s_resource_name (j_Name j), sd_JobName = j_Name j, sd_Cluster = c\<rparr>"

text \<open>Stopping is left to the cluster; no global unit is stopped.\<close>

definition k8s_stop :: "reason \<Rightarrow> k8s_object list \<Rightarrow> 's \<Rightarrow> int res \<times> 's" where
  [simp]: "k8s_stop = (\<lambda>reason units s. (Inr 0, s))"

text \<open>Every unit of the job is one of every scaling group.\<close>

definition k8s_unit_for_scaling_group :: "k8s_scheduler_data \<Rightarrow> k8s_object \<Rightarrow> nat \<Rightarrow> bool" where
  [simp]: "k8s_unit_for_scaling_group q = (\<lambda>x sg. k8s_unit_for_job q x)"

definition k8s_scheduler :: "'s k8s_setup \<Rightarrow> k8s_scheduler_data \<Rightarrow> ('s, k8s_object, k8s_object) scheduler" where
  "k8s_scheduler u q =
     \<lparr>unit_id = object_name, data_id = object_name,
      ValidateCluster = validate_cluster u q,
      ListUnits = list_units (sp_Client u) (sd_DefaultNamespace q),
      GetState = k8s_get_state (sp_Client u),
      HasChanged = k8s_has_changed (sp_Client u),
      StopUnits = k8s_stop,
      DestroyUnits = k8s_destroy u,
      StartUnits = k8s_start u,
      IsUnitForScalingGroup = k8s_unit_for_scaling_group q,
      IsUnitForJob = k8s_unit_for_job q,
      IsUnitForTaskGroup = k8s_unit_for_task_group q,
      PassTime = Sleep (sp_Client u) 0\<rparr>"

end
