(* ===== verification/K8sSchedulerLaws.thy ===== *)
theory K8sSchedulerLaws
  imports K8sScheduler DeploymentKeeps
begin

text \<open>
  The Kubernetes scheduler under the laws of \<^theory_text>\<open>scheduler_laws\<close>: what is
  installed under a name is the object the API server keeps under that name in the namespace of the
  job. That needs each name to be used by one kind of object only, which the suffixes of the generated
  names ensure. The secrets of the cluster configuration are the reserved names.
\<close>

section \<open>Names and kinds\<close>

definition suffix_kind :: "string \<Rightarrow> kind option" where
  "suffix_kind n =
     (if suffix kindDeployment n then Some KDeployment
      else if suffix kindDaemonSet n then Some KDaemonSet
      else if suffix kindJob n then Some KJob
      else if suffix kindSecret n then Some KSecret
      else if suffix kindService n \<or> suffix (kindService @ ''-host'') n then Some KService
      else if suffix kindIngress n then Some KIngress
      else None)"

definition reserved_names :: "cluster \<Rightarrow> string set" where
  "reserved_names cl = {SecretVaultInfo, SecretClusterInfo} \<union> set (RegistrySecrets (KubernetesOptions cl))"

definition name_kind :: "cluster \<Rightarrow> string \<Rightarrow> kind option" where
  "name_kind cl n = (if n \<in> reserved_names cl then Some KSecret else suffix_kind n)"

definition all_kinds :: "kind list" where
  "all_kinds = [KDeployment, KDaemonSet, KJob, KService, KSecret, KIngress]"

lemma set_all_kinds [simp]: "k \<in> set all_kinds"
  by (cases k) (simp_all add: all_kinds_def)

definition at_any :: "(kind \<Rightarrow> k8s_object option) \<Rightarrow> k8s_object option" where
  "at_any f = (case filter (\<lambda>k. f k \<noteq> None) all_kinds of [] \<Rightarrow> None | k # _ \<Rightarrow> f k)"

definition k8s_view :: "'s store \<Rightarrow> string \<Rightarrow> 's \<Rightarrow> string \<Rightarrow> k8s_object option" where
  "k8s_view st ns s n = at_any (\<lambda>k. st s k ns n)"

definition k8s_ok :: "'s store \<Rightarrow> string \<Rightarrow> cluster \<Rightarrow> 's \<Rightarrow> bool" where
  "k8s_ok st ns cl s \<longleftrightarrow>
     (\<forall>n k. st s k ns n \<noteq> None \<longrightarrow> (\<forall>k'. st s k' ns n \<noteq> None \<longrightarrow> k' = k) \<and> name_kind cl n \<in> {None, Some k})"

definition k8s_data_ok :: "string \<Rightarrow> cluster \<Rightarrow> k8s_object \<Rightarrow> bool" where
  "k8s_data_ok ns cl d \<longleftrightarrow> object_namespace d = ns \<and> object_name d \<notin> reserved_names cl \<and>
     suffix_kind (object_name d) = Some (kind_of d)"

lemma k8s_data_ok_kind: "k8s_data_ok ns cl d \<Longrightarrow> name_kind cl (object_name d) = Some (kind_of d)"
  by (simp add: k8s_data_ok_def name_kind_def)

lemma at_any_cases: "at_any f = None \<and> (\<forall>k. f k = None) \<or> (\<exists>k x. f k = Some x \<and> at_any f = Some x)"
proof (cases "filter (\<lambda>k. f k \<noteq> None) all_kinds")
  case Nil
  have "f k = None" for k
  proof (rule ccontr)
    assume "f k \<noteq> None"
    then have "k \<in> set (filter (\<lambda>k. f k \<noteq> None) all_kinds)" by simp
    with Nil show False by simp
  qed
  with Nil show ?thesis by (simp add: at_any_def)
next
  case (Cons k ks)
  then have "k \<in> set (filter (\<lambda>k. f k \<noteq> None) all_kinds)" by simp
  then obtain x where "f k = Some x" by auto
  moreover from this Cons have "at_any f = Some x" unfolding at_any_def by simp
  ultimately show ?thesis by blast
qed

lemma k8s_view_None: "k8s_view st ns s n = None \<longleftrightarrow> (\<forall>k. st s k ns n = None)"
  using at_any_cases [of "\<lambda>k. st s k ns n"] by (auto simp: k8s_view_def)

lemma k8s_view_elem: "k8s_view st ns s n = Some x \<Longrightarrow> \<exists>k. st s k ns n = Some x"
  using at_any_cases [of "\<lambda>k. st s k ns n"] by (auto simp: k8s_view_def)

lemma k8s_view_at:
  assumes "k8s_ok st ns cl s" "st s k ns n = Some x" shows "k8s_view st ns s n = Some x"
proof -
  obtain k' y where k': "st s k' ns n = Some y" "k8s_view st ns s n = Some y"
    using at_any_cases [of "\<lambda>k. st s k ns n"] assms(2) by (auto simp: k8s_view_def)
  then have "k' = k" using assms unfolding k8s_ok_def by (metis option.distinct(1))
  with k' assms(2) show ?thesis by simp
qed

lemma k8s_view_cong: "(\<And>k. st s' k ns n = st s k ns n) \<Longrightarrow> k8s_view st ns s' n = k8s_view st ns s n"
  by (simp add: k8s_view_def)

lemma k8s_view_same: "st s' = st s \<Longrightarrow> k8s_view st ns s' = k8s_view st ns s"
  by (simp add: k8s_view_def fun_eq_iff)

lemma k8s_ok_same: "st s' = st s \<Longrightarrow> k8s_ok st ns cl s' \<longleftrightarrow> k8s_ok st ns cl s"
  by (simp add: k8s_ok_def)

lemma only_at_view: "only_at st k ns' n s s' \<Longrightarrow> m \<noteq> n \<Longrightarrow> k8s_view st ns s' m = k8s_view st ns s m"
  by (rule k8s_view_cong) (simp add: only_at_def)

text \<open>One object is written or removed.\<close>

lemma k8s_ok_put:
  assumes "k8s_ok st ns cl s" "only_at st k ns n s s'" "name_kind cl n = Some k"
  shows "k8s_ok st ns cl s'"
  unfolding k8s_ok_def
proof (intro allI impI)
  fix m k1 assume p: "st s' k1 ns m \<noteq> None"
  show "(\<forall>k'. st s' k' ns m \<noteq> None \<longrightarrow> k' = k1) \<and> name_kind cl m \<in> {None, Some k1}"
  proof (cases "m = n")
    case True
    have only: "st s' k' ns n = None" if "k' \<noteq> k" for k'
    proof -
      have "st s' k' ns n = st s k' ns n" using assms(2) that by (simp add: only_at_def)
      moreover have "st s k' ns n \<noteq> None \<Longrightarrow> name_kind cl n \<in> {None, Some k'}"
        using assms(1) unfolding k8s_ok_def by blast
      then have "st s k' ns n = None" using assms(3) that by (cases "st s k' ns n") auto
      ultimately show ?thesis by simp
    qed
    have k1: "k1 = k"
    proof (rule ccontr)
      assume "k1 \<noteq> k"
      from only [OF this] show False by (rule notE [OF p [unfolded True]])
    qed
    have "\<forall>k'. st s' k' ns n \<noteq> None \<longrightarrow> k' = k"
    proof (intro allI impI, rule ccontr)
      fix k' assume "st s' k' ns n \<noteq> None" "k' \<noteq> k"
      with only show False by simp
    qed
    with assms(3) show ?thesis unfolding True k1 by simp
  next
    case False
    then have "st s' k' ns m = st s k' ns m" for k' using assms(2) by (simp add: only_at_def)
    with assms(1) p show ?thesis unfolding k8s_ok_def by simp
  qed
qed

lemma k8s_removed:
  assumes o: "k8s_ok st ns cl s" and e: "only_at st k ns' n s s'"
    and d: "st s' k ns' n = None \<or> st s' k ns' n = st s k ns' n"
  shows "k8s_ok st ns cl s'" "k8s_view st ns s' m = None \<or> k8s_view st ns s' m = k8s_view st ns s m"
proof -
  have sub: "st s' k' ns m = None \<or> st s' k' ns m = st s k' ns m" for k' m
    using e d unfolding only_at_def by (cases "(k', ns, m) = (k, ns', n)") auto
  then show ok': "k8s_ok st ns cl s'" using o unfolding k8s_ok_def by metis
  show "k8s_view st ns s' m = None \<or> k8s_view st ns s' m = k8s_view st ns s m"
  proof (cases "k8s_view st ns s' m")
    case (Some x)
    then obtain k' where k': "st s' k' ns m = Some x" using k8s_view_elem by metis
    then have "st s k' ns m = Some x" using sub [of k' m] by simp
    from k8s_view_at [OF o this] Some show ?thesis by simp
  qed simp
qed

section \<open>The configuration of the cluster\<close>

text \<open>Other namespaces are left alone.\<close>

definition elsewhere_same :: "'s store \<Rightarrow> string \<Rightarrow> 's \<Rightarrow> 's \<Rightarrow> bool" where
  "elsewhere_same st ns s s' \<longleftrightarrow> (\<forall>k ns' n. ns' \<noteq> ns \<longrightarrow> st s' k ns' n = st s k ns' n)"

lemma elsewhere_same_simps [simp]: "elsewhere_same st ns s s"
  by (simp add: elsewhere_same_def)

lemma elsewhere_same_trans: "elsewhere_same st ns s s1 \<Longrightarrow> elsewhere_same st ns s1 s2 \<Longrightarrow> elsewhere_same st ns s s2"
  by (simp add: elsewhere_same_def)

lemma elsewhere_same_at: "only_at st k ns n s s' \<Longrightarrow> elsewhere_same st ns s s'"
  by (simp add: only_at_def elsewhere_same_def)

lemma elsewhere_same_store: "st s' = st s \<Longrightarrow> elsewhere_same st ns s s'"
  by (simp add: elsewhere_same_def)

text \<open>Only reserved names of the namespace change.\<close>

definition only_reserved :: "'s store \<Rightarrow> string \<Rightarrow> cluster \<Rightarrow> 's \<Rightarrow> 's \<Rightarrow> bool" where
  "only_reserved st ns cl s s' \<longleftrightarrow> (k8s_ok st ns cl s \<longrightarrow> k8s_ok st ns cl s') \<and>
     (\<forall>n. n \<notin> reserved_names cl \<longrightarrow> k8s_view st ns s' n = k8s_view st ns s n) \<and> elsewhere_same st ns s s'"

lemma only_reserved_refl [simp]: "only_reserved st ns cl s s"
  by (simp add: only_reserved_def)

lemma only_reserved_trans: "only_reserved st ns cl s s1 \<Longrightarrow> only_reserved st ns cl s1 s2 \<Longrightarrow> only_reserved st ns cl s s2"
  using elsewhere_same_trans [of st ns s s1 s2] by (simp add: only_reserved_def)

lemma only_reserved_same: "st s' = st s \<Longrightarrow> only_reserved st ns cl s s'"
  using k8s_view_same [of st s' s ns] k8s_ok_same [of st s' s ns cl] elsewhere_same_store [of st s' s ns]
  by (simp add: only_reserved_def)

lemma ensure_namespace_keeps: "api_laws c st \<Longrightarrow> ensure_namespace c ns s = (r, s') \<Longrightarrow> st s' = st s"
  by (auto simp: ensure_namespace_def split: sum.splits dest: api_keeps(3))

lemma set_data_meta: "set_data vals x = Inr y \<Longrightarrow> kx_Meta y = kx_Meta x"
  by (induction vals x rule: set_data.induct) (auto split: option.splits)

lemma get_secret_name:
  assumes "api_laws c st" "get_secret c ns n s = Inr x" shows "om_Name (kx_Meta x) = n"
proof -
  obtain l where l: "GetObject c KSecret ns n s = Inr l" "secret_of (lv_Object l) = Inr x"
    using assms(2) by (auto simp: get_secret_def)
  from api_reads(1) [OF assms(1) api_reads(2) [OF assms(1) l(1)]] l(2)
  show ?thesis by (cases "lv_Object l") (auto simp: object_name_def)
qed

lemma update_secret_effect:
  assumes laws: "api_laws c st" and u: "update_secret c ns n vals ty s = (r, s')" and n: "n \<in> reserved_names cl"
  shows "only_reserved st ns cl s s'"
proof -
  let ?x = "case get_secret c ns n s of Inl _ \<Rightarrow> new_secret ns n | Inr x \<Rightarrow> x"
  have nm: "om_Name (kx_Meta ?x) = n"
    using get_secret_name [OF laws] by (auto simp: new_secret_def split: sum.splits)
  obtain y where y: "s' = s \<or> set_data vals (if ty \<noteq> '''' then ?x\<lparr>kx_Type := ty\<rparr> else ?x) = Inr y \<and>
      (CreateObject c ns (OSecret y) s = (r, s') \<or> UpdateObject c ns (OSecret y) s = (r, s'))"
    using u by (auto simp: update_secret_def Let_def split: sum.splits if_splits)
  show ?thesis
  proof (cases "s' = s")
    case False
    with y have w: "CreateObject c ns (OSecret y) s = (r, s') \<or> UpdateObject c ns (OSecret y) s = (r, s')"
      and "kx_Meta y = kx_Meta ?x" by (auto dest!: set_data_meta split: if_splits)
    then have "object_name (OSecret y) = n" using nm by (simp add: object_name_def)
    with api_writes(1) [OF laws w] have e: "only_at st KSecret ns n s s'" by simp
    have "k8s_view st ns s' m = k8s_view st ns s m" if "m \<notin> reserved_names cl" for m
      by (rule only_at_view [OF e]) (use that n in auto)
    with k8s_ok_put [OF _ e, of cl] elsewhere_same_at [OF e] n show ?thesis by (simp add: only_reserved_def name_kind_def)
  qed simp
qed

lemma each_secret_effect:
  assumes "api_laws c st"
  shows "each_res (\<lambda>(n, config). update_secret c ns n (f config) ty) configs s = (r, s') \<Longrightarrow>
    fst ` set configs \<subseteq> reserved_names cl \<Longrightarrow> only_reserved st ns cl s s'"
proof (induction configs arbitrary: s)
  case (Cons nc configs)
  obtain n config where nc: "nc = (n, config)" by fastforce
  from Cons.prems(1) show ?case unfolding each_res.simps
  proof (cases rule: sbind_cases)
    case (err e)
    with Cons.prems(2) show ?thesis by (auto simp: nc intro: update_secret_effect [OF assms])
  next
    case (ok x s1)
    have "only_reserved st ns cl s s1" using ok(1) Cons.prems(2) by (auto simp: nc intro: update_secret_effect [OF assms])
    moreover have "only_reserved st ns cl s1 s'" using Cons.IH [OF ok(2)] Cons.prems(2) by simp
    ultimately show ?thesis by (rule only_reserved_trans)
  qed
qed simp

lemma write_cluster_secrets_effect:
  assumes laws: "api_laws c st" and w: "write_cluster_secrets c q config cid configs s = (r, s')"
    and n: "fst ` set configs \<subseteq> reserved_names (sd_Cluster q)"
  shows "only_reserved st (sd_DefaultNamespace q) (sd_Cluster q) s s'"
proof -
  have info: "SecretVaultInfo \<in> reserved_names (sd_Cluster q)" "SecretClusterInfo \<in> reserved_names (sd_Cluster q)"
    by (simp_all add: reserved_names_def)
  from w show ?thesis
    unfolding write_cluster_secrets_def Let_def
    by (elim sbind_cases)
      (auto dest!: ensure_namespace_keeps [OF laws] update_secret_effect [OF laws _ info(1)]
        update_secret_effect [OF laws _ info(2)] each_secret_effect [OF laws _ n]
        dest: only_reserved_same intro: only_reserved_trans)
qed

lemma add_registry_config_names:
  "fst ` set (fold (add_registry_config c s) ns configs) \<subseteq> set ns \<union> fst ` set configs"
proof (induction ns arbitrary: configs)
  case (Cons n ns)
  have "fst ` set (add_registry_config c s n configs) \<subseteq> insert n (fst ` set configs)"
    by (auto simp: add_registry_config_def dom_update split: sum.splits option.splits)
  with Cons [of "add_registry_config c s n configs"] show ?case by auto
qed simp

lemma validate_cluster_effect:
  assumes laws: "api_laws (sp_Client u) st" and v: "validate_cluster u q s = (r, s')"
  shows "only_reserved st (sd_DefaultNamespace q) (sd_Cluster q) s s'"
proof -
  obtain e s1 where cf: "configure_cluster (sp_Client u) q (env_cluster_config u) s = (e, s1)" by fastforce
  have names: "fst ` set (fold (add_registry_config (sp_Client u) s) (RegistrySecrets (KubernetesOptions (sd_Cluster q))) [])
      \<subseteq> reserved_names (sd_Cluster q)"
    using add_registry_config_names by (fastforce simp: reserved_names_def)
  have "only_reserved st (sd_DefaultNamespace q) (sd_Cluster q) s s1"
    using cf names by (auto simp: configure_cluster_def Let_def split: if_splits intro: write_cluster_secrets_effect [OF laws])
  moreover have "s' = s \<or> s' = s1" using v cf by (auto simp: validate_cluster_def Let_def split: sum.splits)
  ultimately show ?thesis by auto
qed

section \<open>Units\<close>

lemma destroy_all_effect:
  assumes laws: "api_laws c st"
  shows "run_all (destroy_object c) us s = (r, s') \<Longrightarrow>
    (\<forall>n. n \<notin> object_name ` set us \<longrightarrow> k8s_view st ns s' n = k8s_view st ns s n) \<and>
    (k8s_ok st ns cl s \<longrightarrow> k8s_ok st ns cl s' \<and>
      (\<forall>n. k8s_view st ns s' n = None \<or> k8s_view st ns s' n = k8s_view st ns s n) \<and>
      (is_ok r \<longrightarrow> (\<forall>u \<in> set us. object_namespace u = ns \<longrightarrow> k8s_view st ns s' (object_name u) = None)))"
proof (induction us arbitrary: s r)
  case (Cons u us)
  obtain r1 s1 where u: "destroy_object c u s = (r1, s1)" by fastforce
  obtain r2 s2 where us: "run_all (destroy_object c) us s1 = (r2, s2)" by fastforce
  from Cons.prems u us have r: "r = first_error r1 r2" "s' = s2" by simp_all
  note e = destroy_object_effect [OF laws u]
  note IH = Cons.IH [OF us [folded r(2)]]
  have frame: "k8s_view st ns s' n = k8s_view st ns s n" if "n \<notin> object_name ` set (u # us)" for n
    using IH only_at_view [OF e(1), of n ns] that by simp
  have rest: "k8s_ok st ns cl s' \<and> (\<forall>n. k8s_view st ns s' n = None \<or> k8s_view st ns s' n = k8s_view st ns s n) \<and>
      (is_ok r \<longrightarrow> (\<forall>u \<in> set (u # us). object_namespace u = ns \<longrightarrow> k8s_view st ns s' (object_name u) = None))"
    if ok: "k8s_ok st ns cl s"
  proof -
    note rem = k8s_removed [OF ok e(1,2)]
    have s1: "k8s_view st ns s1 (object_name u) = None" if d: "is_ok r1" "object_namespace u = ns"
      unfolding k8s_view_None
    proof
      fix k
      obtain x where x: "st s (kind_of u) ns (object_name u) = Some x" "st s1 (kind_of u) ns (object_name u) = None"
        using e(3) [OF d(1)] d(2) by auto
      show "st s1 k ns (object_name u) = None"
      proof (cases "k = kind_of u")
        case False
        then have "st s1 k ns (object_name u) = st s k ns (object_name u)" using e(1) by (simp add: only_at_def)
        moreover have "st s k ns (object_name u) = None"
          using ok x(1) False unfolding k8s_ok_def by (metis option.distinct(1))
        ultimately show ?thesis by simp
      qed (use x in simp)
    qed
    note i0 = mp [OF conjunct2 [OF IH] rem(1)]
    from conjunct1 [OF i0] conjunct1 [OF conjunct2 [OF i0]] conjunct2 [OF conjunct2 [OF i0]]
    have i: "k8s_ok st ns cl s'" "\<And>n. k8s_view st ns s' n = None \<or> k8s_view st ns s' n = k8s_view st ns s1 n"
      "is_ok r2 \<Longrightarrow> \<forall>u \<in> set us. object_namespace u = ns \<longrightarrow> k8s_view st ns s' (object_name u) = None" by simp_all
    have "k8s_view st ns s' n = None \<or> k8s_view st ns s' n = k8s_view st ns s n" for n
      using i(2) [of n] rem(2) [of n] by auto
    moreover have "k8s_view st ns s' (object_name u) = None" if "is_ok r" "object_namespace u = ns"
      using i(2) [of "object_name u"] s1 that by (auto simp: r(1))
    ultimately show ?thesis using i(1,3) by (auto simp: r(1))
  qed
  with frame show ?case by blast
qed simp

lemma start_unit_effect:
  assumes laws: "api_laws c st" and d: "start_unit c fuel d s = (r, s')"
  shows "only_at st (kind_of d) (object_namespace d) (object_name d) s s'"
    "is_ok r \<Longrightarrow> \<exists>x. st s' (kind_of d) (object_namespace d) (object_name d) = Some x \<and> k8s_accepts d x"
proof -
  have "only_at st (kind_of d) (object_namespace d) (object_name d) s s' \<and> (is_ok r \<longrightarrow>
    (\<exists>x. st s' (kind_of d) (object_namespace d) (object_name d) = Some x \<and> k8s_accepts d x))"
    using d unfolding start_unit_def
  proof (cases rule: sbind_cases)
    case (err e)
    then show ?thesis using ensure_namespace_keeps [OF laws err(1)] by (simp add: only_at_def)
  next
    case (ok x s1)
    have "st s1 = st s" by (rule ensure_namespace_keeps [OF laws ok(1)])
    then have "only_at st k ns n s1 s' = only_at st k ns n s s'" for k ns n by (simp add: only_at_def)
    then show ?thesis using start_object_effect [OF laws ok(2)] by blast
  qed
  then show "only_at st (kind_of d) (object_namespace d) (object_name d) s s'"
    "is_ok r \<Longrightarrow> \<exists>x. st s' (kind_of d) (object_namespace d) (object_name d) = Some x \<and> k8s_accepts d x" by blast+
qed

lemma start_all_effect:
  assumes laws: "api_laws c st"
  shows "run_all (start_unit c fuel) ds s = (r, s') \<Longrightarrow>
    (\<forall>n. n \<notin> object_name ` set ds \<longrightarrow> k8s_view st ns s' n = k8s_view st ns s n) \<and>
    ((\<forall>d \<in> set ds. k8s_data_ok ns cl d) \<longrightarrow> k8s_ok st ns cl s \<longrightarrow> k8s_ok st ns cl s' \<and>
      (is_ok r \<longrightarrow> distinct (map object_name ds) \<longrightarrow>
        (\<forall>d \<in> set ds. \<exists>x. k8s_view st ns s' (object_name d) = Some x \<and> k8s_accepts d x)))"
proof (induction ds arbitrary: s r)
  case (Cons d ds)
  obtain r1 s1 where d: "start_unit c fuel d s = (r1, s1)" by fastforce
  obtain r2 s2 where ds: "run_all (start_unit c fuel) ds s1 = (r2, s2)" by fastforce
  from Cons.prems d ds have r: "r = first_error r1 r2" "s' = s2" by simp_all
  note e = start_unit_effect [OF laws d]
  note IH = Cons.IH [OF ds [folded r(2)]]
  have frame: "k8s_view st ns s' n = k8s_view st ns s n" if "n \<notin> object_name ` set (d # ds)" for n
    using IH only_at_view [OF e(1), of n ns] that by simp
  have rest: "k8s_ok st ns cl s' \<and> (is_ok r \<longrightarrow> distinct (map object_name (d # ds)) \<longrightarrow>
      (\<forall>d \<in> set (d # ds). \<exists>x. k8s_view st ns s' (object_name d) = Some x \<and> k8s_accepts d x))"
    if dok: "\<forall>d \<in> set (d # ds). k8s_data_ok ns cl d" and ok: "k8s_ok st ns cl s"
  proof -
    have d_ok: "k8s_data_ok ns cl d" using dok by simp
    then have ns: "object_namespace d = ns" by (simp add: k8s_data_ok_def)
    have ok1: "k8s_ok st ns cl s1" by (rule k8s_ok_put [OF ok e(1) [unfolded ns] k8s_data_ok_kind [OF d_ok]])
    have i: "k8s_ok st ns cl s'" "is_ok r2 \<Longrightarrow> distinct (map object_name ds) \<Longrightarrow>
        \<forall>d \<in> set ds. \<exists>x. k8s_view st ns s' (object_name d) = Some x \<and> k8s_accepts d x"
      "\<And>n. n \<notin> object_name ` set ds \<Longrightarrow> k8s_view st ns s' n = k8s_view st ns s1 n"
      using IH dok ok1 by auto
    have "\<exists>x. k8s_view st ns s' (object_name d) = Some x \<and> k8s_accepts d x"
      if r1: "is_ok r1" and nd: "object_name d \<notin> object_name ` set ds"
    proof -
      obtain x where "st s1 (kind_of d) ns (object_name d) = Some x" "k8s_accepts d x"
        using e(2) [OF r1] unfolding ns by blast
      with k8s_view_at [OF ok1] i(3) [OF nd] show ?thesis by auto
    qed
    with i(1,2) show ?thesis by (auto simp: r(1))
  qed
  with frame show ?case by blast
qed simp

lemma list_units_effect:
  assumes laws: "api_laws c st" and l: "list_units c ns s = Inr us"
  shows "object_name ` set us = {n. k8s_view st ns s n \<noteq> None}"
    "u \<in> set us \<Longrightarrow> object_namespace u = ns \<and> (\<exists>k. st s k ns (object_name u) = Some (core u))"
proof -
  obtain lists where lists: "map_res (\<lambda>k. ListObjects c k ns s) all_kinds = Inr lists" "us = concat lists"
    using l by (auto simp: list_units_def all_kinds_def)
  from lists(1) have all: "list_all2 (\<lambda>k x. ListObjects c k ns s = Inr x) all_kinds lists" by (simp only: map_res_ok)
  have mem: "\<exists>k l. ListObjects c k ns s = Inr l \<and> u \<in> set l" if u: "u \<in> set us" for u
  proof -
    obtain l where l: "l \<in> set lists" "u \<in> set l" using u lists(2) by auto
    then obtain i where i: "i < length lists" "lists ! i = l" by (auto simp: in_set_conv_nth)
    have "ListObjects c (all_kinds ! i) ns s = Inr (lists ! i)" by (rule list_all2_nthD2 [OF all i(1)])
    with i(2) l(2) show ?thesis by blast
  qed
  then show u: "u \<in> set us \<Longrightarrow> object_namespace u = ns \<and> (\<exists>k. st s k ns (object_name u) = Some (core u))" for u
    using api_reads(3) [OF laws] by blast
  have "\<exists>u \<in> set us. object_name u = n" if "st s k ns n \<noteq> None" for k n
  proof -
    obtain i where i: "i < length all_kinds" "all_kinds ! i = k" using set_all_kinds [of k] by (auto simp: in_set_conv_nth)
    then have "ListObjects c k ns s = Inr (lists ! i)" "i < length lists"
      using all by (auto simp: list_all2_conv_all_nth)
    moreover from this have "n \<in> object_name ` set (lists ! i)" using api_reads(4) [OF laws] that by blast
    ultimately show ?thesis unfolding lists(2) by (metis (no_types, lifting) UN_I imageE nth_mem set_concat)
  qed
  then show "object_name ` set us = {n. k8s_view st ns s n \<noteq> None}"
    using u unfolding k8s_view_None by (fastforce simp: image_iff)
qed

text \<open>The goroutines are those of the units.\<close>

definition orders_well :: "'s k8s_setup \<Rightarrow> bool" where
  "orders_well u \<longleftrightarrow> (\<forall>s us. mset (sp_Order u s us) = mset us)"

lemma orders_well_simps:
  assumes "orders_well u"
  shows "set (sp_Order u s us) = set us" "distinct (map f (sp_Order u s us)) = distinct (map f us)"
proof -
  have m: "mset (sp_Order u s us) = mset us" using assms by (simp add: orders_well_def)
  show "set (sp_Order u s us) = set us" by (rule mset_eq_setD [OF m])
  have "mset (map f (sp_Order u s us)) = mset (map f us)" using m by simp
  then show "distinct (map f (sp_Order u s us)) = distinct (map f us)" by (rule mset_eq_imp_distinct_iff)
qed

theorem k8s_scheduler_laws:
  assumes laws: "api_laws (sp_Client u) st" and ord: "orders_well u"
  shows "scheduler_laws (k8s_scheduler u q) (k8s_view st (sd_DefaultNamespace q)) k8s_accepts
    (k8s_ok st (sd_DefaultNamespace q) (sd_Cluster q)) (k8s_data_ok (sd_DefaultNamespace q) (sd_Cluster q)) False
    (\<lambda>x. object_namespace x = sd_DefaultNamespace q) (reserved_names (sd_Cluster q))"
proof
  let ?sc = "k8s_scheduler u q" and ?view = "k8s_view st (sd_DefaultNamespace q)"
  let ?ok = "k8s_ok st (sd_DefaultNamespace q) (sd_Cluster q)"
  have sel: "unit_id ?sc = object_name" "data_id ?sc = object_name" "ValidateCluster ?sc = validate_cluster u q"
    "ListUnits ?sc = list_units (sp_Client u) (sd_DefaultNamespace q)" "GetState ?sc = k8s_get_state (sp_Client u)"
    "HasChanged ?sc = k8s_has_changed (sp_Client u)" "StopUnits ?sc = (\<lambda>reason units s. (Inr 0, s))"
    "DestroyUnits ?sc = k8s_destroy u" "StartUnits ?sc = k8s_start u" "PassTime ?sc = Sleep (sp_Client u) 0"
    by (simp_all add: k8s_scheduler_def)
  show "ListUnits ?sc s = Inr us \<Longrightarrow> unit_id ?sc ` set us = {n. ?view s n \<noteq> None}" for s us
    using list_units_effect(1) [OF laws] by (simp add: sel)
  show "ListUnits ?sc s = Inr us \<Longrightarrow> x \<in> set us \<Longrightarrow> object_namespace x = sd_DefaultNamespace q" for s us x
    using list_units_effect(2) [OF laws] by (simp add: sel)
  show "ValidateCluster ?sc s = (res, s') \<Longrightarrow> n \<notin> reserved_names (sd_Cluster q) \<Longrightarrow> ?view s' n = ?view s n" for s res s' n
    using validate_cluster_effect [OF laws] by (simp add: sel only_reserved_def)
  show "ValidateCluster ?sc s = (res, s') \<Longrightarrow> ?ok s \<Longrightarrow> ?ok s'" for s res s'
    using validate_cluster_effect [OF laws] by (simp add: sel only_reserved_def)
  show "k8s_data_ok (sd_DefaultNamespace q) (sd_Cluster q) d \<Longrightarrow> data_id ?sc d \<notin> reserved_names (sd_Cluster q)" for d
    by (simp add: sel k8s_data_ok_def)
  show "GetState ?sc x s = (b, s') \<Longrightarrow> ?view s' = ?view s" for x s b s' by (simp add: sel k8s_get_state_def)
  show "GetState ?sc x s = (b, s') \<Longrightarrow> ?ok s \<Longrightarrow> ?ok s'" for x s b s' by (simp add: sel k8s_get_state_def)
  show "?view (PassTime ?sc s) = ?view s" for s
    using k8s_view_same [of st "Sleep (sp_Client u) 0 s" s] by (simp add: sel api_keeps(4) [OF laws])
  show "?ok s \<Longrightarrow> ?ok (PassTime ?sc s)" for s
    using k8s_ok_same [of st "Sleep (sp_Client u) 0 s" s] by (simp add: sel api_keeps(4) [OF laws])
  show "StopUnits ?sc r us s = (g, s') \<Longrightarrow> ?view s' = ?view s" for r us s g s' by (simp add: sel)
  show "StopUnits ?sc r us s = (g, s') \<Longrightarrow> ?ok s \<Longrightarrow> ?ok s'" for r us s g s' by (simp add: sel)
  have destroyed: "(s' = s \<and> r \<noteq> ReasonObsolete) \<or> run_all (destroy_object (sp_Client u)) (sp_Order u s us) s = (res, s')"
    if "DestroyUnits ?sc r us s = (res, s')" for r us s res s'
    using that by (auto simp: sel k8s_destroy_def split: if_splits)
  note dest = destroy_all_effect [OF laws]
  show "?ok s'" if d: "DestroyUnits ?sc r us s = (res, s')" "?ok s" for r us s res s'
    using destroyed [OF d(1)] dest d(2) by metis
  show "?view s' n = ?view s n" if d: "DestroyUnits ?sc r us s = (res, s')" "n \<notin> unit_id ?sc ` set us" for r us s res s' n
    using destroyed [OF d(1)] dest d(2) orders_well_simps(1) [OF ord] unfolding sel by metis
  show "?view s' n = None \<or> ?view s' n = ?view s n" if d: "DestroyUnits ?sc r us s = (res, s')" "?ok s" for r us s res s' n
    using destroyed [OF d(1)] dest d(2) by metis
  show "?view s' n = None" if d: "DestroyUnits ?sc r us s = (res, s')" "?ok s" "is_ok res" "r = ReasonObsolete \<or> False"
    "\<forall>x \<in> set us. object_namespace x = sd_DefaultNamespace q" "n \<in> unit_id ?sc ` set us" for r us s res s' n
  proof -
    have "run_all (destroy_object (sp_Client u)) (sp_Order u s us) s = (res, s')" using destroyed [OF d(1)] d(4) by blast
    from mp [OF conjunct2 [OF dest [OF this]] d(2)] d(3)
    have "\<forall>x \<in> set (sp_Order u s us). object_namespace x = sd_DefaultNamespace q \<longrightarrow> ?view s' (object_name x) = None" by blast
    with d(5,6) orders_well_simps(1) [OF ord] show ?thesis by (auto simp: sel)
  qed
  note started = start_all_effect [OF laws]
  show "?ok s'" if d: "StartUnits ?sc ds s = (res, s')" "\<forall>d \<in> set ds. k8s_data_ok (sd_DefaultNamespace q) (sd_Cluster q) d" "?ok s"
    for ds s res s'
    using started [OF d(1) [unfolded sel k8s_start_def], of "sd_DefaultNamespace q" "sd_Cluster q"] d(2,3)
      orders_well_simps(1) [OF ord] by simp
  show "?view s' n = ?view s n" if d: "StartUnits ?sc ds s = (res, s')" "n \<notin> data_id ?sc ` set ds" for ds s res s' n
    using started [OF d(1) [unfolded sel k8s_start_def], of "sd_DefaultNamespace q" "sd_Cluster q"] d(2)
      orders_well_simps(1) [OF ord] by (simp add: sel)
  show "\<exists>x. ?view s' (data_id ?sc d) = Some x \<and> k8s_accepts d x"
    if d: "?ok s" "StartUnits ?sc ds s = (res, s')" "is_ok res" "distinct (map (data_id ?sc) ds)"
      "\<forall>d \<in> set ds. k8s_data_ok (sd_DefaultNamespace q) (sd_Cluster q) d" "d \<in> set ds" for ds s res s' d
    using started [OF d(2) [unfolded sel k8s_start_def], of "sd_DefaultNamespace q" "sd_Cluster q"] d(1,3-6)
      orders_well_simps(1) [OF ord] orders_well_simps(2) [OF ord, of object_name s ds] by (simp add: sel)
  show "\<exists>x. ?view s (data_id ?sc d) = Some x \<and> k8s_accepts d x"
    if d: "?ok s" "k8s_data_ok (sd_DefaultNamespace q) (sd_Cluster q) d" "HasChanged ?sc d s = Inr False" for s d
  proof -
    obtain current where c: "get_current (sp_Client u) d s = Inr current" "is_equal d current = Inr True"
      using d(3) by (auto simp: sel k8s_has_changed_def)
    from unchanged_accepts [OF laws c] d(2) obtain x where
      "st s (kind_of d) (sd_DefaultNamespace q) (object_name d) = Some x" "agrees d x" by (auto simp: k8s_data_ok_def)
    with k8s_view_at [OF d(1)] agrees_accepts show ?thesis by (auto simp: sel)
  qed
qed

section \<open>Other namespaces\<close>

lemma run_all_elsewhere:
  assumes "\<And>x s r s'. f x s = (r, s') \<Longrightarrow> only_at st (kind_of x) (object_namespace x) (object_name x) s s'"
  shows "run_all f xs s = (r, s') \<Longrightarrow> \<forall>x \<in> set xs. object_namespace x = ns \<Longrightarrow> elsewhere_same st ns s s'"
proof (induction xs arbitrary: s r)
  case (Cons x xs)
  obtain r1 s1 where x: "f x s = (r1, s1)" by fastforce
  obtain r2 s2 where xs: "run_all f xs s1 = (r2, s2)" by fastforce
  with Cons.prems(1) x have s2: "s2 = s'" by simp
  have "elsewhere_same st ns s s1" using elsewhere_same_at [OF assms [OF x]] Cons.prems(2) by simp
  moreover have "elsewhere_same st ns s1 s'" using Cons.IH [OF xs [unfolded s2]] Cons.prems(2) by simp
  ultimately show ?case by (rule elsewhere_same_trans)
qed simp

theorem k8s_scheduler_keeps:
  assumes laws: "api_laws (sp_Client u) st" and ord: "orders_well u"
  shows "scheduler_keeps (k8s_scheduler u q) (elsewhere_same st (sd_DefaultNamespace q) s0)
    (\<lambda>x. object_namespace x = sd_DefaultNamespace q) (\<lambda>x. object_namespace x = sd_DefaultNamespace q)"
proof
  let ?sc = "k8s_scheduler u q" and ?ns = "sd_DefaultNamespace q"
  have sel: "ValidateCluster ?sc = validate_cluster u q" "ListUnits ?sc = list_units (sp_Client u) ?ns"
    "GetState ?sc = k8s_get_state (sp_Client u)" "StopUnits ?sc = (\<lambda>reason units s. (Inr 0, s))"
    "DestroyUnits ?sc = k8s_destroy u" "StartUnits ?sc = k8s_start u" "PassTime ?sc = Sleep (sp_Client u) 0"
    by (simp_all add: k8s_scheduler_def)
  note trans = elsewhere_same_trans [of st ?ns s0]
  show "ListUnits ?sc s = Inr us \<Longrightarrow> x \<in> set us \<Longrightarrow> object_namespace x = ?ns" for s us x
    using list_units_effect(2) [OF laws] by (simp add: sel)
  show "elsewhere_same st ?ns s0 s'" if "ValidateCluster ?sc s = (r, s')" "elsewhere_same st ?ns s0 s" for s r s'
    using validate_cluster_effect [OF laws that(1) [unfolded sel]] trans [OF that(2)] by (simp add: only_reserved_def)
  show "GetState ?sc x s = (b, s') \<Longrightarrow> elsewhere_same st ?ns s0 s \<Longrightarrow> elsewhere_same st ?ns s0 s'" for x s b s'
    by (simp add: sel k8s_get_state_def)
  show "elsewhere_same st ?ns s0 (PassTime ?sc s)" if "elsewhere_same st ?ns s0 s" for s
    using trans [OF that elsewhere_same_store] api_keeps(4) [OF laws] by (simp add: sel)
  show "StopUnits ?sc r us s = (g, s') \<Longrightarrow> elsewhere_same st ?ns s0 s \<Longrightarrow> elsewhere_same st ?ns s0 s'" for r us s g s'
    by (simp add: sel)
  show "elsewhere_same st ?ns s0 s'"
    if d: "DestroyUnits ?sc r us s = (v, s')" "\<forall>x \<in> set us. object_namespace x = ?ns" "elsewhere_same st ?ns s0 s" for r us s v s'
  proof (cases "r = ReasonObsolete")
    case True
    then have "run_all (destroy_object (sp_Client u)) (sp_Order u s us) s = (v, s')" using d(1) by (simp add: sel k8s_destroy_def)
    then have "elsewhere_same st ?ns s s'"
    proof (rule run_all_elsewhere [rotated])
      show "destroy_object (sp_Client u) x s = (r, s') \<Longrightarrow> only_at st (kind_of x) (object_namespace x) (object_name x) s s'"
        for x s r s' by (rule destroy_object_effect(1) [OF laws])
    qed (use d(2) orders_well_simps(1) [OF ord] in auto)
    then show ?thesis by (rule trans [OF d(3)])
  qed (use d in \<open>simp add: sel k8s_destroy_def\<close>)
  show "elsewhere_same st ?ns s0 s'"
    if d: "StartUnits ?sc ds s = (v, s')" "\<forall>x \<in> set ds. object_namespace x = ?ns" "elsewhere_same st ?ns s0 s" for ds s v s'
  proof -
    have "run_all (start_unit (sp_Client u) (sp_Fuel u)) (sp_Order u s ds) s = (v, s')" using d(1) by (simp add: sel k8s_start_def)
    then have "elsewhere_same st ?ns s s'"
    proof (rule run_all_elsewhere [rotated])
      show "start_unit (sp_Client u) (sp_Fuel u) x s = (r, s') \<Longrightarrow> only_at st (kind_of x) (object_namespace x) (object_name x) s s'"
        for x s r s' by (rule start_unit_effect(1) [OF laws])
    qed (use d(2) orders_well_simps(1) [OF ord] in auto)
    then show ?thesis by (rule trans [OF d(3)])
  qed
qed

end
