(* ===== verification/K8sRenderLaws.thy ===== *)
theory K8sRenderLaws
  imports K8sRender K8sSchedulerLaws
begin

text \<open>
  What the Kubernetes renderer generates: each object is in the namespace of the job, has the labels
  that the scheduler recognises it by and a name whose suffix tells its kind; the names of a valid job
  are all different; the pods select and mount what is there.
\<close>

section \<open>Names and kinds\<close>

lemma suffix_kinds [simp]:
  "suffix_kind (a @ ''-depl'') = Some KDeployment" "suffix_kind (a @ ''-dset'') = Some KDaemonSet"
  "suffix_kind (a @ ''-job'') = Some KJob" "suffix_kind (a @ ''-sec'') = Some KSecret"
  "suffix_kind (a @ ''-srv'') = Some KService" "suffix_kind (a @ ''-srv-host'') = Some KService"
  "suffix_kind (a @ ''-igr'') = Some KIngress"
  by (simp_all add: suffix_kind_def suffix_to_prefix kindDeployment_def kindDaemonSet_def kindJob_def
      kindSecret_def kindService_def kindIngress_def)

lemma suffix_task_kinds [simp]:
  "suffix_kind (a @ CHR ''-'' # b @ ''-sec'') = Some KSecret" "suffix_kind (a @ CHR ''-'' # b @ ''-srv'') = Some KService"
  "suffix_kind (a @ CHR ''-'' # b @ ''-srv-host'') = Some KService" "suffix_kind (a @ CHR ''-'' # b @ ''-igr'') = Some KIngress"
  using suffix_kinds(4-7) [of "a @ CHR ''-'' # b"] by simp_all

text \<open>Every object of a pod is one of these.\<close>

definition labelled :: "k8s_context \<Rightarrow> job \<Rightarrow> task_group \<Rightarrow> k8s_object \<Rightarrow> bool" where
  "labelled ctx j tg x \<longleftrightarrow>
     object_namespace x = kc_Namespace ctx \<and>
     map_of (om_Labels (object_meta_of x)) LabelJobName = Some (k8s_resource_name (j_Name j)) \<and>
     map_of (om_Labels (object_meta_of x)) LabelTaskGroupName = Some (k8s_resource_name (g_Name tg)) \<and>
     suffix_kind (object_name x) = Some (kind_of x)"

definition pod_object_names :: "task_group \<Rightarrow> pod \<Rightarrow> string \<Rightarrow> bool" where
  "pod_object_names tg p n \<longleftrightarrow>
     (\<exists>k \<in> {''-depl'', ''-dset'', ''-job''}. n = k8s_resource_name (pod_name p) @ k) \<or>
     (\<exists>t \<in> set (pod_tasks p). \<exists>k \<in> {''-sec'', ''-srv'', ''-srv-host'', ''-igr''}.
        n = k8s_resource_name (g_Name tg) @ ''-'' @ k8s_resource_name (t_Name t) @ k)"

lemma group_labels [simp]:
  "map_of (om_Labels (set_task_group_labels_annotations j tg m)) LabelJobName = Some (k8s_resource_name (j_Name j))"
  "map_of (om_Labels (set_task_group_labels_annotations j tg m)) LabelTaskGroupName = Some (k8s_resource_name (g_Name tg))"
  "om_Namespace (set_task_group_labels_annotations j tg m) = om_Namespace m"
  "om_Name (set_task_group_labels_annotations j tg m) = om_Name m"
  by (simp_all add: set_task_group_labels_annotations_def set_job_labels_def label_defs)

lemma metrics_meta [simp]:
  "om_Labels (add_metrics_annotations p m) = om_Labels m" "om_Name (add_metrics_annotations p m) = om_Name m"
  "om_Namespace (add_metrics_annotations p m) = om_Namespace m"
proof -
  have "om_Labels (add_metrics_of ts m) = om_Labels m \<and> om_Name (add_metrics_of ts m) = om_Name m \<and>
      om_Namespace (add_metrics_of ts m) = om_Namespace m" for ts
    by (induction ts) (auto simp: add_j2_metrics_annotations_def add_prometheus_annotations_def split: option.splits)
  then show "om_Labels (add_metrics_annotations p m) = om_Labels m" "om_Name (add_metrics_annotations p m) = om_Name m"
    "om_Namespace (add_metrics_annotations p m) = om_Namespace m" by (simp_all add: add_metrics_annotations_def)
qed

lemma service_meta_simps [simp]:
  "om_Labels (service_meta ctx j tg p m) = om_Labels (set_task_group_labels_annotations j tg m)"
  "om_Name (service_meta ctx j tg p m) = om_Name m" "om_Namespace (service_meta ctx j tg p m) = om_Namespace m"
  by (simp_all add: service_meta_def)

lemmas resource_names = resource_name_def kindDeployment_def kindDaemonSet_def kindJob_def kindSecret_def
  kindService_def kindIngress_def task_service_name_def task_secret_name_def task_ingress_name_def

lemmas new_objects = new_deployment_def new_daemon_set_def new_job_def new_secret_def new_service_def new_ingress_def

text \<open>The form of each kind of object.\<close>

lemma create_pod_services_form:
  assumes "create_pod_services ctx j tg p t = Inr ss" "x \<in> set ss"
  shows "kr_Meta x = service_meta ctx j tg p (new_object_meta (kc_Namespace ctx) (om_Name (kr_Meta x))) \<and>
    om_Name (kr_Meta x) \<in> {task_service_name tg t, task_service_name tg t @ ''-host''} \<and>
    kr_Selector x = [(LabelPodName, k8s_resource_name (pod_name p))]"
  using assms
  by (auto simp: create_pod_services_def Let_def new_service_def create_pod_selector_def split: if_splits)

lemma create_proxy_service_form:
  assumes "create_proxy_service ctx j tg p t = Inr x"
  shows "kr_Meta x = service_meta ctx j tg p (new_object_meta (kc_Namespace ctx) (task_service_name tg t)) \<and> kr_Selector x = [] \<and>
    kr_Ports x = []"
proof (cases "t_Rewrite t")
  case None
  with assms obtain target where target: "link_resolve j (t_Target t) = Inr target"
    by (auto simp: create_proxy_service_def Let_def)
  with None assms show ?thesis
    by (cases target) (auto simp: create_proxy_service_def Let_def new_service_def)
next
  case (Some r)
  with assms show ?thesis by (auto simp: create_proxy_service_def Let_def new_service_def)
qed

lemma create_services_form:
  assumes "create_services ctx j tg p = Inr ss" "x \<in> set ss"
  obtains t where "t \<in> set (pod_tasks p)" "om_Name (kr_Meta x) \<in> {task_service_name tg t, task_service_name tg t @ ''-host''}"
    "kr_Meta x = service_meta ctx j tg p (new_object_meta (kc_Namespace ctx) (om_Name (kr_Meta x)))"
    "kr_Selector x = (if is_proxy (t_Type t) then [] else [(LabelPodName, k8s_resource_name (pod_name p))])"
proof -
  obtain l where l: "map_res (create_task_services ctx j tg p) (pod_tasks p) = Inr l" "ss = concat l"
    using assms(1) by (auto simp: create_services_def)
  then obtain ys where ys: "ys \<in> set l" "x \<in> set ys" using assms(2) by auto
  obtain t where t: "t \<in> set (pod_tasks p)" "create_task_services ctx j tg p t = Inr ys"
    using map_res_set [OF l(1) ys(1)] by blast
  have "om_Name (kr_Meta x) \<in> {task_service_name tg t, task_service_name tg t @ ''-host''} \<and>
      kr_Meta x = service_meta ctx j tg p (new_object_meta (kc_Namespace ctx) (om_Name (kr_Meta x))) \<and>
      kr_Selector x = (if is_proxy (t_Type t) then [] else [(LabelPodName, k8s_resource_name (pod_name p))])"
  proof (cases "is_proxy (t_Type t)")
    case True
    with t(2) obtain y where "create_proxy_service ctx j tg p t = Inr y" "ys = [y]"
      by (auto simp: create_task_services_def)
    with create_proxy_service_form [OF this(1)] ys(2) True show ?thesis by simp
  next
    case False
    with t(2) ys(2) have "create_pod_services ctx j tg p t = Inr ys"
      by (auto simp: create_task_services_def split: if_splits)
    from create_pod_services_form [OF this ys(2)] False show ?thesis by simp
  qed
  with t(1) that show thesis by blast
qed

lemma create_frontend_ingress_form:
  assumes "create_frontend_ingress c ctx j tg t = Inr (Some x)"
  shows "om_Name (ki_Meta x) = task_ingress_name tg t \<and> om_Namespace (ki_Meta x) = kc_Namespace ctx \<and>
    om_Labels (ki_Meta x) = om_Labels (set_task_group_labels_annotations j tg (new_object_meta (kc_Namespace ctx) (task_ingress_name tg t)))"
  using assms by (auto simp: create_frontend_ingress_def Let_def new_ingress_def split: if_splits prod.splits)

lemma create_ingresses_form:
  assumes "create_ingresses c ctx j tg p = Inr is" "x \<in> set is"
  obtains t where "t \<in> set (pod_tasks p)" "create_frontend_ingress c ctx j tg t = Inr (Some x)"
proof -
  obtain l where l: "map_res (create_frontend_ingress c ctx j tg) (pod_tasks p) = Inr l" "is = List.map_filter (\<lambda>i. i) l"
    using assms(1) by (auto simp: create_ingresses_def)
  then have "Some x \<in> set l" using assms(2) by (auto simp: List.map_filter_def)
  from map_res_set [OF l(1) this] that show thesis by blast
qed

lemma pod_object_cases:
  assumes "generate_pod_objects c ctx j tg p = Inr xs" "x \<in> set xs"
  obtains (deployment) d where "x = ODeployment d" "create_deployments c ctx j tg p = Inr [d]"
  | (daemon_set) d where "x = ODaemonSet d" "create_daemon_sets c ctx j tg p = Inr [d]"
  | (job) d where "x = OJob d" "create_jobs c ctx j tg p = Inr [d]"
  | (secret) d where "x = OSecret d" "d \<in> set (create_secrets ctx j tg p)"
  | (service) d ss where "x = OService d" "create_services ctx j tg p = Inr ss" "d \<in> set ss"
  | (ingress) d "is" where "x = OIngress d" "create_ingresses c ctx j tg p = Inr is" "d \<in> set is"
proof -
  have dep: "ds = [] \<or> (\<exists>d. ds = [d])" if "create_deployments c ctx j tg p = Inr ds" for ds
    using that by (auto simp: create_deployments_def Let_def split: if_splits)
  have dset: "ds = [] \<or> (\<exists>d. ds = [d])" if "create_daemon_sets c ctx j tg p = Inr ds" for ds
    using that by (auto simp: create_daemon_sets_def Let_def split: if_splits)
  have job: "ds = [] \<or> (\<exists>d. ds = [d])" if "create_jobs c ctx j tg p = Inr ds" for ds
    using that by (auto simp: create_jobs_def Let_def split: if_splits)
  obtain deps dsets jobs ss "is" where g: "create_deployments c ctx j tg p = Inr deps" "create_daemon_sets c ctx j tg p = Inr dsets"
    "create_jobs c ctx j tg p = Inr jobs" "create_services ctx j tg p = Inr ss" "create_ingresses c ctx j tg p = Inr is"
    and xs: "xs = map ODeployment deps @ map ODaemonSet dsets @ map OJob jobs @ map OSecret (create_secrets ctx j tg p) @
      map OService ss @ map OIngress is"
    using assms(1) by (auto simp: generate_pod_objects_def Let_def)
  from assms(2) show thesis
    unfolding xs using that g dep [OF g(1)] dset [OF g(2)] job [OF g(3)] by auto
qed

lemma pod_object_labelled:
  assumes "generate_pod_objects c ctx j tg p = Inr xs" "x \<in> set xs"
  shows "labelled ctx j tg x \<and> pod_object_names tg p (object_name x)"
  using assms
proof (cases rule: pod_object_cases)
  case (deployment d)
  then show ?thesis
    by (auto simp: create_deployments_def Let_def labelled_def pod_object_names_def object_name_def object_namespace_def
        new_objects resource_names split: if_splits)
next
  case (daemon_set d)
  then show ?thesis
    by (auto simp: create_daemon_sets_def Let_def labelled_def pod_object_names_def object_name_def object_namespace_def
        new_objects resource_names split: if_splits)
next
  case (job d)
  then show ?thesis
    by (auto simp: create_jobs_def Let_def labelled_def pod_object_names_def object_name_def object_namespace_def
        new_objects resource_names split: if_splits)
next
  case (secret d)
  then show ?thesis
    by (auto simp: create_secrets_def Let_def labelled_def pod_object_names_def object_name_def object_namespace_def
        new_objects resource_names)
next
  case (service d ss)
  from service(2,3) obtain t where t: "t \<in> set (pod_tasks p)"
    "om_Name (kr_Meta d) \<in> {task_service_name tg t, task_service_name tg t @ ''-host''}"
    "kr_Meta d = service_meta ctx j tg p (new_object_meta (kc_Namespace ctx) (om_Name (kr_Meta d)))"
    by (rule create_services_form)
  have "labelled ctx j tg x"
    unfolding labelled_def service(1) object_meta_of.simps object_namespace_def object_name_def
    by (subst (1 2 3) t(3)) (use t(2) in \<open>auto simp: resource_names\<close>)
  moreover have "pod_object_names tg p (object_name x)"
    using t(1,2) by (auto simp: pod_object_names_def service(1) object_name_def resource_names)
  ultimately show ?thesis by blast
next
  case (ingress d "is")
  from ingress(2,3) obtain t where t: "t \<in> set (pod_tasks p)" "create_frontend_ingress c ctx j tg t = Inr (Some d)"
    by (rule create_ingresses_form)
  from create_frontend_ingress_form [OF t(2)] t(1) show ?thesis
    by (auto simp: ingress(1) labelled_def pod_object_names_def object_name_def object_namespace_def resource_names)
qed

lemma generated_object:
  assumes "generate_k8s_units c im j config = Inr xs" "x \<in> set xs"
  obtains tg ps p ys where "rc_CurrentScalingGroup config = 1" "tg \<in> set (j_Groups j)" "include_group config (g_Name tg)"
    "group_task_into_pods tg = Inr ps" "p \<in> set ps"
    "generate_pod_objects c (k8s_context_of im j config) j tg p = Inr ys" "x \<in> set ys"
proof -
  let ?ctx = "k8s_context_of im j config"
  obtain l where l: "rc_CurrentScalingGroup config = 1" "xs = concat l"
    "map_res (generate_group_objects c ?ctx j) (filter (\<lambda>tg. include_group config (g_Name tg)) (j_Groups j)) = Inr l"
    using assms by (auto simp: generate_k8s_units_def split: if_splits)
  then obtain zs where zs: "zs \<in> set l" "x \<in> set zs" using assms(2) by auto
  obtain tg where tg: "tg \<in> set (j_Groups j)" "include_group config (g_Name tg)" "generate_group_objects c ?ctx j tg = Inr zs"
    using map_res_set [OF l(3) zs(1)] by auto
  obtain ps yss where ps: "group_task_into_pods tg = Inr ps" "map_res (generate_pod_objects c ?ctx j tg) ps = Inr yss"
    "zs = concat yss" using tg(3) by (auto simp: generate_group_objects_def)
  then obtain ys where ys: "ys \<in> set yss" "x \<in> set ys" using zs(2) by auto
  obtain p where "p \<in> set ps" "generate_pod_objects c ?ctx j tg p = Inr ys" using map_res_set [OF ps(2) ys(1)] by blast
  with that l(1) tg(1,2) ps(1) ys(2) show thesis by blast
qed

lemma generated_labelled:
  assumes "generate_k8s_units c im j config = Inr xs" "x \<in> set xs"
  obtains tg where "tg \<in> set (j_Groups j)" "include_group config (g_Name tg)"
    "labelled (k8s_context_of im j config) j tg x"
  using generated_object [OF assms] pod_object_labelled by metis

section \<open>All names are different\<close>

lemma distinct_by_kind:
  assumes "\<forall>x \<in> set xs. suffix_kind (object_name x) = Some (kind_of x)"
    and "\<And>k. distinct (map object_name (filter (\<lambda>x. kind_of x = k) xs))"
  shows "distinct (map object_name xs)"
  using assms
proof (induction xs)
  case (Cons x xs)
  have "distinct (map object_name (filter (\<lambda>x. kind_of x = k) xs))" for k
    using Cons.prems(2) [of k] by (simp split: if_splits)
  then have IH: "distinct (map object_name xs)" using Cons by simp
  have "object_name x \<noteq> object_name y" if y: "y \<in> set xs" for y
  proof
    assume e: "object_name x = object_name y"
    then have "kind_of y = kind_of x" using Cons.prems(1) y by (metis list.set_intros option.inject)
    moreover have "object_name x \<notin> object_name ` set (filter (\<lambda>y. kind_of y = kind_of x) xs)"
      using Cons.prems(2) [of "kind_of x"] by simp
    ultimately show False using y e by auto
  qed
  with IH show ?case by auto
qed simp

definition plain_group :: "task_group \<Rightarrow> bool" where
  "plain_group tg \<longleftrightarrow> name_ok 2 30 (g_Name tg) \<and> CHR ''_'' \<notin> set (g_Name tg) \<and> distinct (map t_Name (g_Tasks tg)) \<and>
     (\<forall>t \<in> set (g_Tasks tg). name_ok 2 30 (t_Name t) \<and> CHR ''_'' \<notin> set (t_Name t) \<and> 0 \<le> t_OriginalIndex t)"

lemma plain_name: "name_ok l h n \<Longrightarrow> CHR ''_'' \<notin> set n \<Longrightarrow> k8s_resource_name n = n \<and> CHR ''-'' \<notin> set n"
  using k8s_resource_name_ok [of l h n] name_ok_free [of l h n]
  by (auto simp: replace_char_def intro!: map_idI)

text \<open>The parts of a name: the task group and the task.\<close>

definition group_part :: "string \<Rightarrow> string" where
  "group_part n = takeWhile (\<lambda>c. c \<noteq> CHR ''-'') n"

definition task_part :: "string \<Rightarrow> string" where
  "task_part n = group_part (drop 1 (dropWhile (\<lambda>c. c \<noteq> CHR ''-'') n))"

lemma name_parts:
  assumes "CHR ''-'' \<notin> set g"
  shows "group_part (g @ CHR ''-'' # r) = g" "CHR ''-'' \<notin> set t \<Longrightarrow> task_part (g @ CHR ''-'' # t @ CHR ''-'' # r) = t"
proof -
  have ne: "\<forall>c \<in> set x. c \<noteq> CHR ''-'' \<Longrightarrow> takeWhile (\<lambda>c. c \<noteq> CHR ''-'') (x @ CHR ''-'' # r) = x \<and>
      dropWhile (\<lambda>c. c \<noteq> CHR ''-'') (x @ CHR ''-'' # r) = CHR ''-'' # r" for x r :: string
    by (induction x) auto
  have "\<forall>c \<in> set g. c \<noteq> CHR ''-''" using assms by blast
  from ne [OF this] show "group_part (g @ CHR ''-'' # r) = g" by (simp only: group_part_def)
  show "task_part (g @ CHR ''-'' # t @ CHR ''-'' # r) = t" if "CHR ''-'' \<notin> set t"
    proof -
    have "\<forall>c \<in> set g. c \<noteq> CHR ''-''" "\<forall>c \<in> set t. c \<noteq> CHR ''-''" using assms that by blast+
    from ne [OF this(1)] ne [OF this(2)] show ?thesis by (simp only: task_part_def group_part_def drop_Suc_Cons drop_0 One_nat_def)
  qed
qed

lemma plain_group_names:
  assumes "plain_group tg"
  shows "k8s_resource_name (g_Name tg) = g_Name tg" "CHR ''-'' \<notin> set (g_Name tg)"
    "t \<in> set (g_Tasks tg) \<Longrightarrow> k8s_resource_name (t_Name t) = t_Name t"
    "t \<in> set (g_Tasks tg) \<Longrightarrow> CHR ''-'' \<notin> set (t_Name t)"
  using assms plain_name by (auto simp: plain_group_def)

lemma lowest_task_name:
  assumes "\<forall>t \<in> set ts. 0 \<le> t_OriginalIndex t" "ts \<noteq> [] \<or> 0 \<le> l"
  shows "0 \<le> fst (lowest_task l n ts) \<and>
    (snd (lowest_task l n ts) \<in> t_Name ` set ts \<or> 0 \<le> l \<and> snd (lowest_task l n ts) = n)"
  using assms
proof (induction l n ts rule: lowest_task.induct)
  case (2 l n t ts)
  show ?case
  proof (cases "0 \<le> t_OriginalIndex t \<and> (l < 0 \<or> t_OriginalIndex t < l)")
    case True
    with 2(1) [OF True] 2(3) show ?thesis by auto
  next
    case False
    then have "0 \<le> l" using 2(3) by (auto simp: not_less)
    with 2(2) [OF False] 2(3) False show ?thesis by auto
  qed
qed auto

lemma create_pod_services_names:
  assumes "create_pod_services ctx j tg p t = Inr ss"
  shows "map (\<lambda>x. om_Name (kr_Meta x)) ss \<in> {[task_service_name tg t], [task_service_name tg t, task_service_name tg t @ ''-host'']}"
  using assms by (auto simp: create_pod_services_def Let_def new_service_def split: if_splits)

lemma create_task_services_names:
  assumes "create_task_services ctx j tg p t = Inr ss"
  shows "map (\<lambda>x. om_Name (kr_Meta x)) ss \<in> {[], [task_service_name tg t], [task_service_name tg t, task_service_name tg t @ ''-host'']}"
proof (cases "is_proxy (t_Type t)")
  case True
  with assms obtain y where "create_proxy_service ctx j tg p t = Inr y" "ss = [y]"
    by (auto simp: create_task_services_def)
  with create_proxy_service_form [OF this(1)] show ?thesis by simp
next
  case False
  with assms have "ss = [] \<or> create_pod_services ctx j tg p t = Inr ss"
    by (auto simp: create_task_services_def split: if_splits)
  with create_pod_services_names show ?thesis by fastforce
qed

text \<open>The names of the task objects of a task: the group, the task and a suffix.\<close>

lemma task_object_parts:
  assumes pg: "plain_group tg" and t: "t \<in> set (g_Tasks tg)"
    and n: "n \<in> {task_service_name tg t, task_service_name tg t @ ''-host'', task_secret_name tg t, task_ingress_name tg t}"
  shows "group_part n = g_Name tg" "task_part n = t_Name t"
proof -
  note pn = plain_group_names [OF pg]
  from n obtain r where "n = g_Name tg @ CHR ''-'' # t_Name t @ CHR ''-'' # r"
    using pn(1) pn(3) [OF t] by (auto simp: resource_names)
  with name_parts [OF pn(2)] pn(4) [OF t] show "group_part n = g_Name tg" "task_part n = t_Name t" by simp_all
qed

lemma distinct_task_names:
  assumes "distinct (map t_Name us)" "set us \<subseteq> set (g_Tasks tg)"
    and "\<And>t. t \<in> set (g_Tasks tg) \<Longrightarrow> task_part (h t) = t_Name t"
  shows "distinct (map h us)"
proof -
  have "inj_on h (set us)"
  proof (rule inj_onI)
    fix t t' assume t: "t \<in> set us" "t' \<in> set us" "h t = h t'"
    then have "t_Name t = t_Name t'" using assms(2,3) by (metis subsetD)
    with t(1,2) assms(1) show "t = t'" by (auto simp: distinct_map dest: inj_onD)
  qed
  with assms(1) show ?thesis by (simp add: distinct_map)
qed

lemma distinct_at_most_one: "length zs \<le> Suc 0 \<Longrightarrow> distinct (map f zs)"
  by (cases zs) auto

lemma create_services_distinct:
  assumes pg: "plain_group tg" and p: "set (pod_tasks p) \<subseteq> set (g_Tasks tg)" "distinct (map t_Name (pod_tasks p))"
    and c: "create_services ctx j tg p = Inr ss"
  shows "distinct (map (\<lambda>x. om_Name (kr_Meta x)) ss)"
proof -
  obtain l where l: "map_res (create_task_services ctx j tg p) (pod_tasks p) = Inr l" "ss = concat l"
    using c by (auto simp: create_services_def)
  have "distinct (map (\<lambda>x. om_Name (kr_Meta x)) (concat l)) \<and>
      task_part ` (\<lambda>x. om_Name (kr_Meta x)) ` set (concat l) \<subseteq> set (concat (map (\<lambda>t. [t_Name t]) (pod_tasks p)))"
  proof (rule distinct_concat_res [OF l(1)])
    show "distinct (concat (map (\<lambda>t. [t_Name t]) (pod_tasks p)))" using p(2) by simp
    fix t ys assume t: "t \<in> set (pod_tasks p)" "create_task_services ctx j tg p t = Inr ys"
    then have tg: "t \<in> set (g_Tasks tg)" using p(1) by blast
    note names = create_task_services_names [OF t(2)]
    have "om_Name (kr_Meta y) \<in> {task_service_name tg t, task_service_name tg t @ ''-host''}" if "y \<in> set ys" for y
    proof -
      have "om_Name (kr_Meta y) \<in> set (map (\<lambda>x. om_Name (kr_Meta x)) ys)" using that by simp
      with names show ?thesis by (auto simp del: set_map list.set_map)
    qed
    then have "task_part (om_Name (kr_Meta y)) = t_Name t" if "y \<in> set ys" for y
      using task_object_parts(2) [OF pg tg] that by blast
    moreover have "distinct (map (\<lambda>x. om_Name (kr_Meta x)) ys)" using names by auto
    ultimately show "distinct (map (\<lambda>x. om_Name (kr_Meta x)) ys) \<and>
        (\<forall>y \<in> set ys. task_part (om_Name (kr_Meta y)) \<in> set [t_Name t])" by simp
  qed
  then show ?thesis by (simp add: l(2))
qed

lemma map_filter_names:
  assumes "map_res f ts = Inr l" "\<And>t x. t \<in> set ts \<Longrightarrow> f t = Inr (Some x) \<Longrightarrow> g x = h t"
  shows "\<exists>us. map g (List.map_filter (\<lambda>i. i) l) = map h us \<and> subseq us ts"
  using assms
proof (induction ts arbitrary: l)
  case (Cons t ts)
  then obtain i l' where i: "f t = Inr i" "map_res f ts = Inr l'" "l = i # l'" by auto
  obtain us where "map g (List.map_filter (\<lambda>i. i) l') = map h us" "subseq us ts"
    using Cons.IH [OF i(2)] Cons.prems(2) by auto
  moreover have "g x = h t" if "i = Some x" for x using Cons.prems(2) i(1) that by simp
  ultimately show ?case
    by (cases i) (auto simp: i(3) List.map_filter_simps intro: exI [of _ us] exI [of _ "t # us"])
qed (simp add: List.map_filter_simps)

lemma create_ingresses_distinct:
  assumes pg: "plain_group tg" and p: "set (pod_tasks p) \<subseteq> set (g_Tasks tg)" "distinct (map t_Name (pod_tasks p))"
    and c: "create_ingresses c ctx j tg p = Inr is"
  shows "distinct (map (\<lambda>x. om_Name (ki_Meta x)) is)"
proof -
  obtain l where l: "map_res (create_frontend_ingress c ctx j tg) (pod_tasks p) = Inr l" "is = List.map_filter (\<lambda>i. i) l"
    using c by (auto simp: create_ingresses_def)
  obtain us where us: "map (\<lambda>x. om_Name (ki_Meta x)) is = map (task_ingress_name tg) us" "subseq us (pod_tasks p)"
    using map_filter_names [OF l(1), of "\<lambda>x. om_Name (ki_Meta x)" "task_ingress_name tg"] create_frontend_ingress_form l(2)
    by blast
  obtain bs where bs: "us = nths (pod_tasks p) bs" using us(2) by (auto simp: subseq_conv_nths)
  have "distinct (map t_Name us)" using p(2) by (simp add: bs nths_map [symmetric])
  moreover have "set us \<subseteq> set (g_Tasks tg)" using set_nths_subset [of "pod_tasks p" bs] p(1) by (auto simp: bs)
  ultimately have "distinct (map (task_ingress_name tg) us)"
    by (rule distinct_task_names) (use task_object_parts(2) [OF pg] in blast)
  then show ?thesis by (simp add: us(1))
qed

lemma create_secrets_distinct:
  assumes pg: "plain_group tg" and p: "set (pod_tasks p) \<subseteq> set (g_Tasks tg)" "distinct (map t_Name (pod_tasks p))"
  shows "distinct (map (\<lambda>x. om_Name (kx_Meta x)) (create_secrets ctx j tg p))"
proof -
  let ?us = "filter (\<lambda>t. length (t_Secrets t) \<noteq> 0) (pod_tasks p)"
  have "map (\<lambda>x. om_Name (kx_Meta x)) (create_secrets ctx j tg p) = map (task_secret_name tg) ?us"
    by (simp add: create_secrets_def Let_def new_secret_def comp_def)
  moreover have "distinct (map t_Name ?us)" using p(2) by (rule distinct_map_filter)
  then have "distinct (map (task_secret_name tg) ?us)"
    by (rule distinct_task_names [where tg = tg]) (use p(1) task_object_parts(2) [OF pg] in auto)
  ultimately show ?thesis by simp
qed

lemma pod_objects_distinct:
  assumes pg: "plain_group tg" and p: "set (pod_tasks p) \<subseteq> set (g_Tasks tg)" "distinct (map t_Name (pod_tasks p))"
    and g: "generate_pod_objects c ctx j tg p = Inr xs"
  shows "distinct (map object_name xs)"
proof (rule distinct_by_kind)
  show "\<forall>x \<in> set xs. suffix_kind (object_name x) = Some (kind_of x)"
    using pod_object_labelled [OF g] by (simp add: labelled_def)
  obtain deps dsets jobs ss "is" where g: "create_deployments c ctx j tg p = Inr deps" "create_daemon_sets c ctx j tg p = Inr dsets"
    "create_jobs c ctx j tg p = Inr jobs" "create_services ctx j tg p = Inr ss" "create_ingresses c ctx j tg p = Inr is"
    and xs: "xs = map ODeployment deps @ map ODaemonSet dsets @ map OJob jobs @ map OSecret (create_secrets ctx j tg p) @
      map OService ss @ map OIngress is"
    using g by (auto simp: generate_pod_objects_def Let_def)
  have one: "length deps \<le> 1" "length dsets \<le> 1" "length jobs \<le> 1"
    using g(1-3) by (auto simp: create_deployments_def create_daemon_sets_def create_jobs_def Let_def split: if_splits)
  show "distinct (map object_name (filter (\<lambda>x. kind_of x = k) xs))" for k
    using one create_services_distinct [OF pg p g(4)] create_ingresses_distinct [OF pg p g(5)]
      create_secrets_distinct [OF pg p]
    by (cases k) (simp_all add: xs object_name_def comp_def distinct_at_most_one)
qed

lemma pods_tasks:
  assumes "group_task_into_pods tg = Inr ps" "distinct (map t_Name (g_Tasks tg))"
  shows "distinct (concat (map (\<lambda>p. map t_Name (pod_tasks p)) ps))"
    "p \<in> set ps \<Longrightarrow> set (pod_tasks p) \<subseteq> set (g_Tasks tg)" "p \<in> set ps \<Longrightarrow> distinct (map t_Name (pod_tasks p))"
proof -
  note m = pods_partition [OF assms]
  have "concat (map (\<lambda>p. map t_Name (pod_tasks p)) ps) = map t_Name (concat (map pod_tasks ps))"
    by (simp add: map_concat comp_def)
  with distinct_mset [OF m, of t_Name] assms(2)
  show d: "distinct (concat (map (\<lambda>p. map t_Name (pod_tasks p)) ps))" by simp
  show "p \<in> set ps \<Longrightarrow> set (pod_tasks p) \<subseteq> set (g_Tasks tg)" using mset_eq_setD [OF m] by auto
  show "p \<in> set ps \<Longrightarrow> distinct (map t_Name (pod_tasks p))" using d by (auto simp: distinct_concat_iff)
qed

text \<open>A pod of several has the name of the group and of one of its tasks.\<close>

lemma create_pod_name_plain:
  assumes pg: "plain_group tg" and ts: "pod_tasks p \<noteq> []" "set (pod_tasks p) \<subseteq> set (g_Tasks tg)"
  shows "\<exists>t \<in> set (pod_tasks p). create_pod_name p tg = g_Name tg @ CHR ''-'' # t_Name t"
proof -
  obtain l n where ln: "lowest_task (-1) '''' (pod_tasks p) = (l, n)" by fastforce
  have "\<forall>t \<in> set (pod_tasks p). 0 \<le> t_OriginalIndex t" using pg ts(2) by (auto simp: plain_group_def)
  from lowest_task_name [OF this, of "-1" "''''"] ts(1) ln have l: "0 \<le> l" "n \<in> t_Name ` set (pod_tasks p)" by auto
  then obtain t where t: "t \<in> set (pod_tasks p)" "n = t_Name t" by blast
  have "create_pod_name p tg = g_Name tg @ CHR ''-'' # t_Name t"
    using ln l(1) t plain_group_names(1,3) [OF pg] ts(2) by (auto simp: create_pod_name_def resource_name_def)
  with t(1) show ?thesis by blast
qed

lemma pod_named_by_task:
  assumes pg: "plain_group tg" and g: "group_task_into_pods tg = Inr ps" and p: "p \<in> set ps"
    and pol: "\<not> restart_policy_is_all (g_RestartPolicy tg)"
  shows "\<exists>t \<in> set (pod_tasks p). pod_name p = g_Name tg @ CHR ''-'' # t_Name t"
proof -
  have d: "distinct (map t_Name (g_Tasks tg))" using pg by (simp add: plain_group_def)
  from pods_of_map [OF g d pol] obtain m st result where
    m: "grouped (g_Tasks tg) (m, st)" "map_res (\<lambda>i. finish_pod tg (st ! i)) (remdups (map snd m)) = Inr result"
      "mset ps = mset result" by metis
  note f = grouped_facts [OF m(1) d]
  have "p \<in> set result" using p mset_eq_setD [OF m(3)] by simp
  from map_res_set [OF m(2) this] obtain i where i: "i \<in> set (map snd m)" "finish_pod tg (st ! i) = Inr p" by auto
  from finish_pod_Inr(1) [OF i(2) f(1) [OF i(1)]] have ts: "set (pod_tasks p) = set (pod_tasks (st ! i))"
    by (rule mset_eq_setD)
  have sub: "set (pod_tasks (st ! i)) \<subseteq> set (g_Tasks tg)" using f(2) [OF i(1)] by blast
  obtain n where n: "map_of m n = Some i"
    using i(1) m(1) by (auto simp: grouped_def)
  then have "n \<in> t_Name ` set (g_Tasks tg)" using m(1) by (auto simp: grouped_def dom_def)
  then obtain t where "t \<in> set (g_Tasks tg)" "map_of m (t_Name t) = Some i" using n by auto
  then have "pod_tasks (st ! i) \<noteq> []" using f(2) [OF i(1), of t] by auto
  from create_pod_name_plain [OF pg this sub] i(2) ts show ?thesis
    by (auto simp: finish_pod_def split: option.splits)
qed

lemma pod_object_parts:
  assumes pg: "plain_group tg" and g: "group_task_into_pods tg = Inr ps" and p: "p \<in> set ps"
    and n: "pod_object_names tg p n"
  shows "group_part n = g_Name tg"
    "\<not> restart_policy_is_all (g_RestartPolicy tg) \<Longrightarrow> task_part n \<in> set (map t_Name (pod_tasks p))"
proof -
  have d: "distinct (map t_Name (g_Tasks tg))" using pg by (simp add: plain_group_def)
  note sub = pods_tasks(2) [OF g d p]
  note pn = plain_group_names [OF pg]
  have dash: "\<exists>r. k = CHR ''-'' # r" if "k \<in> {''-depl'', ''-dset'', ''-job'', ''-sec'', ''-srv'', ''-srv-host'', ''-igr''}" for k
    using that by auto
  have task: "group_part (g_Name tg @ CHR ''-'' # t_Name t @ CHR ''-'' # r) = g_Name tg"
    "task_part (g_Name tg @ CHR ''-'' # t_Name t @ CHR ''-'' # r) = t_Name t" if "t \<in> set (pod_tasks p)" for t r
    using name_parts [OF pn(2)] pn(4) [of t] sub that by blast+
  have both: "group_part n = g_Name tg \<and>
      (\<not> restart_policy_is_all (g_RestartPolicy tg) \<longrightarrow> task_part n \<in> set (map t_Name (pod_tasks p)))"
    using n unfolding pod_object_names_def
  proof (elim disjE bexE)
    fix k assume k: "k \<in> {''-depl'', ''-dset'', ''-job''}" "n = k8s_resource_name (pod_name p) @ k"
    then obtain r where r: "k = CHR ''-'' # r" by blast
    show ?thesis
    proof (cases "restart_policy_is_all (g_RestartPolicy tg)")
      case True
      then have "pod_name p = g_Name tg"
        using g p pn(1) by (auto simp: group_task_into_pods_def Let_def resource_name_def)
      with k(2) r name_parts(1) [OF pn(2)] pn(1) True show ?thesis by simp
    next
      case False
      from pod_named_by_task [OF pg g p this] obtain t where
        t: "t \<in> set (pod_tasks p)" "pod_name p = g_Name tg @ CHR ''-'' # t_Name t" by blast
      then have "t \<in> set (g_Tasks tg)" using sub by blast
      then have "k8s_resource_name (pod_name p) = pod_name p"
        using pn(1) pn(3) [of t] unfolding t(2) by simp
      with k(2) r t(2) have "n = g_Name tg @ CHR ''-'' # t_Name t @ CHR ''-'' # r" by simp
      with task [OF t(1)] t(1) show ?thesis by simp
    qed
  next
    fix t k assume t: "t \<in> set (pod_tasks p)" and k: "k \<in> {''-sec'', ''-srv'', ''-srv-host'', ''-igr''}"
      "n = k8s_resource_name (g_Name tg) @ ''-'' @ k8s_resource_name (t_Name t) @ k"
    then obtain r where r: "k = CHR ''-'' # r" by blast
    have "k8s_resource_name (t_Name t) = t_Name t" using pn(3) [of t] t sub by blast
    with k(2) r pn(1) have "n = g_Name tg @ CHR ''-'' # t_Name t @ CHR ''-'' # r" by simp
    with task [OF t] t show ?thesis by simp
  qed
  then show "group_part n = g_Name tg"
    "\<not> restart_policy_is_all (g_RestartPolicy tg) \<Longrightarrow> task_part n \<in> set (map t_Name (pod_tasks p))" by blast+
qed

lemma group_objects_distinct:
  assumes pg: "plain_group tg" and g: "generate_group_objects c ctx j tg = Inr xs"
  shows "distinct (map object_name xs)" "\<forall>x \<in> set xs. group_part (object_name x) = g_Name tg"
proof -
  obtain ps yss where ps: "group_task_into_pods tg = Inr ps" "map_res (generate_pod_objects c ctx j tg) ps = Inr yss"
    "xs = concat yss" using g by (auto simp: generate_group_objects_def)
  have d: "distinct (map t_Name (g_Tasks tg))" using pg by (simp add: plain_group_def)
  note pt = pods_tasks [OF ps(1) d]
  have one: "distinct (map object_name ys)" "y \<in> set ys \<Longrightarrow> pod_object_names tg p (object_name y)"
    if "p \<in> set ps" "generate_pod_objects c ctx j tg p = Inr ys" for p ys y
    using pod_objects_distinct [OF pg pt(2,3) [OF that(1)] that(2)] pod_object_labelled [OF that(2)] by blast+
  show "distinct (map object_name xs)"
  proof (cases "restart_policy_is_all (g_RestartPolicy tg)")
    case True
    then obtain p where "ps = [p]" using ps(1) by (auto simp: group_task_into_pods_def Let_def)
    with ps(2,3) one(1) [of p] show ?thesis by auto
  next
    case False
    have "distinct (map object_name (concat yss)) \<and>
        task_part ` object_name ` set (concat yss) \<subseteq> set (concat (map (\<lambda>p. map t_Name (pod_tasks p)) ps))"
      by (rule distinct_concat_res [OF ps(2) pt(1)]) (use one pod_object_parts(2) [OF pg ps(1) _ _ False] in blast)
    then show ?thesis by (simp add: ps(3))
  qed
  show "\<forall>x \<in> set xs. group_part (object_name x) = g_Name tg"
  proof
    fix x assume "x \<in> set xs"
    then obtain ys where ys: "ys \<in> set yss" "x \<in> set ys" using ps(3) by auto
    obtain p where p: "p \<in> set ps" "generate_pod_objects c ctx j tg p = Inr ys" using map_res_set [OF ps(2) ys(1)] by blast
    show "group_part (object_name x) = g_Name tg" by (rule pod_object_parts(1) [OF pg ps(1) p(1) one(2) [OF p ys(2)]])
  qed
qed

theorem generated_distinct:
  assumes "distinct (map g_Name (j_Groups j))" "\<forall>tg \<in> set (j_Groups j). plain_group tg"
    and "generate_k8s_units c im j config = Inr xs"
  shows "distinct (map object_name xs)"
proof (cases "rc_CurrentScalingGroup config = 1")
  case True
  let ?tgs = "filter (\<lambda>tg. include_group config (g_Name tg)) (j_Groups j)"
  obtain l where l: "xs = concat l" "map_res (generate_group_objects c (k8s_context_of im j config) j) ?tgs = Inr l"
    using assms(3) True by (auto simp: generate_k8s_units_def split: if_splits)
  have "distinct (map g_Name ?tgs)" by (rule distinct_map_filter [OF assms(1)])
  then have d: "distinct (concat (map (\<lambda>tg. [g_Name tg]) ?tgs))" by simp
  have "distinct (map object_name (concat l)) \<and>
      group_part ` object_name ` set (concat l) \<subseteq> set (concat (map (\<lambda>tg. [g_Name tg]) ?tgs))"
  proof (rule distinct_concat_res [OF l(2) d])
    fix tg ys assume tg: "tg \<in> set ?tgs" and ys: "generate_group_objects c (k8s_context_of im j config) j tg = Inr ys"
    then have "plain_group tg" using assms(2) by auto
    from group_objects_distinct [OF this ys]
    show "distinct (map object_name ys) \<and> (\<forall>y \<in> set ys. group_part (object_name y) \<in> set [g_Name tg])" by simp
  qed
  then show ?thesis by (simp add: l(1))
qed (use assms(3) in \<open>simp add: generate_k8s_units_def\<close>)

end
