(* ===== verification/K8sRun.thy ===== *)
theory K8sRun
  imports K8sRenderLaws
begin

text \<open>
  Deploying a job on Kubernetes: the renderer and the scheduler of Kubernetes under
  \<^verbatim>\<open>Run\<close> and \<^verbatim>\<open>Destroy\<close> of \<^verbatim>\<open>deployment\<close>.
  The renderer generates everything in the first scaling group and the scheduler takes every unit of
  the job for a unit of every scaling group, so selecting another scaling group removes the job.
\<close>

section \<open>The composition\<close>

definition k8s_config :: "deployment \<Rightarrow> cluster \<Rightarrow> nat \<Rightarrow> render_config" where
  "k8s_config d cl sg = \<lparr>rc_Groups = groupSelection d, rc_CurrentScalingGroup = sg, rc_Cluster = cl\<rparr>"

definition generate_k8s_scaling_group ::
  "crypto \<Rightarrow> images \<Rightarrow> job \<Rightarrow> deployment \<Rightarrow> cluster \<Rightarrow> nat \<Rightarrow> k8s_object list res" where
  "generate_k8s_scaling_group c im j d cl sg = generate_k8s_units c im j (k8s_config d cl sg)"

definition run_k8s ::
  "crypto \<Rightarrow> images \<Rightarrow> 's k8s_setup \<Rightarrow> job \<Rightarrow> deployment \<Rightarrow> cluster \<Rightarrow> 's world \<Rightarrow> nat res \<times> 's world" where
  "run_k8s c im u j d cl w =
     run d (k8s_scheduler u (new_k8s_scheduler j cl)) (generate_k8s_scaling_group c im j d cl) (max_count j) w"

definition destroy_k8s :: "'s k8s_setup \<Rightarrow> job \<Rightarrow> deployment \<Rightarrow> cluster \<Rightarrow> 's world \<Rightarrow> unit res \<times> 's world" where
  "destroy_k8s u j d cl w = destroy_deployment d (k8s_scheduler u (new_k8s_scheduler j cl)) w"

text \<open>The objects the deployment regards as its own.\<close>

definition k8s_selected :: "job \<Rightarrow> deployment \<Rightarrow> k8s_object \<Rightarrow> bool" where
  "k8s_selected j d x \<longleftrightarrow>
     label_of x LabelJobName = k8s_resource_name (j_Name j) \<and>
     (groupSelection d = [] \<or> (\<exists>g \<in> set (groupSelection d). label_of x LabelTaskGroupName = k8s_resource_name g))"

lemma k8s_scheduler_sel:
  "unit_id (k8s_scheduler u q) = object_name" "data_id (k8s_scheduler u q) = object_name"
  "ListUnits (k8s_scheduler u q) = list_units (sp_Client u) (sd_DefaultNamespace q)"
  "ValidateCluster (k8s_scheduler u q) = validate_cluster u q"
  "IsUnitForScalingGroup (k8s_scheduler u q) = (\<lambda>x sg. k8s_unit_for_job q x)"
  "IsUnitForJob (k8s_scheduler u q) = k8s_unit_for_job q"
  "IsUnitForTaskGroup (k8s_scheduler u q) = k8s_unit_for_task_group q"
  by (simp_all add: k8s_scheduler_def)

lemma new_k8s_scheduler_sel [simp]:
  "sd_DefaultNamespace (new_k8s_scheduler j cl) = k8s_resource_name (j_Name j)"
  "sd_JobName (new_k8s_scheduler j cl) = j_Name j" "sd_Cluster (new_k8s_scheduler j cl) = cl"
  by (simp_all add: new_k8s_scheduler_def)

lemma k8s_predicate:
  "unit_name_predicate d (k8s_scheduler u (new_k8s_scheduler j cl)) x = k8s_selected j d x"
  by (auto simp: unit_name_predicate_def k8s_scheduler_sel k8s_selected_def k8s_unit_for_job_def
      k8s_unit_for_task_group_def tgs_include_all_def list_ex_iff)

lemma label_of_core [simp]: "label_of (core x) k = label_of x k"
  by (simp add: label_of_def)

lemma k8s_selected_core [simp]: "k8s_selected j d (core x) = k8s_selected j d x"
  by (simp add: k8s_selected_def)

lemma object_name_core [simp]: "object_name (core x) = object_name x"
  by (simp add: object_name_def)

section \<open>Generated objects\<close>

lemma k8s_config_sel [simp]: "rc_CurrentScalingGroup (k8s_config d cl sg) = sg"
  "include_group (k8s_config d cl sg) g = tgs_includes (groupSelection d) g"
  by (simp_all add: k8s_config_def include_group_def tgs_includes_def)

lemma k8s_generated_selected:
  assumes "generate_k8s_scaling_group c im j d cl sg = Inr xs" "x \<in> set xs"
  shows "k8s_selected j d x" "object_namespace x = k8s_resource_name (j_Name j)"
    "suffix_kind (object_name x) = Some (kind_of x)"
proof -
  from generated_labelled [OF assms(1) [unfolded generate_k8s_scaling_group_def] assms(2)] obtain tg where
    tg: "tg \<in> set (j_Groups j)" "tgs_includes (groupSelection d) (g_Name tg)"
      "labelled (k8s_context_of im j (k8s_config d cl sg)) j tg x" by auto
  then show "k8s_selected j d x"
    by (auto simp: k8s_selected_def label_of_def labelled_def tgs_includes_def list_ex_iff)
  from tg(3) show "object_namespace x = k8s_resource_name (j_Name j)" "suffix_kind (object_name x) = Some (kind_of x)"
    by (simp_all add: labelled_def k8s_context_of_def)
qed

text \<open>The names of the registry secrets are those of no generated object.\<close>

definition registries_apart :: "cluster \<Rightarrow> bool" where
  "registries_apart cl \<longleftrightarrow> (\<forall>n \<in> set (RegistrySecrets (KubernetesOptions cl)). suffix_kind n = None)"

lemma reserved_no_suffix: "registries_apart cl \<Longrightarrow> n \<in> reserved_names cl \<Longrightarrow> suffix_kind n = None"
proof -
  have "suffix_kind SecretVaultInfo = None" "suffix_kind SecretClusterInfo = None" by code_simp+
  then show "registries_apart cl \<Longrightarrow> n \<in> reserved_names cl \<Longrightarrow> suffix_kind n = None"
    by (auto simp: reserved_names_def registries_apart_def)
qed

lemma generated_data_ok:
  assumes "registries_apart cl" "generate_k8s_scaling_group c im j d cl sg = Inr xs" "x \<in> set xs"
  shows "k8s_data_ok (k8s_resource_name (j_Name j)) cl x"
  using k8s_generated_selected(2,3) [OF assms(2,3)] reserved_no_suffix [OF assms(1)] by (auto simp: k8s_data_ok_def)

text \<open>Only the first scaling group has units.\<close>

lemma k8s_scaling_groups:
  assumes "generate_scaling_groups (generate_k8s_scaling_group c im j d cl) d m = Inr sgs" "(sg, xs) \<in> set sgs"
  shows "sgs_includes (scalingGroupSelection d) sg" "generate_k8s_scaling_group c im j d cl sg = Inr xs"
    "sg \<noteq> 1 \<Longrightarrow> xs = []"
proof -
  obtain sg' where sg': "sg' \<in> set (filter (sgs_includes (scalingGroupSelection d)) [1..<m + 1])"
    "rbind (generate_k8s_scaling_group c im j d cl sg') (\<lambda>units. Inr (sg', units)) = Inr (sg, xs)"
    using map_res_set [OF assms(1) [unfolded generate_scaling_groups_def] assms(2)] by blast
  then show "sgs_includes (scalingGroupSelection d) sg" "generate_k8s_scaling_group c im j d cl sg = Inr xs"
    by (auto simp del: upt_Suc)
  then show "sg \<noteq> 1 \<Longrightarrow> xs = []" by (simp add: generate_k8s_scaling_group_def generate_k8s_units_def)
qed

lemma k8s_generated_first:
  assumes "generate_scaling_groups (generate_k8s_scaling_group c im j d cl) d m = Inr sgs" "sgs \<noteq> []"
    and "scalingGroupSelection d \<le> 1"
  obtains xs where "generate_k8s_scaling_group c im j d cl 1 = Inr xs" "(1, xs) \<in> set sgs"
    "\<forall>(sg, ys) \<in> set sgs. ys = [] \<or> sg = 1 \<and> ys = xs"
    "concat (map (\<lambda>(sg, ys). map object_name ys) sgs) = map object_name xs"
proof -
  let ?f = "\<lambda>sg. rbind (generate_k8s_scaling_group c im j d cl sg) (\<lambda>units. Inr (sg, units))"
  have m: "0 < m"
  proof (rule ccontr)
    assume "\<not> 0 < m"
    with assms(1,2) show False by (simp add: generate_scaling_groups_def)
  qed
  let ?rest = "filter (sgs_includes (scalingGroupSelection d)) [2..<m + 1]"
  have "[1..<m + 1] = 1 # [2..<m + 1]" using m by (simp add: upt_conv_Cons numeral_2_eq_2 del: upt_Suc)
  moreover have "sgs_includes (scalingGroupSelection d) 1" using assms(3) by (auto simp: sgs_includes_def)
  ultimately have "map_res ?f (1 # ?rest) = Inr sgs" using assms(1) by (simp add: generate_scaling_groups_def)
  then obtain xs rest where xs: "generate_k8s_scaling_group c im j d cl 1 = Inr xs" "map_res ?f ?rest = Inr rest"
    "sgs = (1, xs) # rest" by auto
  have rest: "ys = []" if mem: "(sg, ys) \<in> set rest" for sg ys
  proof -
    obtain sg' where "sg' \<in> set ?rest" "?f sg' = Inr (sg, ys)" using map_res_set [OF xs(2) mem] by blast
    then show ?thesis by (auto simp: generate_k8s_scaling_group_def generate_k8s_units_def simp del: upt_Suc)
  qed
  show thesis
  proof (rule that [OF xs(1)])
    show "(1, xs) \<in> set sgs" by (simp add: xs(3))
    show "\<forall>(sg, ys) \<in> set sgs. ys = [] \<or> sg = 1 \<and> ys = xs" using rest by (auto simp: xs(3))
    have "concat (map (\<lambda>(sg, ys). map object_name ys) rest) = []" using rest by auto
    then show "concat (map (\<lambda>(sg, ys). map object_name ys) sgs) = map object_name xs" by (simp add: xs(3))
  qed
qed

section \<open>What a run achieves\<close>

definition k8s_units :: "'s k8s_setup \<Rightarrow> job \<Rightarrow> deployment \<Rightarrow> cluster \<Rightarrow> 's \<Rightarrow> string set" where
  "k8s_units u j d cl s = names_of (k8s_scheduler u (new_k8s_scheduler j cl))
     (scheduler_laws.job_units (k8s_scheduler u (new_k8s_scheduler j cl)) d s)"

lemma k8s_units_iff:
  assumes laws: "api_laws (sp_Client u) st" "orders_well u" and o: "k8s_ok st (k8s_resource_name (j_Name j)) cl s"
    and l: "list_units (sp_Client u) (k8s_resource_name (j_Name j)) s = Inr us"
  shows "n \<in> k8s_units u j d cl s \<longleftrightarrow>
    (\<exists>x. k8s_view st (k8s_resource_name (j_Name j)) s n = Some x \<and> k8s_selected j d x)"
proof -
  let ?ns = "k8s_resource_name (j_Name j)"
  note e = list_units_effect [OF laws(1) l]
  have v: "k8s_view st ?ns s (object_name x) = Some (core x)" if "x \<in> set us" for x
    using e(2) [OF that] k8s_view_at [OF o] by blast
  have "n \<in> k8s_units u j d cl s \<longleftrightarrow> (\<exists>x \<in> set us. object_name x = n \<and> k8s_selected j d x)"
    using l unfolding k8s_units_def names_of_def
      scheduler_laws.job_units_def [OF k8s_scheduler_laws [OF laws, of "new_k8s_scheduler j cl"]]
    by (auto simp: k8s_scheduler_sel k8s_predicate)
  also have "\<dots> \<longleftrightarrow> (\<exists>x. k8s_view st ?ns s n = Some x \<and> k8s_selected j d x)"
  proof
    assume "\<exists>x \<in> set us. object_name x = n \<and> k8s_selected j d x"
    then obtain x where "x \<in> set us" "object_name x = n" "k8s_selected j d x" by blast
    with v [OF this(1)] show "\<exists>x. k8s_view st ?ns s n = Some x \<and> k8s_selected j d x"
      by (intro exI [of _ "core x"]) simp
  next
    assume "\<exists>x. k8s_view st ?ns s n = Some x \<and> k8s_selected j d x"
    then obtain y where y: "k8s_view st ?ns s n = Some y" "k8s_selected j d y" by blast
    then have "n \<in> object_name ` set us" by (simp add: e(1))
    then obtain x where x: "x \<in> set us" "object_name x = n" by blast
    with v [OF x(1)] y show "\<exists>x \<in> set us. object_name x = n \<and> k8s_selected j d x"
      by (intro bexI [of _ x]) auto
  qed
  finally show ?thesis .
qed

lemma run_k8s_listed:
  assumes "run_k8s c im u j d cl w = (Inr k, w')"
  obtains us sgs where "list_units (sp_Client u) (k8s_resource_name (j_Name j)) (w_cluster w) = Inr us"
    "generate_scaling_groups (generate_k8s_scaling_group c im j d cl) d (max_count j) = Inr sgs" "sgs \<noteq> []"
  using assms by (auto simp: run_k8s_def run_def Let_def k8s_scheduler_sel split: sum.splits prod.splits if_splits)

theorem run_k8s_effect:
  assumes laws: "api_laws (sp_Client u) st" "orders_well u"
    and o: "k8s_ok st (k8s_resource_name (j_Name j)) cl (w_cluster w)"
    and r: "run_k8s c im u j d cl w = (Inr k, w')"
    and job: "distinct (map g_Name (j_Groups j))" "\<forall>tg \<in> set (j_Groups j). plain_group tg" "registries_apart cl"
    and sg: "scalingGroupSelection d \<le> 1"
    and x: "generate_k8s_scaling_group c im j d cl 1 = Inr xs"
    and own: "\<forall>x \<in> set xs. \<forall>y. k8s_view st (k8s_resource_name (j_Name j)) (w_cluster w) (object_name x) = Some y \<longrightarrow>
      k8s_selected j d y"
  shows "x \<in> set xs \<Longrightarrow> \<exists>y. k8s_view st (k8s_resource_name (j_Name j)) (w_cluster w') (object_name x) = Some y \<and> k8s_accepts x y"
    "k8s_view st (k8s_resource_name (j_Name j)) (w_cluster w) n = Some y \<Longrightarrow> k8s_selected j d y \<Longrightarrow>
      n \<notin> object_name ` set xs \<Longrightarrow> k8s_view st (k8s_resource_name (j_Name j)) (w_cluster w') n = None"
    "k8s_view st (k8s_resource_name (j_Name j)) (w_cluster w) n = None \<or>
       (\<exists>y. k8s_view st (k8s_resource_name (j_Name j)) (w_cluster w) n = Some y \<and> \<not> k8s_selected j d y) \<Longrightarrow>
      n \<notin> object_name ` set xs \<union> reserved_names cl \<Longrightarrow>
      k8s_view st (k8s_resource_name (j_Name j)) (w_cluster w') n = k8s_view st (k8s_resource_name (j_Name j)) (w_cluster w) n"
proof -
  let ?sc = "k8s_scheduler u (new_k8s_scheduler j cl)" and ?view = "k8s_view st (k8s_resource_name (j_Name j))"
  obtain us sgs where us: "list_units (sp_Client u) (k8s_resource_name (j_Name j)) (w_cluster w) = Inr us"
    and g: "generate_scaling_groups (generate_k8s_scaling_group c im j d cl) d (max_count j) = Inr sgs" "sgs \<noteq> []"
    by (rule run_k8s_listed [OF r])
  obtain xs' where xs': "generate_k8s_scaling_group c im j d cl 1 = Inr xs'" "(1, xs') \<in> set sgs"
    "\<forall>(sg, ys) \<in> set sgs. ys = [] \<or> sg = 1 \<and> ys = xs'"
    "concat (map (\<lambda>(sg, ys). map object_name ys) sgs) = map object_name xs'"
    by (rule k8s_generated_first [OF g sg])
  then have [simp]: "xs' = xs" using x by simp
  have sl: "scheduler_laws ?sc ?view k8s_accepts (k8s_ok st (k8s_resource_name (j_Name j)) cl)
      (k8s_data_ok (k8s_resource_name (j_Name j)) cl) False (\<lambda>x. object_namespace x = k8s_resource_name (j_Name j))
      (reserved_names cl)"
    using k8s_scheduler_laws [OF laws, of "new_k8s_scheduler j cl"] by simp
  have gen: "generated ?sc sgs = object_name ` set xs"
    using xs'(2,3) by (fastforce simp: generated_def data_names_def k8s_scheduler_sel)
  have dist: "distinct (scheduler_laws.names_list ?sc sgs)"
    unfolding scheduler_laws.names_list_def [OF sl] k8s_scheduler_sel xs'(4)
    using generated_distinct [OF job(1,2) xs'(1) [unfolded generate_k8s_scaling_group_def]] .
  note e = list_units_effect [OF laws(1) us]
  have view: "?view (w_cluster w) (object_name x) = Some (core x)" if "x \<in> set us" for x
    using e(2) [OF that] k8s_view_at [OF o] by blast
  have c: "(\<forall>(sg, units) \<in> set sgs. scheduler_laws.up_to_date ?sc ?view k8s_accepts units (w_cluster w')) \<and>
    (\<forall>n \<in> k8s_units u j d cl (w_cluster w) - generated ?sc sgs. ?view (w_cluster w') n = None) \<and>
    (\<forall>n. n \<notin> k8s_units u j d cl (w_cluster w) \<union> generated ?sc sgs \<union> reserved_names cl \<longrightarrow>
      ?view (w_cluster w') n = ?view (w_cluster w) n)"
    unfolding k8s_units_def
  proof (rule scheduler_laws.run_converges [OF sl r [unfolded run_k8s_def] g(1) o dist])
    fix us' sg units y x assume y: "ListUnits ?sc (w_cluster w) = Inr us'" "x \<in> set us'" "(sg, units) \<in> set sgs"
      "y \<in> set units" "unit_id ?sc x = data_id ?sc y"
    then have m: "us' = us" "y \<in> set xs" using us xs'(3) y(1,3,4) by (auto simp: k8s_scheduler_sel)
    have "?view (w_cluster w) (object_name y) = Some (core x)"
      using view [of x] y(2,5) m(1) by (simp add: k8s_scheduler_sel)
    then have "k8s_selected j d (core x)" using own m(2) by blast
    then have "k8s_selected j d x" by simp
    then show "unit_name_predicate d ?sc x \<and> IsUnitForScalingGroup ?sc x sg"
      by (auto simp: k8s_predicate k8s_scheduler_sel k8s_selected_def k8s_unit_for_job_def)
  next
    fix sg units y assume "(sg, units) \<in> set sgs" "y \<in> set units"
    then have "y \<in> set xs" using xs'(3) by auto
    then show "k8s_data_ok (k8s_resource_name (j_Name j)) cl y" by (rule generated_data_ok [OF job(3) x])
  qed
  note J = k8s_units_iff [OF laws o us]
  show "\<exists>y. ?view (w_cluster w') (object_name x) = Some y \<and> k8s_accepts x y" if "x \<in> set xs"
    using c xs'(2) that by (auto simp: scheduler_laws.up_to_date_def [OF sl] k8s_scheduler_sel)
  show "?view (w_cluster w') n = None" if "?view (w_cluster w) n = Some y" "k8s_selected j d y" "n \<notin> object_name ` set xs"
  proof -
    have "n \<in> k8s_units u j d cl (w_cluster w)" unfolding J using that(1,2) by blast
    with c that(3) show ?thesis by (simp add: gen)
  qed
  show "?view (w_cluster w') n = ?view (w_cluster w) n"
    if "?view (w_cluster w) n = None \<or> (\<exists>y. ?view (w_cluster w) n = Some y \<and> \<not> k8s_selected j d y)"
      "n \<notin> object_name ` set xs \<union> reserved_names cl"
  proof -
    have "n \<notin> k8s_units u j d cl (w_cluster w)" unfolding J using that(1) by auto
    with c that(2) show ?thesis by (simp add: gen)
  qed
qed

section \<open>Whatever the outcome\<close>

theorem run_k8s_frame:
  assumes laws: "api_laws (sp_Client u) st" "orders_well u"
    and o: "k8s_ok st (k8s_resource_name (j_Name j)) cl (w_cluster w)"
    and r: "run_k8s c im u j d cl w = (v, w')"
    and n: "n \<notin> reserved_names cl"
      "\<And>xs. generate_k8s_scaling_group c im j d cl 1 = Inr xs \<Longrightarrow> n \<notin> object_name ` set xs"
      "\<And>y. k8s_view st (k8s_resource_name (j_Name j)) (w_cluster w) n = Some y \<Longrightarrow> \<not> k8s_selected j d y"
  shows "k8s_view st (k8s_resource_name (j_Name j)) (w_cluster w') n =
    k8s_view st (k8s_resource_name (j_Name j)) (w_cluster w) n"
proof (rule scheduler_laws.run_frame [OF _ r [unfolded run_k8s_def]])
  let ?sc = "k8s_scheduler u (new_k8s_scheduler j cl)"
  note sl = k8s_scheduler_laws [OF laws, of "new_k8s_scheduler j cl", unfolded new_k8s_scheduler_sel]
  show "scheduler_laws ?sc (k8s_view st (k8s_resource_name (j_Name j))) k8s_accepts
      (k8s_ok st (k8s_resource_name (j_Name j)) cl) (k8s_data_ok (k8s_resource_name (j_Name j)) cl) False
      (\<lambda>x. object_namespace x = k8s_resource_name (j_Name j)) (reserved_names cl)" by (rule sl)
  show "n \<notin> reserved_names cl" by (rule n(1))
  show "n \<notin> names_of ?sc (scheduler_laws.job_units ?sc d (w_cluster w))"
  proof (cases "list_units (sp_Client u) (k8s_resource_name (j_Name j)) (w_cluster w)")
    case (Inr us)
    from k8s_units_iff [OF laws o Inr, of n d] n(3) show ?thesis by (auto simp: k8s_units_def)
  next
    case (Inl e)
    then show ?thesis by (simp add: scheduler_laws.job_units_def [OF sl] k8s_scheduler_sel)
  qed
  fix sgs assume g: "generate_scaling_groups (generate_k8s_scaling_group c im j d cl) d (max_count j) = Inr sgs"
  have "n \<notin> object_name ` set xs" if "(sg, xs) \<in> set sgs" for sg xs
    using k8s_scaling_groups(2,3) [OF g that] n(2) by (cases "sg = 1") auto
  then show "n \<notin> generated ?sc sgs" by (fastforce simp: generated_def data_names_def k8s_scheduler_sel)
qed

theorem run_k8s_elsewhere:
  assumes laws: "api_laws (sp_Client u) st" "orders_well u" and r: "run_k8s c im u j d cl w = (v, w')"
  shows "elsewhere_same st (k8s_resource_name (j_Name j)) (w_cluster w) (w_cluster w')"
proof (rule scheduler_keeps.run_keeps [OF _ r [unfolded run_k8s_def]])
  show "scheduler_keeps (k8s_scheduler u (new_k8s_scheduler j cl))
      (elsewhere_same st (k8s_resource_name (j_Name j)) (w_cluster w))
      (\<lambda>x. object_namespace x = k8s_resource_name (j_Name j)) (\<lambda>x. object_namespace x = k8s_resource_name (j_Name j))"
    using k8s_scheduler_keeps [OF laws, of "new_k8s_scheduler j cl"] by simp
qed (use k8s_generated_selected(2) in auto)

theorem destroy_k8s_elsewhere:
  assumes laws: "api_laws (sp_Client u) st" "orders_well u" and r: "destroy_k8s u j d cl w = (v, w')"
  shows "elsewhere_same st (k8s_resource_name (j_Name j)) (w_cluster w) (w_cluster w')"
proof (rule scheduler_keeps.destroy_deployment_keeps [OF _ r [unfolded destroy_k8s_def]])
  show "scheduler_keeps (k8s_scheduler u (new_k8s_scheduler j cl))
      (elsewhere_same st (k8s_resource_name (j_Name j)) (w_cluster w))
      (\<lambda>x. object_namespace x = k8s_resource_name (j_Name j)) (\<lambda>x. object_namespace x = k8s_resource_name (j_Name j))"
    using k8s_scheduler_keeps [OF laws, of "new_k8s_scheduler j cl"] by simp
qed simp

theorem destroy_k8s_effect:
  assumes laws: "api_laws (sp_Client u) st" "orders_well u"
    and o: "k8s_ok st (k8s_resource_name (j_Name j)) cl (w_cluster w)"
    and r: "destroy_k8s u j d cl w = (v, w')"
  shows "k8s_view st (k8s_resource_name (j_Name j)) (w_cluster w) n = None \<or>
      (\<exists>y. k8s_view st (k8s_resource_name (j_Name j)) (w_cluster w) n = Some y \<and> \<not> k8s_selected j d y) \<Longrightarrow>
      k8s_view st (k8s_resource_name (j_Name j)) (w_cluster w') n = k8s_view st (k8s_resource_name (j_Name j)) (w_cluster w) n"
    "is_ok v \<Longrightarrow> k8s_view st (k8s_resource_name (j_Name j)) (w_cluster w) n = Some y \<Longrightarrow> k8s_selected j d y \<Longrightarrow>
      k8s_view st (k8s_resource_name (j_Name j)) (w_cluster w') n = None"
proof -
  let ?sc = "k8s_scheduler u (new_k8s_scheduler j cl)" and ?view = "k8s_view st (k8s_resource_name (j_Name j))"
  note sl = k8s_scheduler_laws [OF laws, of "new_k8s_scheduler j cl", unfolded new_k8s_scheduler_sel]
  note e = scheduler_laws.destroy_deployment_effect [OF sl r [unfolded destroy_k8s_def], folded k8s_units_def]
  show "?view (w_cluster w') n = ?view (w_cluster w) n"
    if "?view (w_cluster w) n = None \<or> (\<exists>y. ?view (w_cluster w) n = Some y \<and> \<not> k8s_selected j d y)"
  proof (rule e(1))
    show "n \<notin> k8s_units u j d cl (w_cluster w)"
    proof (cases "list_units (sp_Client u) (k8s_resource_name (j_Name j)) (w_cluster w)")
      case (Inr us)
      from k8s_units_iff [OF laws o Inr, of n d] that show ?thesis by auto
    next
      case (Inl e)
      then show ?thesis by (simp add: k8s_units_def scheduler_laws.job_units_def [OF sl] k8s_scheduler_sel)
    qed
  qed
  show "?view (w_cluster w') n = None" if v: "is_ok v" "?view (w_cluster w) n = Some y" "k8s_selected j d y"
  proof (rule e(2) [OF o v(1)])
    obtain us where "list_units (sp_Client u) (k8s_resource_name (j_Name j)) (w_cluster w) = Inr us"
      using r v(1) by (auto simp: destroy_k8s_def destroy_deployment_def k8s_scheduler_sel split: sum.splits)
    from k8s_units_iff [OF laws o this, of n d] v(2,3) show "n \<in> k8s_units u j d cl (w_cluster w)" by blast
  qed
qed

text \<open>Selecting a scaling group behind the first one removes what is selected.\<close>

theorem run_k8s_other_scaling_group:
  assumes laws: "api_laws (sp_Client u) st" "orders_well u"
    and o: "k8s_ok st (k8s_resource_name (j_Name j)) cl (w_cluster w)"
    and r: "run_k8s c im u j d cl w = (Inr k, w')" and sg: "2 \<le> scalingGroupSelection d"
  shows "k8s_view st (k8s_resource_name (j_Name j)) (w_cluster w) n = Some y \<Longrightarrow> k8s_selected j d y \<Longrightarrow>
    k8s_view st (k8s_resource_name (j_Name j)) (w_cluster w') n = None"
proof -
  let ?sc = "k8s_scheduler u (new_k8s_scheduler j cl)" and ?view = "k8s_view st (k8s_resource_name (j_Name j))"
  assume y: "?view (w_cluster w) n = Some y" "k8s_selected j d y"
  obtain us sgs where us: "list_units (sp_Client u) (k8s_resource_name (j_Name j)) (w_cluster w) = Inr us"
    and g: "generate_scaling_groups (generate_k8s_scaling_group c im j d cl) d (max_count j) = Inr sgs" "sgs \<noteq> []"
    by (rule run_k8s_listed [OF r])
  note sl = k8s_scheduler_laws [OF laws, of "new_k8s_scheduler j cl", unfolded new_k8s_scheduler_sel]
  have none: "xs = []" if "(sg, xs) \<in> set sgs" for sg xs
    using k8s_scaling_groups(1,3) [OF g(1) that] assms(5) by (auto simp: sgs_includes_def)
  have gen: "generated ?sc sgs = {}" using none by (fastforce simp: generated_def data_names_def)
  have dist: "distinct (scheduler_laws.names_list ?sc sgs)"
  proof -
    have "concat (map (\<lambda>(sg, xs). map (data_id ?sc) xs) sgs) = []" using none by auto
    then show ?thesis unfolding scheduler_laws.names_list_def [OF sl] by (simp only: distinct.simps(1))
  qed
  have "\<forall>n \<in> k8s_units u j d cl (w_cluster w) - generated ?sc sgs. ?view (w_cluster w') n = None"
    unfolding k8s_units_def
    by (rule conjunct1 [OF conjunct2 [OF scheduler_laws.run_converges [OF sl r [unfolded run_k8s_def] g(1) o dist]]])
      (use none in fastforce)+
  moreover have "n \<in> k8s_units u j d cl (w_cluster w)" using k8s_units_iff [OF laws o us, of n d] y by blast
  ultimately show ?thesis by (simp add: gen)
qed

end
