(* ===== verification/K8sWaits.thy ===== *)
theory K8sWaits
  imports K8sUnitLaws
begin

text \<open>
  Starting a unit on Kubernetes returns: the waits are bounded by the clock, so a fuel of 63 rounds is
  enough for every start, and a deployment that becomes ready within the minute is started.
\<close>

section \<open>Starting ends\<close>

text \<open>Every call of the client returns.\<close>

definition answers :: "'s k8s_client \<Rightarrow> bool" where
  "answers c \<longleftrightarrow> (\<forall>k ns n s. GetObject c k ns n s \<noteq> Inl Hang) \<and> (\<forall>ns ls s. ListPods c ns ls s \<noteq> Inl Hang) \<and>
     (\<forall>ns d s. fst (CreateObject c ns d s) \<noteq> Inl Hang \<and> fst (UpdateObject c ns d s) \<noteq> Inl Hang) \<and>
     (\<forall>ns n s. fst (DeletePod c ns n s) \<noteq> Inl Hang)"

lemma answersD:
  assumes "answers c"
  shows "GetObject c k ns n s \<noteq> Inl Hang" "ListPods c ns ls s \<noteq> Inl Hang" "fst (CreateObject c ns d s) \<noteq> Inl Hang"
    "fst (UpdateObject c ns d s) \<noteq> Inl Hang" "fst (DeletePod c ns n s) \<noteq> Inl Hang"
  using assms by (simp_all add: answers_def)

lemma settles_sbind:
  assumes "fst m \<noteq> Inl Hang" "\<And>x s. m = (Inr x, s) \<Longrightarrow> settles (f x s) (g x s)"
  shows "settles (sbind m f) (sbind m g)"
  using assms by (auto simp: sbind_def settles_def split: prod.splits sum.splits)

lemma settles_same: "fst m \<noteq> Inl Hang \<Longrightarrow> settles m m"
  by (simp add: settles_def)

lemma settles_sbind_arg: "settles m m' \<Longrightarrow> (\<And>x s. fst (f x s) \<noteq> Inl Hang) \<Longrightarrow> settles (sbind m f) (sbind m' f)"
  by (auto simp: sbind_def settles_def split: prod.splits sum.splits)

lemma settles_value: "settles (Inl e, s) (Inl e, s) \<longleftrightarrow> e \<noteq> Hang"
  by (simp add: settles_def)

lemma settles_each:
  assumes "\<And>x s. settles (f x s) (g x s)"
  shows "settles (each_res f xs s) (each_res g xs s)"
proof (induction xs arbitrary: s)
  case (Cons x xs)
  have e: "f x s = g x s" "fst (f x s) \<noteq> Inl Hang" using assms [of x s] by (auto simp: settles_def)
  show ?case unfolding each_res.simps e(1) [symmetric] by (rule settles_sbind [OF e(2) Cons])
qed (simp add: settles_def)

lemma wait_from_now:
  assumes "keeps_time c" "answers c" "63 \<le> fuel"
  shows "settles (wait_until_started c fuel d g (Now c s) 0 s) (wait_until_started c 63 d g (Now c s) 0 s)"
    "settles (wait_for_pod c fuel ls pod (Now c s) s) (wait_for_pod c 63 ls pod (Now c s) s)"
proof -
  have "wait_rounds (Minute - (Now c s - Now c s)) \<le> 31" by (rule wait_rounds_minute) simp
  then show "settles (wait_until_started c fuel d g (Now c s) 0 s) (wait_until_started c 63 d g (Now c s) 0 s)"
    using assms by (intro wait_until_started_fuel answersD) simp_all
  show "settles (wait_for_pod c fuel ls pod (Now c s) s) (wait_for_pod c 63 ls pod (Now c s) s)"
    using assms by (intro wait_for_pod_fuel answersD) (simp_all add: Minute_def Second_def)
qed

theorem start_object_ends:
  assumes "keeps_time c" "answers c" "63 \<le> fuel"
  shows "settles (start_object c fuel d s) (start_object c 63 d s)"
proof -
  note a = answersD [OF assms(2)] and w = wait_from_now [OF assms]
  have put: "settles (CreateObject c ns x s) (CreateObject c ns x s)" "settles (UpdateObject c ns x s) (UpdateObject c ns x s)" for ns x s
    using a by (simp_all add: settles_same)
  show ?thesis
  proof (cases d)
    case (ODeployment x)
    then show ?thesis
      by (auto simp: start_deployment_def Let_def settles_value split: sum.splits option.splits intro!: settles_sbind a w(1))
  next
    case (ODaemonSet x)
    have "settles (rotate_pods c fuel pods ls t) (rotate_pods c 63 pods ls t)" for pods ls t
      unfolding rotate_pods_def
      by (intro settles_each settles_sbind [OF a(5)] settles_sbind_arg w(2)) simp
    with ODaemonSet a put show ?thesis
      by (auto simp: start_daemon_set_def Let_def split: sum.splits intro!: settles_sbind settles_same)
  qed (use put in \<open>auto simp: start_secret_def start_service_def start_plain_def Let_def settles_same split: sum.splits\<close>)
qed

section \<open>A deployment that becomes ready is started\<close>

definition round_state :: "'s k8s_client \<Rightarrow> nat \<Rightarrow> 's \<Rightarrow> 's" where
  "round_state c n s = (Sleep c (2 * Second) ^^ n) s"

lemma round_state_Suc [simp]: "round_state c 0 s = s" "round_state c (Suc n) s = round_state c n (Sleep c (2 * Second) s)"
  by (simp_all add: round_state_def funpow_swap1)

text \<open>The status of the deployment can be read, and it shows the new generation with all replicas.\<close>

definition shows_status :: "'s k8s_client \<Rightarrow> k8s_deployment \<Rightarrow> (deployment_status \<Rightarrow> bool) \<Rightarrow> 's \<Rightarrow> bool" where
  "shows_status c d P s \<longleftrightarrow> (\<exists>l status. GetObject c KDeployment (om_Namespace (kd_Meta d)) (om_Name (kd_Meta d)) s = Inr l \<and>
     lv_Deployment l = Some status \<and> P status)"

definition ready_status :: "k8s_deployment \<Rightarrow> int \<Rightarrow> deployment_status \<Rightarrow> bool" where
  "ready_status d g status \<longleftrightarrow> ds_ObservedGeneration status \<noteq> g \<and> ds_UpdatedReplicas status = kd_Replicas d \<and>
     ds_AvailableReplicas status = kd_Replicas d"

definition becomes_ready :: "'s k8s_client \<Rightarrow> k8s_deployment \<Rightarrow> int \<Rightarrow> int \<Rightarrow> nat \<Rightarrow> 's \<Rightarrow> bool" where
  "becomes_ready c d g start k s \<longleftrightarrow>
     (\<forall>m \<le> k + 1. shows_status c d (\<lambda>status. k \<le> m \<longrightarrow> ready_status d g status) (round_state c m s)) \<and>
     (\<forall>m \<le> k. Now c (round_state c m s) - start \<le> deploymentStartTimeout)"

lemma becomes_ready_Suc:
  "becomes_ready c d g start (Suc k) s \<Longrightarrow> becomes_ready c d g start k (Sleep c (2 * Second) s)"
proof -
  assume "becomes_ready c d g start (Suc k) s"
  then have a: "\<And>m. m \<le> Suc k + 1 \<Longrightarrow> shows_status c d (\<lambda>status. Suc k \<le> m \<longrightarrow> ready_status d g status) (round_state c m s)"
    "\<And>m. m \<le> Suc k \<Longrightarrow> Now c (round_state c m s) - start \<le> deploymentStartTimeout" by (simp_all add: becomes_ready_def)
  from a(1) [of "Suc m" for m] a(2) [of "Suc m" for m] show ?thesis by (simp add: becomes_ready_def)
qed

lemma becomes_ready_now:
  assumes "becomes_ready c d g start k s"
  shows "shows_status c d (\<lambda>status. k = 0 \<longrightarrow> ready_status d g status) s" "Now c s - start \<le> deploymentStartTimeout"
    "k = 0 \<Longrightarrow> shows_status c d (ready_status d g) (Sleep c (2 * Second) s)"
proof -
  from assms have a: "\<And>m. m \<le> k + 1 \<Longrightarrow> shows_status c d (\<lambda>status. k \<le> m \<longrightarrow> ready_status d g status) (round_state c m s)"
    "\<And>m. m \<le> k \<Longrightarrow> Now c (round_state c m s) - start \<le> deploymentStartTimeout" by (simp_all add: becomes_ready_def)
  from a(1) [of 0] show "shows_status c d (\<lambda>status. k = 0 \<longrightarrow> ready_status d g status) s" by simp
  from a(2) [of 0] show "Now c s - start \<le> deploymentStartTimeout" by simp
  from a(1) [of 1] show "shows_status c d (ready_status d g) (Sleep c (2 * Second) s)" if "k = 0" using that by simp
qed

text \<open>The fuel that the phases of the wait use up.\<close>

fun phase_fuel :: "nat \<Rightarrow> nat" where
  "phase_fuel state = (if state = 0 then 3 else if state = 1 then 2 else 1)"

lemma status_at:
  assumes "shows_status c d P s"
  obtains l status where "GetObject c KDeployment (om_Namespace (kd_Meta d)) (om_Name (kd_Meta d)) s = Inr l"
    "lv_Deployment l = Some status" "P status"
  using assms by (auto simp: shows_status_def)

lemma wait_phase_two:
  assumes "becomes_ready c d g start k s" "k + 1 \<le> fuel" "2 \<le> state"
  shows "\<exists>m \<le> k + 1. wait_until_started c fuel d g start state s = (Inr (), round_state c m s)"
  using assms
proof (induction k arbitrary: fuel s)
  case 0
  note b = becomes_ready_now [OF 0(1)]
  obtain f where f: "fuel = Suc f" using 0(2) by (cases fuel) auto
  show ?case by (rule status_at [OF b(1)], rule exI [of _ 0]) (use 0(3) in \<open>simp add: f ready_status_def\<close>)
next
  case (Suc k)
  note b = becomes_ready_now [OF Suc.prems(1)]
  obtain f where f: "fuel = Suc f" "k + 1 \<le> f" using Suc.prems(2) by (cases fuel) auto
  from Suc.IH [OF becomes_ready_Suc [OF Suc.prems(1)] f(2) Suc.prems(3)] obtain m where
    m: "m \<le> k + 1" "wait_until_started c f d g start state (Sleep c (2 * Second) s) = (Inr (), round_state c (Suc m) s)"
    by auto
  obtain l status where l: "GetObject c KDeployment (om_Namespace (kd_Meta d)) (om_Name (kd_Meta d)) s = Inr l"
    "lv_Deployment l = Some status" by (rule status_at [OF b(1)])
  have "wait_until_started c fuel d g start state s = (Inr (), round_state c 0 s) \<or>
      wait_until_started c fuel d g start state s = (Inr (), round_state c (Suc m) s)"
    using l Suc.prems(3) b(2) m(2) by (simp add: f(1) del: round_state_Suc(2))
  with m(1) show ?case by (metis Suc_eq_plus1 Suc_le_mono le0)
qed

lemma wait_until_ready:
  assumes "becomes_ready c d g start k s" "k + phase_fuel state \<le> fuel"
  shows "\<exists>m \<le> k + 1. wait_until_started c fuel d g start state s = (Inr (), round_state c m s)"
  using assms
proof (induction k arbitrary: fuel state s)
  case 0
  note b = becomes_ready_now [OF 0(1)]
  obtain f where f: "fuel = Suc f" using 0(2) by (cases fuel) (auto split: if_splits)
  obtain l status where l: "GetObject c KDeployment (om_Namespace (kd_Meta d)) (om_Name (kd_Meta d)) s = Inr l"
    "lv_Deployment l = Some status" "ready_status d g status" using status_at [OF b(1)] by auto
  obtain l' status' where l': "GetObject c KDeployment (om_Namespace (kd_Meta d)) (om_Name (kd_Meta d)) (Sleep c (2 * Second) s) = Inr l'"
    "lv_Deployment l' = Some status'" "ready_status d g status'" using status_at [OF b(3)] by auto
  consider "state = 0" | "state = 1" | "2 \<le> state" by linarith
  then show ?case
  proof cases
    case 1
    with 0(2) have "f = Suc (Suc (f - 2))" by (simp add: f)
    then obtain f' where "f = Suc (Suc f')" by blast
    with 1 l l' b(2) show ?thesis by (intro exI [of _ 1]) (simp add: f ready_status_def)
  next
    case 2
    with 0(2) obtain f' where "f = Suc f'" by (auto simp: f numeral_2_eq_2 dest!: Suc_le_D)
    with 2 l show ?thesis by (intro exI [of _ 0]) (simp add: f ready_status_def)
  next
    case 3
    then show ?thesis using wait_phase_two [OF 0(1), of fuel state] by (simp add: f)
  qed
next
  case (Suc k)
  let ?s = "Sleep c (2 * Second) s"
  note b = becomes_ready_now [OF Suc.prems(1)]
  obtain f where f: "fuel = Suc f" using Suc.prems(2) by (cases fuel) auto
  obtain l status where l: "GetObject c KDeployment (om_Namespace (kd_Meta d)) (om_Name (kd_Meta d)) s = Inr l"
    "lv_Deployment l = Some status" by (rule status_at [OF b(1)])
  have again: "\<exists>m \<le> Suc k + 1. wait_until_started c f d g start state' ?s = (Inr (), round_state c m s)"
    if fuel: "k + phase_fuel state' \<le> f" for state'
  proof -
    obtain m where "m \<le> k + 1" "wait_until_started c f d g start state' ?s = (Inr (), round_state c m ?s)"
      using Suc.IH [OF becomes_ready_Suc [OF Suc.prems(1)] fuel] by blast
    then show ?thesis by (intro exI [of _ "Suc m"]) simp
  qed
  consider "state = 0" | "state = 1" | "2 \<le> state" by linarith
  then show ?case
  proof cases
    case 1
    then have "k + phase_fuel 0 \<le> f" "k + phase_fuel 1 \<le> f" using Suc.prems(2) by (simp_all add: f)
    from again [OF this(1)] again [OF this(2)] 1 l b(2) show ?thesis by (simp add: f)
  next
    case 2
    then have "k + phase_fuel 1 \<le> f" "Suc k + 1 \<le> f" using Suc.prems(2) by (simp_all add: f)
    from again [OF this(1)] wait_phase_two [OF Suc.prems(1) this(2), of 2] 2 l b(2) show ?thesis by (simp add: f)
  next
    case 3
    then show ?thesis using wait_phase_two [OF Suc.prems(1), of fuel state] Suc.prems(2) by (simp split: if_splits)
  qed
qed

text \<open>The deployment is written, with the generation that the wait is to leave behind.\<close>

definition writes_deployment :: "'s k8s_client \<Rightarrow> k8s_deployment \<Rightarrow> 's \<Rightarrow> int \<Rightarrow> 's \<Rightarrow> bool" where
  "writes_deployment c d s g s1 \<longleftrightarrow>
     (case get_current c (ODeployment d) s of
        Inl _ \<Rightarrow> g = 0 \<and> CreateObject c (object_namespace (ODeployment d)) (ODeployment d) s = (Inr (), s1)
      | Inr current \<Rightarrow> \<exists>status. lv_Deployment current = Some status \<and> g = ds_ObservedGeneration status \<and>
          UpdateObject c (object_namespace (ODeployment d)) (update_metadata_from_current (ODeployment d) (lv_Object current)) s =
            (Inr (), s1))"

theorem start_deployment_ready:
  assumes "writes_deployment c d s g s1" "becomes_ready c d g (Now c s1) k s1" "k + 3 \<le> fuel"
  shows "\<exists>m \<le> k + 1. start_deployment c fuel d s = (Inr (), round_state c m s1)"
proof -
  have "start_deployment c fuel d s = wait_until_started c fuel d g (Now c s1) 0 s1"
    using assms(1) by (auto simp: start_deployment_def writes_deployment_def Let_def sbind_def split: sum.splits)
  with wait_until_ready [OF assms(2), of 0 fuel] assms(3) show ?thesis by simp
qed

end
