(* ===== verification/K8sServer.thy ===== *)
theory K8sServer
  imports K8sRun K8sWaits
begin

text \<open>
  An API server that keeps its objects in a list, for the witnesses. Every write counts up the
  generation that the status of a deployment shows, and sleeping moves the clock; the pods of a
  deployment are there at once. It meets \<open>api_laws\<close>.
\<close>

record mem_api =
  ma_Objects :: "k8s_object list"
  ma_Generation :: int
  ma_Now :: int

definition mem_is :: "kind \<Rightarrow> string \<Rightarrow> string \<Rightarrow> k8s_object \<Rightarrow> bool" where
  "mem_is k ns n x \<longleftrightarrow> kind_of x = k \<and> object_namespace x = ns \<and> object_name x = n"

definition mem_find :: "mem_api \<Rightarrow> kind \<Rightarrow> string \<Rightarrow> string \<Rightarrow> k8s_object option" where
  "mem_find s k ns n = List.find (mem_is k ns n) (ma_Objects s)"

definition mem_store :: "mem_api store" where
  "mem_store s k ns n = map_option core (mem_find s k ns n)"

fun replicas_of :: "k8s_object \<Rightarrow> int" where
  "replicas_of (ODeployment d) = kd_Replicas d"
| "replicas_of _ = 0"

definition mem_get :: "kind \<Rightarrow> string \<Rightarrow> string \<Rightarrow> mem_api \<Rightarrow> live res" where
  "mem_get k ns n s =
     (case mem_find s k ns n of
        None \<Rightarrow> Inl NotFoundError
      | Some x \<Rightarrow> Inr \<lparr>lv_Object = x, lv_Deployment = Some \<lparr>ds_ObservedGeneration = ma_Generation s,
          ds_UpdatedReplicas = replicas_of x, ds_AvailableReplicas = replicas_of x\<rparr>, lv_JobFailed = Some 0, lv_Extra = False\<rparr>)"

definition mem_list :: "kind \<Rightarrow> string \<Rightarrow> mem_api \<Rightarrow> k8s_object list res" where
  "mem_list k ns s =
     Inr (List.map_filter (\<lambda>x. mem_find s k ns (object_name x))
       (filter (\<lambda>x. kind_of x = k \<and> object_namespace x = ns) (ma_Objects s)))"

definition mem_put :: "bool \<Rightarrow> string \<Rightarrow> k8s_object \<Rightarrow> mem_api \<Rightarrow> unit res \<times> mem_api" where
  "mem_put there ns d s =
     (if ns \<noteq> object_namespace d \<or> (mem_find s (kind_of d) ns (object_name d) \<noteq> None) \<noteq> there then (Inl OtherError, s)
      else (Inr (), s\<lparr>ma_Objects := d # filter (\<lambda>x. \<not> mem_is (kind_of d) ns (object_name d) x) (ma_Objects s),
        ma_Generation := ma_Generation s + 1\<rparr>))"

definition mem_delete :: "kind \<Rightarrow> string \<Rightarrow> string \<Rightarrow> mem_api \<Rightarrow> unit res \<times> mem_api" where
  "mem_delete k ns n s =
     (if mem_find s k ns n = None then (Inl NotFoundError, s)
      else (Inr (), s\<lparr>ma_Objects := filter (\<lambda>x. \<not> mem_is k ns n x) (ma_Objects s)\<rparr>))"

definition mem_client :: "mem_api k8s_client" where
  "mem_client =
     \<lparr>GetObject = mem_get, ListObjects = mem_list, CreateObject = mem_put False, UpdateObject = mem_put True,
      DeleteObject = mem_delete, ListPods = (\<lambda>_ _ _. Inr []), DeletePod = (\<lambda>_ _ s. (Inr (), s)),
      ListReplicaSets = (\<lambda>_ _ _. Inr []), DeleteReplicaSet = (\<lambda>_ _ s. (Inr (), s)),
      GetNamespace = (\<lambda>_ _. Inr ()), CreateNamespace = (\<lambda>_ s. (Inr (), s)), ListNodes = (\<lambda>_. Inr ()),
      Now = ma_Now, Sleep = (\<lambda>t s. s\<lparr>ma_Now := ma_Now s + t\<rparr>)\<rparr>"

lemma mem_find_Some: "mem_find s k ns n = Some x \<Longrightarrow> x \<in> set (ma_Objects s) \<and> mem_is k ns n x"
  unfolding mem_find_def by (auto simp: find_Some_iff)

lemma mem_find_None: "mem_find s k ns n = None \<longleftrightarrow> (\<forall>x \<in> set (ma_Objects s). \<not> mem_is k ns n x)"
  by (auto simp: mem_find_def find_None_iff)

lemma find_filter_other: "(\<And>x. P x \<Longrightarrow> Q x) \<Longrightarrow> List.find P (filter Q xs) = List.find P xs"
  by (induction xs) auto

lemma mem_find_filter:
  assumes "(k', ns', n') \<noteq> (k, ns, n)"
  shows "mem_find (s\<lparr>ma_Objects := filter (\<lambda>x. \<not> mem_is k ns n x) (ma_Objects s)\<rparr>) k' ns' n' = mem_find s k' ns' n'"
  using assms by (auto simp: mem_find_def mem_is_def intro!: find_filter_other)

lemma mem_is_core [simp]: "kind_of (core x) = kind_of x" "object_namespace (core x) = object_namespace x"
  by (simp_all add: object_namespace_def)

lemma agrees_core: "agrees d (core d)"
proof -
  have "is_same_spec d d" by (cases d) (simp_all add: is_same_pod_template_spec_def is_same_object_meta_def same_map_but_iff)
  then show ?thesis by (simp add: agrees_def same_map_but_iff)
qed

lemma mem_put_effect:
  assumes "mem_put there ns d s = (r, s')"
  shows "only_at mem_store (kind_of d) ns (object_name d) s s'"
    "is_ok r \<Longrightarrow> ns = object_namespace d \<Longrightarrow>
       \<exists>x. mem_store s' (kind_of d) ns (object_name d) = Some x \<and> agrees d x"
proof -
  let ?s = "s\<lparr>ma_Objects := d # filter (\<lambda>x. \<not> mem_is (kind_of d) ns (object_name d) x) (ma_Objects s),
    ma_Generation := ma_Generation s + 1\<rparr>"
  have cases: "s' = s \<and> \<not> is_ok r \<or> s' = ?s \<and> ns = object_namespace d"
    using assms by (auto simp: mem_put_def split: if_splits)
  have "mem_find ?s k' ns' n' = mem_find s k' ns' n'"
    if "(k', ns', n') \<noteq> (kind_of d, ns, object_name d)" "ns = object_namespace d" for k' ns' n'
    using mem_find_filter [OF that(1), of s] that by (auto simp: mem_find_def mem_is_def)
  then show "only_at mem_store (kind_of d) ns (object_name d) s s'"
    using cases by (auto simp: only_at_def mem_store_def)
  show "\<exists>x. mem_store s' (kind_of d) ns (object_name d) = Some x \<and> agrees d x" if "is_ok r" "ns = object_namespace d"
    using cases that agrees_core by (auto simp: mem_store_def mem_find_def mem_is_def)
qed

lemma mem_delete_effect:
  assumes "mem_delete k ns n s = (r, s')"
  shows "only_at mem_store k ns n s s'" "mem_store s' k ns n = None \<or> mem_store s' k ns n = mem_store s k ns n"
    "is_ok r \<Longrightarrow> mem_store s k ns n \<noteq> None \<and> mem_store s' k ns n = None"
proof -
  let ?s = "s\<lparr>ma_Objects := filter (\<lambda>x. \<not> mem_is k ns n x) (ma_Objects s)\<rparr>"
  have cases: "s' = s \<and> \<not> is_ok r \<or> s' = ?s \<and> mem_find s k ns n \<noteq> None"
    using assms by (auto simp: mem_delete_def split: if_splits)
  then show "only_at mem_store k ns n s s'"
    using mem_find_filter [of _ _ _ k ns n s] by (auto simp: only_at_def mem_store_def)
  have "mem_find ?s k ns n = None" by (simp add: mem_find_None)
  with cases show "mem_store s' k ns n = None \<or> mem_store s' k ns n = mem_store s k ns n"
    "is_ok r \<Longrightarrow> mem_store s k ns n \<noteq> None \<and> mem_store s' k ns n = None" by (auto simp: mem_store_def)
qed

lemma mem_client_laws: "api_laws mem_client mem_store" "keeps_time mem_client"
proof -
  have "reads_well mem_client mem_store"
    unfolding reads_well_def
  proof (intro conjI allI impI ballI)
    fix s k ns n x assume "mem_store s k ns n = Some x"
    then obtain y where "mem_find s k ns n = Some y" "x = core y" by (auto simp: mem_store_def)
    with mem_find_Some [OF this(1)] show "kind_of x = k" "object_name x = n" "object_namespace x = ns"
      by (simp_all add: mem_is_def)
  next
    fix s k ns n l assume "GetObject mem_client k ns n s = Inr l"
    then show "mem_store s k ns n = Some (core (lv_Object l))"
      by (auto simp: mem_client_def mem_get_def mem_store_def split: option.splits)
  next
    fix s k ns us assume l: "ListObjects mem_client k ns s = Inr us"
    have us: "us = List.map_filter (\<lambda>x. mem_find s k ns (object_name x))
        (filter (\<lambda>x. kind_of x = k \<and> object_namespace x = ns) (ma_Objects s))"
      using l by (simp add: mem_client_def mem_list_def)
    {
      fix u assume "u \<in> set us"
      then obtain n where "mem_find s k ns n = Some u" by (auto simp: us List.map_filter_def)
      with mem_find_Some [OF this] show "object_namespace u = ns" "mem_store s k ns (object_name u) = Some (core u)"
        by (auto simp: mem_is_def mem_store_def)
    next
      fix n assume "mem_store s k ns n \<noteq> None"
      then obtain x where x: "mem_find s k ns n = Some x" by (auto simp: mem_store_def)
      note m = mem_find_Some [OF x]
      then have "x \<in> set us" using x by (auto simp: us List.map_filter_def mem_is_def image_iff intro!: bexI [of _ x])
      then show "n \<in> object_name ` set us" using m by (auto simp: mem_is_def)
    }
  qed
  moreover have "writes_well mem_client mem_store"
    unfolding writes_well_def using mem_put_effect mem_delete_effect by (simp add: mem_client_def) blast
  moreover have "keeps_objects mem_client mem_store"
    by (simp add: keeps_objects_def mem_client_def mem_store_def mem_find_def fun_eq_iff)
  ultimately show "api_laws mem_client mem_store" by (simp add: api_laws_def)
  show "keeps_time mem_client" by (simp add: keeps_time_def mem_client_def)
qed

text \<open>A check on the objects of a namespace that gives \<open>k8s_ok\<close>.\<close>

definition mem_objects_fit :: "string \<Rightarrow> cluster \<Rightarrow> k8s_object list \<Rightarrow> bool" where
  "mem_objects_fit ns cl xs \<longleftrightarrow>
     (\<forall>x \<in> set xs. object_namespace x = ns \<longrightarrow>
        (name_kind cl (object_name x) = None \<or> name_kind cl (object_name x) = Some (kind_of x)) \<and>
        (\<forall>y \<in> set xs. object_namespace y = ns \<and> object_name y = object_name x \<longrightarrow> kind_of y = kind_of x))"

lemma mem_objects_ok: "mem_objects_fit ns cl (ma_Objects s) \<Longrightarrow> k8s_ok mem_store ns cl s"
proof -
  assume f: "mem_objects_fit ns cl (ma_Objects s)"
  have at: "\<exists>x \<in> set (ma_Objects s). kind_of x = k \<and> object_namespace x = ns \<and> object_name x = n" if a: "mem_store s k ns n \<noteq> None" for k n
  proof -
    obtain x where "mem_find s k ns n = Some x" using a by (auto simp: mem_store_def)
    from mem_find_Some [OF this] show ?thesis by (auto simp: mem_is_def)
  qed
  show ?thesis
    unfolding k8s_ok_def
  proof (intro allI impI conjI)
    fix n k assume "mem_store s k ns n \<noteq> None"
    from at [OF this] obtain x where x: "x \<in> set (ma_Objects s)" "kind_of x = k" "object_namespace x = ns" "object_name x = n"
      by blast
    from bspec [OF f [unfolded mem_objects_fit_def] x(1)] x(2-4) have "name_kind cl n \<in> {None, Some k}"
      and same: "\<forall>y \<in> set (ma_Objects s). object_namespace y = ns \<and> object_name y = n \<longrightarrow> kind_of y = k" by simp_all
    then show "name_kind cl n \<in> {None, Some k}" by blast
    fix k' assume "mem_store s k' ns n \<noteq> None"
    from at [OF this] same show "k' = k" by auto
  qed
qed

lemma mem_client_answers: "answers mem_client"
  by (auto simp: answers_def mem_client_def mem_get_def mem_put_def split: option.splits)

end
