(* ===== verification/K8sPodLaws.thy ===== *)
theory K8sPodLaws
  imports K8sRenderLaws
begin

text \<open>
  What holds between the parts of the generated objects: every volume a container mounts is a volume of
  its pod, a service selects the pods of a workload that is generated with it, ports fit their types,
  and the restart policy is one that the kind of workload can have.
\<close>

section \<open>Volumes\<close>

definition volume_names :: "k8s_volume list \<Rightarrow> string set" where
  "volume_names vols = kv_Name ` set vols"

definition container_fits :: "string set \<Rightarrow> container \<Rightarrow> bool" where
  "container_fits ns ct \<longleftrightarrow> vm_Name ` set (ct_VolumeMounts ct) \<subseteq> ns \<and>
     (\<forall>p \<in> set (ct_Ports ct). cp_ContainerPort p \<in> {1..65535} \<and> cp_HostPort p \<in> {0..65535})"

definition spec_closed :: "pod_spec \<Rightarrow> bool" where
  "spec_closed s \<longleftrightarrow> distinct (map kv_Name (ps_Volumes s)) \<and>
     (\<forall>ct \<in> set (ps_Containers s). container_fits (volume_names (ps_Volumes s)) ct)"

lemma container_fits_mono: "container_fits ns ct \<Longrightarrow> ns \<subseteq> ns' \<Longrightarrow> container_fits ns' ct"
  by (auto simp: container_fits_def)

lemma create_container_port_fits:
  "create_container_port s host = Inr p \<Longrightarrow> cp_ContainerPort p \<in> {1..65535} \<and> cp_HostPort p \<in> {0..65535}"
  by (auto simp: create_container_port_def port_mapping_ok_def dest!: port_mapping_parse_ok)

lemma append_volumes_names:
  "volume_names (append_volumes vols vs) = volume_names vols \<union> volume_names vs"
  "distinct (map kv_Name vols) \<Longrightarrow> distinct (map kv_Name (append_volumes vols vs))"
  by (induction vs arbitrary: vols) (auto simp: volume_names_def)

definition volume_there :: "crypto \<Rightarrow> task_group \<Rightarrow> volume \<Rightarrow> k8s_volume list \<Rightarrow> bool" where
  "volume_there c tg v vols \<longleftrightarrow> (\<forall>n. create_volume_name c (g_Name tg) v = Inr n \<longrightarrow> n \<in> volume_names vols)"

lemma add_volume_names:
  assumes "add_volume c tg v vols = Inr vols'" "distinct (map kv_Name vols)"
  shows "distinct (map kv_Name vols') \<and> volume_there c tg v vols' \<and> volume_names vols \<subseteq> volume_names vols'"
proof -
  obtain n s where "create_volume_name c (g_Name tg) v = Inr n"
    "vols' = append_volumes vols [\<lparr>kv_Name = n, kv_Source = s\<rparr>]"
    using assms(1) by (auto simp: add_volume_def split: if_splits)
  with assms(2) show ?thesis by (auto simp: volume_there_def volume_names_def)
qed

lemma create_volumes_names:
  assumes "create_volumes c tg p = Inr vols"
  shows "distinct (map kv_Name vols) \<and> (\<forall>t \<in> set (pod_tasks p). \<forall>v \<in> set (t_Volumes t). volume_there c tg v vols)"
proof -
  have mono: "volume_there c tg v vols \<Longrightarrow> volume_names vols \<subseteq> volume_names vols' \<Longrightarrow> volume_there c tg v vols'" for v vols vols'
    by (auto simp: volume_there_def)
  have task: "distinct (map kv_Name vols') \<and> (\<forall>v \<in> set vs. volume_there c tg v vols') \<and> volume_names vols \<subseteq> volume_names vols'"
    if "fold_res (add_volume c tg) vs vols = Inr vols'" "distinct (map kv_Name vols)" for vs vols vols'
  proof (rule fold_res_establishes [where P = "\<lambda>vols. distinct (map kv_Name vols)" and Q = "volume_there c tg"
        and le = "\<lambda>a b. volume_names a \<subseteq> volume_names b", OF that])
  qed (use add_volume_names mono in \<open>blast+\<close>)
  have "distinct (map kv_Name vols) \<and> (\<forall>t \<in> set (pod_tasks p). \<forall>v \<in> set (t_Volumes t). volume_there c tg v vols) \<and>
      volume_names [] \<subseteq> volume_names vols"
  proof (rule fold_res_establishes [where P = "\<lambda>vols. distinct (map kv_Name vols)"
        and Q = "\<lambda>t vols. \<forall>v \<in> set (t_Volumes t). volume_there c tg v vols"
        and le = "\<lambda>a b. volume_names a \<subseteq> volume_names b", OF assms [unfolded create_volumes_def]])
  qed (use task mono in \<open>auto simp del: fold_res.simps\<close>)
  then show ?thesis by blast
qed

lemma add_mount_tasks_set: "add_mount_tasks pts ns mounts = Inr m \<Longrightarrow> set m \<subseteq> set mounts \<union> set pts"
proof (induction pts ns mounts rule: add_mount_tasks.induct)
  case (2 pts n ns mounts)
  show ?case
  proof (cases "index_by_name mounts n < 0")
    case True
    with 2(3) have i: "\<not> index_by_name pts n < 0" "add_mount_tasks pts ns (mounts @ [pts ! nat (index_by_name pts n)]) = Inr m"
      by (auto simp: Let_def split: if_splits)
    then have "nat (index_by_name pts n) < length pts" using index_by_name_bounds(2) [of pts n] by simp
    then have "pts ! nat (index_by_name pts n) \<in> set pts" by simp
    with 2(1) [OF True refl i] show ?thesis by auto
  qed (use 2 in simp)
qed simp

lemma mount_loop_set: "mount_loop pts i mounts = Inr m \<Longrightarrow> set m \<subseteq> set mounts \<union> set pts"
proof (induction pts i mounts rule: mount_loop.induct)
  case (1 pts i mounts)
  from 1(2) [unfolded mount_loop.simps [of pts i mounts]] show ?case
  proof (cases "i < length mounts")
    case True
    with 1(2) [unfolded mount_loop.simps [of pts i mounts]] obtain m' where
      m': "add_mount_tasks pts (t_VolumesFrom (mounts ! i)) mounts = Inr m'" "mount_loop pts (i + 1) m' = Inr m"
      by (auto split: sum.splits)
    from 1(1) [OF True m'] add_mount_tasks_set [OF m'(1)] show ?thesis by auto
  qed auto
qed

lemma secret_file_containers_mounts:
  "ct \<in> set (secret_file_containers ctx j tg t folder i ss) \<Longrightarrow> container_fits {''vault-files'', ''vault-info-file''} ct"
  by (induction ss arbitrary: i) (auto simp: container_fits_def secret_file_container_def vault_info_mount_def new_container_def)

lemma secret_files_closed:
  assumes "create_secret_file_extraction_containers ctx j tg t ss = Inr (inits, vols, mounts)"
  shows "(\<forall>x \<in> set inits. container_fits (volume_names vols) x) \<and> vm_Name ` set mounts \<subseteq> volume_names vols"
proof -
  obtain folder where f: "inits = secret_file_containers ctx j tg t folder 0 ss"
    "vols = [\<lparr>kv_Name = ''vault-files'', kv_Source = EmptyDir ''Memory''\<rparr>, vault_info_volume ''vault-info-file'']"
    "mounts = [\<lparr>vm_Name = ''vault-files'', vm_ReadOnly = True, vm_MountPath = folder\<rparr>]"
    using assms by (auto simp: create_secret_file_extraction_containers_def split: if_splits)
  have v: "volume_names vols = {''vault-files'', ''vault-info-file''}"
    by (simp add: f(2) volume_names_def vault_info_volume_def)
  show ?thesis unfolding v using secret_file_containers_mounts by (auto simp: f(1,3))
qed

lemma create_task_containers_mounts:
  assumes c: "create_task_containers c ctx j tg p t host = Inr (inits, cts, vols)"
    and t: "t \<in> set (pod_tasks p)"
    and there: "\<forall>t \<in> set (pod_tasks p). \<forall>v \<in> set (t_Volumes t). volume_there c tg v pvols"
  shows "\<forall>ct \<in> set inits \<union> set cts. container_fits (volume_names vols \<union> volume_names pvols) ct"
proof (cases "is_proxy (t_Type t)")
  case False
  have mount: "vm_Name ` set mounts \<subseteq> volume_names pvols"
    if m: "mount_loop (pod_tasks p) 0 [t] = Inr mts" "map_res (create_mount c (g_Name tg)) (concat (map t_Volumes mts)) = Inr mounts"
    for mts mounts
  proof
    fix n assume "n \<in> vm_Name ` set mounts"
    then obtain x where x: "x \<in> set mounts" "n = vm_Name x" by blast
    from map_res_set [OF m(2) x(1)] obtain v where v: "v \<in> set (concat (map t_Volumes mts))" "create_mount c (g_Name tg) v = Inr x"
      by blast
    then obtain t' where t': "t' \<in> set mts" "v \<in> set (t_Volumes t')" by auto
    have "t' \<in> set (pod_tasks p)" using mount_loop_set [OF m(1)] t'(1) t by auto
    moreover have "create_volume_name c (g_Name tg) v = Inr n" using v(2) x(2) by (auto simp: create_mount_def)
    ultimately show "n \<in> volume_names pvols" using there t'(2) by (auto simp: volume_there_def)
  qed
  let ?env = "if 0 < length (filter (\<lambda>s. fst (target_environment s)) (t_Secrets t)) then
      rbind (create_secret_env_var_extraction_container ctx j tg t (filter (\<lambda>s. fst (target_environment s)) (t_Secrets t)))
        (\<lambda>(c, vs). Inr ([c], vs)) else Inr ([], [])"
  let ?files = "filter (\<lambda>s. \<not> fst (target_environment s) \<and> fst (target_file s)) (t_Secrets t)"
  let ?file = "if 0 < length ?files then create_secret_file_extraction_containers ctx j tg t ?files else Inr ([], [], [])"
  from c False obtain ports envInit envVols fileInit fileVols fileMounts mts mounts ct where
    e: "?env = Inr (envInit, envVols)" and f: "?file = Inr (fileInit, fileVols, fileMounts)"
    and m: "mount_loop (pod_tasks p) 0 [t] = Inr mts" "map_res (create_mount c (g_Name tg)) (concat (map t_Volumes mts)) = Inr mounts"
    and ct1: "(if is_service (t_Type t) then (envInit @ fileInit, [ct], envVols @ fileVols)
        else if is_oneshot (t_Type t) then ((envInit @ fileInit) @ [ct], [], envVols @ fileVols)
        else (envInit @ fileInit, [], envVols @ fileVols)) = (inits, cts, vols)" "ct_VolumeMounts ct = fileMounts @ mounts"
      "ct_Ports ct = ports" and ports: "map_res (\<lambda>port. create_container_port port host) (t_Ports t) = Inr ports"
    unfolding create_task_containers_def Let_def
    by (simp only: if_False rbind_eq_Ok prod.case split_paired_all split_paired_Ex) (elim exE conjE, rule that, assumption+, simp only: sum.inject(2), simp, simp, assumption)
  from ct1 have ct: "ct_VolumeMounts ct = fileMounts @ mounts" "set inits \<union> set cts \<subseteq> set envInit \<union> set fileInit \<union> {ct}"
      "vols = envVols @ fileVols"
    by (auto split: if_splits)
  have "\<forall>x \<in> set envInit. container_fits (volume_names envVols) x"
    using e by (auto simp: create_secret_env_var_extraction_container_def Let_def container_fits_def volume_names_def
        new_container_def vault_info_mount_def vault_info_volume_def split: if_splits)
  moreover have "(\<forall>x \<in> set fileInit. container_fits (volume_names fileVols) x) \<and> vm_Name ` set fileMounts \<subseteq> volume_names fileVols"
  proof (cases "0 < length ?files")
    case True
    from f [unfolded if_P [OF True]] show ?thesis by (rule secret_files_closed)
  next
    case False
    then have "fileInit = []" "fileMounts = []" using f by simp_all
    then show ?thesis by simp
  qed
  moreover have v: "volume_names vols = volume_names envVols \<union> volume_names fileVols"
    unfolding ct(3) volume_names_def by auto
  moreover have "container_fits (volume_names vols \<union> volume_names pvols) ct"
  proof -
    have "cp_ContainerPort p \<in> {1..65535} \<and> cp_HostPort p \<in> {0..65535}" if "p \<in> set ports" for p
      using map_res_set [OF ports that] create_container_port_fits by blast
    with mount [OF m] calculation(2) v show ?thesis by (auto simp: container_fits_def ct(1) ct1(3))
  qed
  ultimately have parts: "\<forall>x \<in> set envInit. container_fits (volume_names envVols) x"
    "\<forall>x \<in> set fileInit. container_fits (volume_names fileVols) x" "container_fits (volume_names vols \<union> volume_names pvols) ct"
    "volume_names envVols \<subseteq> volume_names vols \<union> volume_names pvols"
    "volume_names fileVols \<subseteq> volume_names vols \<union> volume_names pvols" by auto
  have "container_fits (volume_names vols \<union> volume_names pvols) x" if x: "x \<in> set envInit \<union> set fileInit \<union> {ct}" for x
    using x parts(1-3) container_fits_mono [OF _ parts(4), of x] container_fits_mono [OF _ parts(5), of x] by blast
  then show ?thesis using ct(2) by blast
qed (use c in \<open>simp add: create_task_containers_def\<close>)

definition spec_vars_closed :: "k8s_volume list \<Rightarrow> spec_vars \<Rightarrow> bool" where
  "spec_vars_closed pvols s \<longleftrightarrow> (case s of (_, vols, inits, cts) \<Rightarrow>
     distinct (map kv_Name vols) \<and> volume_names pvols \<subseteq> volume_names vols \<and>
     (\<forall>ct \<in> set inits \<union> set cts. container_fits (volume_names vols) ct))"

lemma add_task_containers_closed:
  assumes a: "add_task_containers c ctx j tg p t s = Inr s'" and t: "t \<in> set (pod_tasks p)"
    and there: "\<forall>t \<in> set (pod_tasks p). \<forall>v \<in> set (t_Volumes t). volume_there c tg v pvols"
    and s: "spec_vars_closed pvols s"
  shows "spec_vars_closed pvols s'"
proof -
  obtain host vols inits cts where sv: "s = (host, vols, inits, cts)" by (metis prod_cases4)
  obtain host' inits' cts' extra where
    c: "create_task_containers c ctx j tg p t host' = Inr (inits', cts', extra)"
      "s' = (host', append_volumes vols extra, inits @ inits', cts @ cts')"
    using a by (auto simp: add_task_containers_def sv Let_def)
  have m: "\<forall>ct \<in> set inits' \<union> set cts'. container_fits (volume_names extra \<union> volume_names pvols) ct"
    by (rule create_task_containers_mounts [OF c(1) t there])
  have sub: "volume_names extra \<union> volume_names pvols \<subseteq> volume_names (append_volumes vols extra)"
    "volume_names vols \<subseteq> volume_names (append_volumes vols extra)"
    using s by (auto simp: append_volumes_names(1) spec_vars_closed_def sv)
  have "container_fits (volume_names (append_volumes vols extra)) ct"
    if "ct \<in> set (inits @ inits') \<union> set (cts @ cts')" for ct
  proof (cases "ct \<in> set inits' \<union> set cts'")
    case True
    then show ?thesis using m container_fits_mono [OF _ sub(1)] by blast
  next
    case False
    then have "container_fits (volume_names vols) ct" using that s by (auto simp: spec_vars_closed_def sv)
    then show ?thesis by (rule container_fits_mono [OF _ sub(2)])
  qed
  moreover have "distinct (map kv_Name (append_volumes vols extra))"
    using s append_volumes_names(2) by (simp add: spec_vars_closed_def sv)
  ultimately show ?thesis using sub(1) unfolding spec_vars_closed_def c(2) prod.case by blast
qed

lemma create_pod_spec_closed:
  assumes "create_pod_spec c ctx j tg p always = Inr (spec, annotations)"
  shows "spec_closed spec"
proof -
  obtain pvols host vols inits cts where
    v: "create_volumes c tg p = Inr pvols" and
    f: "fold_res (add_task_containers c ctx j tg p) (pod_tasks p) (False, pvols, [], []) = Inr (host, vols, inits, cts)" and
    s: "ps_Volumes spec = vols" "ps_Containers spec = (if 0 < length inits \<and> length cts = 0 then [last inits] else cts)"
    using assms by (auto simp: create_pod_spec_def Let_def)
  note vols = create_volumes_names [OF v]
  have "spec_vars_closed pvols (host, vols, inits, cts) \<and> (\<forall>t \<in> set (pod_tasks p). True) \<and> True"
  proof (rule fold_res_establishes [where P = "spec_vars_closed pvols" and Q = "\<lambda>_ _. True" and le = "\<lambda>_ _. True", OF f])
    show "spec_vars_closed pvols (False, pvols, [], [])" using vols by (simp add: spec_vars_closed_def)
  qed (use add_task_containers_closed vols in blast)+
  then show ?thesis by (auto simp: spec_vars_closed_def spec_closed_def s)
qed

section \<open>Workloads\<close>

fun template_of :: "k8s_object \<Rightarrow> pod_template option" where
  "template_of (ODeployment d) = Some (kd_Template d)"
| "template_of (ODaemonSet d) = Some (ks_Template d)"
| "template_of (OJob d) = Some (kj_Template d)"
| "template_of _ = None"

text \<open>The policies the API server takes for a kind of workload.\<close>

fun restart_policy_fits :: "k8s_object \<Rightarrow> bool" where
  "restart_policy_fits (ODeployment d) = (ps_RestartPolicy (pt_Spec (kd_Template d)) = ''Always'')"
| "restart_policy_fits (ODaemonSet d) = (ps_RestartPolicy (pt_Spec (ks_Template d)) = ''Always'')"
| "restart_policy_fits (OJob d) = (ps_RestartPolicy (pt_Spec (kj_Template d)) \<in> {''OnFailure'', ''Never''})"
| "restart_policy_fits _ = True"

lemma create_pod_template_spec_form:
  assumes "create_pod_template_spec c ctx j tg p always = Inr tmpl"
  shows "spec_closed (pt_Spec tmpl)" "ps_RestartPolicy (pt_Spec tmpl) = get_restart_policy p always"
    "om_Labels (pt_Meta tmpl) = om_Labels (set_pod_labels j tg p (new_object_meta (kc_Namespace ctx) (pod_name p)))"
proof -
  obtain spec an where s: "create_pod_spec c ctx j tg p always = Inr (spec, an)" "pt_Spec tmpl = spec"
    "om_Labels (pt_Meta tmpl) = om_Labels (fold (\<lambda>(k, v). set_annotation k v) an
       (add_metrics_annotations p (set_pod_labels j tg p (new_object_meta (kc_Namespace ctx) (pod_name p)))))"
    using assms by (auto simp: create_pod_template_spec_def Let_def set_annotation_def split: if_splits)
  show "spec_closed (pt_Spec tmpl)" using create_pod_spec_closed s(1,2) by simp
  show "ps_RestartPolicy (pt_Spec tmpl) = get_restart_policy p always"
  proof -
    have "ps_RestartPolicy spec = get_restart_policy p always" using s(1) by (auto simp: create_pod_spec_def Let_def)
    then show ?thesis by (simp add: s(2))
  qed
  have "om_Labels (fold (\<lambda>(k, v). set_annotation k v) an m) = om_Labels m" for m
    by (induction an arbitrary: m) (auto simp: set_annotation_def)
  then show "om_Labels (pt_Meta tmpl) = om_Labels (set_pod_labels j tg p (new_object_meta (kc_Namespace ctx) (pod_name p)))"
    by (simp add: s(3))
qed

lemma pod_labels [simp]:
  "map_of (om_Labels (set_pod_labels j tg p m)) LabelPodName = Some (k8s_resource_name (pod_name p))"
  by (simp add: set_pod_labels_def)

lemma pod_object_template:
  assumes g: "generate_pod_objects c ctx j tg p = Inr xs" "x \<in> set xs"
  shows "restart_policy_fits x" "template_of x = Some tmpl \<Longrightarrow> spec_closed (pt_Spec tmpl) \<and>
    map_of (om_Labels (pt_Meta tmpl)) LabelPodName = Some (k8s_resource_name (pod_name p))"
proof -
  have "restart_policy_fits x \<and> (\<forall>tmpl. template_of x = Some tmpl \<longrightarrow> spec_closed (pt_Spec tmpl) \<and>
    map_of (om_Labels (pt_Meta tmpl)) LabelPodName = Some (k8s_resource_name (pod_name p)))"
    using g
  proof (cases rule: pod_object_cases)
    case (deployment d)
    then show ?thesis using create_pod_template_spec_form
      by (auto simp: create_deployments_def Let_def new_deployment_def get_restart_policy_def split: if_splits)
  next
    case (daemon_set d)
    then show ?thesis using create_pod_template_spec_form
      by (auto simp: create_daemon_sets_def Let_def new_daemon_set_def get_restart_policy_def split: if_splits)
  next
    case (job d)
    then have k: "\<not> has_service_tasks p" "has_oneshot_tasks p"
      and t: "create_pod_template_spec c ctx j tg p False = Inr (kj_Template d)"
      by (auto simp: create_jobs_def Let_def split: if_splits)
    have "get_restart_policy p False = ''OnFailure''"
      using k by (auto simp: get_restart_policy_def has_service_tasks_def has_oneshot_tasks_def list_ex_iff filter_empty_conv)
    with create_pod_template_spec_form [OF t] show ?thesis by (simp add: job(1))
  qed simp_all
  then show "restart_policy_fits x" "template_of x = Some tmpl \<Longrightarrow> spec_closed (pt_Spec tmpl) \<and>
    map_of (om_Labels (pt_Meta tmpl)) LabelPodName = Some (k8s_resource_name (pod_name p))" by blast+
qed

section \<open>Services\<close>

lemma map_res_in: "map_res f xs = Inr ys \<Longrightarrow> x \<in> set xs \<Longrightarrow> \<exists>y \<in> set ys. f x = Inr y"
  by (induction xs arbitrary: ys) auto

text \<open>The conversion to 32 bits loses nothing.\<close>

definition service_ports_fit :: "k8s_service \<Rightarrow> bool" where
  "service_ports_fit s \<longleftrightarrow>
     (\<forall>p \<in> set (kr_Ports s). sv_Port p \<in> {1..65535} \<and> sv_TargetPort p = sv_Port p \<and> sv_NodePort p \<in> {0..65535})"

lemma create_service_port_fits:
  "create_service_port s = Inr p \<or> create_node_port s = Inr p \<Longrightarrow>
     sv_Port p \<in> {1..65535} \<and> sv_TargetPort p = sv_Port p \<and> sv_NodePort p \<in> {0..65535}"
  by (auto simp: create_service_port_def create_node_port_def Let_def port_mapping_ok_def int32_id split: if_splits
      dest!: port_mapping_parse_ok)

lemma service_ports:
  assumes "create_services ctx j tg p = Inr ss" "s \<in> set ss"
  shows "service_ports_fit s"
proof -
  obtain l where l: "map_res (create_task_services ctx j tg p) (pod_tasks p) = Inr l" "ss = concat l"
    using assms(1) by (auto simp: create_services_def)
  then obtain ys where ys: "ys \<in> set l" "s \<in> set ys" using assms(2) by auto
  obtain t where t: "create_task_services ctx j tg p t = Inr ys" using map_res_set [OF l(1) ys(1)] by blast
  have fits: "service_ports_fit d"
    if "map_res create_service_port qs = Inr (kr_Ports d) \<or> map_res create_node_port qs = Inr (kr_Ports d)" for d qs
  proof -
    have "\<exists>q. create_service_port q = Inr x \<or> create_node_port q = Inr x" if "x \<in> set (kr_Ports d)" for x
      using \<open>map_res create_service_port qs = Inr (kr_Ports d) \<or> map_res create_node_port qs = Inr (kr_Ports d)\<close>
        map_res_set [OF _ that] by blast
    then show ?thesis using create_service_port_fits by (auto simp only: service_ports_fit_def)
  qed
  show ?thesis
  proof (cases "is_proxy (t_Type t)")
    case True
    with t obtain d where "create_proxy_service ctx j tg p t = Inr d" "ys = [d]" by (auto simp: create_task_services_def)
    with create_proxy_service_form [OF this(1)] ys(2) show ?thesis by (simp add: service_ports_fit_def)
  next
    case False
    with t ys(2) have "create_pod_services ctx j tg p t = Inr ys" by (auto simp: create_task_services_def split: if_splits)
    then have "map_res create_service_port (collect_ports t) = Inr (kr_Ports s) \<or>
        map_res create_node_port (get_host_mapped_ports (t_Ports t)) = Inr (kr_Ports s)"
      using ys(2) by (auto simp: create_pod_services_def Let_def split: if_splits)
    then show ?thesis using fits by blast
  qed
qed

lemma service_has_workload:
  assumes g: "generate_pod_objects c ctx j tg p = Inr xs" "OService s \<in> set xs" "kr_Selector s \<noteq> []"
  shows "\<exists>x \<in> set xs. \<exists>tmpl. template_of x = Some tmpl"
proof -
  obtain deps dsets jobs ss "is" where d: "create_deployments c ctx j tg p = Inr deps" "create_daemon_sets c ctx j tg p = Inr dsets"
    "create_services ctx j tg p = Inr ss" and
    xs: "xs = map ODeployment deps @ map ODaemonSet dsets @ map OJob jobs @ map OSecret (create_secrets ctx j tg p) @
      map OService ss @ map OIngress is"
    using g(1) by (auto simp: generate_pod_objects_def Let_def)
  have s: "s \<in> set ss" using g(2) by (auto simp: xs)
  obtain t where t: "t \<in> set (pod_tasks p)" "is_service (t_Type t)"
  proof -
    obtain l where l: "map_res (create_task_services ctx j tg p) (pod_tasks p) = Inr l" "ss = concat l"
      using d(3) by (auto simp: create_services_def)
    then obtain ys where ys: "ys \<in> set l" "s \<in> set ys" using s by auto
    obtain t where t: "t \<in> set (pod_tasks p)" "create_task_services ctx j tg p t = Inr ys" using map_res_set [OF l(1) ys(1)] by blast
    have "is_service (t_Type t)"
    proof (cases "is_proxy (t_Type t)")
      case True
      with t(2) obtain d where "create_proxy_service ctx j tg p t = Inr d" "ys = [d]" by (auto simp: create_task_services_def)
      with create_proxy_service_form [OF this(1)] ys(2) g(3) show ?thesis by simp
    qed (use t(2) ys(2) in \<open>auto simp: create_task_services_def split: if_splits\<close>)
    with t(1) that show thesis by blast
  qed
  then have h: "has_service_tasks p" by (auto simp: has_service_tasks_def list_ex_iff)
  show ?thesis
  proof (cases "g_Global tg")
    case True
    with d(2) h obtain x where "dsets = [x]" by (auto simp: create_daemon_sets_def Let_def)
    then show ?thesis by (intro bexI [of _ "ODaemonSet x"]) (simp_all add: xs)
  next
    case False
    with d(1) h obtain x where "deps = [x]" by (auto simp: create_deployments_def Let_def)
    then show ?thesis by (intro bexI [of _ "ODeployment x"]) (simp_all add: xs)
  qed
qed

definition reaches_pods :: "k8s_object list \<Rightarrow> k8s_service \<Rightarrow> bool" where
  "reaches_pods xs s \<longleftrightarrow> kr_Selector s = [] \<or>
     (\<exists>x \<in> set xs. \<exists>tmpl. template_of x = Some tmpl \<and>
        list_all (\<lambda>(k, v). map_of (om_Labels (pt_Meta tmpl)) k = Some v) (kr_Selector s))"

theorem generated_services:
  assumes g: "generate_k8s_units c im j config = Inr xs" and s: "OService s \<in> set xs"
  shows "service_ports_fit s" "reaches_pods xs s"
proof -
  from generated_object [OF g s] obtain tg ps p ys where
    y: "group_task_into_pods tg = Inr ps" "p \<in> set ps" "tg \<in> set (j_Groups j)" "include_group config (g_Name tg)"
      "generate_pod_objects c (k8s_context_of im j config) j tg p = Inr ys" "OService s \<in> set ys" "rc_CurrentScalingGroup config = 1"
    by metis
  obtain ss where ss: "create_services (k8s_context_of im j config) j tg p = Inr ss" "s \<in> set ss"
    using y(5,6) by (auto simp: generate_pod_objects_def Let_def)
  show "service_ports_fit s" by (rule service_ports [OF ss])
  have sub: "set ys \<subseteq> set xs"
  proof -
    obtain l where l: "xs = concat l" "map_res (generate_group_objects c (k8s_context_of im j config) j)
        (filter (\<lambda>tg. include_group config (g_Name tg)) (j_Groups j)) = Inr l"
      using g y(7) by (auto simp: generate_k8s_units_def)
    have "tg \<in> set (filter (\<lambda>tg. include_group config (g_Name tg)) (j_Groups j))" using y(3,4) by simp
    from map_res_in [OF l(2) this] obtain zs where zs: "zs \<in> set l" "generate_group_objects c (k8s_context_of im j config) j tg = Inr zs"
      by blast
    obtain yss where yss: "map_res (generate_pod_objects c (k8s_context_of im j config) j tg) ps = Inr yss" "zs = concat yss"
      using zs(2) y(1) by (auto simp: generate_group_objects_def)
    from map_res_in [OF yss(1) y(2)] y(5) have "ys \<in> set yss" by auto
    then have "set ys \<subseteq> set zs" by (auto simp: yss(2))
    moreover have "set zs \<subseteq> set xs" using zs(1) by (auto simp: l(1))
    ultimately show ?thesis by blast
  qed
  have "kr_Selector s = [] \<or> kr_Selector s = [(LabelPodName, k8s_resource_name (pod_name p))]"
    by (rule create_services_form [OF ss]) (simp split: if_splits)
  moreover have "reaches_pods xs s" if sel: "kr_Selector s = [(LabelPodName, k8s_resource_name (pod_name p))]"
  proof -
    obtain x tmpl where x: "x \<in> set ys" "template_of x = Some tmpl" using service_has_workload [OF y(5,6)] sel by auto
    from pod_object_template(2) [OF y(5) x] sub x show ?thesis by (auto simp: reaches_pods_def sel)
  qed
  ultimately show "reaches_pods xs s" by (auto simp: reaches_pods_def split: if_splits)
qed

theorem generated_templates:
  assumes "generate_k8s_units c im j config = Inr xs" "x \<in> set xs"
  shows "restart_policy_fits x" "template_of x = Some tmpl \<Longrightarrow> spec_closed (pt_Spec tmpl)"
proof -
  from generated_object [OF assms] obtain tg p ys where
    y: "generate_pod_objects c (k8s_context_of im j config) j tg p = Inr ys" "x \<in> set ys" by metis
  from pod_object_template [OF y] show "restart_policy_fits x" "template_of x = Some tmpl \<Longrightarrow> spec_closed (pt_Spec tmpl)"
    by blast+
qed

end
