(* ===== verification/K8sRefinement.thy ===== *)
theory K8sRefinement
  imports K8sSchedulerLaws
begin

text \<open>
  The abstract view of a namespace is a finite map from names to objects. Listing reads its domain,
  destroying restricts it and starting adds accepted objects to it.
\<close>

text \<open>The objects that a start may leave: one that is accepted for every unit, under its name.\<close>

definition accepted_objects :: "k8s_object list \<Rightarrow> (string \<rightharpoonup> k8s_object) \<Rightarrow> bool" where
  "accepted_objects ds m \<longleftrightarrow> dom m = object_name ` set ds \<and>
     (\<forall>d \<in> set ds. \<exists>x. m (object_name d) = Some x \<and> k8s_accepts d x)"

theorem list_units_dom:
  assumes "api_laws (sp_Client u) st" "list_units (sp_Client u) ns s = Inr us"
  shows "object_name ` set us = dom (k8s_view st ns s)"
  using list_units_effect(1) [OF assms] by (auto simp: dom_def)

theorem k8s_destroy_restricts:
  assumes laws: "api_laws (sp_Client u) st" "orders_well u" and ok: "k8s_ok st ns cl s"
    and d: "k8s_destroy u ReasonObsolete us s = (Inr (), s')" and ns: "\<forall>x \<in> set us. object_namespace x = ns"
  shows "k8s_view st ns s' = k8s_view st ns s |` (- object_name ` set us)"
proof
  fix n
  have e: "run_all (destroy_object (sp_Client u)) (sp_Order u s us) s = (Inr (), s')" using d by (simp add: k8s_destroy_def)
  note a = destroy_all_effect [OF laws(1) e, of ns cl, unfolded orders_well_simps(1) [OF laws(2)]]
  show "k8s_view st ns s' n = (k8s_view st ns s |` (- object_name ` set us)) n"
  proof (cases "n \<in> object_name ` set us")
    case True
    then obtain x where x: "x \<in> set us" "n = object_name x" by blast
    from a ok have "\<forall>u \<in> set us. object_namespace u = ns \<longrightarrow> k8s_view st ns s' (object_name u) = None" by simp
    with x ns show ?thesis by (simp add: restrict_map_def)
  next
    case False
    with conjunct1 [OF a] show ?thesis by (simp add: restrict_map_def)
  qed
qed

theorem k8s_start_adds:
  assumes laws: "api_laws (sp_Client u) st" "orders_well u" and ok: "k8s_ok st ns cl s"
    and d: "k8s_start u ds s = (Inr (), s')" and ds: "\<forall>d \<in> set ds. k8s_data_ok ns cl d" "distinct (map object_name ds)"
  shows "\<exists>m. accepted_objects ds m \<and> k8s_view st ns s' = k8s_view st ns s ++ m"
proof -
  note a = start_all_effect [OF laws(1) d [unfolded k8s_start_def], of ns cl,
      unfolded orders_well_simps(1) [OF laws(2)] orders_well_simps(2) [OF laws(2), of object_name s ds]]
  let ?m = "k8s_view st ns s' |` (object_name ` set ds)"
  have x: "\<exists>x. k8s_view st ns s' (object_name d) = Some x \<and> k8s_accepts d x" if "d \<in> set ds" for d
    using a ok ds that by simp
  have "accepted_objects ds ?m"
    unfolding accepted_objects_def
  proof (intro conjI ballI)
    show "dom ?m = object_name ` set ds" using x by (auto simp: restrict_map_def dom_def split: if_splits)
    show "\<exists>x. ?m (object_name d) = Some x \<and> k8s_accepts d x" if "d \<in> set ds" for d
      using x [OF that] that by (simp add: restrict_map_def)
  qed
  moreover have "k8s_view st ns s' n = (k8s_view st ns s ++ ?m) n" for n
  proof (cases "n \<in> object_name ` set ds")
    case True
    then obtain d y where "n = object_name d" "k8s_view st ns s' (object_name d) = Some y" using x by blast
    with True show ?thesis by (simp add: map_add_def restrict_map_def)
  next
    case False
    with conjunct1 [OF a] show ?thesis by (simp add: map_add_def restrict_map_def)
  qed
  ultimately show ?thesis by blast
qed

end
