(* ===== verification/K8sExamples.thy ===== *)
theory K8sExamples
  imports Examples K8sServer K8sPodLaws K8sWaits K8sRefinement
begin

text \<open>
  Small task groups for the witnesses of the Kubernetes part: \<open>pod_group\<close> is split into
  two pods, \<open>ring_group\<close> has two tasks that name each other in \<^verbatim>\<open>After\<close>.
\<close>

definition pod_group :: task_group where
  "pod_group = ex_group\<lparr>g_Tasks := [(ex_task ''log'')\<lparr>t_OriginalIndex := 0\<rparr>, ex_web\<lparr>t_OriginalIndex := 1\<rparr>,
     ex_db\<lparr>t_OriginalIndex := 2\<rparr>], g_RestartPolicy := ''''\<rparr>"

definition ring_group :: task_group where
  "ring_group = ex_group\<lparr>g_Tasks := [(ex_task ''aa'')\<lparr>t_After := [''bb'']\<rparr>, (ex_task ''bb'')\<lparr>t_After := [''aa'']\<rparr>],
     g_RestartPolicy := ''''\<rparr>"

lemma pod_groups_ok: "group_ok pod_group" "group_ok ring_group"
  unfolding task_group_validate_ok [where u = "()", symmetric] by code_simp+

lemma pod_groups_policy:
  "\<not> restart_policy_is_all (g_RestartPolicy pod_group)" "\<not> restart_policy_is_all (g_RestartPolicy ring_group)"
  by code_simp+

lemma pod_group_pods:
  "\<exists>p q. group_task_into_pods pod_group = Inr [p, q] \<and> pod_name p = ''app-log'' \<and> pod_name q = ''app-web'' \<and>
     map t_Name (pod_tasks p) = [''log''] \<and> map t_Name (pod_tasks q) = [''db'', ''web'']"
proof -
  have "case group_task_into_pods pod_group of Inl _ \<Rightarrow> False | Inr ps \<Rightarrow>
      map (\<lambda>p. (pod_name p, map t_Name (pod_tasks p))) ps =
        [(''app-log'', [''log'']), (''app-web'', [''db'', ''web''])]"
    by code_simp
  then show ?thesis by (auto split: sum.splits)
qed

lemma ring_cycle: "\<not> acyclic (after_rel (g_Tasks ring_group))"
proof -
  let ?a = "(ex_task ''aa'')\<lparr>t_After := [''bb'']\<rparr>" and ?b = "(ex_task ''bb'')\<lparr>t_After := [''aa'']\<rparr>"
  have "(t_Name ?b, t_Name ?a) \<in> after_rel (g_Tasks ring_group)" "(t_Name ?a, t_Name ?b) \<in> after_rel (g_Tasks ring_group)"
    by (rule after_relI; simp add: ring_group_def ex_task_def empty_task_def)+
  then show ?thesis by (meson acyclic_def trancl.r_into_trancl trancl.trancl_into_trancl)
qed

section \<open>A cluster\<close>

text \<open>
  The job \<open>site_job\<close> has one service task with a front end. Its namespace holds the secrets of the
  cluster, an ingress of the job that is no longer generated and one of another job; \<open>ex_api\<close> has an
  object in another namespace as well.
\<close>

definition site_group :: task_group where
  "site_group = tiny_group\<lparr>g_Tasks := [ex_web\<lparr>t_After := []\<rparr>]\<rparr>"

definition site_job :: job where
  "site_job = tiny_job\<lparr>j_Groups := [site_group]\<rparr>"

definition twin_job :: job where
  "twin_job = tiny_job\<lparr>j_Groups := [site_group\<lparr>g_Count := 2\<rparr>]\<rparr>"

definition second_group :: deployment where
  "second_group = ex_deployment\<lparr>scalingGroupSelection := 2\<rparr>"

definition ex_setup :: "mem_api k8s_setup" where
  "ex_setup = \<lparr>sp_Client = mem_client, sp_Order = (\<lambda>_ us. rev us), sp_Fuel = 4, sp_Getenv = (\<lambda>_. ''''),
     sp_ReadFile = (\<lambda>_. Inl OtherError)\<rparr>"

definition ex_secret :: "string \<Rightarrow> string \<Rightarrow> (string \<times> string) list \<Rightarrow> k8s_object" where
  "ex_secret ns n vals = OSecret ((new_secret ns n)\<lparr>kx_Data := Some vals\<rparr>)"

definition ex_ingress :: "string \<Rightarrow> string \<Rightarrow> string \<Rightarrow> k8s_object" where
  "ex_ingress ns n j = OIngress ((new_ingress ns n)\<lparr>ki_Meta :=
     (new_object_meta ns n)\<lparr>om_Labels := [(LabelJobName, j), (LabelTaskGroupName, ''app'')]\<rparr>\<rparr>)"

definition ex_depl :: k8s_deployment where
  "ex_depl = new_deployment ''shop'' ''app-web-depl''"

definition ex_api :: mem_api where
  "ex_api = \<lparr>ma_Objects = [
       ex_secret ''shop'' SecretVaultInfo [(EnvVarVaultAddress, ''v''), (EnvVarVaultCACert, ''c'')],
       ex_secret ''shop'' SecretClusterInfo [(EnvVarClusterID, ''i'')],
       ex_ingress ''shop'' ''app-old-igr'' ''shop'', ex_ingress ''shop'' ''app-new-igr'' ''blog'',
       ex_ingress ''blog'' ''app-web-igr'' ''blog''],
     ma_Generation = 1, ma_Now = 0\<rparr>"

definition ex_k8s_world :: "mem_api world" where
  "ex_k8s_world = \<lparr>w_cluster = ex_api, w_answers = [True, True], w_schedules = []\<rparr>"

lemma ex_setup_laws: "api_laws (sp_Client ex_setup) mem_store" "orders_well ex_setup"
  using mem_client_laws by (simp_all add: ex_setup_def orders_well_def)

lemma ex_k8s_sel [simp]: "w_cluster ex_k8s_world = ex_api" "sp_Client ex_setup = mem_client"
  by (simp_all add: ex_k8s_world_def ex_setup_def)

lemma site_names [simp]:
  "k8s_resource_name (j_Name site_job) = ''shop''" "k8s_resource_name (j_Name twin_job) = ''shop''"
  by code_simp+

lemma ex_api_ok: "k8s_ok mem_store ''shop'' ex_cluster ex_api"
  by (rule mem_objects_ok) code_simp

lemma site_job_plain: "\<forall>tg \<in> set (j_Groups site_job). plain_group tg" "distinct (map g_Name (j_Groups site_job))"
  by code_simp+

lemma ex_registries_apart: "registries_apart ex_cluster"
  by code_simp

lemma ex_views:
  "k8s_view mem_store ''shop'' ex_api ''app-old-igr'' = Some (core (ex_ingress ''shop'' ''app-old-igr'' ''shop''))"
  "k8s_view mem_store ''shop'' ex_api ''app-new-igr'' = Some (core (ex_ingress ''shop'' ''app-new-igr'' ''blog''))"
  by code_simp+

lemma ex_selected:
  "k8s_selected site_job ex_deployment (ex_ingress ''shop'' ''app-old-igr'' ''shop'')"
  "\<not> k8s_selected site_job ex_deployment (ex_ingress ''shop'' ''app-new-igr'' ''blog'')"
  "k8s_selected twin_job second_group (ex_ingress ''shop'' ''app-old-igr'' ''shop'')"
  by code_simp+

lemma site_generated:
  "\<exists>xs. generate_k8s_scaling_group ex_crypto no_images site_job ex_deployment ex_cluster 1 = Inr xs \<and>
     map object_name xs = [''app-web-depl'', ''app-web-srv'', ''app-web-igr''] \<and>
     (\<forall>x \<in> set xs. k8s_view mem_store ''shop'' ex_api (object_name x) = None)"
proof -
  have "case generate_k8s_scaling_group ex_crypto no_images site_job ex_deployment ex_cluster 1 of
      Inl _ \<Rightarrow> False | Inr xs \<Rightarrow> map object_name xs = [''app-web-depl'', ''app-web-srv'', ''app-web-igr'']"
    by code_simp
  moreover have "\<forall>n \<in> set [''app-web-depl'', ''app-web-srv'', ''app-web-igr'']. k8s_view mem_store ''shop'' ex_api n = None"
    by code_simp
  ultimately show ?thesis by (auto split: sum.splits simp flip: list.set_map)
qed

lemma site_run: "\<exists>w'. run_k8s ex_crypto no_images ex_setup site_job ex_deployment ex_cluster ex_k8s_world = (Inr 1, w')"
proof -
  have "fst (run_k8s ex_crypto no_images ex_setup site_job ex_deployment ex_cluster ex_k8s_world) = Inr 1" by code_simp
  then show ?thesis by (metis prod.collapse)
qed

lemma twin_run:
  "\<exists>w'. run_k8s ex_crypto no_images ex_setup twin_job second_group ex_cluster ex_k8s_world = (Inr 1, w')"
proof -
  have "fst (run_k8s ex_crypto no_images ex_setup twin_job second_group ex_cluster ex_k8s_world) = Inr 1" by code_simp
  then show ?thesis by (metis prod.collapse)
qed

lemma site_destroyed: "\<exists>w'. destroy_k8s ex_setup site_job ex_deployment ex_cluster ex_k8s_world = (Inr (), w')"
proof -
  have "fst (destroy_k8s ex_setup site_job ex_deployment ex_cluster ex_k8s_world) = Inr ()" by code_simp
  then show ?thesis by (metis prod.collapse)
qed

lemma ex_depl_ready:
  "\<exists>s1. writes_deployment mem_client ex_depl ex_api 0 s1 \<and> becomes_ready mem_client ex_depl 0 (Now mem_client s1) 0 s1"
proof -
  obtain s1 where s1: "CreateObject mem_client (object_namespace (ODeployment ex_depl)) (ODeployment ex_depl) ex_api = (Inr (), s1)"
  proof -
    have "fst (CreateObject mem_client (object_namespace (ODeployment ex_depl)) (ODeployment ex_depl) ex_api) = Inr ()" by code_simp
    then show thesis by (metis prod.collapse that)
  qed
  have c: "case CreateObject mem_client (object_namespace (ODeployment ex_depl)) (ODeployment ex_depl) ex_api of
      (_, s1) \<Rightarrow> mem_find s1 KDeployment ''shop'' ''app-web-depl'' = Some (ODeployment ex_depl) \<and> ma_Generation s1 = 2"
    by code_simp
  have n: "om_Namespace (kd_Meta ex_depl) = ''shop''" "om_Name (kd_Meta ex_depl) = ''app-web-depl''" by code_simp+
  have st: "shows_status mem_client ex_depl (ready_status ex_depl 0) (s1\<lparr>ma_Now := t\<rparr>)" for t
    using c unfolding s1 by (simp add: shows_status_def ready_status_def mem_client_def mem_get_def mem_find_def n)
  have sleep: "Sleep mem_client t s1 = s1\<lparr>ma_Now := ma_Now s1 + t\<rparr>" for t by (simp add: mem_client_def)
  have "shows_status mem_client ex_depl (ready_status ex_depl 0) (round_state mem_client m s1)" if "m \<le> 1" for m
    using st [of "ma_Now s1"] st [of "ma_Now s1 + 2 * Second"] that by (cases m) (simp_all add: sleep)
  then have "becomes_ready mem_client ex_depl 0 (Now mem_client s1) 0 s1"
    by (simp add: becomes_ready_def deploymentStartTimeout_def Minute_def Second_def)
  moreover have "get_current mem_client (ODeployment ex_depl) ex_api = Inl NotFoundError" by code_simp
  then have "writes_deployment mem_client ex_depl ex_api 0 s1" using s1 by (simp add: writes_deployment_def)
  ultimately show ?thesis by blast
qed

end
