(* ===== verification/Variables.thy ===== *)
theory Variables
  imports Validation "HOL-Library.AList"
begin

text \<open>
  The expansion of variables in a job: \<^verbatim>\<open>jobs/variables.go\<close>, the
  \<^verbatim>\<open>replaceVariables\<close> methods, and the \<^verbatim>\<open>Renderer\<close> interface
  (\<^verbatim>\<open>jobs/renderer.go\<close>) as a record. The state is the job, in which fields are replaced one after
  another, so that a variable sees the fields replaced before it, together with whether the context has
  collected an error. A context belongs to the job, to a group or to a task: its place.
\<close>

record renderer =
  NormalizeTask :: "task \<Rightarrow> task res"
  ExpandPrivateIPv4 :: string
  ExpandPublicIPv4 :: string
  ExpandEtcdEndpoints :: string
  ExpandEtcdHost :: string
  ExpandEtcdPort :: string
  ExpandHostname :: string
  ExpandMachineID :: string
  ExpandInstance :: string
  ExpandKubernetesNamespace :: string
  ExpandKubernetesPod :: string
  SupportsDNSLinkTo :: "task \<Rightarrow> string \<Rightarrow> bool"
  TaskAcceptsDNSLink :: "task \<Rightarrow> bool"
  DependencyAcceptsDNSLink :: "dependency \<Rightarrow> bool"
  TaskDNSName :: "job \<Rightarrow> task_group \<Rightarrow> task \<Rightarrow> string"
  DependencyDNSName :: "dependency \<Rightarrow> string"
  TaskPort :: "task \<Rightarrow> int \<Rightarrow> string \<Rightarrow> int"
  DependencyPort :: "dependency \<Rightarrow> int \<Rightarrow> int"

section \<open>Finding variables\<close>

text \<open>
  \<^verbatim>\<open>varRegexp\<close> is a dollar and an open brace, at least one character of the class below, and a
  closing brace. The class has neither braces nor dollars, so a match at a position is unique.
\<close>

definition var_char :: "char \<Rightarrow> bool" where
  "var_char c \<longleftrightarrow> (CHR ''a'' \<le> c \<and> c \<le> CHR ''z'') \<or> (CHR ''A'' \<le> c \<and> c \<le> CHR ''Z'') \<or>
     (CHR ''0'' \<le> c \<and> c \<le> CHR ''9'') \<or> c \<in> {CHR ''_'', CHR ''-'', CHR ''.'', CHR '' '', CHR ''@''}"

definition match_variable :: "string \<Rightarrow> (string \<times> string) option" where
  "match_variable s =
     (case s of
        a # b # r \<Rightarrow>
          if a = CHR ''$'' \<and> b = CHR ''{'' then
            (let key = takeWhile var_char r
             in case dropWhile var_char r of
                  c # rest \<Rightarrow> if c = CHR ''}'' \<and> key \<noteq> [] then Some (key, rest) else None
                | [] \<Rightarrow> None)
          else None
      | _ \<Rightarrow> None)"

datatype piece = Lit char | Var string

lemma match_variable_length: "match_variable s = Some (k, rest) \<Longrightarrow> length rest < length s"
proof -
  assume m: "match_variable s = Some (k, rest)"
  then obtain r where "s = CHR ''$'' # CHR ''{'' # r" "dropWhile var_char r = CHR ''}'' # rest"
    by (auto simp: match_variable_def Let_def split: list.splits if_splits)
  moreover have "length (dropWhile var_char r) \<le> length r" by (rule length_dropWhile_le)
  ultimately show ?thesis by simp
qed

text \<open>The matches from left to right and the text between them.\<close>

function pieces :: "string \<Rightarrow> piece list" where
  "pieces [] = []"
| "pieces (c # s) =
     (case match_variable (c # s) of
        Some (key, rest) \<Rightarrow> Var key # pieces rest
      | None \<Rightarrow> Lit c # pieces s)"
  by pat_completeness auto
termination by (relation "measure length") (auto dest: match_variable_length)

definition variable_text :: "string \<Rightarrow> string" where
  "variable_text key = ''${'' @ key @ ''}''"

fun piece_text :: "piece \<Rightarrow> string" where
  "piece_text (Lit c) = [c]"
| "piece_text (Var key) = variable_text key"

section \<open>The value of a variable\<close>

text \<open>
  What a variable stands for: a text, with or without an error, or the address of a target on the load
  balancer, which adds a link to the task.
\<close>

datatype outcome = Text string bool | Linked link string

definition defaultVolumePrefix :: string where "defaultVolumePrefix = ''/var/lib''"
definition PrivateLoadBalancerPort :: int where "PrivateLoadBalancerPort = 81"
definition PrivateTcpLoadBalancerPort :: int where "PrivateTcpLoadBalancerPort = 82"

definition link_url :: "string \<Rightarrow> string res" where
  "link_url linkName =
     rbind (link_validate linkName) (\<lambda>_.
       Inr (''http://'' @ private_domain_name linkName @ '':'' @ itoa PrivateLoadBalancerPort))"

definition link_tcp :: "string \<Rightarrow> int \<Rightarrow> string res" where
  "link_tcp linkName port =
     rbind (link_validate linkName) (\<lambda>_.
       Inr (''tcp://'' @ private_domain_name linkName @ '':'' @ itoa port))"

definition link_tls :: "string \<Rightarrow> string res" where
  "link_tls linkName =
     rbind (link_validate linkName) (\<lambda>_.
       Inr (''tls://'' @ private_domain_name linkName @ '':'' @ itoa PrivateTcpLoadBalancerPort))"

definition text_or_empty :: "string res \<Rightarrow> string" where
  "text_or_empty r = (case r of Inl _ \<Rightarrow> '''' | Inr v \<Rightarrow> v)"

definition create_url :: "string \<Rightarrow> string \<Rightarrow> int \<Rightarrow> int \<Rightarrow> string \<Rightarrow> string" where
  "create_url scheme host port defaultPort relPath =
     (let relPath = trim_suffix relPath ''/'';
          relPath = (if relPath \<noteq> '''' then ''/'' @ relPath else relPath)
      in if port = defaultPort then scheme @ ''://'' @ host @ relPath
         else scheme @ ''://'' @ host @ '':'' @ itoa port @ relPath)"

definition find_target :: "job \<Rightarrow> task_group \<Rightarrow> task \<Rightarrow> string \<Rightarrow> string" where
  "find_target j tg t name =
     (case fst (link_parse name) of (jn, tgn, tn, i) \<Rightarrow>
        new_link_name (if jn = '''' then j_Name j else jn) (if tgn = '''' then g_Name tg else tgn)
          (if tn = '''' then t_Name t else tn) i)"

text \<open>The errors of the accessors are dropped; the parts found so far are used.\<close>

definition is_same_job :: "job \<Rightarrow> string \<Rightarrow> bool" where
  "is_same_job j ln = (case fst (link_parse ln) of (jn, _) \<Rightarrow> j_Name j = jn)"

definition find_job_task :: "job \<Rightarrow> string \<Rightarrow> (task_group \<times> task) res" where
  "find_job_task j ln =
     (case fst (link_parse ln) of (jn, tgn, tn, i) \<Rightarrow>
        if jn \<noteq> j_Name j then Inl TaskNotFoundError
        else rbind (job_task_group j tgn) (\<lambda>tg.
             rbind (group_task tg tn) (\<lambda>t.
               if \<not> instance_is_empty i then Inl TaskNotFoundError else Inr (tg, t))))"

text \<open>
  \<^verbatim>\<open>link_tcp\<close>: when the renderer supports a DNS link and the target is not found, the nil task is
  dereferenced by the renderer.
\<close>

definition expand_link_tcp :: "renderer \<Rightarrow> job \<Rightarrow> task_group \<Rightarrow> task \<Rightarrow> string \<Rightarrow> string \<Rightarrow> string \<Rightarrow> outcome res" where
  "expand_link_tcp r j tg t arg name portArg =
     (let target = find_target j tg t name;
          link = (\<lambda>port. Linked \<lparr>l_Target = target, l_Type = ''tcp'', l_Ports = [port]\<rparr> (text_or_empty (link_tcp target port)))
      in case atoi portArg of
           Inl _ \<Rightarrow> Inr (Text arg True)
         | Inr port \<Rightarrow>
             if SupportsDNSLinkTo r t target then
               (case find_job_task j target of
                  Inl _ \<Rightarrow> Inl Panic
                | Inr (ttg, tt) \<Rightarrow>
                    if TaskAcceptsDNSLink r tt then Inr (Text (create_url ''tcp'' (TaskDNSName r j ttg tt) port (-1) '''') False)
                    else Inr (link (TaskPort r tt port ''tcp'')))
             else Inr (link port))"

text \<open>
  A proxy with one private front end is bypassed when its target has a DNS name and it rewrites nothing
  but the prefix of the path. \<open>None\<close> where the code goes on. The target of the proxy is resolved in the
  task that has the variable.
\<close>

definition expand_proxy :: "renderer \<Rightarrow> job \<Rightarrow> task_group \<Rightarrow> task \<Rightarrow> task \<Rightarrow> outcome option" where
  "expand_proxy r j tg t proxyTask =
     (let proxyTarget = resolve_link j tg t (t_Target proxyTask);
          proxyPort = TaskPort r proxyTask (task_private_front_end_port proxyTask 80) ''http'';
          direct = (\<lambda>accepts name.
            if \<not> accepts then None
            else (case t_Rewrite proxyTask of
                    None \<Rightarrow> Some (Text (create_url ''http'' name proxyPort 80 '''') False)
                  | Some rw \<Rightarrow>
                      if has_path_prefix_only rw then
                        Some (Text (create_url ''http'' name proxyPort 80
                          (trim_suffix (trim_prefix (rw_PathPrefix rw) ''/'') ''/'')) False)
                      else None))
      in if length (t_PrivateFrontEnds proxyTask) = 1 \<and> \<not> link_has_instance proxyTarget then
           (if is_same_job j proxyTarget then
              (case find_job_task j proxyTarget of
                 Inl _ \<Rightarrow> Some (Text '''' True)
               | Inr (ttg, tt) \<Rightarrow> direct (TaskAcceptsDNSLink r tt) (TaskDNSName r j ttg tt))
            else
              (case job_dependency j proxyTarget of
                 Inl _ \<Rightarrow> Some (Text '''' True)
               | Inr dep \<Rightarrow> direct (DependencyAcceptsDNSLink r dep) (DependencyDNSName r dep)))
         else None)"

text \<open>
  \<^verbatim>\<open>link_url\<close>: a target in another job that has no DNS name is looked up in this job, which
  fails.
\<close>

definition expand_link_url :: "renderer \<Rightarrow> job \<Rightarrow> task_group \<Rightarrow> task \<Rightarrow> string \<Rightarrow> outcome" where
  "expand_link_url r j tg t name =
     (let target = find_target j tg t name;
          linked = Linked \<lparr>l_Target = target, l_Type = '''', l_Ports = []\<rparr> (text_or_empty (link_url target));
          in_job = (case find_job_task j target of
              Inl _ \<Rightarrow> Text '''' True
            | Inr (ttg, tt) \<Rightarrow>
                if TaskAcceptsDNSLink r tt then
                  Text (create_url ''http'' (TaskDNSName r j ttg tt)
                    (TaskPort r tt (task_private_front_end_port tt 80) ''http'') 80 '''') False
                else if is_proxy (t_Type tt) then
                  (case expand_proxy r j tg t tt of None \<Rightarrow> linked | Some x \<Rightarrow> x)
                else linked)
      in if SupportsDNSLinkTo r t target then
           (if \<not> is_same_job j target then
              (case job_dependency j target of
                 Inl _ \<Rightarrow> Text '''' True
               | Inr dep \<Rightarrow>
                   if DependencyAcceptsDNSLink r dep then
                     Text (create_url ''http'' (DependencyDNSName r dep)
                       (DependencyPort r dep (dependency_private_front_end_port dep 80)) 80 '''') False
                   else in_job)
            else in_job)
         else linked)"

text \<open>
  The group and the task of a context are there or not; the job always is. A variable that is not allowed
  in its place stays as it is, with an error, and an unknown one without.
\<close>

definition in_group :: "task_group option \<Rightarrow> string \<Rightarrow> (task_group \<Rightarrow> string) \<Rightarrow> outcome res" where
  "in_group g arg v = (case g of None \<Rightarrow> Inr (Text arg True) | Some tg \<Rightarrow> Inr (Text (v tg) False))"

definition in_task :: "(task_group \<times> task) option \<Rightarrow> string \<Rightarrow> (task_group \<Rightarrow> task \<Rightarrow> string) \<Rightarrow> outcome res" where
  "in_task t arg v = (case t of None \<Rightarrow> Inr (Text arg True) | Some (tg, x) \<Rightarrow> Inr (Text (v tg x) False))"

definition expand_links ::
  "renderer \<Rightarrow> job \<Rightarrow> (task_group \<times> task) option \<Rightarrow> string \<Rightarrow> string \<Rightarrow> outcome res" where
  "expand_links r j t key arg =
     (let parts = split_on CHR '' '' key
      in if hd parts = ''link_tcp'' then
           (case t of
              None \<Rightarrow> Inr (Text arg True)
            | Some (tg, x) \<Rightarrow> if length parts - 1 = 2 then expand_link_tcp r j tg x arg (parts ! 1) (parts ! 2) else Inr (Text arg True))
         else if hd parts = ''link_url'' then
           (case t of
              None \<Rightarrow> Inr (Text arg True)
            | Some (tg, x) \<Rightarrow> if length parts - 1 = 1 then Inr (expand_link_url r j tg x (parts ! 1)) else Inr (Text arg True))
         else Inr (Text arg False))"

definition expand_variable ::
  "renderer \<Rightarrow> cluster \<Rightarrow> job \<Rightarrow> task_group option \<Rightarrow> (task_group \<times> task) option \<Rightarrow> string \<Rightarrow> outcome res" where
  "expand_variable r cl j g t key =
     (let arg = variable_text key; k = trim_space key; value = (\<lambda>v. Inr (Text v False))
      in if k = ''cluster'' then value (Stack cl)
         else if k = ''job'' then value (j_Name j)
         else if k = ''job.id'' then value (j_ID j)
         else if k = ''job.volume'' then value (defaultVolumePrefix @ ''/'' @ j_Name j)
         else if k = ''group'' then in_group g arg g_Name
         else if k = ''group.full'' then in_group g arg (\<lambda>tg. j_Name j @ ''.'' @ g_Name tg)
         else if k = ''group.volume'' then in_group g arg (\<lambda>tg. defaultVolumePrefix @ ''/'' @ j_Name j @ ''/'' @ g_Name tg)
         else if k = ''task'' then in_task t arg (\<lambda>tg x. t_Name x)
         else if k = ''task.full'' then in_task t arg (\<lambda>tg x. j_Name j @ ''.'' @ g_Name tg @ ''.'' @ t_Name x)
         else if k = ''task.volume'' then
           in_task t arg (\<lambda>tg x. defaultVolumePrefix @ ''/'' @ j_Name j @ ''/'' @ g_Name tg @ ''/'' @ t_Name x)
         else if k = ''instance'' then in_task t arg (\<lambda>tg x. ExpandInstance r)
         else if k = ''instance.full'' then
           in_task t arg (\<lambda>tg x. j_Name j @ ''.'' @ g_Name tg @ ''.'' @ t_Name x @ ''@'' @ ExpandInstance r)
         else if k = ''container'' then in_task t arg (\<lambda>tg x. container_name_ext j tg x (ExpandInstance r))
         else if k = ''private_ipv4'' then value (ExpandPrivateIPv4 r)
         else if k = ''public_ipv4'' then value (ExpandPublicIPv4 r)
         else if k = ''etcd_endpoints'' then value (ExpandEtcdEndpoints r)
         else if k = ''etcd_host'' then value (ExpandEtcdHost r)
         else if k = ''etcd_port'' then value (ExpandEtcdPort r)
         else if k = ''hostname'' then value (ExpandHostname r)
         else if k = ''machine_id'' then value (ExpandMachineID r)
         else if k = ''kubernetes-namespace'' then value (ExpandKubernetesNamespace r)
         else if k = ''kubernetes-pod'' then value (ExpandKubernetesPod r)
         else expand_links r j t key arg)"

section \<open>Replacing in a string\<close>

datatype place = AtJob | AtGroup nat | AtTask nat nat

record var_state =
  vs_Job :: job
  vs_Failed :: bool

fun place_group :: "place \<Rightarrow> job \<Rightarrow> task_group option" where
  "place_group AtJob j = None"
| "place_group (AtGroup g) j = Some (j_Groups j ! g)"
| "place_group (AtTask g i) j = Some (j_Groups j ! g)"

fun place_task :: "place \<Rightarrow> job \<Rightarrow> (task_group \<times> task) option" where
  "place_task (AtTask g i) j = Some (j_Groups j ! g, g_Tasks (j_Groups j ! g) ! i)"
| "place_task _ j = None"

definition update_group :: "nat \<Rightarrow> (task_group \<Rightarrow> task_group) \<Rightarrow> job \<Rightarrow> job" where
  "update_group g f j = j\<lparr>j_Groups := (j_Groups j)[g := f (j_Groups j ! g)]\<rparr>"

definition update_task :: "nat \<Rightarrow> nat \<Rightarrow> (task \<Rightarrow> task) \<Rightarrow> job \<Rightarrow> job" where
  "update_task g i f = update_group g (\<lambda>tg. tg\<lparr>g_Tasks := (g_Tasks tg)[i := f (g_Tasks tg ! i)]\<rparr>)"

fun add_link :: "place \<Rightarrow> link \<Rightarrow> job \<Rightarrow> job" where
  "add_link (AtTask g i) l j = update_task g i (\<lambda>t. t\<lparr>t_Links := links_add (t_Links t) l\<rparr>) j"
| "add_link _ l j = j"

fun apply_outcome :: "place \<Rightarrow> outcome \<Rightarrow> var_state \<Rightarrow> string res \<times> var_state" where
  "apply_outcome p (Text v failed) s = (Inr v, if failed then s\<lparr>vs_Failed := True\<rparr> else s)"
| "apply_outcome p (Linked l v) s = (Inr v, s\<lparr>vs_Job := add_link p l (vs_Job s)\<rparr>)"

definition replace_variable :: "renderer \<Rightarrow> cluster \<Rightarrow> place \<Rightarrow> string \<Rightarrow> var_state \<Rightarrow> string res \<times> var_state" where
  "replace_variable r cl p key s =
     (case expand_variable r cl (vs_Job s) (place_group p (vs_Job s)) (place_task p (vs_Job s)) key of
        Inl e \<Rightarrow> (Inl e, s)
      | Inr x \<Rightarrow> apply_outcome p x s)"

fun replace_pieces :: "renderer \<Rightarrow> cluster \<Rightarrow> place \<Rightarrow> piece list \<Rightarrow> var_state \<Rightarrow> string res \<times> var_state" where
  "replace_pieces r cl p [] s = (Inr '''', s)"
| "replace_pieces r cl p (Lit c # ps) s = sbind (replace_pieces r cl p ps s) (\<lambda>v s. (Inr (c # v), s))"
| "replace_pieces r cl p (Var key # ps) s =
     sbind (replace_variable r cl p key s) (\<lambda>x s. sbind (replace_pieces r cl p ps s) (\<lambda>v s. (Inr (x @ v), s)))"

definition replace_string :: "renderer \<Rightarrow> cluster \<Rightarrow> place \<Rightarrow> string \<Rightarrow> var_state \<Rightarrow> string res \<times> var_state" where
  "replace_string r cl p input = replace_pieces r cl p (pieces input)"

section \<open>Replacing in a job\<close>

type_synonym 'a replacer = "'a \<Rightarrow> var_state \<Rightarrow> 'a res \<times> var_state"

fun replace_list :: "'a replacer \<Rightarrow> 'a list replacer" where
  "replace_list f [] s = (Inr [], s)"
| "replace_list f (x # xs) s = sbind (f x s) (\<lambda>y s. sbind (replace_list f xs s) (\<lambda>ys s. (Inr (y # ys), s)))"

text \<open>Keys and values, in the order of the iteration over the map; a later key replaces an equal one.\<close>

fun replace_pairs :: "string replacer \<Rightarrow> (string \<times> string) list \<Rightarrow> (string \<times> string) list replacer" where
  "replace_pairs f [] m s = (Inr m, s)"
| "replace_pairs f ((k, v) # kvs) m s =
     sbind (f k s) (\<lambda>k s. sbind (f v s) (\<lambda>v. replace_pairs f kvs (AList.update k v m)))"

definition replace_map :: "string replacer \<Rightarrow> (string \<times> string) list replacer" where
  "replace_map f m = replace_pairs f m []"

text \<open>The fields of a value one after another.\<close>

definition on_field :: "'b replacer \<Rightarrow> ('a \<Rightarrow> 'b) \<Rightarrow> ('b \<Rightarrow> 'a \<Rightarrow> 'a) \<Rightarrow> 'a replacer" where
  "on_field f get put x s = sbind (f (get x) s) (\<lambda>v s. (Inr (put v x), s))"

fun each_field :: "'a replacer list \<Rightarrow> 'a replacer" where
  "each_field [] x s = (Inr x, s)"
| "each_field (f # fs) x s = sbind (f x s) (each_field fs)"

definition replace_image :: "string replacer \<Rightarrow> docker_image replacer" where
  "replace_image f = each_field
     [on_field f di_Registry (\<lambda>v x. x\<lparr>di_Registry := v\<rparr>), on_field f di_Namespace (\<lambda>v x. x\<lparr>di_Namespace := v\<rparr>),
      on_field f di_Repository (\<lambda>v x. x\<lparr>di_Repository := v\<rparr>), on_field f di_Version (\<lambda>v x. x\<lparr>di_Version := v\<rparr>)]"

definition replace_volume :: "string replacer \<Rightarrow> volume replacer" where
  "replace_volume f = each_field
     [on_field f v_Path (\<lambda>v x. x\<lparr>v_Path := v\<rparr>), on_field f v_Type (\<lambda>v x. x\<lparr>v_Type := v\<rparr>),
      on_field f v_HostPath (\<lambda>v x. x\<lparr>v_HostPath := v\<rparr>), on_field (replace_list f) v_Options (\<lambda>v x. x\<lparr>v_Options := v\<rparr>),
      on_field (replace_list f) v_MountOptions (\<lambda>v x. x\<lparr>v_MountOptions := v\<rparr>)]"

definition replace_user :: "string replacer \<Rightarrow> user replacer" where
  "replace_user f = on_field f u_Name (\<lambda>v x. x\<lparr>u_Name := v\<rparr>)"

definition replace_public_front_end :: "string replacer \<Rightarrow> public_front_end replacer" where
  "replace_public_front_end f = each_field
     [on_field f pf_Domain (\<lambda>v x. x\<lparr>pf_Domain := v\<rparr>), on_field f pf_PathPrefix (\<lambda>v x. x\<lparr>pf_PathPrefix := v\<rparr>),
      on_field f pf_SslCert (\<lambda>v x. x\<lparr>pf_SslCert := v\<rparr>),
      on_field (replace_list (replace_user f)) pf_Users (\<lambda>v x. x\<lparr>pf_Users := v\<rparr>)]"

definition replace_private_front_end :: "string replacer \<Rightarrow> private_front_end replacer" where
  "replace_private_front_end f = each_field
     [on_field f vf_Mode (\<lambda>v x. x\<lparr>vf_Mode := v\<rparr>),
      on_field (replace_list (replace_user f)) vf_Users (\<lambda>v x. x\<lparr>vf_Users := v\<rparr>)]"

definition replace_link :: "string replacer \<Rightarrow> link replacer" where
  "replace_link f = each_field
     [on_field f l_Target (\<lambda>v x. x\<lparr>l_Target := v\<rparr>), on_field f l_Type (\<lambda>v x. x\<lparr>l_Type := v\<rparr>)]"

definition replace_rewrite :: "string replacer \<Rightarrow> rewrite replacer" where
  "replace_rewrite f = each_field
     [on_field f rw_PathPrefix (\<lambda>v x. x\<lparr>rw_PathPrefix := v\<rparr>),
      on_field f rw_RemovePathPrefix (\<lambda>v x. x\<lparr>rw_RemovePathPrefix := v\<rparr>), on_field f rw_Domain (\<lambda>v x. x\<lparr>rw_Domain := v\<rparr>)]"

definition replace_secret :: "string replacer \<Rightarrow> secret replacer" where
  "replace_secret f = each_field
     [on_field f s_Path (\<lambda>v x. x\<lparr>s_Path := v\<rparr>), on_field f s_Field (\<lambda>v x. x\<lparr>s_Field := v\<rparr>),
      on_field f s_Environment (\<lambda>v x. x\<lparr>s_Environment := v\<rparr>), on_field f s_File (\<lambda>v x. x\<lparr>s_File := v\<rparr>)]"

definition replace_metrics :: "string replacer \<Rightarrow> metrics replacer" where
  "replace_metrics f = each_field
     [on_field f m_Path (\<lambda>v x. x\<lparr>m_Path := v\<rparr>), on_field f m_RulesPath (\<lambda>v x. x\<lparr>m_RulesPath := v\<rparr>)]"

definition replace_constraint :: "string replacer \<Rightarrow> constraint replacer" where
  "replace_constraint f = each_field
     [on_field f Attribute (\<lambda>v x. x\<lparr>Attribute := v\<rparr>), on_field f Value (\<lambda>v x. x\<lparr>Value := v\<rparr>),
      on_field f Operator (\<lambda>v x. x\<lparr>Operator := v\<rparr>)]"

definition replace_dependency :: "string replacer \<Rightarrow> dependency replacer" where
  "replace_dependency f = each_field
     [on_field f d_Name (\<lambda>v x. x\<lparr>d_Name := v\<rparr>), on_field f d_Network (\<lambda>v x. x\<lparr>d_Network := v\<rparr>),
      on_field (replace_list (replace_private_front_end f)) d_PrivateFrontEnds (\<lambda>v x. x\<lparr>d_PrivateFrontEnds := v\<rparr>)]"

definition replace_option :: "'a replacer \<Rightarrow> 'a option replacer" where
  "replace_option f x s = (case x of None \<Rightarrow> (Inr None, s) | Some y \<Rightarrow> sbind (f y s) (\<lambda>y s. (Inr (Some y), s)))"

text \<open>
  A field of the job in the state. \<open>set_elements\<close> is a loop that assigns to one element after another of the
  list in the state: the elements come from the list as it was before the loop, and links that the loop adds behind
  them stay.
\<close>

definition set_field :: "('a replacer) \<Rightarrow> (job \<Rightarrow> 'a) \<Rightarrow> ('a \<Rightarrow> job \<Rightarrow> job) \<Rightarrow> var_state \<Rightarrow> unit res \<times> var_state" where
  "set_field f get put s = sbind (f (get (vs_Job s)) s) (\<lambda>v s. (Inr (), s\<lparr>vs_Job := put v (vs_Job s)\<rparr>))"

fun set_elements_from ::
  "nat \<Rightarrow> 'a list \<Rightarrow> 'a replacer \<Rightarrow> (job \<Rightarrow> 'a list) \<Rightarrow> ('a list \<Rightarrow> job \<Rightarrow> job) \<Rightarrow> var_state \<Rightarrow> unit res \<times> var_state" where
  "set_elements_from k [] f get put s = (Inr (), s)"
| "set_elements_from k (x # xs) f get put s =
     sbind (f x s) (\<lambda>y s. set_elements_from (k + 1) xs f get put
       (s\<lparr>vs_Job := put ((get (vs_Job s))[k := y]) (vs_Job s)\<rparr>))"

definition set_elements ::
  "'a replacer \<Rightarrow> (job \<Rightarrow> 'a list) \<Rightarrow> ('a list \<Rightarrow> job \<Rightarrow> job) \<Rightarrow> var_state \<Rightarrow> unit res \<times> var_state" where
  "set_elements f get put s = set_elements_from 0 (get (vs_Job s)) f get put s"

definition context_errors :: "var_state \<Rightarrow> unit res \<times> var_state" where
  "context_errors s = (if vs_Failed s then Inl ValidationError else Inr (), s\<lparr>vs_Failed := False\<rparr>)"

definition of_task :: "nat \<Rightarrow> nat \<Rightarrow> (task \<Rightarrow> 'a) \<Rightarrow> job \<Rightarrow> 'a" where
  "of_task g i get j = get (g_Tasks (j_Groups j ! g) ! i)"

definition to_task :: "nat \<Rightarrow> nat \<Rightarrow> ('a \<Rightarrow> task \<Rightarrow> task) \<Rightarrow> 'a \<Rightarrow> job \<Rightarrow> job" where
  "to_task g i put v = update_task g i (put v)"

definition set_task :: "nat \<Rightarrow> nat \<Rightarrow> 'a replacer \<Rightarrow> (task \<Rightarrow> 'a) \<Rightarrow> ('a \<Rightarrow> task \<Rightarrow> task) \<Rightarrow> var_state \<Rightarrow> unit res \<times> var_state" where
  "set_task g i f get put = set_field f (of_task g i get) (to_task g i put)"

definition each_of_task ::
  "nat \<Rightarrow> nat \<Rightarrow> 'a replacer \<Rightarrow> (task \<Rightarrow> 'a list) \<Rightarrow> ('a list \<Rightarrow> task \<Rightarrow> task) \<Rightarrow> var_state \<Rightarrow> unit res \<times> var_state" where
  "each_of_task g i f get put = set_elements f (of_task g i get) (to_task g i put)"

definition task_steps :: "string replacer \<Rightarrow> nat \<Rightarrow> nat \<Rightarrow> (var_state \<Rightarrow> unit res \<times> var_state) list" where
  "task_steps f g i =
     [set_task g i f t_Type (\<lambda>v t. t\<lparr>t_Type := v\<rparr>),
      set_task g i f t_Timer (\<lambda>v t. t\<lparr>t_Timer := v\<rparr>),
      set_task g i (replace_image f) t_Image (\<lambda>v t. t\<lparr>t_Image := v\<rparr>),
      each_of_task g i f t_After (\<lambda>v t. t\<lparr>t_After := v\<rparr>),
      each_of_task g i f t_VolumesFrom (\<lambda>v t. t\<lparr>t_VolumesFrom := v\<rparr>),
      each_of_task g i (replace_volume f) t_Volumes (\<lambda>v t. t\<lparr>t_Volumes := v\<rparr>),
      set_task g i (replace_list f) t_Args (\<lambda>v t. t\<lparr>t_Args := v\<rparr>),
      set_task g i (replace_map f) t_Environment (\<lambda>v t. t\<lparr>t_Environment := v\<rparr>),
      each_of_task g i f t_Ports (\<lambda>v t. t\<lparr>t_Ports := v\<rparr>),
      each_of_task g i (replace_public_front_end f) t_PublicFrontEnds (\<lambda>v t. t\<lparr>t_PublicFrontEnds := v\<rparr>),
      each_of_task g i (replace_private_front_end f) t_PrivateFrontEnds (\<lambda>v t. t\<lparr>t_PrivateFrontEnds := v\<rparr>),
      set_task g i f t_HttpCheckPath (\<lambda>v t. t\<lparr>t_HttpCheckPath := v\<rparr>),
      set_task g i f t_HttpCheckMethod (\<lambda>v t. t\<lparr>t_HttpCheckMethod := v\<rparr>),
      set_task g i (replace_list f) t_Capabilities (\<lambda>v t. t\<lparr>t_Capabilities := v\<rparr>),
      set_task g i f t_Network (\<lambda>v t. t\<lparr>t_Network := v\<rparr>),
      each_of_task g i (replace_link f) t_Links (\<lambda>v t. t\<lparr>t_Links := v\<rparr>),
      set_task g i (replace_option (replace_rewrite f)) t_Rewrite (\<lambda>v t. t\<lparr>t_Rewrite := v\<rparr>),
      each_of_task g i (replace_secret f) t_Secrets (\<lambda>v t. t\<lparr>t_Secrets := v\<rparr>),
      set_task g i (replace_list f) t_DockerArgs (\<lambda>v t. t\<lparr>t_DockerArgs := v\<rparr>),
      set_task g i f t_LogDriver (\<lambda>v t. t\<lparr>t_LogDriver := v\<rparr>),
      set_task g i f t_Target (\<lambda>v t. t\<lparr>t_Target := v\<rparr>),
      set_task g i f t_User (\<lambda>v t. t\<lparr>t_User := v\<rparr>),
      set_task g i (replace_option (replace_metrics f)) t_Metrics (\<lambda>v t. t\<lparr>t_Metrics := v\<rparr>),
      context_errors]"

definition replace_task :: "renderer \<Rightarrow> cluster \<Rightarrow> nat \<Rightarrow> nat \<Rightarrow> var_state \<Rightarrow> unit res \<times> var_state" where
  "replace_task r cl g i = each_res (\<lambda>step. step) (task_steps (replace_string r cl (AtTask g i)) g i)"

definition replace_group :: "renderer \<Rightarrow> cluster \<Rightarrow> nat \<Rightarrow> var_state \<Rightarrow> unit res \<times> var_state" where
  "replace_group r cl g s =
     (let f = replace_string r cl (AtGroup g)
      in sbind (each_res (replace_task r cl g) [0..<length (g_Tasks (j_Groups (vs_Job s) ! g))] s) (\<lambda>_.
           each_res (\<lambda>step. step)
             [set_elements (replace_constraint f) (\<lambda>j. g_Constraints (j_Groups j ! g))
                (\<lambda>v. update_group g (\<lambda>tg. tg\<lparr>g_Constraints := v\<rparr>)),
              set_field f (\<lambda>j. g_RestartPolicy (j_Groups j ! g)) (\<lambda>v. update_group g (\<lambda>tg. tg\<lparr>g_RestartPolicy := v\<rparr>)),
              context_errors]))"

definition replace_job :: "renderer \<Rightarrow> cluster \<Rightarrow> var_state \<Rightarrow> unit res \<times> var_state" where
  "replace_job r cl s =
     (let f = replace_string r cl AtJob
      in sbind (each_res (replace_group r cl) [0..<length (j_Groups (vs_Job s))] s) (\<lambda>_.
           each_res (\<lambda>step. step)
             [set_elements (replace_constraint f) j_Constraints (\<lambda>v j. j\<lparr>j_Constraints := v\<rparr>),
              set_elements (replace_dependency f) j_Dependencies (\<lambda>v j. j\<lparr>j_Dependencies := v\<rparr>),
              context_errors]))"

section \<open>Loading a job\<close>

text \<open>
  What \<^verbatim>\<open>parseJob\<close> does with the job once its text has been parsed.
\<close>

definition normalize_group :: "renderer \<Rightarrow> task_group \<Rightarrow> task_group res" where
  "normalize_group r tg = rbind (map_res (NormalizeTask r) (g_Tasks tg)) (\<lambda>ts. Inr (tg\<lparr>g_Tasks := ts\<rparr>))"

definition load_job :: "renderer \<Rightarrow> cluster \<Rightarrow> job \<Rightarrow> job res" where
  "load_job r cl j =
     (case replace_job r cl \<lparr>vs_Job = job_set_defaults cl j, vs_Failed = False\<rparr> of
        (Inl e, _) \<Rightarrow> Inl e
      | (Inr _, s) \<Rightarrow>
          (let j = job_optimize_for cl (job_link (vs_Job s))
           in rbind (map_res (normalize_group r) (j_Groups j)) (\<lambda>gs.
              let j = j\<lparr>j_Groups := gs\<rparr>
              in rbind (job_validate j) (\<lambda>_. Inr j))))"

end
