(* ===== verification/Parser.thy ===== *)
theory Parser
  imports Variables
begin

text \<open>
  Reading a job or a cluster from a syntax tree: \<^verbatim>\<open>jobs/parse.go\<close>,
  \<^verbatim>\<open>cluster/parse.go\<close> and \<^verbatim>\<open>pkg/hclutil/hcl.go\<close> over the trees of
  \<^verbatim>\<open>hcl/ast\<close>. What the external packages do is in the record \<open>hcl\<close>: \<^verbatim>\<open>hcl.Parse\<close>,
  \<^verbatim>\<open>hcl.DecodeObject\<close>, the decoding of a map into each of the structs by
  \<^verbatim>\<open>mapstructure\<close>, and the template that is executed first.
\<close>

section \<open>Syntax trees\<close>

text \<open>A string literal, another literal, a list, or an object with keyed items.\<close>

datatype node = NString string | NLiteral string | NList "node list" | NObject "(string list \<times> node) list"

type_synonym item = "string list \<times> node"

definition equal_fold :: "string \<Rightarrow> string \<Rightarrow> bool" where
  "equal_fold a b = (to_lower a = to_lower b)"

text \<open>\<^verbatim>\<open>Filter\<close> for one key, \<^verbatim>\<open>Children\<close> and \<^verbatim>\<open>Elem\<close>.\<close>

definition hcl_filter :: "string \<Rightarrow> item list \<Rightarrow> item list" where
  "hcl_filter k items =
     List.map_filter (\<lambda>(keys, n). case keys of [] \<Rightarrow> None | x # ks \<Rightarrow> if equal_fold x k then Some (ks, n) else None) items"

definition hcl_children :: "item list \<Rightarrow> item list" where
  "hcl_children items = filter (\<lambda>(keys, n). 0 < length keys) items"

definition hcl_elem :: "item list \<Rightarrow> item list" where
  "hcl_elem items = filter (\<lambda>(keys, n). length keys = 0) items"

fun string_of_node :: "node \<Rightarrow> string option" where
  "string_of_node (NString s) = Some s"
| "string_of_node _ = None"

text \<open>The error is one of \<^verbatim>\<open>hclutil\<close>, not the \<^verbatim>\<open>ValidationError\<close> of jobs.\<close>

definition string_element :: "node \<Rightarrow> string res" where
  "string_element n = (case string_of_node n of None \<Rightarrow> Inl OtherError | Some s \<Rightarrow> Inr s)"

fun strings_of_node :: "node \<Rightarrow> string list res" where
  "strings_of_node (NString s) = Inr [s]"
| "strings_of_node (NList ns) = map_res string_element ns"
| "strings_of_node _ = Inl OtherError"

definition parse_string_list :: "item list \<Rightarrow> string list res" where
  "parse_string_list items =
     rbind (map_res (\<lambda>(keys, n). strings_of_node n) (hcl_elem items)) (\<lambda>xs. Inr (concat xs))"

section \<open>Decoding\<close>

record parse_task =
  pt_Task :: task
  pt_Count :: nat
  pt_Global :: bool
  pt_Constraints :: "constraint list"

type_synonym ('v, 'a) decoder = "(string \<times> 'v) list \<Rightarrow> 'a \<Rightarrow> 'a res"

record 'v hcl =
  hcl_Template :: "string \<Rightarrow> string res"
  hcl_Parse :: "string \<Rightarrow> item list option res"
  hcl_Object :: "node \<Rightarrow> (string \<times> 'v) list res"
  hcl_Int :: "int \<Rightarrow> 'v"
  into_Job :: "('v, job) decoder"
  into_Group :: "('v, task_group) decoder"
  into_Task :: "('v, parse_task) decoder"
  into_Env :: "('v, (string \<times> string) list) decoder"
  into_Link :: "('v, link) decoder"
  into_PublicFrontEnd :: "('v, public_front_end) decoder"
  into_PrivateFrontEnd :: "('v, private_front_end) decoder"
  into_User :: "('v, user) decoder"
  into_Secret :: "('v, secret) decoder"
  into_Constraint :: "('v, constraint) decoder"
  into_Rewrite :: "('v, rewrite) decoder"
  into_Metrics :: "('v, metrics) decoder"
  into_Dependency :: "('v, dependency) decoder"
  into_Cluster :: "('v, cluster) decoder"
  into_Docker :: "('v, docker_options) decoder"
  into_Fleet :: "('v, fleet_options) decoder"
  into_Kubernetes :: "('v, kubernetes_options) decoder"

definition decode :: "'v hcl \<Rightarrow> ('v, 'a) decoder \<Rightarrow> node \<Rightarrow> string list \<Rightarrow> (string \<times> 'v) list \<Rightarrow> 'a \<Rightarrow> 'a res" where
  "decode h into obj excludeKeys defaultValues x =
     rbind (hcl_Object h obj) (\<lambda>m.
       (let m = filter (\<lambda>(k, v). k \<notin> set excludeKeys) m;
            m = fold (\<lambda>(k, v) m. if map_of m k = None then AList.update k v m else m) defaultValues m
        in into m x))"

text \<open>A block that must be an object.\<close>

definition as_object :: "(string list \<Rightarrow> node \<Rightarrow> 'a res) \<Rightarrow> item \<Rightarrow> 'a res" where
  "as_object f i = (case i of (keys, n) \<Rightarrow> case n of NObject _ \<Rightarrow> f keys n | _ \<Rightarrow> Inl ValidationError)"

fun node_items :: "node \<Rightarrow> item list" where
  "node_items (NObject items) = items"
| "node_items _ = []"

text \<open>A section that is there changes the value.\<close>

definition on_section :: "string \<Rightarrow> node \<Rightarrow> (item list \<Rightarrow> 'a \<Rightarrow> 'a res) \<Rightarrow> 'a \<Rightarrow> 'a res" where
  "on_section k obj f x =
     (let found = hcl_filter k (node_items obj) in if 0 < length found then f found x else Inr x)"

text \<open>A section of blocks whose values are appended, and one of a list of strings.\<close>

definition append_blocks ::
  "(item \<Rightarrow> 'b res) \<Rightarrow> (item list \<Rightarrow> item list) \<Rightarrow> ('b list \<Rightarrow> 'a \<Rightarrow> 'a) \<Rightarrow> item list \<Rightarrow> 'a \<Rightarrow> 'a res" where
  "append_blocks f pick add items x = rbind (map_res f (pick items)) (\<lambda>ys. Inr (add ys x))"

definition append_strings :: "(string \<Rightarrow> 'b res) \<Rightarrow> ('b list \<Rightarrow> 'a \<Rightarrow> 'a) \<Rightarrow> item list \<Rightarrow> 'a \<Rightarrow> 'a res" where
  "append_strings f add items x =
     rbind (parse_string_list items) (\<lambda>ss. rbind (map_res f ss) (\<lambda>ys. Inr (add ys x)))"

section \<open>The parts of a task\<close>

definition zero_user :: user where "zero_user = \<lparr>u_Name = '''', u_Password = ''''\<rparr>"
definition zero_link :: link where "zero_link = \<lparr>l_Target = '''', l_Type = '''', l_Ports = []\<rparr>"
definition zero_secret :: secret where "zero_secret = \<lparr>s_Path = '''', s_Field = '''', s_Environment = '''', s_File = ''''\<rparr>"
definition zero_constraint :: "constraint" where "zero_constraint = \<lparr>Attribute = '''', Value = '''', Operator = ''''\<rparr>"
definition zero_rewrite :: rewrite where "zero_rewrite = \<lparr>rw_PathPrefix = '''', rw_RemovePathPrefix = '''', rw_Domain = ''''\<rparr>"
definition zero_metrics :: metrics where "zero_metrics = \<lparr>m_Port = 0, m_Path = '''', m_RulesPath = ''''\<rparr>"
definition zero_dependency :: dependency where
  "zero_dependency = \<lparr>d_Name = '''', d_Network = '''', d_PrivateFrontEnds = []\<rparr>"
definition zero_public_front_end :: public_front_end where
  "zero_public_front_end = \<lparr>pf_Domain = '''', pf_PathPrefix = '''', pf_SslCert = '''', pf_Port = 0, pf_HostPort = 0,
     pf_Users = [], pf_Mode = '''', pf_Weight = 0\<rparr>"
definition zero_private_front_end :: private_front_end where
  "zero_private_front_end = \<lparr>vf_Port = 0, vf_HostPort = 0, vf_Users = [], vf_Weight = 0, vf_Mode = '''',
     vf_RegisterInstance = False\<rparr>"

definition parse_constraint :: "'v hcl \<Rightarrow> item \<Rightarrow> constraint res" where
  "parse_constraint h = as_object (\<lambda>keys obj. decode h (into_Constraint h) obj [] [] zero_constraint)"

definition parse_user :: "'v hcl \<Rightarrow> item \<Rightarrow> user res" where
  "parse_user h = as_object (\<lambda>keys obj. decode h (into_User h) obj [] [] (zero_user\<lparr>u_Name := keys ! 0\<rparr>))"

definition parse_public_front_end :: "'v hcl \<Rightarrow> item \<Rightarrow> public_front_end res" where
  "parse_public_front_end h = as_object (\<lambda>keys obj.
     rbind (decode h (into_PublicFrontEnd h) obj [''user''] [] zero_public_front_end)
       (on_section ''user'' obj (append_blocks (parse_user h) hcl_children (\<lambda>us f. f\<lparr>pf_Users := pf_Users f @ us\<rparr>))))"

definition parse_private_front_end :: "'v hcl \<Rightarrow> item \<Rightarrow> private_front_end res" where
  "parse_private_front_end h = as_object (\<lambda>keys obj.
     rbind (decode h (into_PrivateFrontEnd h) obj [''user''] [(''port'', hcl_Int h 80)] zero_private_front_end)
       (on_section ''user'' obj (append_blocks (parse_user h) hcl_children (\<lambda>us f. f\<lparr>vf_Users := vf_Users f @ us\<rparr>))))"

definition parse_secret :: "'v hcl \<Rightarrow> item \<Rightarrow> secret res" where
  "parse_secret h = as_object (\<lambda>keys obj.
     rbind (decode h (into_Secret h) obj [] [] zero_secret) (\<lambda>s. Inr (s\<lparr>s_Path := keys ! 0\<rparr>)))"

definition parse_link_block :: "'v hcl \<Rightarrow> item \<Rightarrow> link res" where
  "parse_link_block h = as_object (\<lambda>keys obj.
     rbind (decode h (into_Link h) obj [] [] zero_link) (\<lambda>l. Inr (l\<lparr>l_Target := link_normalize (keys ! 0)\<rparr>)))"

definition parse_rewrite :: "'v hcl \<Rightarrow> item \<Rightarrow> rewrite res" where
  "parse_rewrite h = as_object (\<lambda>keys obj. decode h (into_Rewrite h) obj [] [] zero_rewrite)"

definition parse_metrics :: "'v hcl \<Rightarrow> item \<Rightarrow> metrics res" where
  "parse_metrics h = as_object (\<lambda>keys obj. decode h (into_Metrics h) obj [] [] zero_metrics)"

text \<open>A dependency without a name is an index out of range.\<close>

definition parse_dependency :: "'v hcl \<Rightarrow> item \<Rightarrow> dependency res" where
  "parse_dependency h = as_object (\<lambda>keys obj.
     if keys = [] then Inl Panic
     else rbind (decode h (into_Dependency h) obj [''private-frontend''] [] (zero_dependency\<lparr>d_Name := keys ! 0\<rparr>))
       (on_section ''private-frontend'' obj (append_blocks (parse_private_front_end h) hcl_elem
          (\<lambda>fs d. d\<lparr>d_PrivateFrontEnds := d_PrivateFrontEnds d @ fs\<rparr>))))"

definition merge_rewrites :: "rewrite list \<Rightarrow> task \<Rightarrow> task" where
  "merge_rewrites rs t =
     fold (\<lambda>r t. t\<lparr>t_Rewrite := Some (case t_Rewrite t of None \<Rightarrow> r | Some r0 \<Rightarrow> rewrite_merge r0 r)\<rparr>) rs t"

section \<open>Tasks, groups and jobs\<close>

definition excluded_task_keys :: "string list" where
  "excluded_task_keys = [''env'', ''image'', ''after'', ''volumes'', ''volumes-from'', ''frontend'', ''private-frontend'',
     ''capabilities'', ''links'', ''link'', ''secret'', ''constraint'', ''rewrite'', ''metrics'']"

definition parse_image :: "node \<Rightarrow> task \<Rightarrow> task res" where
  "parse_image obj t =
     (let found = hcl_filter ''image'' (node_items obj)
      in if 0 < length found then
           (if 1 < length found then Inl ValidationError
            else (case string_of_node (snd (found ! 0)) of
                    None \<Rightarrow> Inl ValidationError
                  | Some s \<Rightarrow> rbind (parse_docker_image s) (\<lambda>img. Inr (t\<lparr>t_Image := img\<rparr>))))
         else if t_Type t \<noteq> ''proxy'' then Inl ValidationError
         else Inr t)"

definition parse_env :: "'v hcl \<Rightarrow> item list \<Rightarrow> task \<Rightarrow> task res" where
  "parse_env h items t =
     fold_res (\<lambda>(keys, n) t. rbind (decode h (into_Env h) n [] [] (t_Environment t)) (\<lambda>e. Inr (t\<lparr>t_Environment := e\<rparr>)))
       (hcl_elem items) t"

definition task_sections :: "'v hcl \<Rightarrow> node \<Rightarrow> (task \<Rightarrow> task res) list" where
  "task_sections h obj =
     [parse_image obj,
      on_section ''env'' obj (parse_env h),
      on_section ''after'' obj (append_strings Inr (\<lambda>xs t. t\<lparr>t_After := t_After t @ xs\<rparr>)),
      on_section ''volumes'' obj (append_strings parse_volume (\<lambda>xs t. t\<lparr>t_Volumes := t_Volumes t @ xs\<rparr>)),
      on_section ''volumes-from'' obj (append_strings Inr (\<lambda>xs t. t\<lparr>t_VolumesFrom := t_VolumesFrom t @ xs\<rparr>)),
      on_section ''capabilities'' obj (append_strings Inr (\<lambda>xs t. t\<lparr>t_Capabilities := xs\<rparr>)),
      on_section ''link'' obj (append_blocks (parse_link_block h) hcl_children (\<lambda>xs t. t\<lparr>t_Links := t_Links t @ xs\<rparr>)),
      on_section ''links'' obj (append_strings (\<lambda>x. Inr (zero_link\<lparr>l_Target := link_normalize x\<rparr>))
        (\<lambda>xs t. t\<lparr>t_Links := t_Links t @ xs\<rparr>)),
      on_section ''frontend'' obj (append_blocks (parse_public_front_end h) hcl_elem
        (\<lambda>xs t. t\<lparr>t_PublicFrontEnds := t_PublicFrontEnds t @ xs\<rparr>)),
      on_section ''private-frontend'' obj (append_blocks (parse_private_front_end h) hcl_elem
        (\<lambda>xs t. t\<lparr>t_PrivateFrontEnds := t_PrivateFrontEnds t @ xs\<rparr>)),
      on_section ''secret'' obj (append_blocks (parse_secret h) hcl_children (\<lambda>xs t. t\<lparr>t_Secrets := t_Secrets t @ xs\<rparr>))]"

definition last_metrics :: "metrics list \<Rightarrow> task \<Rightarrow> task" where
  "last_metrics ms t = fold (\<lambda>m t. t\<lparr>t_Metrics := Some m\<rparr>) ms t"

definition late_sections :: "'v hcl \<Rightarrow> node \<Rightarrow> (task \<Rightarrow> task res) list" where
  "late_sections h obj =
     [on_section ''rewrite'' obj (append_blocks (parse_rewrite h) hcl_elem merge_rewrites),
      on_section ''metrics'' obj (\<lambda>items t.
        if 1 < length items then Inl ValidationError else append_blocks (parse_metrics h) hcl_elem last_metrics items t)]"

definition defaultCount :: int where "defaultCount = 1"

definition parse_task_body :: "'v hcl \<Rightarrow> bool \<Rightarrow> node \<Rightarrow> parse_task \<Rightarrow> parse_task res" where
  "parse_task_body h anonymousGroup obj t =
     rbind (decode h (into_Task h) obj excluded_task_keys [(''count'', hcl_Int h defaultCount)] t) (\<lambda>t.
     if \<not> anonymousGroup \<and> (int (pt_Count t) \<noteq> defaultCount \<or> pt_Global t) then Inl ValidationError
     else rbind (fold_res (\<lambda>f. f) (task_sections h obj) (pt_Task t)) (\<lambda>x.
          rbind (on_section ''constraint'' obj (append_blocks (parse_constraint h) hcl_elem (\<lambda>cs xs. xs @ cs))
            (pt_Constraints t)) (\<lambda>cs.
          rbind (fold_res (\<lambda>f. f) (late_sections h obj) x) (\<lambda>x.
            Inr (t\<lparr>pt_Task := x, pt_Constraints := cs\<rparr>)))))"

definition zero_parse_task :: parse_task where
  "zero_parse_task = \<lparr>pt_Task = empty_task, pt_Count = 0, pt_Global = False, pt_Constraints = []\<rparr>"

text \<open>Blocks with a name that is not yet taken; other blocks are skipped.\<close>

fun parse_named :: "(string \<Rightarrow> node \<Rightarrow> 'a res) \<Rightarrow> string list \<Rightarrow> item list \<Rightarrow> 'a list res" where
  "parse_named f seen [] = Inr []"
| "parse_named f seen ((keys, n) # items) =
     (if keys ! 0 \<in> set seen then Inl OtherError
      else case n of
             NObject _ \<Rightarrow> rbind (f (keys ! 0) n) (\<lambda>x. rbind (parse_named f (keys ! 0 # seen) items) (\<lambda>xs. Inr (x # xs)))
           | _ \<Rightarrow> Inl OtherError)"

definition parse_tasks :: "'v hcl \<Rightarrow> bool \<Rightarrow> item list \<Rightarrow> parse_task list res" where
  "parse_tasks h anonymousGroup items =
     parse_named (\<lambda>n obj. parse_task_body h anonymousGroup obj (zero_parse_task\<lparr>pt_Task := empty_task\<lparr>t_Name := n\<rparr>\<rparr>)) []
       (hcl_children items)"

definition zero_group :: task_group where
  "zero_group = \<lparr>g_Name = '''', g_Count = 0, g_Global = False, g_Tasks = [], g_Constraints = [], g_RestartPolicy = ''''\<rparr>"

fun group_add_all :: "parse_task list \<Rightarrow> task_group \<Rightarrow> task_group res" where
  "group_add_all [] tg = Inr tg"
| "group_add_all (t # ts) tg =
     rbind (constraints_add (g_Constraints tg) (pt_Constraints t)) (\<lambda>cs.
       group_add_all ts (tg\<lparr>g_Tasks := g_Tasks tg @ [(pt_Task t)\<lparr>t_OriginalIndex := int (length (g_Tasks tg))\<rparr>],
         g_Constraints := cs\<rparr>))"

definition parse_group :: "'v hcl \<Rightarrow> string \<Rightarrow> node \<Rightarrow> task_group res" where
  "parse_group h n obj =
     rbind (decode h (into_Group h) obj [''task'', ''constraint''] [(''count'', hcl_Int h defaultCount)]
       (zero_group\<lparr>g_Name := n\<rparr>)) (\<lambda>tg.
     rbind (on_section ''task'' obj (\<lambda>items tg. rbind (parse_tasks h False items) (\<lambda>ts. group_add_all ts tg)) tg) (\<lambda>tg.
     on_section ''constraint'' obj (append_blocks (parse_constraint h) hcl_elem
       (\<lambda>cs tg. tg\<lparr>g_Constraints := g_Constraints tg @ cs\<rparr>)) tg))"

text \<open>A task outside of a group gets a group of its own.\<close>

definition group_of_task :: "parse_task \<Rightarrow> task_group" where
  "group_of_task t =
     \<lparr>g_Name = t_Name (pt_Task t), g_Count = pt_Count t, g_Global = pt_Global t, g_Tasks = [pt_Task t],
      g_Constraints = pt_Constraints t, g_RestartPolicy = ''''\<rparr>"

definition masked :: "'a res \<Rightarrow> 'a res" where
  "masked m = (case m of Inl e \<Rightarrow> Inl (if e = Panic then Panic else OtherError) | Inr x \<Rightarrow> Inr x)"

definition zero_job :: job where
  "zero_job = \<lparr>j_ID = '''', j_Name = '''', j_Groups = [], j_Constraints = [], j_Dependencies = []\<rparr>"

definition parse_job_list :: "'v hcl \<Rightarrow> item list \<Rightarrow> job res" where
  "parse_job_list h items =
     (case hcl_children items of
        [(keys, obj)] \<Rightarrow>
          rbind (decode h (into_Job h) obj [''group'', ''task'', ''constraint'', ''dependency''] [] zero_job) (\<lambda>j.
            (let j = j\<lparr>j_Name := keys ! 0\<rparr>
             in case obj of
                  NObject _ \<Rightarrow>
                    rbind (on_section ''task'' obj (\<lambda>items j. rbind (parse_tasks h True items) (\<lambda>ts.
                      Inr (j\<lparr>j_Groups := j_Groups j @ map group_of_task ts\<rparr>))) j) (\<lambda>j.
                    rbind (on_section ''group'' obj (\<lambda>items j. rbind (masked (parse_named (parse_group h) [] (hcl_children items)))
                      (\<lambda>gs. Inr (j\<lparr>j_Groups := j_Groups j @ gs\<rparr>))) j) (\<lambda>j.
                    rbind (on_section ''constraint'' obj (append_blocks (parse_constraint h) hcl_elem
                      (\<lambda>cs j. j\<lparr>j_Constraints := j_Constraints j @ cs\<rparr>)) j) (\<lambda>j.
                    on_section ''dependency'' obj (append_blocks (parse_dependency h) (\<lambda>items. items)
                      (\<lambda>ds j. j\<lparr>j_Dependencies := j_Dependencies j @ ds\<rparr>)) j)))
                | _ \<Rightarrow> Inl OtherError))
      | _ \<Rightarrow> Inl OtherError)"

definition parse_job :: "'v hcl \<Rightarrow> renderer \<Rightarrow> cluster \<Rightarrow> string \<Rightarrow> job res" where
  "parse_job h r cl input =
     rbind (hcl_Template h input) (\<lambda>text.
     rbind (hcl_Parse h text) (\<lambda>root.
       case root of
         None \<Rightarrow> Inl OtherError
       | Some items \<Rightarrow>
           (let matches = hcl_filter ''job'' items
            in if length matches = 0 then Inl ValidationError
               else rbind (parse_job_list h matches) (load_job r cl))))"

section \<open>Clusters\<close>

definition set_strings :: "string \<Rightarrow> node \<Rightarrow> (string list \<Rightarrow> 'a \<Rightarrow> 'a) \<Rightarrow> 'a \<Rightarrow> 'a res" where
  "set_strings k obj put = on_section k obj (\<lambda>items x. rbind (parse_string_list items) (\<lambda>l. Inr (put l x)))"

definition parse_docker_options :: "'v hcl \<Rightarrow> node \<Rightarrow> docker_options \<Rightarrow> docker_options res" where
  "parse_docker_options h obj opts =
     rbind (decode h (into_Docker h) obj [''log-args''] [] opts)
       (set_strings ''log-args'' obj (\<lambda>l x. x\<lparr>LoggingArgs := LoggingArgs x @ l\<rparr>))"

definition parse_fleet_options :: "'v hcl \<Rightarrow> node \<Rightarrow> fleet_options \<Rightarrow> fleet_options res" where
  "parse_fleet_options h obj opts =
     rbind (decode h (into_Fleet h) obj [''after'', ''wants'', ''requires'', ''global-instance-constraints''] [] opts) (\<lambda>x.
     rbind (set_strings ''after'' obj (\<lambda>l x. x\<lparr>fo_After := l\<rparr>) x) (\<lambda>x.
     rbind (set_strings ''wants'' obj (\<lambda>l x. x\<lparr>fo_Wants := l\<rparr>) x) (\<lambda>x.
     rbind (set_strings ''requires'' obj (\<lambda>l x. x\<lparr>fo_Requires := l\<rparr>) x) (\<lambda>x.
       set_strings ''global-instance-constraints'' obj (\<lambda>l x. x\<lparr>fo_GlobalInstanceConstraints := l\<rparr>) x))))"

definition parse_kubernetes_options :: "'v hcl \<Rightarrow> node \<Rightarrow> kubernetes_options \<Rightarrow> kubernetes_options res" where
  "parse_kubernetes_options h obj opts =
     rbind (decode h (into_Kubernetes h) obj [''global-instance-constraints''] [] opts)
       (set_strings ''global-instance-constraints'' obj (\<lambda>l x. x\<lparr>ko_GlobalInstanceConstraints := l\<rparr>))"

definition fold_objects :: "(node \<Rightarrow> 'a \<Rightarrow> 'a res) \<Rightarrow> item list \<Rightarrow> 'a \<Rightarrow> 'a res" where
  "fold_objects f items = fold_res (\<lambda>i x. rbind (as_object (\<lambda>keys obj. Inr obj) i) (\<lambda>obj. f obj x)) (hcl_elem items)"

text \<open>The default options are read and dropped, like the field they are kept in.\<close>

definition parse_cluster :: "'v hcl \<Rightarrow> item list \<Rightarrow> cluster res" where
  "parse_cluster h items =
     (case hcl_children items of
        [(keys, obj)] \<Rightarrow>
          rbind (decode h (into_Cluster h) obj [''default-options'', ''docker'', ''fleet'', ''kubernetes'', ''quark''] [] empty_cluster) (\<lambda>c.
            (let c = c\<lparr>Stack := keys ! 0\<rparr>
             in case obj of
                  NObject _ \<Rightarrow>
                    rbind (on_section ''docker'' obj (fold_objects (\<lambda>obj c.
                      rbind (parse_docker_options h obj (DockerOptions c)) (\<lambda>x. Inr (c\<lparr>DockerOptions := x\<rparr>)))) c) (\<lambda>c.
                    rbind (on_section ''fleet'' obj (fold_objects (\<lambda>obj c.
                      rbind (parse_fleet_options h obj (FleetOptions c)) (\<lambda>x. Inr (c\<lparr>FleetOptions := x\<rparr>)))) c) (\<lambda>c.
                    rbind (on_section ''kubernetes'' obj (fold_objects (\<lambda>obj c.
                      rbind (parse_kubernetes_options h obj (KubernetesOptions c)) (\<lambda>x. Inr (c\<lparr>KubernetesOptions := x\<rparr>)))) c) (\<lambda>c.
                    on_section ''default-options'' obj (\<lambda>items c.
                      rbind (iter_res (\<lambda>(keys, n). rbind (hcl_Object h n) (\<lambda>_. Inr ())) (hcl_elem items)) (\<lambda>_. Inr c)) c)))
                | _ \<Rightarrow> Inl OtherError))
      | _ \<Rightarrow> Inl OtherError)"

definition parse_cluster_file :: "'v hcl \<Rightarrow> (string \<Rightarrow> string) \<Rightarrow> string \<Rightarrow> string \<Rightarrow> cluster res" where
  "parse_cluster_file h getenv kubePath input =
     rbind (hcl_Parse h input) (\<lambda>root.
       case root of
         None \<Rightarrow> Inl OtherError
       | Some items \<Rightarrow>
           (let matches = hcl_filter ''cluster'' items
            in if length matches = 0 then Inl OtherError
               else rbind (parse_cluster h matches) (\<lambda>c.
                      (let c = cluster_set_defaults getenv kubePath c
                       in rbind (cluster_validate c) (\<lambda>_. Inr c)))))"

end
