(* ===== verification/Renderers.thy ===== *)
theory Renderers
  imports Variables PodSpecs
begin

text \<open>
  The expansions of the two renderers: \<^verbatim>\<open>render/fleet/expansions.go\<close> and
  \<^verbatim>\<open>render/kubernetes/expansions.go\<close>, with their \<^verbatim>\<open>NormalizeTask\<close>.
\<close>

definition fleet_renderer :: renderer where
  "fleet_renderer =
     \<lparr>NormalizeTask = Inr, ExpandPrivateIPv4 = ''${COREOS_PRIVATE_IPV4}'', ExpandPublicIPv4 = ''${COREOS_PUBLIC_IPV4}'',
      ExpandEtcdEndpoints = ''${ETCD_ENDPOINTS}'', ExpandEtcdHost = ''${ETCD_HOST}'', ExpandEtcdPort = ''${ETCD_PORT}'',
      ExpandHostname = ''%H'', ExpandMachineID = ''%m'', ExpandInstance = ''%i'',
      ExpandKubernetesNamespace = '''', ExpandKubernetesPod = '''',
      SupportsDNSLinkTo = (\<lambda>t target. network_is_weave (t_Network t) \<and> \<not> link_has_instance target),
      TaskAcceptsDNSLink = (\<lambda>t. is_service (t_Type t) \<and> network_is_weave (t_Network t)),
      DependencyAcceptsDNSLink = (\<lambda>d. network_is_weave (d_Network d)),
      TaskDNSName = task_weave_domain_name,
      DependencyDNSName = (\<lambda>d. weave_domain_name (d_Name d)),
      TaskPort = (\<lambda>t port mode. port), DependencyPort = (\<lambda>d port. port)\<rparr>"

definition etcdPort :: string where "etcdPort = ''2379''"
definition etcdHosts :: "string list" where
  "etcdHosts = [''etcd0-etcd0-srv.base'', ''etcd1-etcd1-srv.base'', ''etcd2-etcd2-srv.base'']"

definition k8s_normalize_task :: "task \<Rightarrow> task res" where
  "k8s_normalize_task t =
     Inr (if network_is_weave (t_Network t) \<or> network_is_default (t_Network t)
          then t\<lparr>t_Network := NetworkTypeDefault\<rparr> else t)"

definition k8s_task_port :: "task \<Rightarrow> int \<Rightarrow> string \<Rightarrow> int" where
  "k8s_task_port t port mode =
     (if is_proxy (t_Type t) \<and> t_Rewrite t \<noteq> None then
        (if mode = ''tcp'' then PrivateTcpLoadBalancerPort else PrivateLoadBalancerPort)
      else port)"

definition k8s_etcd_endpoints :: string where
  "k8s_etcd_endpoints = join '','' (map (\<lambda>h. ''http://'' @ h @ '':'' @ etcdPort) etcdHosts)"

definition k8s_renderer :: "cluster \<Rightarrow> renderer" where
  "k8s_renderer cl =
     \<lparr>NormalizeTask = k8s_normalize_task, ExpandPrivateIPv4 = ''$(J2_NODE_NAME)'', ExpandPublicIPv4 = ''${COREOS_PUBLIC_IPV4}'',
      ExpandEtcdEndpoints = k8s_etcd_endpoints, ExpandEtcdHost = etcdHosts ! 0, ExpandEtcdPort = etcdPort,
      ExpandHostname = ''${'' @ EnvVarNodeName @ ''}'', ExpandMachineID = ''${'' @ EnvVarNodeName @ ''}'',
      ExpandInstance = ''%i'', ExpandKubernetesNamespace = ''$(J2_NAMESPACE)'', ExpandKubernetesPod = ''$(J2_POD_NAME)'',
      SupportsDNSLinkTo = (\<lambda>t target. \<not> link_has_instance target),
      TaskAcceptsDNSLink = (\<lambda>t. is_service (t_Type t) \<or> is_proxy (t_Type t)),
      DependencyAcceptsDNSLink = (\<lambda>d. True),
      TaskDNSName = (\<lambda>j tg t. task_service_dns_name j tg t (ko_Domain (KubernetesOptions cl))),
      DependencyDNSName = dependency_service_name,
      TaskPort = k8s_task_port, DependencyPort = (\<lambda>d port. port)\<rparr>"

end
