(* ===== verification/VariableLaws.thy ===== *)
theory VariableLaws
  imports Renderers
begin

text \<open>
  What the expansion of variables does: the text outside of variables is kept, every variable is replaced
  by its value at the start of the string, and the names and the structure of the job stay. The value of a variable
  does not depend on the links of tasks, which is all a variable changes: the contract of a renderer.
\<close>

section \<open>The pieces of a string\<close>

lemma match_variable_text:
  assumes "match_variable s = Some (key, rest)"
  shows "s = variable_text key @ rest" "key \<noteq> []" "list_all var_char key"
proof -
  from assms obtain r where r: "s = CHR ''$'' # CHR ''{'' # r" "dropWhile var_char r = CHR ''}'' # rest"
    "key = takeWhile var_char r" "key \<noteq> []"
    by (auto simp: match_variable_def Let_def split: list.splits if_splits)
  have "r = takeWhile var_char r @ dropWhile var_char r" by simp
  with r show "s = variable_text key @ rest" by (simp add: variable_text_def)
  show "key \<noteq> []" by (rule r(4))
  show "list_all var_char key" using r(3) set_takeWhileD by (fastforce simp: list_all_iff)
qed

lemma match_variable_at:
  assumes "key \<noteq> []" "list_all var_char key"
  shows "match_variable (variable_text key @ rest) = Some (key, rest)"
proof -
  have b: "\<not> var_char CHR ''}''" by (simp add: var_char_def)
  have "takeWhile var_char (key @ CHR ''}'' # rest) = key" "dropWhile var_char (key @ CHR ''}'' # rest) = CHR ''}'' # rest"
    using assms(2) b by (simp_all add: takeWhile_append dropWhile_append list_all_iff)
  with assms(1) show ?thesis by (simp add: match_variable_def variable_text_def)
qed

lemma pieces_text: "concat (map piece_text (pieces s)) = s"
proof (induction s rule: pieces.induct)
  case (2 c s)
  then show ?case
    by (cases "match_variable (c # s)") (auto dest: match_variable_text(1) split: prod.splits)
qed simp

text \<open>No variable starts at a character that is kept.\<close>

lemma pieces_maximal:
  "i < length (pieces s) \<Longrightarrow> pieces s ! i = Lit c \<Longrightarrow> match_variable (concat (map piece_text (drop i (pieces s)))) = None"
proof (induction s arbitrary: i rule: pieces.induct)
  case (2 a s)
  show ?case
  proof (cases "match_variable (a # s)")
    case None
    then have p: "pieces (a # s) = Lit a # pieces s" by simp
    show ?thesis
    proof (cases i)
      case 0
      with None p pieces_text [of s] show ?thesis by simp
    next
      case (Suc n)
      with 2(3,4) p 2(1) [OF None, of n] show ?thesis by simp
    qed
  next
    case (Some kr)
    obtain key rest where kr: "kr = (key, rest)" by fastforce
    then have p: "pieces (a # s) = Var key # pieces rest" using Some by simp
    with 2(3,4) obtain n where n: "i = Suc n" by (cases i) auto
    with 2(3,4) p 2(2) [OF Some kr [symmetric], of n] show ?thesis by (simp add: kr)
  qed
qed simp

section \<open>Links do not matter\<close>

definition strip_task :: "task \<Rightarrow> task" where "strip_task t = t\<lparr>t_Links := []\<rparr>"
definition strip_group :: "task_group \<Rightarrow> task_group" where "strip_group tg = tg\<lparr>g_Tasks := map strip_task (g_Tasks tg)\<rparr>"
definition strip_job :: "job \<Rightarrow> job" where "strip_job j = j\<lparr>j_Groups := map strip_group (j_Groups j)\<rparr>"

lemma strip_task_simps [simp]:
  "t_Name (strip_task t) = t_Name t" "t_Type (strip_task t) = t_Type t" "t_Network (strip_task t) = t_Network t"
  "t_Target (strip_task t) = t_Target t" "t_Rewrite (strip_task t) = t_Rewrite t"
  "t_PrivateFrontEnds (strip_task t) = t_PrivateFrontEnds t" "strip_task (t\<lparr>t_Links := ls\<rparr>) = strip_task t"
  by (simp_all add: strip_task_def)

lemma strip_simps [simp]:
  "g_Name (strip_group tg) = g_Name tg" "g_Global (strip_group tg) = g_Global tg" "j_Name (strip_job j) = j_Name j"
  "j_ID (strip_job j) = j_ID j" "j_Dependencies (strip_job j) = j_Dependencies j"
  by (simp_all add: strip_group_def strip_job_def)

lemma find_map_strip: "(\<And>x. P (f x) = P x) \<Longrightarrow> List.find P (map f xs) = map_option f (List.find P xs)"
  by (induction xs) auto

lemma strip_lookups:
  "job_task_group (strip_job j) n = map_sum id strip_group (job_task_group j n)"
  "group_task (strip_group tg) n = map_sum id strip_task (group_task tg n)"
  by (auto simp: job_task_group_def group_task_def find_task_def strip_job_def strip_group_def find_map_strip split: option.splits)

locale link_blind =
  fixes r :: renderer
  assumes supports_blind: "SupportsDNSLinkTo r (strip_task t) target = SupportsDNSLinkTo r t target"
    and accepts_blind: "TaskAcceptsDNSLink r (strip_task t) = TaskAcceptsDNSLink r t"
    and name_blind: "TaskDNSName r (strip_job j) (strip_group tg) (strip_task t) = TaskDNSName r j tg t"
    and port_blind: "TaskPort r (strip_task t) port mode = TaskPort r t port mode"
    and normalize_keeps: "NormalizeTask r t = Inr u \<Longrightarrow> t_Name u = t_Name t \<and> t_OriginalIndex u = t_OriginalIndex t"

interpretation fleet_vars: link_blind fleet_renderer
  by unfold_locales (auto simp: fleet_renderer_def task_weave_domain_name_def task_link_name_def)

interpretation k8s_vars: link_blind "k8s_renderer cl"
  by unfold_locales (auto simp: k8s_renderer_def task_service_dns_name_def task_service_name_def k8s_task_port_def
      k8s_normalize_task_def)

lemma strip_find: "find_job_task (strip_job j) ln = map_sum id (map_prod strip_group strip_task) (find_job_task j ln)"
proof -
  obtain jn tgn tn i where ln: "fst (link_parse ln) = (jn, tgn, tn, i)" by (metis prod_cases4)
  show ?thesis
  proof (cases "job_task_group j tgn")
    case (Inr tg)
    then show ?thesis by (cases "group_task tg tn") (simp_all add: find_job_task_def ln strip_lookups)
  qed (simp add: find_job_task_def ln strip_lookups)
qed

lemma strip_names:
  "find_target (strip_job j) (strip_group tg) (strip_task t) name = find_target j tg t name"
  "is_same_job (strip_job j) ln = is_same_job j ln" "job_dependency (strip_job j) ln = job_dependency j ln"
  "resolve_link (strip_job j) (strip_group tg) (strip_task t) ln = resolve_link j tg t ln"
  "container_name_ext (strip_job j) (strip_group tg) (strip_task t) inst = container_name_ext j tg t inst"
  "task_private_front_end_port (strip_task t) p = task_private_front_end_port t p"
  by (simp_all add: find_target_def is_same_job_def job_dependency_def resolve_link_def container_name_ext_def
      task_full_name_def group_full_name_def task_private_front_end_port_def split: prod.splits)

lemma map_sum_cases:
  "(case map_sum id f m of Inl e \<Rightarrow> a e | Inr x \<Rightarrow> b x) = (case m of Inl e \<Rightarrow> a e | Inr x \<Rightarrow> b (f x))"
  by (cases m) simp_all

context link_blind
begin

lemmas blind = supports_blind accepts_blind name_blind port_blind strip_names strip_find map_sum_cases

lemma proxy_blind: "expand_proxy r (strip_job j) (strip_group tg) (strip_task t) (strip_task p) = expand_proxy r j tg t p"
  by (auto simp: expand_proxy_def blind Let_def split: sum.splits prod.splits option.splits)

lemma link_url_blind: "expand_link_url r (strip_job j) (strip_group tg) (strip_task t) name = expand_link_url r j tg t name"
  by (auto simp: expand_link_url_def blind proxy_blind Let_def split: sum.splits prod.splits option.splits)

lemma link_tcp_blind:
  "expand_link_tcp r (strip_job j) (strip_group tg) (strip_task t) arg name port = expand_link_tcp r j tg t arg name port"
  by (auto simp: expand_link_tcp_def blind Let_def split: sum.splits prod.splits option.splits)

lemma in_blind:
  "in_group (map_option strip_group g) arg v = in_group g arg (\<lambda>tg. v (strip_group tg))"
  "in_task (map_option (map_prod strip_group strip_task) t) arg w = in_task t arg (\<lambda>tg x. w (strip_group tg) (strip_task x))"
  by (auto simp: in_group_def in_task_def split: option.splits)

lemma links_blind:
  "expand_links r (strip_job j) (map_option (map_prod strip_group strip_task) t) key arg = expand_links r j t key arg"
  by (cases t) (auto simp: expand_links_def Let_def link_tcp_blind link_url_blind)

lemma variable_blind:
  "expand_variable r cl (strip_job j) (map_option strip_group g) (map_option (map_prod strip_group strip_task) t) key =
     expand_variable r cl j g t key"
  unfolding expand_variable_def Let_def in_blind links_blind by (simp add: strip_names)

end

section \<open>The value of a string\<close>

fun place_ok :: "place \<Rightarrow> job \<Rightarrow> bool" where
  "place_ok AtJob j = True"
| "place_ok (AtGroup g) j = (g < length (j_Groups j))"
| "place_ok (AtTask g i) j = (g < length (j_Groups j) \<and> i < length (g_Tasks (j_Groups j ! g)))"

lemma strip_place:
  assumes "place_ok p j"
  shows "place_group p (strip_job j) = map_option strip_group (place_group p j)"
    "place_task p (strip_job j) = map_option (map_prod strip_group strip_task) (place_task p j)"
  using assms by (cases p; simp add: strip_job_def strip_group_def)+

lemma same_strip_place:
  assumes "strip_job j' = strip_job j" "place_ok p j" shows "place_ok p j'"
proof -
  have g: "map strip_group (j_Groups j') = map strip_group (j_Groups j)"
    using arg_cong [OF assms(1), of j_Groups] by (simp add: strip_job_def)
  then have l: "length (j_Groups j') = length (j_Groups j)" by (rule map_eq_imp_length_eq)
  have "length (g_Tasks (j_Groups j' ! g)) = length (g_Tasks (j_Groups j ! g))" if "g < length (j_Groups j)" for g
  proof -
    have "strip_group (j_Groups j' ! g) = strip_group (j_Groups j ! g)" using g l that by (metis nth_map)
    from arg_cong [OF this, of "\<lambda>tg. length (g_Tasks tg)"] show ?thesis by (simp add: strip_group_def)
  qed
  with assms(2) l show ?thesis by (cases p) simp_all
qed

text \<open>What the pieces of a string contribute, all of them in the job before the string is replaced.\<close>

definition piece_value :: "renderer \<Rightarrow> cluster \<Rightarrow> place \<Rightarrow> job \<Rightarrow> piece \<Rightarrow> outcome res" where
  "piece_value r cl p j x =
     (case x of
        Lit c \<Rightarrow> Inr (Text [c] False)
      | Var key \<Rightarrow> expand_variable r cl j (place_group p j) (place_task p j) key)"

fun outcome_text :: "outcome \<Rightarrow> string" where
  "outcome_text (Text v failed) = v"
| "outcome_text (Linked l v) = v"

fun outcome_failed :: "outcome \<Rightarrow> bool" where
  "outcome_failed (Text v failed) = failed"
| "outcome_failed (Linked l v) = False"

fun outcome_links :: "place \<Rightarrow> outcome \<Rightarrow> job \<Rightarrow> job" where
  "outcome_links p (Text v failed) j = j"
| "outcome_links p (Linked l v) j = add_link p l j"

definition value_state :: "place \<Rightarrow> outcome list \<Rightarrow> var_state \<Rightarrow> var_state" where
  "value_state p os s = \<lparr>vs_Job = fold (outcome_links p) os (vs_Job s), vs_Failed = (vs_Failed s \<or> list_ex outcome_failed os)\<rparr>"

lemma update_same: "(\<And>x. f (g x) = f x) \<Longrightarrow> map f (xs[i := g (xs ! i)]) = map f xs"
  by (cases "i < length xs") (simp_all add: map_update list_update_same_conv list_update_beyond)

lemma strip_add_link [simp]: "strip_job (add_link p l j) = strip_job j"
proof -
  have t: "map strip_task (ts[i := (ts ! i)\<lparr>t_Links := links_add (t_Links (ts ! i)) l\<rparr>]) = map strip_task ts" for ts i
    by (rule update_same [where g = "\<lambda>t. t\<lparr>t_Links := links_add (t_Links t) l\<rparr>"]) simp
  show ?thesis
  proof (cases p)
    case (AtTask g i)
    have "map strip_group ((j_Groups j)[g := (\<lambda>tg. tg\<lparr>g_Tasks := (g_Tasks tg)[i := (g_Tasks tg ! i)\<lparr>t_Links :=
        links_add (t_Links (g_Tasks tg ! i)) l\<rparr>]\<rparr>) (j_Groups j ! g)]) = map strip_group (j_Groups j)"
      by (rule update_same) (simp add: strip_group_def t)
    then show ?thesis by (simp add: AtTask update_task_def update_group_def strip_job_def)
  qed simp_all
qed

context link_blind
begin

lemma value_same:
  assumes "strip_job j' = strip_job j" "place_ok p j"
  shows "piece_value r cl p j' x = piece_value r cl p j x"
proof (cases x)
  case (Var key)
  have e: "expand_variable r cl (strip_job k) (place_group p (strip_job k)) (place_task p (strip_job k)) key =
      expand_variable r cl k (place_group p k) (place_task p k) key" if "place_ok p k" for k
    unfolding strip_place [OF that] variable_blind ..
  from e [OF assms(2)] e [OF same_strip_place [OF assms]] show ?thesis by (simp add: piece_value_def Var assms(1))
qed (simp add: piece_value_def)

lemma replace_pieces_value:
  assumes "place_ok p j"
  shows "strip_job (vs_Job s) = strip_job j \<Longrightarrow>
    fst (replace_pieces r cl p ps s) = rbind (map_res (piece_value r cl p j) ps) (\<lambda>os. Inr (concat (map outcome_text os))) \<and>
    (\<forall>os. map_res (piece_value r cl p j) ps = Inr os \<longrightarrow> snd (replace_pieces r cl p ps s) = value_state p os s)"
proof (induction ps arbitrary: s)
  case Nil
  then show ?case by (simp add: value_state_def)
next
  case (Cons x ps)
  note same = value_same [OF Cons.prems assms]
  show ?case
  proof (cases x)
    case (Lit c)
    obtain v s1 where m: "replace_pieces r cl p ps s = (v, s1)" by fastforce
    have lit: "piece_value r cl p j (Lit c) = Inr (Text [c] False)" by (simp add: piece_value_def)
    from Cons.IH [OF Cons.prems] m show ?thesis
      by (cases "map_res (piece_value r cl p j) ps") (auto simp: Lit lit value_state_def)
  next
    case (Var key)
    have val: "expand_variable r cl (vs_Job s) (place_group p (vs_Job s)) (place_task p (vs_Job s)) key = piece_value r cl p j x"
      using same [of cl x] by (simp add: piece_value_def Var)
    show ?thesis
    proof (cases "piece_value r cl p j x")
      case (Inl e)
      then show ?thesis by (simp add: Var replace_variable_def val [unfolded Var])
    next
      case (Inr y)
      obtain s1 where s1: "apply_outcome p y s = (Inr (outcome_text y), s1)"
        "s1 = \<lparr>vs_Job = outcome_links p y (vs_Job s), vs_Failed = (vs_Failed s \<or> outcome_failed y)\<rparr>"
        by (cases y) auto
      have "strip_job (vs_Job s1) = strip_job j" using Cons.prems by (cases y) (simp_all add: s1(2))
      note IH = Cons.IH [OF this]
      obtain v s2 where m: "replace_pieces r cl p ps s1 = (v, s2)" by fastforce
      from IH m show ?thesis
        by (cases "map_res (piece_value r cl p j) ps")
          (auto simp: Var replace_variable_def val [unfolded Var] Inr [unfolded Var] s1 value_state_def)
    qed
  qed
qed

text \<open>A string is replaced by its pieces' values; links and errors are those of its variables.\<close>

lemma replace_string_value:
  assumes "place_ok p (vs_Job s)"
  shows "fst (replace_string r cl p input s) =
      rbind (map_res (piece_value r cl p (vs_Job s)) (pieces input)) (\<lambda>os. Inr (concat (map outcome_text os)))"
    "map_res (piece_value r cl p (vs_Job s)) (pieces input) = Inr os \<Longrightarrow>
      replace_string r cl p input s = (Inr (concat (map outcome_text os)), value_state p os s)"
proof -
  note e = replace_pieces_value [OF assms, of s cl "pieces input", simplified]
  show "fst (replace_string r cl p input s) =
      rbind (map_res (piece_value r cl p (vs_Job s)) (pieces input)) (\<lambda>os. Inr (concat (map outcome_text os)))"
    using e by (simp add: replace_string_def)
  show "replace_string r cl p input s = (Inr (concat (map outcome_text os)), value_state p os s)"
    if "map_res (piece_value r cl p (vs_Job s)) (pieces input) = Inr os"
    using e that by (simp add: replace_string_def prod_eq_iff)
qed

end

section \<open>A TCP link to another job\<close>

text \<open>The only failure of a variable is a panic.\<close>

lemma expand_variable_error: "expand_variable r cl j g t key = Inl e \<Longrightarrow> e = Panic"
  by (auto simp: expand_variable_def Let_def in_group_def in_task_def expand_links_def expand_link_tcp_def
      split: if_splits option.splits prod.splits sum.splits)

lemma map_res_panic:
  "x \<in> set xs \<Longrightarrow> f x = Inl Panic \<Longrightarrow> (\<And>x e. f x = Inl e \<Longrightarrow> e = Panic) \<Longrightarrow> map_res f xs = Inl Panic"
proof (induction xs)
  case (Cons y ys)
  show ?case
  proof (cases "f y")
    case (Inl e)
    with Cons.prems(3) show ?thesis by simp
  next
    case (Inr v)
    with Cons.prems have "x \<in> set ys" by auto
    with Cons.IH Cons.prems(2,3) Inr show ?thesis by simp
  qed
qed simp

lemma trim_space_head: "\<not> is_space c \<Longrightarrow> \<exists>r. trim_space (c # s) = c # r"
proof -
  assume c: "\<not> is_space c"
  have "dropWhile is_space (xs @ [c]) = dropWhile is_space xs @ [c]" for xs by (induction xs) (simp_all add: c)
  with c show ?thesis by (simp add: trim_space_def)
qed

lemma expand_link_key:
  assumes "CHR '' '' \<notin> set name" "CHR '' '' \<notin> set port" "t = Some (tg, x)"
  shows "expand_variable r cl j g t (''link_tcp '' @ name @ '' '' @ port) =
    expand_link_tcp r j tg x (variable_text (''link_tcp '' @ name @ '' '' @ port)) name port"
proof -
  let ?key = "''link_tcp '' @ name @ '' '' @ port"
  obtain k where k: "trim_space ?key = CHR ''l'' # k"
    using trim_space_head [of "CHR ''l''" "''ink_tcp '' @ name @ '' '' @ port"] by (auto simp: is_space_def)
  have "split_on CHR '' '' (''link_tcp'' @ CHR '' '' # (name @ CHR '' '' # port)) = [''link_tcp'', name, port]"
    using assms(1,2) by (subst split_on_append) (simp_all add: split_on_append split_on_free)
  then have p: "split_on CHR '' '' ?key = [''link_tcp'', name, port]" by simp
  have "expand_variable r cl j g t ?key = expand_links r j t ?key (variable_text ?key)"
    unfolding expand_variable_def k Let_def by simp
  also have "\<dots> = expand_link_tcp r j tg x (variable_text ?key) name port"
    unfolding expand_links_def p Let_def by (simp add: assms(3))
  finally show ?thesis .
qed

theorem link_tcp_other_job:
  assumes "place_ok p (vs_Job s)" "place_task p (vs_Job s) = Some (tg, t)"
    and "Var (''link_tcp '' @ name @ '' '' @ port) \<in> set (pieces input)" "CHR '' '' \<notin> set name" "CHR '' '' \<notin> set port"
    and "atoi port = Inr n" "link_parse name = ((jn, gn, tn, ''''), Inr ())" "jn \<noteq> j_Name (vs_Job s)"
  shows "fst (replace_string (k8s_renderer cl') cl p input s) = Inl Panic"
proof -
  let ?r = "k8s_renderer cl'" and ?j = "vs_Job s" and ?key = "''link_tcp '' @ name @ '' '' @ port"
  note ok = link_parse_parts [OF assms(7)]
  then have "jn \<noteq> ''''" "gn \<noteq> ''''" "tn \<noteq> ''''" by (auto dest: name_ok_not_Nil)
  then have target: "find_target ?j tg t name = new_link_name jn gn tn ''''" by (simp add: find_target_def assms(7))
  have parse: "link_parse (new_link_name jn gn tn '''') = ((jn, gn, tn, ''''), Inr ())" by (rule link_parse_new [OF ok])
  have "find_job_task ?j (new_link_name jn gn tn '''') = Inl TaskNotFoundError" using assms(8) by (simp add: find_job_task_def parse)
  moreover have "\<not> link_has_instance (new_link_name jn gn tn '''')" by (simp add: link_has_instance_def parse instance_is_empty_def)
  ultimately have "expand_link_tcp ?r ?j tg t (variable_text ?key) name port = Inl Panic"
    by (simp add: expand_link_tcp_def target assms(6) k8s_renderer_def Let_def)
  then have "piece_value ?r cl p ?j (Var ?key) = Inl Panic"
    using expand_link_key [OF assms(4,5,2)] by (simp add: piece_value_def)
  then have "map_res (piece_value ?r cl p ?j) (pieces input) = Inl Panic"
    by (rule map_res_panic [OF assms(3)]) (auto simp: piece_value_def dest: expand_variable_error split: piece.splits)
  then show ?thesis by (simp add: k8s_vars.replace_string_value(1) [OF assms(1)])
qed

end
