(* ===== verification/LoadLaws.thy ===== *)
theory LoadLaws
  imports VariableLaws
begin

text \<open>
  What loading a job guarantees: expanding variables keeps the names, counts and the order of groups and tasks,
  and a job that is loaded is valid, with the groups and tasks of the text it was read from.
\<close>

section \<open>The shape of a job\<close>

definition task_shape :: "task \<Rightarrow> string \<times> int \<times> string" where
  "task_shape t = (t_Name t, t_OriginalIndex t, t_Engine t)"

definition group_shape :: "task_group \<Rightarrow> string \<times> nat \<times> bool \<times> (string \<times> int \<times> string) list" where
  "group_shape tg = (g_Name tg, g_Count tg, g_Global tg, map task_shape (g_Tasks tg))"

definition job_shape :: "job \<Rightarrow> string \<times> string \<times> (string \<times> nat \<times> bool \<times> (string \<times> int \<times> string) list) list" where
  "job_shape j = (j_ID j, j_Name j, map group_shape (j_Groups j))"

lemma shape_update_group: "(\<And>tg. group_shape (f tg) = group_shape tg) \<Longrightarrow> job_shape (update_group g f j) = job_shape j"
  by (simp add: job_shape_def update_group_def update_same)

lemma shape_update_task: "(\<And>t. task_shape (f t) = task_shape t) \<Longrightarrow> job_shape (update_task g i f j) = job_shape j"
  unfolding update_task_def by (rule shape_update_group) (simp add: group_shape_def update_same)

lemma shape_add_link [simp]: "job_shape (add_link p l j) = job_shape j"
  by (cases p) (simp_all add: shape_update_task task_shape_def)

text \<open>Computations that keep the shape.\<close>

definition keeps_shape :: "('a res \<times> var_state) \<Rightarrow> var_state \<Rightarrow> bool" where
  "keeps_shape m s \<longleftrightarrow> job_shape (vs_Job (snd m)) = job_shape (vs_Job s)"

named_theorems shape_intros

lemma keeps_pure [shape_intros]: "keeps_shape (r, s) s"
  by (simp add: keeps_shape_def)

lemma keeps_sbind [shape_intros]:
  assumes "keeps_shape m s" "\<And>x s. keeps_shape (f x s) s"
  shows "keeps_shape (sbind m f) s"
  using assms by (cases m; cases "fst m") (auto simp: keeps_shape_def)

lemma keeps_variable [shape_intros]: "keeps_shape (replace_variable r cl p key s) s"
proof -
  have "keeps_shape (apply_outcome p x s) s" for x by (cases x) (simp_all add: keeps_shape_def)
  then show ?thesis by (auto simp: replace_variable_def keeps_pure split: sum.splits)
qed

lemma keeps_pieces [shape_intros]: "keeps_shape (replace_pieces r cl p ps s) s"
  by (induction r cl p ps s rule: replace_pieces.induct) (simp_all add: shape_intros)

lemma keeps_string: "keeps_shape (replace_string r cl p input s) s"
  by (simp add: replace_string_def shape_intros)

lemma keeps_list [shape_intros]: "(\<And>x s. keeps_shape (f x s) s) \<Longrightarrow> keeps_shape (replace_list f xs s) s"
  by (induction xs arbitrary: s) (simp_all add: shape_intros)

lemma keeps_pairs: "(\<And>x s. keeps_shape (f x s) s) \<Longrightarrow> keeps_shape (replace_pairs f kvs m s) s"
proof (induction kvs arbitrary: m s)
  case (Cons kv kvs)
  then show ?case by (cases kv) (simp add: shape_intros)
qed (simp add: shape_intros)

lemma keeps_map [shape_intros]: "(\<And>x s. keeps_shape (f x s) s) \<Longrightarrow> keeps_shape (replace_map f m s) s"
  unfolding replace_map_def by (rule keeps_pairs)

lemma keeps_field [shape_intros]: "(\<And>x s. keeps_shape (f x s) s) \<Longrightarrow> keeps_shape (on_field f get put x s) s"
  by (simp add: on_field_def shape_intros)

lemma keeps_fields: "(\<And>f x s. f \<in> set fs \<Longrightarrow> keeps_shape (f x s) s) \<Longrightarrow> keeps_shape (each_field fs x s) s"
  by (induction fs arbitrary: x s) (simp_all add: shape_intros)

lemma keeps_option [shape_intros]: "(\<And>x s. keeps_shape (f x s) s) \<Longrightarrow> keeps_shape (replace_option f x s) s"
  by (auto simp: replace_option_def shape_intros split: option.splits)

lemma keeps_records [shape_intros]:
  assumes "\<And>x s. keeps_shape (f x s) s"
  shows "keeps_shape (replace_image f img s) s" "keeps_shape (replace_volume f vol s) s"
    "keeps_shape (replace_user f usr s) s" "keeps_shape (replace_public_front_end f pf s) s"
    "keeps_shape (replace_private_front_end f vf s) s" "keeps_shape (replace_link f l s) s"
    "keeps_shape (replace_rewrite f rw s) s" "keeps_shape (replace_secret f sec s) s"
    "keeps_shape (replace_metrics f m s) s" "keeps_shape (replace_constraint f c s) s"
    "keeps_shape (replace_dependency f d s) s"
proof -
  have u: "keeps_shape (replace_user f usr s) s" for usr s unfolding replace_user_def by (intro keeps_field assms)
  then show "keeps_shape (replace_user f usr s) s" .
  note l = keeps_list [OF assms] keeps_list [OF u]
  have v: "keeps_shape (replace_private_front_end f vf s) s" for vf s
    unfolding replace_private_front_end_def by (rule keeps_fields) (auto intro!: keeps_field assms l)
  then show "keeps_shape (replace_private_front_end f vf s) s" .
  note l = l keeps_list [OF v]
  show "keeps_shape (replace_image f img s) s" "keeps_shape (replace_volume f vol s) s"
    "keeps_shape (replace_public_front_end f pf s) s" "keeps_shape (replace_link f l s) s"
    "keeps_shape (replace_rewrite f rw s) s" "keeps_shape (replace_secret f sec s) s"
    "keeps_shape (replace_metrics f m s) s" "keeps_shape (replace_constraint f c s) s" "keeps_shape (replace_dependency f d s) s"
    unfolding replace_image_def replace_volume_def replace_public_front_end_def replace_link_def replace_rewrite_def
      replace_secret_def replace_metrics_def replace_constraint_def replace_dependency_def
    by (rule keeps_fields; auto intro!: keeps_field assms l)+
qed

lemma keeps_set_field [shape_intros]:
  assumes "\<And>x s. keeps_shape (f x s) s" "\<And>v j. job_shape (put v j) = job_shape j"
  shows "keeps_shape (set_field f get put s) s"
  unfolding set_field_def by (rule keeps_sbind [OF assms(1)]) (simp add: keeps_shape_def assms(2))

lemma keeps_set_elements [shape_intros]:
  assumes "\<And>x s. keeps_shape (f x s) s" "\<And>v j. job_shape (put v j) = job_shape j"
  shows "keeps_shape (set_elements f get put s) s"
proof -
  have "keeps_shape (set_elements_from k xs f get put s) s" for k xs s
  proof (induction xs arbitrary: k s)
    case (Cons x xs)
    have "keeps_shape (set_elements_from (k + 1) xs f get put (s\<lparr>vs_Job := put v (vs_Job s)\<rparr>)) s" for v s
      using Cons [of "k + 1" "s\<lparr>vs_Job := put v (vs_Job s)\<rparr>"] by (simp add: keeps_shape_def assms(2))
    then show ?case by (simp add: keeps_sbind [OF assms(1)])
  qed (simp add: shape_intros)
  then show ?thesis by (simp add: set_elements_def)
qed

lemma keeps_each: "(\<And>x s. x \<in> set xs \<Longrightarrow> keeps_shape (f x s) s) \<Longrightarrow> keeps_shape (each_res f xs s) s"
  by (induction xs arbitrary: s) (simp_all add: shape_intros)

lemma keeps_errors [shape_intros]: "keeps_shape (context_errors s) s"
  by (simp add: context_errors_def keeps_shape_def)

lemma keeps_task: "keeps_shape (replace_task r cl g i s) s"
proof -
  note f = keeps_string [of r cl "AtTask g i"]
  note l = keeps_list [OF f] keeps_map [OF f] keeps_records [OF f] keeps_option [OF keeps_records(7) [OF f]]
    keeps_option [OF keeps_records(9) [OF f]]
  show ?thesis
    unfolding replace_task_def
  proof (rule keeps_each)
    fix step s assume "step \<in> set (task_steps (replace_string r cl (AtTask g i)) g i)"
    then show "keeps_shape (step s) s"
      unfolding task_steps_def set_task_def each_of_task_def to_task_def
      by (auto intro!: keeps_set_field keeps_set_elements keeps_errors f l shape_update_task simp: task_shape_def)
  qed
qed

lemma keeps_group: "keeps_shape (replace_group r cl g s) s"
proof -
  note f = keeps_string [of r cl "AtGroup g"]
  show ?thesis unfolding replace_group_def Let_def
    by (intro keeps_sbind keeps_each)
      (auto intro!: keeps_task keeps_set_field keeps_set_elements keeps_errors f keeps_records(10) [OF f] shape_update_group
        simp: group_shape_def)
qed

theorem replace_job_shape: "keeps_shape (replace_job r cl s) s"
proof -
  note f = keeps_string [of r cl AtJob]
  show ?thesis unfolding replace_job_def Let_def
    by (intro keeps_sbind keeps_each)
      (auto intro!: keeps_group keeps_set_elements keeps_errors f keeps_records(10,11) [OF f] simp: job_shape_def)
qed

section \<open>A loaded job\<close>

definition task_key :: "task \<Rightarrow> string \<times> int" where
  "task_key t = (t_Name t, t_OriginalIndex t)"

definition group_names :: "task_group \<Rightarrow> string \<times> (string \<times> int) multiset" where
  "group_names tg = (g_Name tg, mset (map task_key (g_Tasks tg)))"

definition job_names :: "job \<Rightarrow> (string \<times> (string \<times> int) multiset) multiset" where
  "job_names j = mset (map group_names (j_Groups j))"

lemma shape_names:
  assumes "job_shape j = job_shape k"
  shows "job_names j = job_names k" "j_Name j = j_Name k" "j_ID j = j_ID k"
proof -
  have "group_names tg = (\<lambda>(n, _, _, ts). (n, mset (map (\<lambda>(n, i, _). (n, i)) ts))) (group_shape tg)" for tg
    by (simp add: group_names_def group_shape_def task_shape_def task_key_def [abs_def] image_mset.compositionality comp_def)
  then have f: "map group_names gs = map (\<lambda>(n, _, _, ts). (n, mset (map (\<lambda>(n, i, _). (n, i)) ts))) (map group_shape gs)" for gs by simp
  have "map group_shape (j_Groups j) = map group_shape (j_Groups k)" using assms by (simp add: job_shape_def)
  then show "job_names j = job_names k" unfolding job_names_def f by (rule arg_cong)
  show "j_Name j = j_Name k" "j_ID j = j_ID k" using assms by (simp_all add: job_shape_def)
qed

lemma job_names_map:
  "(\<And>tg. group_names (f tg) = group_names tg) \<Longrightarrow> job_names (j\<lparr>j_Groups := map f (j_Groups j)\<rparr>) = job_names j"
  by (simp add: job_names_def image_mset.compositionality comp_def)

lemma set_defaults_names [simp]: "job_names (job_set_defaults cl j) = job_names j"
proof -
  have t: "task_key (task_set_defaults cl t) = task_key t" for t by (simp add: task_set_defaults_def task_key_def Let_def)
  show ?thesis unfolding job_set_defaults_def
    by (rule job_names_map) (simp add: group_names_def task_group_set_defaults_def image_mset.compositionality comp_def t)
qed

lemma link_names [simp]: "job_names (job_link j) = job_names j"
proof -
  have t: "map task_key (map (task_link j tg) ts) = map task_key ts" for tg ts by (simp add: task_link_def task_key_def)
  have "mset (map task_key (go_sort t_Name (map (task_link j tg) ts))) = mset (map task_key ts)" for tg ts
    using t [of tg ts] by (metis go_sort_simps(5) mset_map)
  then have g: "group_names (task_group_link j tg) = group_names tg" for tg
    by (simp add: group_names_def task_group_link_def)
  have "job_names (job_link j) = job_names (j\<lparr>j_Groups := map (task_group_link j) (j_Groups j)\<rparr>)"
    by (simp add: job_names_def job_link_def image_mset.compositionality)
  also have "\<dots> = job_names j" by (rule job_names_map [OF g])
  finally show ?thesis .
qed

lemma optimize_names [simp]: "job_names (job_optimize_for cl j) = job_names j"
  unfolding job_optimize_for_def by (rule job_names_map) (simp add: group_names_def task_group_optimize_for_def)

lemma map_res_map: "map_res f xs = Inr ys \<Longrightarrow> (\<And>x y. f x = Inr y \<Longrightarrow> g y = h x) \<Longrightarrow> map g ys = map h xs"
  by (induction xs arbitrary: ys) auto

context link_blind
begin

lemma normalize_names:
  assumes "map_res (normalize_group r) gs = Inr gs'"
  shows "map group_names gs' = map group_names gs"
proof (rule map_res_map [OF assms])
  fix tg tg' assume "normalize_group r tg = Inr tg'"
  then obtain ts where ts: "map_res (NormalizeTask r) (g_Tasks tg) = Inr ts" "tg' = tg\<lparr>g_Tasks := ts\<rparr>"
    by (auto simp: normalize_group_def)
  have "map task_key ts = map task_key (g_Tasks tg)" by (rule map_res_map [OF ts(1)]) (simp add: normalize_keeps task_key_def)
  then show "group_names tg' = group_names tg" by (simp add: group_names_def ts(2))
qed

end

text \<open>The steps of loading.\<close>

lemma load_job_steps:
  assumes "load_job r cl j = Inr k"
  obtains s gs where "replace_job r cl \<lparr>vs_Job = job_set_defaults cl j, vs_Failed = False\<rparr> = (Inr (), s)"
    "map_res (normalize_group r) (j_Groups (job_optimize_for cl (job_link (vs_Job s)))) = Inr gs"
    "k = (job_optimize_for cl (job_link (vs_Job s)))\<lparr>j_Groups := gs\<rparr>" "job_ok k"
  using assms by (auto simp: load_job_def Let_def job_validate_ok split: prod.splits sum.splits)

lemma link_optimize_sel [simp]:
  "j_Name (job_link j) = j_Name j" "j_ID (job_link j) = j_ID j" "j_Name (job_optimize_for cl j) = j_Name j"
  "j_ID (job_optimize_for cl j) = j_ID j" "j_Name (job_set_defaults cl j) = j_Name j" "j_ID (job_set_defaults cl j) = j_ID j"
  by (simp_all add: job_link_def job_optimize_for_def job_set_defaults_def)

theorem loaded_job:
  assumes "link_blind r" "load_job r cl j = Inr k"
  shows "job_ok k" "j_Name k = j_Name j" "j_ID k = j_ID j" "job_names k = job_names j"
proof -
  obtain s gs where l: "replace_job r cl \<lparr>vs_Job = job_set_defaults cl j, vs_Failed = False\<rparr> = (Inr (), s)"
    "map_res (normalize_group r) (j_Groups (job_optimize_for cl (job_link (vs_Job s)))) = Inr gs"
    "k = (job_optimize_for cl (job_link (vs_Job s)))\<lparr>j_Groups := gs\<rparr>" "job_ok k"
    by (rule load_job_steps [OF assms(2)])
  show "job_ok k" by (rule l(4))
  have sh: "job_shape (vs_Job s) = job_shape (job_set_defaults cl j)"
    using replace_job_shape [of r cl "\<lparr>vs_Job = job_set_defaults cl j, vs_Failed = False\<rparr>"] l(1) by (simp add: keeps_shape_def)
  note n = shape_names [OF sh]
  show "j_Name k = j_Name j" "j_ID k = j_ID j" using n(2,3) by (simp_all add: l(3))
  have "job_names k = job_names (job_optimize_for cl (job_link (vs_Job s)))"
    using link_blind.normalize_names [OF assms(1) l(2)] by (simp add: job_names_def l(3))
  then show "job_names k = job_names j" using n(1) by simp
qed

text \<open>A global group has at most one instance for every machine.\<close>

lemma optimized_global:
  assumes "0 \<le> InstanceCount cl" "InstanceCount cl < 2 ^ 63" "g_Global tg"
  shows "int_of_uint (g_Count (task_group_optimize_for cl tg)) \<le> InstanceCount cl"
proof -
  have "InstanceCount cl mod 2 ^ 64 = InstanceCount cl" using assms(1,2) by (intro mod_pos_pos_trivial) simp_all
  with assms show ?thesis by (simp add: task_group_optimize_for_def int_of_uint_def Let_def)
qed

theorem loaded_global:
  assumes "load_job r cl j = Inr k" "0 \<le> InstanceCount cl" "InstanceCount cl < 2 ^ 63" "tg \<in> set (j_Groups k)" "g_Global tg"
  shows "int_of_uint (g_Count tg) \<le> InstanceCount cl"
proof -
  obtain s gs where r: "replace_job r cl \<lparr>vs_Job = job_set_defaults cl j, vs_Failed = False\<rparr> = (Inr (), s)"
    and l: "map_res (normalize_group r) (j_Groups (job_optimize_for cl (job_link (vs_Job s)))) = Inr gs"
    "k = (job_optimize_for cl (job_link (vs_Job s)))\<lparr>j_Groups := gs\<rparr>" "job_ok k"
    by (rule load_job_steps [OF assms(1)])
  then have "tg \<in> set gs" using assms(4) by simp
  from map_res_set [OF l(1) this] obtain tg' where
    tg': "tg' \<in> set (j_Groups (job_link (vs_Job s)))" "normalize_group r (task_group_optimize_for cl tg') = Inr tg"
    by (auto simp: job_optimize_for_def)
  have opt: "g_Global (task_group_optimize_for cl tg') = g_Global tg'" by (simp add: task_group_optimize_for_def)
  from tg'(2) have "g_Count tg = g_Count (task_group_optimize_for cl tg')" "g_Global tg = g_Global tg'"
    by (auto simp: normalize_group_def opt)
  with optimized_global [OF assms(2,3)] assms(5) show ?thesis by simp
qed

text \<open>On Kubernetes no task is on the weave network.\<close>

theorem loaded_k8s_network:
  assumes "load_job (k8s_renderer cl') cl j = Inr k" "tg \<in> set (j_Groups k)" "t \<in> set (g_Tasks tg)"
  shows "t_Network t \<in> {NetworkTypeDefault, NetworkTypeHost}"
proof -
  obtain s gs where r: "replace_job (k8s_renderer cl') cl \<lparr>vs_Job = job_set_defaults cl j, vs_Failed = False\<rparr> = (Inr (), s)"
    and l: "map_res (normalize_group (k8s_renderer cl')) (j_Groups (job_optimize_for cl (job_link (vs_Job s)))) = Inr gs"
    "k = (job_optimize_for cl (job_link (vs_Job s)))\<lparr>j_Groups := gs\<rparr>" "job_ok k"
    by (rule load_job_steps [OF assms(1)])
  then have "tg \<in> set gs" using assms(2) by simp
  from map_res_set [OF l(1) this] obtain tg' where "normalize_group (k8s_renderer cl') tg' = Inr tg" by blast
  then obtain ts where "map_res (NormalizeTask (k8s_renderer cl')) (g_Tasks tg') = Inr ts" "tg = tg'\<lparr>g_Tasks := ts\<rparr>"
    by (auto simp: normalize_group_def)
  with assms(3) obtain t' where "NormalizeTask (k8s_renderer cl') t' = Inr t" using map_res_set by fastforce
  then have "t_Network t \<noteq> NetworkTypeWeave"
    by (auto simp: k8s_renderer_def k8s_normalize_task_def network_is_weave_def NetworkTypeWeave_def NetworkTypeDefault_def
        split: if_splits)
  moreover have "network_ok (t_Network t)"
    using group_ok_task [OF job_ok_group [OF l(3) assms(2)] assms(3)] by (simp add: task_ok_def)
  ultimately show ?thesis by (auto simp: network_ok_def)
qed

end
