(* ===== verification/ParserLaws.thy ===== *)
theory ParserLaws
  imports Parser LoadLaws
begin

text \<open>
  What reading a job guarantees: it is valid, and, for a file whose blocks do not use the keys of the fields that the
  parser sets itself, the tasks of a group have different names and are numbered from zero.
\<close>

section \<open>Decoders\<close>

text \<open>
  The name and the number of a task, the name and the tasks of a group and the groups of a job are meant to be
  excluded from decoding, but the tags that say so are not well-formed, so a key that matches the name of such a field sets it.
\<close>

definition reserved_key :: "string \<Rightarrow> bool" where
  "reserved_key k \<longleftrightarrow> to_lower k \<in> {''name'', ''originalindex'', ''tasks'', ''groups''}"

definition plain_keys :: "(string \<times> 'v) list \<Rightarrow> bool" where
  "plain_keys m \<longleftrightarrow> (\<forall>(k, v) \<in> set m. \<not> reserved_key k)"

definition plain_object :: "node \<Rightarrow> bool" where
  "plain_object n \<longleftrightarrow> (\<forall>(keys, v) \<in> set (node_items n). keys \<noteq> [] \<longrightarrow> \<not> reserved_key (keys ! 0))"

text \<open>The map of an object has the keys of its items, and decoding sets the fields of keys that are there.\<close>

definition plain_decoders :: "'v hcl \<Rightarrow> bool" where
  "plain_decoders h \<longleftrightarrow>
     (\<forall>obj m. hcl_Object h obj = Inr m \<longrightarrow> plain_object obj \<longrightarrow> plain_keys m) \<and>
     (\<forall>m j j'. plain_keys m \<longrightarrow> into_Job h m j = Inr j' \<longrightarrow> j_Groups j' = j_Groups j) \<and>
     (\<forall>m tg tg'. plain_keys m \<longrightarrow> into_Group h m tg = Inr tg' \<longrightarrow> g_Name tg' = g_Name tg \<and> g_Tasks tg' = g_Tasks tg) \<and>
     (\<forall>m t t'. plain_keys m \<longrightarrow> into_Task h m t = Inr t' \<longrightarrow> task_key (pt_Task t') = task_key (pt_Task t))"

lemma plain_update: "plain_keys m \<Longrightarrow> \<not> reserved_key k \<Longrightarrow> plain_keys (AList.update k v m)"
proof -
  assume "plain_keys m" "\<not> reserved_key k"
  then have "\<forall>x \<in> fst ` set (AList.update k v m). \<not> reserved_key x" by (auto simp: plain_keys_def dom_update)
  then show ?thesis by (force simp: plain_keys_def)
qed

lemma decode_into:
  assumes "plain_decoders h" "decode h into obj ex df x = Inr y" "plain_object obj" "plain_keys df"
  shows "\<exists>m. plain_keys m \<and> into m x = Inr y"
proof -
  have "plain_keys (fold (\<lambda>(k, v) m. if map_of m k = None then AList.update k v m else m) df m)" if "plain_keys m" for m
    using assms(4) that
  proof (induction df arbitrary: m)
    case (Cons kv df)
    obtain k v where kv: "kv = (k, v)" by fastforce
    from Cons.prems(1) have "\<not> reserved_key k" "plain_keys df" by (auto simp: plain_keys_def kv)
    with Cons.IH [OF this(2)] plain_update [OF Cons.prems(2), of k v] Cons.prems(2) show ?case by (cases "map_of m k") (simp_all add: kv)
  qed simp
  moreover have "plain_keys (filter P m)" if "plain_keys m" for P and m using that by (auto simp: plain_keys_def)
  moreover obtain m where m: "hcl_Object h obj = Inr m" using assms(2) by (auto simp: decode_def)
  moreover have "plain_keys m" using assms(1,3) m by (simp add: plain_decoders_def)
  ultimately show ?thesis using assms(2) by (auto simp: decode_def Let_def)
qed

lemma plain_default: "plain_keys [(''count'', v)]" "plain_keys []"
proof -
  have "\<not> reserved_key ''count''" by code_simp
  then show "plain_keys [(''count'', v)]" "plain_keys []" by (simp_all add: plain_keys_def)
qed

lemma plain_decode:
  assumes "plain_decoders h" "plain_object obj" "plain_keys df"
  shows "decode h (into_Job h) obj ex df j = Inr j' \<Longrightarrow> j_Groups j' = j_Groups j"
    "decode h (into_Group h) obj ex df tg = Inr tg' \<Longrightarrow> g_Name tg' = g_Name tg \<and> g_Tasks tg' = g_Tasks tg"
    "decode h (into_Task h) obj ex df t = Inr t' \<Longrightarrow> task_key (pt_Task t') = task_key (pt_Task t)"
  using decode_into [OF assms(1) _ assms(2,3)] assms(1) unfolding plain_decoders_def by metis+

text \<open>The blocks of a job file whose keys matter.\<close>

definition plain_tasks :: "item list \<Rightarrow> bool" where
  "plain_tasks items \<longleftrightarrow> (\<forall>(keys, obj) \<in> set items. plain_object obj)"

definition plain_group_block :: "node \<Rightarrow> bool" where
  "plain_group_block n \<longleftrightarrow> plain_object n \<and> plain_tasks (hcl_filter ''task'' (node_items n))"

definition plain_job_blocks :: "item list \<Rightarrow> bool" where
  "plain_job_blocks items \<longleftrightarrow> (\<forall>(keys, obj) \<in> set items. plain_group_block obj \<and>
     (\<forall>(keys, g) \<in> set (hcl_filter ''group'' (node_items obj)). plain_group_block g))"

section \<open>Tasks\<close>

text \<open>The sections of a task change neither its name nor its number.\<close>

definition keeps_key :: "(task \<Rightarrow> task res) \<Rightarrow> bool" where
  "keeps_key f \<longleftrightarrow> (\<forall>t t'. f t = Inr t' \<longrightarrow> task_key t' = task_key t)"

lemma keeps_key_fold: "\<forall>f \<in> set fs. keeps_key f \<Longrightarrow> fold_res (\<lambda>f. f) fs t = Inr t' \<Longrightarrow> task_key t' = task_key t"
proof (induction fs arbitrary: t)
  case (Cons f fs)
  then obtain t1 where "f t = Inr t1" "fold_res (\<lambda>f. f) fs t1 = Inr t'" by auto
  with Cons.IH [of t1] Cons.prems(1) show ?case by (auto simp: keeps_key_def)
qed simp

lemma keeps_key_section: "(\<And>items. keeps_key (f items)) \<Longrightarrow> keeps_key (on_section k obj f)"
  by (auto simp: keeps_key_def on_section_def Let_def split: if_splits)

lemma keeps_key_blocks: "(\<And>xs t. task_key (add xs t) = task_key t) \<Longrightarrow> keeps_key (append_blocks f pick add items)"
  by (auto simp: keeps_key_def append_blocks_def)

lemma keeps_key_strings: "(\<And>xs t. task_key (add xs t) = task_key t) \<Longrightarrow> keeps_key (append_strings f add items)"
  by (auto simp: keeps_key_def append_strings_def)

lemma keeps_key_image: "keeps_key (parse_image obj)"
  by (auto simp: keeps_key_def parse_image_def Let_def task_key_def split: if_splits option.splits)

lemma keeps_key_env: "keeps_key (parse_env h items)"
proof -
  have "task_key t' = task_key t" if "parse_env h items t = Inr t'" for t t'
    by (rule fold_res_invariant [OF that [unfolded parse_env_def], of "\<lambda>x. task_key x = task_key t"])
      (auto simp: task_key_def)
  then show ?thesis by (simp add: keeps_key_def)
qed

lemma keeps_key_folds: "task_key (merge_rewrites rs t) = task_key t" "task_key (last_metrics ms t) = task_key t"
  unfolding merge_rewrites_def last_metrics_def
  by (induction rs arbitrary: t, simp_all add: task_key_def) (induction ms arbitrary: t, simp_all add: task_key_def)

lemma task_sections_key: "\<forall>f \<in> set (task_sections h obj). keeps_key f"
  unfolding task_sections_def
  by (auto intro!: keeps_key_section keeps_key_blocks keeps_key_strings keeps_key_image keeps_key_env simp: task_key_def)

lemma late_sections_key: "\<forall>f \<in> set (late_sections h obj). keeps_key f"
proof -
  have "keeps_key (\<lambda>t. if 1 < length items then Inl ValidationError else append_blocks (parse_metrics h) hcl_elem last_metrics items t)"
    for items
  proof -
    have "keeps_key (append_blocks (parse_metrics h) hcl_elem last_metrics items)"
      by (rule keeps_key_blocks) (rule keeps_key_folds(2))
    then show ?thesis by (simp add: keeps_key_def)
  qed
  then show ?thesis unfolding late_sections_def
    by (auto intro!: keeps_key_section keeps_key_blocks simp: keeps_key_folds)
qed

lemma parse_task_key:
  assumes "plain_decoders h" "plain_object obj" "parse_task_body h anon obj t = Inr t'"
  shows "task_key (pt_Task t') = task_key (pt_Task t)"
proof -
  from assms(3) obtain t1 x cs y where
    t1: "decode h (into_Task h) obj excluded_task_keys [(''count'', hcl_Int h defaultCount)] t = Inr t1"
    and x: "fold_res (\<lambda>f. f) (task_sections h obj) (pt_Task t1) = Inr x"
    and y: "fold_res (\<lambda>f. f) (late_sections h obj) x = Inr y"
    and t': "t' = t1\<lparr>pt_Task := y, pt_Constraints := cs\<rparr>"
    by (auto simp: parse_task_body_def split: if_splits)
  with plain_decode(3) [OF assms(1,2) plain_default(1) t1] keeps_key_fold [OF task_sections_key x] keeps_key_fold [OF late_sections_key y]
  show ?thesis by simp
qed

text \<open>Blocks are read in their order, and their names are different.\<close>

lemma parse_named_names:
  assumes "\<And>n obj x. P obj \<Longrightarrow> f n obj = Inr x \<Longrightarrow> name x = n"
  shows "parse_named f seen items = Inr xs \<Longrightarrow> \<forall>(keys, obj) \<in> set items. P obj \<Longrightarrow>
    map name xs = map (\<lambda>i. fst i ! 0) items \<and> distinct (map name xs) \<and> set (map name xs) \<inter> set seen = {}"
proof (induction items arbitrary: seen xs)
  case (Cons i items)
  obtain keys n where i: "i = (keys, n)" by fastforce
  from Cons.prems(1) obtain x ys where x: "keys ! 0 \<notin> set seen" "f (keys ! 0) n = Inr x"
    "parse_named f (keys ! 0 # seen) items = Inr ys" "xs = x # ys"
    by (auto simp: i split: if_splits node.splits)
  have "P n" "\<forall>(keys, obj) \<in> set items. P obj" using Cons.prems(2) by (auto simp: i)
  note n = assms [OF this(1) x(2)] and IH = Cons.IH [OF x(3) this(2)]
  note m = conjunct1 [OF IH] and d = conjunct1 [OF conjunct2 [OF IH]] and e = conjunct2 [OF conjunct2 [OF IH]]
  have "map name xs = map (\<lambda>i. fst i ! 0) (i # items)" by (simp add: x(4) i n m)
  moreover have "distinct (map name xs)" unfolding x(4) list.map n distinct.simps using d e by (auto simp del: set_map)
  moreover have "set (map name xs) \<inter> set seen = {}" unfolding x(4) list.map n using e x(1) by (auto simp del: set_map)
  ultimately show ?case by blast
qed simp

lemma parse_named_each: "parse_named f seen items = Inr xs \<Longrightarrow> x \<in> set xs \<Longrightarrow> \<exists>(keys, obj) \<in> set items. f (keys ! 0) obj = Inr x"
proof (induction items arbitrary: seen xs)
  case (Cons i items)
  obtain keys n where i: "i = (keys, n)" by fastforce
  from Cons.prems(1) obtain y ys where y: "f (keys ! 0) n = Inr y" "parse_named f (keys ! 0 # seen) items = Inr ys" "xs = y # ys"
    by (auto simp: i split: if_splits node.splits)
  show ?case
  proof (cases "x = y")
    case True
    with y(1) show ?thesis by (auto simp: i)
  next
    case False
    with Cons.prems(2) y(3) have "x \<in> set ys" by simp
    with Cons.IH [OF y(2)] show ?thesis by auto
  qed
qed simp

lemma parsed_tasks:
  assumes "plain_decoders h" "plain_tasks items" "parse_tasks h anon items = Inr ts"
  shows "distinct (map (\<lambda>t. t_Name (pt_Task t)) ts)" "t \<in> set ts \<Longrightarrow> t_OriginalIndex (pt_Task t) = 0"
proof -
  let ?f = "\<lambda>n obj. parse_task_body h anon obj (zero_parse_task\<lparr>pt_Task := empty_task\<lparr>t_Name := n\<rparr>\<rparr>)"
  have pl: "\<forall>(keys, obj) \<in> set (hcl_children items). plain_object obj" using assms(2) by (auto simp: plain_tasks_def hcl_children_def)
  have key: "task_key (pt_Task x) = (n, 0)" if "plain_object obj" "?f n obj = Inr x" for n obj x
    using parse_task_key [OF assms(1) that] by (simp add: task_key_def empty_task_def)
  have "map (\<lambda>t. t_Name (pt_Task t)) ts = map (\<lambda>i. fst i ! 0) (hcl_children items) \<and>
      distinct (map (\<lambda>t. t_Name (pt_Task t)) ts) \<and> set (map (\<lambda>t. t_Name (pt_Task t)) ts) \<inter> set [] = {}"
    by (rule parse_named_names [where f = ?f and P = plain_object, OF _ assms(3) [unfolded parse_tasks_def] pl]) (use key in \<open>simp add: task_key_def\<close>)
  then show "distinct (map (\<lambda>t. t_Name (pt_Task t)) ts)" by blast
  show "t_OriginalIndex (pt_Task t) = 0" if "t \<in> set ts"
    using parse_named_each [OF assms(3) [unfolded parse_tasks_def] that] key pl by (fastforce simp: task_key_def)
qed

section \<open>Groups\<close>

definition tasks_numbered :: "task_group \<Rightarrow> bool" where
  "tasks_numbered tg \<longleftrightarrow> map t_OriginalIndex (g_Tasks tg) = map int [0..<length (g_Tasks tg)]"

lemma group_add_all_tasks:
  "group_add_all ts tg = Inr tg' \<Longrightarrow> tasks_numbered tg \<Longrightarrow>
     tasks_numbered tg' \<and> g_Name tg' = g_Name tg \<and>
     map t_Name (g_Tasks tg') = map t_Name (g_Tasks tg) @ map (\<lambda>t. t_Name (pt_Task t)) ts"
proof (induction ts tg rule: group_add_all.induct)
  case (2 t ts tg)
  then obtain cs where cs: "constraints_add (g_Constraints tg) (pt_Constraints t) = Inr cs" by auto
  let ?tg = "tg\<lparr>g_Tasks := g_Tasks tg @ [(pt_Task t)\<lparr>t_OriginalIndex := int (length (g_Tasks tg))\<rparr>], g_Constraints := cs\<rparr>"
  have "tasks_numbered ?tg" using 2(3) by (simp add: tasks_numbered_def)
  with 2(1) [OF cs] 2(2) cs show ?case by simp
qed simp

lemma parsed_group:
  assumes "plain_decoders h" "plain_group_block obj" "parse_group h n obj = Inr tg"
  shows "g_Name tg = n \<and> tasks_numbered tg \<and> distinct (map t_Name (g_Tasks tg))"
proof -
  have p: "plain_object obj" "plain_tasks (hcl_filter ''task'' (node_items obj))" using assms(2) by (simp_all add: plain_group_block_def)
  from assms(3) obtain t0 t1 where
    t0: "decode h (into_Group h) obj [''task'', ''constraint''] [(''count'', hcl_Int h defaultCount)] (zero_group\<lparr>g_Name := n\<rparr>) = Inr t0"
    and t1: "on_section ''task'' obj (\<lambda>items tg. rbind (parse_tasks h False items) (\<lambda>ts. group_add_all ts tg)) t0 = Inr t1"
    and tg: "on_section ''constraint'' obj (append_blocks (parse_constraint h) hcl_elem
       (\<lambda>cs tg. tg\<lparr>g_Constraints := g_Constraints tg @ cs\<rparr>)) t1 = Inr tg"
    by (auto simp: parse_group_def)
  have g0: "g_Name t0 = n" "g_Tasks t0 = []" using plain_decode(2) [OF assms(1) p(1) plain_default(1) t0] by (simp_all add: zero_group_def)
  have z: "tasks_numbered t0" by (simp add: tasks_numbered_def g0)
  have "g_Name t1 = n \<and> tasks_numbered t1 \<and> distinct (map t_Name (g_Tasks t1))"
    using t1 z g0 parsed_tasks(1) [OF assms(1) p(2)] by (auto simp: on_section_def Let_def dest!: group_add_all_tasks split: if_splits)
  moreover have "g_Name tg = g_Name t1 \<and> g_Tasks tg = g_Tasks t1"
    using tg by (auto simp: on_section_def append_blocks_def Let_def split: if_splits)
  ultimately show ?thesis by (simp add: tasks_numbered_def)
qed

section \<open>Jobs\<close>

text \<open>The groups of a job that has been read.\<close>

definition group_read :: "task_group \<Rightarrow> bool" where
  "group_read tg \<longleftrightarrow> tasks_numbered tg \<and> distinct (map t_Name (g_Tasks tg))"

lemma parsed_job:
  assumes "plain_decoders h" "plain_job_blocks items" "parse_job_list h items = Inr j"
  shows "\<forall>tg \<in> set (j_Groups j). group_read tg"
proof -
  obtain keys obj where k: "hcl_children items = [(keys, obj)]"
    using assms(3) by (auto simp: parse_job_list_def split: list.splits)
  obtain its where obj: "obj = NObject its"
    using assms(3) by (cases obj) (auto simp: parse_job_list_def k Let_def)
  have "(keys, obj) \<in> set items" using arg_cong [OF k, of set] by (auto simp: hcl_children_def)
  then have p: "plain_group_block obj" and g: "\<forall>(keys, g) \<in> set (hcl_filter ''group'' (node_items obj)). plain_group_block g"
    using assms(2) by (auto simp: plain_job_blocks_def)
  from assms(3) [unfolded parse_job_list_def k Let_def, simplified] obtain j0 j1 j2 j3 where
    j0: "decode h (into_Job h) obj [''group'', ''task'', ''constraint'', ''dependency''] [] zero_job = Inr j0"
    and j1: "on_section ''task'' obj (\<lambda>items j. rbind (parse_tasks h True items) (\<lambda>ts.
        Inr (j\<lparr>j_Groups := j_Groups j @ map group_of_task ts\<rparr>))) (j0\<lparr>j_Name := keys ! 0\<rparr>) = Inr j1"
    and j2: "on_section ''group'' obj (\<lambda>items j. rbind (masked (parse_named (parse_group h) [] (hcl_children items)))
        (\<lambda>gs. Inr (j\<lparr>j_Groups := j_Groups j @ gs\<rparr>))) j1 = Inr j2"
    and j3: "on_section ''constraint'' obj (append_blocks (parse_constraint h) hcl_elem
        (\<lambda>cs j. j\<lparr>j_Constraints := j_Constraints j @ cs\<rparr>)) j2 = Inr j3"
    and j: "on_section ''dependency'' obj (append_blocks (parse_dependency h) (\<lambda>items. items)
        (\<lambda>ds j. j\<lparr>j_Dependencies := j_Dependencies j @ ds\<rparr>)) j3 = Inr j"
    unfolding obj by auto
  have g0: "j_Groups j0 = []" using plain_decode(1) [OF assms(1) _ plain_default(2) j0] p by (simp add: zero_job_def plain_group_block_def)
  have task: "group_read (group_of_task t)" if "parse_tasks h True (hcl_filter ''task'' (node_items obj)) = Inr ts" "t \<in> set ts" for ts t
    using p parsed_tasks(2) [OF assms(1) _ that] by (simp add: group_read_def tasks_numbered_def group_of_task_def plain_group_block_def)
  have g1: "\<forall>tg \<in> set (j_Groups j1). group_read tg"
    using j1 g0 task by (auto simp: on_section_def Let_def split: if_splits)
  have group: "group_read tg" if "masked (parse_named (parse_group h) [] (hcl_children (hcl_filter ''group'' (node_items obj)))) = Inr gs" "tg \<in> set gs" for gs tg
  proof -
    have "parse_named (parse_group h) [] (hcl_children (hcl_filter ''group'' (node_items obj))) = Inr gs"
      using that(1) by (auto simp: masked_def split: sum.splits)
    from parse_named_each [OF this that(2)] obtain keys n where "(keys, n) \<in> set (hcl_filter ''group'' (node_items obj))"
      "parse_group h (keys ! 0) n = Inr tg" by (auto simp: hcl_children_def)
    with g parsed_group [OF assms(1)] show ?thesis by (auto simp: group_read_def)
  qed
  have "\<forall>tg \<in> set (j_Groups j2). group_read tg"
    using j2 g1 group by (auto simp: on_section_def Let_def split: if_splits)
  moreover have "j_Groups j = j_Groups j2"
    using j3 j by (auto simp: on_section_def append_blocks_def Let_def split: if_splits)
  ultimately show ?thesis by simp
qed

text \<open>A dependency block without a name panics.\<close>

lemma unnamed_dependency: "parse_dependency h ([], NObject items) = Inl Panic"
  by (simp add: parse_dependency_def as_object_def)

section \<open>A job file\<close>

lemma parse_job_steps:
  assumes "parse_job h r cl input = Inr k"
  obtains body items j where "hcl_Template h input = Inr body" "hcl_Parse h body = Inr (Some items)"
    "parse_job_list h (hcl_filter ''job'' items) = Inr j" "load_job r cl j = Inr k"
  using assms by (auto simp: parse_job_def Let_def split: option.splits if_splits)

text \<open>The numbers of the tasks are not negative, also after loading.\<close>

lemma numbered_keys:
  assumes "tasks_numbered tg" shows "\<forall>x \<in># snd (group_names tg). 0 \<le> snd x"
proof -
  have "0 \<le> t_OriginalIndex t" if "t \<in> set (g_Tasks tg)" for t
  proof -
    have "t_OriginalIndex t \<in> set (map t_OriginalIndex (g_Tasks tg))" using that by simp
    then show ?thesis using assms unfolding tasks_numbered_def by auto
  qed
  then show ?thesis by (auto simp: group_names_def task_key_def)
qed

theorem parsed_numbers:
  assumes "plain_decoders h" "link_blind r" "parse_job h r cl input = Inr k"
    and blocks: "\<And>body items. hcl_Template h input = Inr body \<Longrightarrow> hcl_Parse h body = Inr (Some items) \<Longrightarrow>
      plain_job_blocks (hcl_filter ''job'' items)"
    and t: "tg \<in> set (j_Groups k)" "t \<in> set (g_Tasks tg)"
  shows "0 \<le> t_OriginalIndex t"
proof -
  obtain body items j where i: "hcl_Template h input = Inr body" "hcl_Parse h body = Inr (Some items)"
    and j: "parse_job_list h (hcl_filter ''job'' items) = Inr j" "load_job r cl j = Inr k" by (rule parse_job_steps [OF assms(3)])
  note l = loaded_job [OF assms(2) j(2)]
  have "group_names tg \<in># job_names k" using t(1) by (simp add: job_names_def)
  then have "group_names tg \<in># job_names j" by (simp add: l(4))
  then obtain tg' where tg': "tg' \<in> set (j_Groups j)" "group_names tg' = group_names tg" by (auto simp: job_names_def)
  have "tasks_numbered tg'" using parsed_job [OF assms(1) blocks [OF i] j(1)] tg'(1) by (simp add: group_read_def)
  from numbered_keys [OF this] tg'(2) have "\<forall>x \<in># snd (group_names tg). 0 \<le> snd x" by simp
  moreover have "task_key t \<in># snd (group_names tg)" using t(2) by (simp add: group_names_def)
  ultimately show ?thesis by (auto simp: task_key_def)
qed

end
