(* ===== verification/LoadExamples.thy ===== *)
theory LoadExamples
  imports Examples ParserLaws
begin

text \<open>
  Inputs for the witnesses of reading a job: a decoder that fills in the count only, and a file with one task outside
  of a group.
\<close>

definition ex_tree :: "item list" where
  "ex_tree = [([''job'', ''shop''], NObject [([''task'', ''web''], NObject [([''image''], NString ''web'')])])]"

definition ex_hcl :: "int hcl" where
  "ex_hcl =
     \<lparr>hcl_Template = Inr, hcl_Parse = (\<lambda>_. Inr (Some ex_tree)), hcl_Object = (\<lambda>_. Inr []), hcl_Int = (\<lambda>i. i),
      into_Job = (\<lambda>_. Inr), into_Group = (\<lambda>_. Inr),
      into_Task = (\<lambda>m t. case map_of m ''count'' of None \<Rightarrow> Inr t | Some n \<Rightarrow> Inr (t\<lparr>pt_Count := nat n\<rparr>)),
      into_Env = (\<lambda>_. Inr), into_Link = (\<lambda>_. Inr), into_PublicFrontEnd = (\<lambda>_. Inr), into_PrivateFrontEnd = (\<lambda>_. Inr),
      into_User = (\<lambda>_. Inr), into_Secret = (\<lambda>_. Inr), into_Constraint = (\<lambda>_. Inr), into_Rewrite = (\<lambda>_. Inr),
      into_Metrics = (\<lambda>_. Inr), into_Dependency = (\<lambda>_. Inr), into_Cluster = (\<lambda>_. Inr), into_Docker = (\<lambda>_. Inr),
      into_Fleet = (\<lambda>_. Inr), into_Kubernetes = (\<lambda>_. Inr)\<rparr>"

lemma ex_hcl_plain: "plain_decoders ex_hcl"
  by (auto simp: plain_decoders_def ex_hcl_def plain_keys_def task_key_def split: option.splits)

lemma ex_file_read:
  "\<exists>k. parse_job ex_hcl (k8s_renderer ex_cluster) ex_cluster '''' = Inr k \<and> j_Name k = ''shop'' \<and> map g_Name (j_Groups k) = [''web'']"
proof -
  have "case parse_job ex_hcl (k8s_renderer ex_cluster) ex_cluster '''' of
      Inl _ \<Rightarrow> False | Inr k \<Rightarrow> j_Name k = ''shop'' \<and> map g_Name (j_Groups k) = [''web'']"
    by code_simp
  then show ?thesis by (auto split: sum.splits)
qed

definition ex_var_state :: var_state where
  "ex_var_state = \<lparr>vs_Job = ex_job, vs_Failed = False\<rparr>"

lemma ex_var_state_ok: "place_ok (AtTask 0 1) (vs_Job ex_var_state)"
  by code_simp

end
