(* ===== verification/Registrations.thy ===== *)
theory Registrations
  imports FleetTotal
begin

text \<open>
  What a complete main unit does to etcd: \<^verbatim>\<open>unit_main.go\<close> with
  \<^verbatim>\<open>frontend_registration.go\<close> and \<^verbatim>\<open>metrics_registration.go\<close>. The
  commands of a unit are text; \<open>etcd_set\<close> and \<open>etcd_rm\<close> are the two commands a
  registration consists of, and the lemmas show that the text determines the key and the record, which
  registrations the finished unit holds, and that its commands before the container is stopped remove just these.
\<close>

definition etcd_set :: "string \<Rightarrow> string \<Rightarrow> string" where
  "etcd_set k v =
     ''/bin/sh -c '' @ [CHR 0x27] @ ''echo '' @ base64_encode v @ '' | base64 -d | /usr/bin/etcdctl set '' @ k @ [CHR 0x27]"

definition etcd_rm :: "string \<Rightarrow> string" where
  "etcd_rm k = ''-/usr/bin/etcdctl rm '' @ k"

definition registers :: "sd_unit \<Rightarrow> string \<Rightarrow> string \<Rightarrow> bool" where
  "registers u k v \<longleftrightarrow> etcd_set k v \<in> set (ExecStartPost (ExecOptions u))"

definition unregisters :: "sd_unit \<Rightarrow> string \<Rightarrow> bool" where
  "unregisters u k \<longleftrightarrow> etcd_rm k \<in> set (ExecStop (ExecOptions u))"

section \<open>A command determines its key and record\<close>

lemma base64_no_space: "CHR '' '' \<notin> set (base64_encode s)"
  using base64_safe [of s] b64_alphabet_safe by auto

lemma base64_encode_inj: "base64_encode s = base64_encode s' \<Longrightarrow> s = s'"
  by (metis base64_round_trip)

lemma etcd_set_inj [simp]: "etcd_set k v = etcd_set k' v' \<longleftrightarrow> k = k' \<and> v = v'"
proof
  assume "etcd_set k v = etcd_set k' v'"
  then have e: "base64_encode v @ CHR '' '' # ''| base64 -d | /usr/bin/etcdctl set '' @ k @ [CHR 0x27] =
      base64_encode v' @ CHR '' '' # ''| base64 -d | /usr/bin/etcdctl set '' @ k' @ [CHR 0x27]"
    by (simp add: etcd_set_def)
  have "takeWhile (\<lambda>c. c \<noteq> CHR '' '') (base64_encode w @ CHR '' '' # r) = base64_encode w" for w r
    by (rule takeWhile_sep) (use base64_no_space in auto)
  then have "base64_encode v = base64_encode v'" using e by metis
  with e show "k = k' \<and> v = v'" using base64_encode_inj by auto
qed simp

lemma etcd_rm_inj [simp]: "etcd_rm k = etcd_rm k' \<longleftrightarrow> k = k'"
  by (simp add: etcd_rm_def)

section \<open>The commands of a unit\<close>

text \<open>The commands after the start and at the stop of a unit, which only registrations and the engine change.\<close>

definition hooks :: "sd_unit \<Rightarrow> string list \<times> string list" where
  "hooks u = (ExecStartPost (ExecOptions u), ExecStop (ExecOptions u))"

lemma hooks_update [simp]:
  "hooks (map_fleet f u) = hooks u" "hooks (project_setting k v u) = hooks u"
  "hooks (map_exec (exec_after ns) u) = hooks u" "hooks (map_exec (exec_require ns) u) = hooks u"
  "hooks (map_exec (exec_want ns) u) = hooks u" "hooks (require_and_after ns u) = hooks u"
  "hooks (add_fleet_options j fo u) = hooks u"
  by (simp_all add: hooks_def map_fleet_def project_setting_def map_exec_def exec_after_def exec_require_def
      exec_want_def require_and_after_def add_fleet_options_def)

lemma hooks_register [simp]:
  "hooks (register s k js u) = (fst (hooks u) @ [etcd_set k js], etcd_rm k # snd (hooks u))"
  by (simp add: hooks_def register_def etcd_set_def etcd_rm_def map_exec_def project_setting_def)

lemma hooks_conflict_with_group [simp]: "hooks (conflict_with_group j other u) = hooks u"
proof -
  have "hooks (fold (\<lambda>t u. map_fleet (f t) u) ts u) = hooks u" for f ts
    by (induction ts arbitrary: u) simp_all
  then show ?thesis by (simp add: conflict_with_group_def)
qed

lemma hooks_setup_constraints:
  assumes "setup_constraints j tg u = Inr v"
  shows "hooks v = hooks u"
proof -
  have step: "hooks (snd mu') = hooks (snd mu)" if "setup_constraint j c mu = Inr mu'" for c mu mu'
    using that by (cases mu) (auto simp: setup_constraint_def split: if_splits)
  obtain mu where mu: "fold_res (setup_constraint j) (merged_constraints j tg) ([], u) = Inr mu"
    and v: "hooks v = hooks (snd mu)"
    using assms by (auto simp: setup_constraints_def)
  from mu have "hooks (snd mu) = hooks u" by (elim fold_res_invariant) (auto dest: step)
  with v show ?thesis by simp
qed

lemma hooks_default_unit:
  assumes "create_default_unit ctx j tg t name d ty k = Inr u"
  shows "hooks u = ([], [])"
proof -
  have inst: "hooks v' = hooks v" if "setup_instance_constraints ctx j tg t k v = Inr v'" for v v'
    using that by (auto simp: setup_instance_constraints_def Let_def split: if_splits)
  have base: "hooks (map_exec (\<lambda>e. e\<lparr>Restart := r\<rparr>) (create_base_unit ctx j name d ty)) = ([], [])" for r
    using hooks_update(7)
    by (simp add: create_base_unit_def hooks_def map_exec_def new_exec_options_def)
  show ?thesis
    using assms base by (auto simp: create_default_unit_def Let_def split: if_splits
        dest!: hooks_setup_constraints inst)
qed

lemma hooks_with_cmds:
  assumes "with_cmds mk u = Inr v"
  obtains env cs where "mk (Environment (ExecOptions u)) = Inr (env, cs)"
    "hooks v = (fst (hooks u), snd (hooks u) @ (if cmds_Stop cs = [] then [] else [format_cmd (hd (cmds_Stop cs))]))"
  using assms that
  by (auto simp: with_cmds_def setup_unit_from_cmds_def hooks_def map_exec_def Let_def)

lemma main_cmds_stop:
  "create_main_cmds e images hash j tg t env sg = Inr (env', cs) \<Longrightarrow>
     cmds_Stop cs = [stop_cmd e (container_name j tg t sg), remove_cmd e (container_name j tg t sg)]"
  by (auto simp: create_main_cmds_def Let_def split: prod.splits)

section \<open>The registrations of a main unit\<close>

definition registrations ::
  "generator_context \<Rightarrow> job \<Rightarrow> task_group \<Rightarrow> task \<Rightarrow> frontend_record list \<Rightarrow> (string \<times> string) list" where
  "registrations ctx j tg t rs =
     (case t_Metrics t of
        None \<Rightarrow> []
      | Some m \<Rightarrow> [(metrics_key j tg t (gc_ScalingGroup ctx),
          metrics_json \<lparr>mr_ServiceName = target_service_name j tg t, mr_ServicePort = m_Port m,
            mr_MetricsPath = m_Path m, mr_RulesPath = m_RulesPath m\<rparr>)]) @
     map (\<lambda>r. (Key r, frontend_json (Record r))) rs"

lemma registrations_iff:
  "(k, v) \<in> set (registrations ctx j tg t rs) \<longleftrightarrow>
     (\<exists>r \<in> set rs. k = Key r \<and> v = frontend_json (Record r)) \<or>
     (\<exists>m. t_Metrics t = Some m \<and> k = metrics_key j tg t (gc_ScalingGroup ctx) \<and>
        v = metrics_json \<lparr>mr_ServiceName = target_service_name j tg t, mr_ServicePort = m_Port m,
          mr_MetricsPath = m_Path m, mr_RulesPath = m_RulesPath m\<rparr>)"
  by (cases "t_Metrics t") (auto simp: registrations_def)

lemma hooks_front_ends:
  "hooks (fold (\<lambda>r. register (ProjectSetting r) (Key r) (frontend_json (Record r))) rs u) =
     (fst (hooks u) @ map (\<lambda>r. etcd_set (Key r) (frontend_json (Record r))) rs,
      map (\<lambda>r. etcd_rm (Key r)) (rev rs) @ snd (hooks u))"
  by (induction rs arbitrary: u) simp_all

lemma main_unit_hooks:
  assumes "create_main_unit rd e ctx j tg t ns = Inr u"
  obtains rs where
    "create_front_end_records (rd_crypto rd) fleet_frontend_names j tg t (gc_ScalingGroup ctx) False = Inr rs"
    "hooks u = (map (\<lambda>(k, v). etcd_set k v) (registrations ctx j tg t rs),
       map (\<lambda>(k, v). etcd_rm k) (rev (registrations ctx j tg t rs)) @
         [format_cmd (stop_cmd e (container_name j tg t (gc_ScalingGroup ctx)))])"
proof -
  let ?sg = "gc_ScalingGroup ctx"
  let ?stop = "[format_cmd (stop_cmd e (container_name j tg t ?sg))]"
  obtain u0 u1 u2 u3 where u0: "create_default_unit ctx j tg t (unit_name j tg t unitKindMain ?sg)
        (unit_description j tg t ''Main'' ?sg) ''service'' unitKindMain = Inr u0"
    and u1: "with_cmds (\<lambda>env. create_main_cmds e (rd_images rd) (rd_secret_hash rd) j tg t env ?sg) u0 = Inr u1"
    and u2: "u2 = (if t_Type t = ''oneshot''
                    then map_exec (\<lambda>x. x\<lparr>IsOneshot := True, Restart := ''on-failure''\<rparr>) u1
                    else map_exec (\<lambda>x. x\<lparr>Restart := ''always''\<rparr>) u1)"
    and u3: "fold_res (require_volumes_from ctx j tg) (t_VolumesFrom t) (require_and_after ns u2) = Inr u3"
    and u: "add_front_end_registration rd ctx j tg t (add_metrics_registration ctx j tg t u3) = Inr u"
    using assms by (auto simp: create_main_unit_def Let_def simp del: fold_res.simps)
  have h1: "hooks u1 = ([], ?stop)"
    by (rule hooks_with_cmds [OF u1]) (auto dest!: main_cmds_stop simp: hooks_default_unit [OF u0])
  then have h2: "hooks u2 = ([], ?stop)" by (simp add: u2 hooks_def map_exec_def)
  from u3 have h3: "hooks u3 = hooks (require_and_after ns u2)"
    by (elim fold_res_invariant) (auto simp: require_volumes_from_def)
  from u obtain rs where
    rs: "create_front_end_records (rd_crypto rd) fleet_frontend_names j tg t ?sg False = Inr rs"
    and u': "u = fold (\<lambda>r. register (ProjectSetting r) (Key r) (frontend_json (Record r))) rs
      (add_metrics_registration ctx j tg t u3)"
    by (auto simp: add_front_end_registration_def)
  show thesis
    by (rule that [OF rs])
      (simp add: u' hooks_front_ends add_metrics_registration_def registrations_def h3 h2 rev_map comp_def
        split: option.split)
qed

text \<open>No key is registered twice, and the command that stops the container is none of the removals.\<close>

lemma metrics_key_not_frontend: "metrics_key j tg t sg \<noteq> frontend_key sn sg' k"
  by (simp add: metrics_key_def frontend_key_def)

lemma registrations_distinct:
  assumes "create_front_end_records c fleet_frontend_names j tg t sg po = Inr rs"
  shows "distinct (map fst (registrations ctx j tg t rs))"
proof -
  obtain sn target d where n: "CreateServiceName fleet_frontend_names j tg t = Inr sn"
    "CreateTargetServiceName fleet_frontend_names j tg t = Inr target"
    "CreatePrivateDomainNames fleet_frontend_names j tg t = Inr d"
    by (simp add: fleet_frontend_names_def)
  from create_front_end_records_ok [OF assms n refl]
  obtain v where rs: "rs = frontend_records_of sn sg v" by blast
  have "metrics_key j tg t (gc_ScalingGroup ctx) \<notin> Key ` set rs"
    using frontend_records_keys [of _ sn sg v] metrics_key_not_frontend unfolding rs by (metis imageE)
  with frontend_records_distinct(1) [of sn sg v]
  show ?thesis by (simp add: rs registrations_def comp_def image_image split: option.split)
qed

lemma format_stop_cmd:
  "format_cmd (stop_cmd e n) = ''-'' @ dockerPath e @ '' stop -t '' @ itoa (containerTimeoutStopSec e) @ '' '' @ n"
  by (simp add: format_cmd_def stop_cmd_def failing_cmdline_def cmd_add_nil_def cmd_string_def del: cmd_add.simps)

lemma stop_is_no_removal:
  "new_engine ctx t = Inr e \<Longrightarrow> format_cmd (stop_cmd e n) \<noteq> etcd_rm k"
  by (auto simp: new_engine_def new_docker_engine_def etcd_rm_def format_stop_cmd split: if_splits)

lemma main_unit_registers:
  assumes "new_engine ctx t = Inr e" "create_main_unit rd e ctx j tg t ns = Inr u"
  obtains rs where
    "create_front_end_records (rd_crypto rd) fleet_frontend_names j tg t (gc_ScalingGroup ctx) False = Inr rs"
    "\<And>k v. registers u k v \<longleftrightarrow> (k, v) \<in> set (registrations ctx j tg t rs)"
    "\<And>k. unregisters u k \<longleftrightarrow> (\<exists>v. registers u k v)"
    "\<And>k v v'. registers u k v \<Longrightarrow> registers u k v' \<Longrightarrow> v = v'"
    "last (ExecStop (ExecOptions u)) = format_cmd (stop_cmd e (container_name j tg t (gc_ScalingGroup ctx)))"
proof -
  obtain rs where
    rs: "create_front_end_records (rd_crypto rd) fleet_frontend_names j tg t (gc_ScalingGroup ctx) False = Inr rs"
    and h: "hooks u = (map (\<lambda>(k, v). etcd_set k v) (registrations ctx j tg t rs),
       map (\<lambda>(k, v). etcd_rm k) (rev (registrations ctx j tg t rs)) @
         [format_cmd (stop_cmd e (container_name j tg t (gc_ScalingGroup ctx)))])"
    using main_unit_hooks [OF assms(2)] by blast
  have r: "registers u k v \<longleftrightarrow> (k, v) \<in> set (registrations ctx j tg t rs)" for k v
    using h by (force simp: registers_def hooks_def)
  have n: "etcd_rm k \<noteq> format_cmd (stop_cmd e n)" for k n
    using stop_is_no_removal [OF assms(1), of n k] by simp
  have d: "unregisters u k \<longleftrightarrow> (\<exists>v. (k, v) \<in> set (registrations ctx j tg t rs))" for k
    using arg_cong [OF h, of snd] by (auto simp: unregisters_def hooks_def n image_iff intro: rev_bexI)
  note unique = eq_key_imp_eq_value [OF registrations_distinct [OF rs]]
  have stop: "last (ExecStop (ExecOptions u)) =
      format_cmd (stop_cmd e (container_name j tg t (gc_ScalingGroup ctx)))"
    using h by (simp add: hooks_def)
  show thesis by (rule that [OF rs r _ _ stop]) (use r d unique in blast)+
qed

section \<open>The units of a task\<close>

text \<open>The proxies, volumes and the timer of a task register nothing.\<close>

lemma silent_hooks:
  assumes "new_engine ctx t = Inr e" "fst (hooks u) = []" "set (snd (hooks u)) \<subseteq> range (\<lambda>n. format_cmd (stop_cmd e n))"
  shows "\<not> registers u k v" "\<not> unregisters u k"
proof -
  show "\<not> registers u k v" using assms(2) by (simp add: registers_def hooks_def)
  have "etcd_rm k \<notin> range (\<lambda>n. format_cmd (stop_cmd e n))"
    using stop_is_no_removal [OF assms(1), of _ k] by (metis rangeE)
  with assms(3) show "\<not> unregisters u k" by (auto simp: unregisters_def hooks_def)
qed

lemma proxy_cmds_stop:
  "create_proxy_cmds e images j tg t l i env sg = Inr (env', cs) \<Longrightarrow> \<exists>n. hd (cmds_Stop cs) = stop_cmd e n"
  by (auto simp: create_proxy_cmds_def Let_def split: prod.splits)

lemma volume_cmds_stop:
  "create_volume_cmds e j tg t vol i p h env sg = Inr (env', cs) \<Longrightarrow> \<exists>n. hd (cmds_Stop cs) = stop_cmd e n"
  by (auto simp: create_volume_cmds_def Let_def split: prod.splits)

lemma proxy_unit_silent:
  assumes "create_proxy_unit rd e ctx j tg t l i = Inr u"
  shows "fst (hooks u) = [] \<and> set (snd (hooks u)) \<subseteq> range (\<lambda>n. format_cmd (stop_cmd e n))"
proof -
  obtain u0 d n k where u0: "create_default_unit ctx j tg t n d ''service'' k = Inr u0"
    and u: "with_cmds (\<lambda>env. create_proxy_cmds e (rd_images rd) j tg t l i env (gc_ScalingGroup ctx))
        (map_exec stop_when_unneeded u0) = Inr u"
    using assms by (auto simp: create_proxy_unit_def Let_def)
  have "hooks (map_exec stop_when_unneeded u0) = ([], [])"
    using hooks_default_unit [OF u0] by (simp add: hooks_def map_exec_def stop_when_unneeded_def)
  then show ?thesis by - (rule hooks_with_cmds [OF u], auto dest: proxy_cmds_stop)
qed

lemma volume_unit_silent:
  assumes "create_volume_unit e ctx j tg t v i = Inr u"
  shows "fst (hooks u) = [] \<and> set (snd (hooks u)) \<subseteq> range (\<lambda>n. format_cmd (stop_cmd e n))"
proof -
  obtain u0 d n k p h where u0: "create_default_unit ctx j tg t n d ''service'' k = Inr u0"
    and u: "with_cmds (\<lambda>env. create_volume_cmds e j tg t v i p h env (gc_ScalingGroup ctx)) u0 = Inr u"
    using assms by (auto simp: create_volume_unit_def Let_def)
  show ?thesis by (rule hooks_with_cmds [OF u]) (auto dest: volume_cmds_stop simp: hooks_default_unit [OF u0])
qed

lemma proxy_units_all:
  "create_proxy_units rd e ctx j tg t ls i = Inr us \<Longrightarrow> u \<in> set us \<Longrightarrow> \<exists>l i. create_proxy_unit rd e ctx j tg t l i = Inr u"
  by (induction ls arbitrary: i us) (auto split: if_splits, blast)

lemma volume_units_all:
  "create_volume_units e ctx j tg t vs i = Inr us \<Longrightarrow> u \<in> set us \<Longrightarrow> \<exists>v i. create_volume_unit e ctx j tg t v i = Inr u"
  by (induction vs arbitrary: i us) (auto split: if_splits, blast)

lemma timer_unit_silent:
  "create_timer_unit ctx j tg t = Some u \<Longrightarrow> hooks u = ([], [])"
  by (auto simp: create_timer_unit_def create_base_unit_def hooks_def add_fleet_options_def map_exec_def
      exec_after_def exec_require_def exec_want_def new_exec_options_def Let_def split: if_splits)

lemma task_units_register:
  assumes "create_task_units rd ctx j tg t = Inr uss"
  obtains rs where
    "create_front_end_records (rd_crypto rd) fleet_frontend_names j tg t (gc_ScalingGroup ctx) False = Inr rs"
    "\<And>k v. (\<exists>u \<in> set (concat uss). registers u k v) \<longleftrightarrow> (k, v) \<in> set (registrations ctx j tg t rs)"
    "\<And>u k. u \<in> set (concat uss) \<Longrightarrow> unregisters u k \<longleftrightarrow> (\<exists>v. registers u k v)"
    "\<And>k v v'. (k, v) \<in> set (registrations ctx j tg t rs) \<Longrightarrow> (k, v') \<in> set (registrations ctx j tg t rs) \<Longrightarrow> v = v'"
    "\<And>u k v. u \<in> set (concat uss) \<Longrightarrow> registers u k v \<Longrightarrow>
       \<exists>e. new_engine ctx t = Inr e \<and>
         last (ExecStop (ExecOptions u)) = format_cmd (stop_cmd e (container_name j tg t (gc_ScalingGroup ctx)))"
proof -
  obtain e ps vs main where e: "new_engine ctx t = Inr e"
    and ps: "create_proxy_units rd e ctx j tg t (t_Links t) 0 = Inr ps"
    and vs: "create_volume_units e ctx j tg t (t_Volumes t) 0 = Inr vs"
    and main: "create_main_unit rd e ctx j tg t (map FullName (ps @ vs)) = Inr main"
    and uss: "uss = (ps @ vs @ [main]) # (case create_timer_unit ctx j tg t of None \<Rightarrow> [] | Some timer \<Rightarrow> [[timer]])"
    using assms by (auto simp: create_task_units_def)
  obtain rs where
    rs: "create_front_end_records (rd_crypto rd) fleet_frontend_names j tg t (gc_ScalingGroup ctx) False = Inr rs"
    and r: "\<And>k v. registers main k v \<longleftrightarrow> (k, v) \<in> set (registrations ctx j tg t rs)"
    and d: "\<And>k. unregisters main k \<longleftrightarrow> (\<exists>v. registers main k v)"
    and stop: "last (ExecStop (ExecOptions main)) =
      format_cmd (stop_cmd e (container_name j tg t (gc_ScalingGroup ctx)))"
    by (rule main_unit_registers [OF e main]) (rule that; assumption)
  have "u = main \<or> fst (hooks u) = [] \<and> set (snd (hooks u)) \<subseteq> range (\<lambda>n. format_cmd (stop_cmd e n))"
    if "u \<in> set (concat uss)" for u
  proof -
    from that consider "u \<in> set ps" | "u \<in> set vs" | "u = main" | "create_timer_unit ctx j tg t = Some u"
      by (auto simp: uss split: option.splits)
    then show ?thesis
    proof cases
      case 1 then show ?thesis using proxy_units_all [OF ps] proxy_unit_silent by metis
    next
      case 2 then show ?thesis using volume_units_all [OF vs] volume_unit_silent by metis
    next
      case 4 then show ?thesis using timer_unit_silent by simp
    qed simp
  qed
  then have other: "u = main \<or> (\<forall>k v. \<not> registers u k v \<and> \<not> unregisters u k)" if "u \<in> set (concat uss)" for u
    using that silent_hooks [OF e] by blast
  have m: "main \<in> set (concat uss)" by (simp add: uss)
  note unique = eq_key_imp_eq_value [OF registrations_distinct [OF rs]]
  show thesis by (rule that [OF rs _ _ unique]) (use r d e stop other m in blast)+
qed

end
