(* ===== verification/StateUI.thy ===== *)
theory StateUI
  imports Deployment
begin

text \<open>
  The questions of \<^verbatim>\<open>deployment/state_ui.go\<close>. A question reads lines of input until one
  confirms it; the answer \<^verbatim>\<open>all\<close> also confirms the questions that follow. The deployment
  only sees whether each question was confirmed, which is an answer in its \<open>world\<close>.
\<close>

record state_ui =
  ui_autoConfirm :: bool
  ui_lines :: "string list"

text \<open>The lines that are left to read; the end of the input is an error. The lines are typed one at a time: the code makes a new
  buffered reader for every line, so of input that is piped in as a whole it would lose what the reader before had buffered.\<close>

fun confirm_lines :: "string list \<Rightarrow> unit res \<times> state_ui" where
  "confirm_lines [] = (Inl UserAbort, \<lparr>ui_autoConfirm = False, ui_lines = []\<rparr>)"
| "confirm_lines (line # lines) =
     (if line = ''yes'' \<or> line = ''y'' then (Inr (), \<lparr>ui_autoConfirm = False, ui_lines = lines\<rparr>)
      else if line = ''all'' \<or> line = ''a'' then (Inr (), \<lparr>ui_autoConfirm = True, ui_lines = lines\<rparr>)
      else confirm_lines lines)"

definition ui_confirm :: "state_ui \<Rightarrow> unit res \<times> state_ui" where
  "ui_confirm ui = (if ui_autoConfirm ui then (Inr (), ui) else confirm_lines (ui_lines ui))"

definition new_state_ui :: "string list \<Rightarrow> state_ui" where
  "new_state_ui lines = \<lparr>ui_autoConfirm = False, ui_lines = lines\<rparr>"

section \<open>Answers\<close>

text \<open>The outcomes of the next questions.\<close>

fun answers_of :: "nat \<Rightarrow> state_ui \<Rightarrow> bool list" where
  "answers_of 0 ui = []"
| "answers_of (Suc n) ui = (case ui_confirm ui of (r, ui') \<Rightarrow> is_ok r # answers_of n ui')"

definition confirming :: "string \<Rightarrow> bool" where
  "confirming line \<longleftrightarrow> line \<in> {''yes'', ''y'', ''all'', ''a''}"

lemma confirm_lines_iff: "is_ok (fst (confirm_lines lines)) \<longleftrightarrow> (\<exists>l \<in> set lines. confirming l)"
  by (induction lines rule: confirm_lines.induct) (auto simp: confirming_def)

text \<open>
  A question fails only when the input ends without a confirming line; no line refuses it, although the prompt offers
  \<^verbatim>\<open>no\<close>.
\<close>

lemma ui_confirm_iff: "is_ok (fst (ui_confirm ui)) \<longleftrightarrow> ui_autoConfirm ui \<or> (\<exists>l \<in> set (ui_lines ui). confirming l)"
  by (simp add: ui_confirm_def confirm_lines_iff)

lemma refusal_ignored:
  assumes "\<not> confirming line" shows "confirm_lines (line # lines) = confirm_lines lines"
  using assms by (simp add: confirming_def)

lemma confirm_lines_error: "fst (confirm_lines lines) = Inl e \<Longrightarrow> e = UserAbort \<and> ui_lines (snd (confirm_lines lines)) = []"
  by (induction lines rule: confirm_lines.induct) (auto split: if_splits)

text \<open>After \<^verbatim>\<open>all\<close> every question is confirmed.\<close>

lemma answers_auto: "ui_autoConfirm ui \<Longrightarrow> answers_of n ui = replicate n True"
  by (induction n) (simp_all add: ui_confirm_def)

text \<open>The deployment's \<open>confirm\<close> over these answers is the question of the user interface.\<close>

theorem confirm_refines:
  assumes "w_answers w = answers_of (Suc n) ui" "ui_confirm ui = (r, ui')"
  shows "confirm w = (r, w\<lparr>w_answers := answers_of n ui'\<rparr>)"
proof -
  have e: "r = (if is_ok r then Inr () else Inl UserAbort)"
    using assms(2) confirm_lines_error [of "ui_lines ui"] by (cases r) (auto simp: ui_confirm_def split: if_splits)
  show ?thesis using assms e by (auto simp: confirm_def)
qed

end
