(* ===== verification/Options.thy ===== *)
theory Options
  imports Names Clusters Paths "HOL-Library.AList"
begin

text \<open>
  The options of a deployment (\<^verbatim>\<open>flags/options.go\<close>) and the functions a job template can call
  (\<^verbatim>\<open>jobs/functions.go\<close>). The environment, the files and the decoding of an option text by
  \<^verbatim>\<open>hcl\<close> are arguments.
\<close>

section \<open>Options\<close>

text \<open>
  The values \<^verbatim>\<open>hcl\<close> decodes into an \<^verbatim>\<open>interface{}\<close>: a string, a list, a
  map, a list of maps, or a value of another type, such as a number.
\<close>

datatype option_value =
    VString string | VList "option_value list" | VMap "(string \<times> option_value) list"
  | VMaps "(string \<times> option_value) list list" | VOther

type_synonym options = "(string \<times> option_value) list"

definition upper_char :: "char \<Rightarrow> char" where
  "upper_char c = (if 97 \<le> (of_char c :: nat) \<and> (of_char c :: nat) \<le> 122 then char_of (of_char c - 32 :: nat) else c)"

definition env_key :: "string \<Rightarrow> string" where
  "env_key key = map upper_char (replace_char CHR ''-'' CHR ''_'' key)"

definition options_get :: "(string \<Rightarrow> string) \<Rightarrow> options \<Rightarrow> string \<Rightarrow> option_value option" where
  "options_get getenv opts key =
     (case map_of opts key of
        Some v \<Rightarrow> Some v
      | None \<Rightarrow> (let value = getenv (env_key key) in if value \<noteq> '''' then Some (VString value) else None))"

definition set_key_value :: "string \<Rightarrow> option_value \<Rightarrow> options \<Rightarrow> options" where
  "set_key_value key value opts = AList.update key value opts"

text \<open>A list of one map counts as the map.\<close>

fun single_map :: "option_value \<Rightarrow> option_value" where
  "single_map (VMaps [m]) = VMap m"
| "single_map v = v"

definition options_parse :: "(string \<Rightarrow> (string \<times> option_value) list res) \<Rightarrow> string \<Rightarrow> options \<Rightarrow> options res" where
  "options_parse decode_text content opts =
     rbind (decode_text content) (\<lambda>m. Inr (fold (\<lambda>(k, v). set_key_value k (single_map v)) m opts))"

text \<open>The text before and after the first equals sign.\<close>

definition parse_key_value :: "(string \<Rightarrow> (string \<times> option_value) list res) \<Rightarrow> string \<Rightarrow> options \<Rightarrow> options res" where
  "parse_key_value decode_text raw opts =
     (case options_parse decode_text raw opts of
        Inr opts' \<Rightarrow> Inr opts'
      | Inl _ \<Rightarrow>
          (case dropWhile (\<lambda>c. c \<noteq> CHR ''='') raw of
             [] \<Rightarrow> Inl OtherError
           | _ # v \<Rightarrow> Inr (set_key_value (takeWhile (\<lambda>c. c \<noteq> CHR ''='') raw) (VString v) opts)))"

definition options_set ::
  "(string \<Rightarrow> (string \<times> option_value) list res) \<Rightarrow> (string \<Rightarrow> string res) \<Rightarrow> string \<Rightarrow> options \<Rightarrow> options res" where
  "options_set decode_text read_file raw opts =
     (if CHR ''='' \<in> set raw then parse_key_value decode_text raw opts
      else (case rbind (read_file raw) (\<lambda>content. options_parse decode_text content opts) of
              Inl _ \<Rightarrow> Inl InvalidOptionError
            | Inr opts' \<Rightarrow> Inr opts'))"

section \<open>Quoting\<close>

text \<open>
  \<^verbatim>\<open>strconv.Quote\<close> for text whose bytes above 127 belong to printable characters: a control
  character becomes its short form or two hexadecimal digits.
\<close>

definition hex_digit :: "nat \<Rightarrow> char" where
  "hex_digit n = ''0123456789abcdef'' ! n"

definition short_escapes :: "(nat \<times> char) list" where
  "short_escapes = [(7, CHR ''a''), (8, CHR ''b''), (12, CHR ''f''), (10, CHR ''n''), (13, CHR ''r''), (9, CHR ''t''), (11, CHR ''v''),
     (34, CHR 0x22), (92, CHR 0x5C)]"

definition quote_char :: "char \<Rightarrow> string" where
  "quote_char c =
     (let n = of_char c :: nat
      in case map_of short_escapes n of
           Some e \<Rightarrow> [CHR 0x5C, e]
         | None \<Rightarrow> if n < 32 \<or> n = 127 then [CHR 0x5C, CHR ''x'', hex_digit (n div 16), hex_digit (n mod 16)] else [c])"

definition go_quote :: "string \<Rightarrow> string" where
  "go_quote s = CHR 0x22 # concat (map quote_char s) @ [CHR 0x22]"

section \<open>Template functions\<close>

definition get_env :: "(string \<Rightarrow> string) \<Rightarrow> string \<Rightarrow> string res" where
  "get_env getenv key = (let value = getenv key in if value = '''' then Inl ValidationError else Inr value)"

text \<open>The entries of a map come in the order of the iteration over it.\<close>

fun format_option_value :: "option_value \<Rightarrow> bool \<Rightarrow> string res" where
  "format_option_value (VString s) quote = Inr (if quote then go_quote s else s)"
| "format_option_value (VList l) quote =
     rbind (map_res (\<lambda>e. format_option_value e True) l) (\<lambda>result. Inr (''['' @ join '', '' result @ '']''))"
| "format_option_value (VMap m) quote =
     rbind (map_res (\<lambda>(k, v). rbind (format_option_value v True) (\<lambda>fv. Inr (k @ '' = '' @ fv))) m)
       (\<lambda>result. Inr (''{'' @ [CHR 10] @ join [CHR 10] result @ ''}''))"
| "format_option_value v quote = Inl ValidationError"

text \<open>\<open>defaults\<close> are the default options of the cluster, which look at the environment as well.\<close>

definition get_opt :: "(string \<Rightarrow> string) \<Rightarrow> options \<Rightarrow> cluster \<Rightarrow> options \<Rightarrow> string \<Rightarrow> string res" where
  "get_opt getenv opts cl defaults key =
     (case options_get getenv opts key of
        Some value \<Rightarrow> format_option_value value False
      | None \<Rightarrow>
          (case options_get getenv defaults key of
             Some value \<Rightarrow> format_option_value value False
           | None \<Rightarrow>
               if key = ''domain'' then Inr (c_Domain cl)
               else if key = ''stack'' then Inr (Stack cl)
               else if key = ''tunnel'' then Inr (Tunnel cl)
               else if key = ''instance-count'' then Inr (itoa (InstanceCount cl))
               else Inl ValidationError))"

text \<open>A file does not exist, cannot be read, or has a content.\<close>

datatype file_entry = Missing | Unreadable | Content string

fun read_file :: "file_entry \<Rightarrow> string res" where
  "read_file (Content c) = Inr c"
| "read_file _ = Inl OtherError"

definition is_abs :: "string \<Rightarrow> bool" where
  "is_abs path \<longleftrightarrow> path \<noteq> '''' \<and> hd path = CHR ''/''"

definition path_dir :: "string \<Rightarrow> string" where
  "path_dir path = path_clean (rev (dropWhile (\<lambda>c. c \<noteq> CHR ''/'') (rev path)))"

definition cat_file :: "(string \<Rightarrow> file_entry) \<Rightarrow> string \<Rightarrow> string \<Rightarrow> string res" where
  "cat_file files jobPath path =
     (let absPath = (if is_abs path then path else path_join [path_dir jobPath, path])
      in case files absPath of
           Missing \<Rightarrow> Inl ValidationError
         | f \<Rightarrow> read_file f)"

definition read_include :: "(string \<Rightarrow> file_entry) \<Rightarrow> string \<Rightarrow> string \<Rightarrow> (string \<times> string) res" where
  "read_include files jobPath incl =
     (let path = (if is_abs incl then incl else path_join [path_dir jobPath, incl]);
          path = (if files path = Missing then path @ ''.hcl'' else path)
      in rbind (read_file (files path)) (\<lambda>data. Inr (data, path)))"


section \<open>What they guarantee\<close>

lemma options_get_set:
  "options_get getenv (set_key_value k v opts) key = (if key = k then Some v else options_get getenv opts key)"
  by (simp add: options_get_def set_key_value_def update_conv' split: option.splits)

text \<open>
  Options given to the command prevail over the environment, the environment over the default options of the cluster, and these over its
  own fields.
\<close>

lemma get_opt_order:
  "map_of opts key = Some v \<Longrightarrow> get_opt getenv opts cl defaults key = format_option_value v False"
  "map_of opts key = None \<Longrightarrow> getenv (env_key key) \<noteq> '''' \<Longrightarrow> get_opt getenv opts cl defaults key = Inr (getenv (env_key key))"
  "map_of opts key = None \<Longrightarrow> getenv (env_key key) = '''' \<Longrightarrow> map_of defaults key = Some v \<Longrightarrow>
     get_opt getenv opts cl defaults key = format_option_value v False"
  by (simp_all add: get_opt_def options_get_def Let_def)

text \<open>A key and a value that are no \<^verbatim>\<open>hcl\<close> set the key to the text of the value.\<close>

lemma options_set_plain:
  assumes "decode_text (k @ CHR ''='' # v) = Inl e" "CHR ''='' \<notin> set k"
  shows "options_set decode_text rd (k @ CHR ''='' # v) opts = Inr (set_key_value k (VString v) opts)"
proof -
  have "takeWhile (\<lambda>c. c \<noteq> CHR ''='') (k @ CHR ''='' # v) = k" "dropWhile (\<lambda>c. c \<noteq> CHR ''='') (k @ CHR ''='' # v) = CHR ''='' # v"
    using assms(2) by (auto simp: takeWhile_append dropWhile_append)
  with assms(1) show ?thesis by (simp add: options_set_def parse_key_value_def options_parse_def)
qed

text \<open>Only strings, and lists and maps of such values, have a text; a number or a block in an option has none.\<close>

fun has_text :: "option_value \<Rightarrow> bool" where
  "has_text (VString s) = True"
| "has_text (VList l) = (\<forall>v \<in> set l. has_text v)"
| "has_text (VMap m) = (\<forall>(k, v) \<in> set m. has_text v)"
| "has_text v = False"

lemma map_res_is_ok: "is_ok (map_res f xs) = (\<forall>x \<in> set xs. is_ok (f x))"
  by (induction xs) (auto simp: is_ok_iff)

lemma rbind_is_ok: "is_ok (rbind m (\<lambda>x. Inr (f x))) = is_ok m"
  by (cases m) simp_all

lemma format_option_value_ok: "is_ok (format_option_value v q) = has_text v"
  by (induction v q rule: format_option_value.induct) (auto simp: map_res_is_ok rbind_is_ok split: prod.splits)

text \<open>The text of a map depends on the order of the iteration over it.\<close>

lemma format_order:
  "format_option_value (VMap [(''a'', VString ''1''), (''b'', VString ''2'')]) q \<noteq>
   format_option_value (VMap [(''b'', VString ''2''), (''a'', VString ''1'')]) q"
  by (simp add: go_quote_def quote_char_def)

text \<open>A quoted text is read back up to its closing quote.\<close>

definition hex_value :: "char \<Rightarrow> nat" where
  "hex_value c = (let n = of_char c in if n < 58 then n - 48 else n - 87)"

definition short_value :: "char \<Rightarrow> nat option" where
  "short_value e = map_of (map (\<lambda>(n, c). (c, n)) short_escapes) e"

fun unescape :: "string \<Rightarrow> (char \<times> string) option" where
  "unescape [] = None"
| "unescape (e # r) =
     (if e = CHR ''x'' then
        (case r of a # b # r \<Rightarrow> Some (char_of (16 * hex_value a + hex_value b), r) | _ \<Rightarrow> None)
      else map_option (\<lambda>n. (char_of n, r)) (short_value e))"

lemma hex_value: "n < 16 \<Longrightarrow> hex_value (hex_digit n) = n"
proof -
  have "list_all (\<lambda>n. hex_value (hex_digit n) = n) [0..<16]" by code_simp
  then show "n < 16 \<Longrightarrow> hex_value (hex_digit n) = n" by (simp only: list_all_iff set_upt) simp
qed

lemma short_values: "list_all (\<lambda>(n, e). short_value e = Some n \<and> e \<noteq> CHR ''x'') short_escapes"
  by code_simp

lemma quote_cases:
  obtains (plain) "quote_char c = [c]" "c \<noteq> CHR 0x5C" "c \<noteq> CHR 0x22"
  | (short) e where "quote_char c = [CHR 0x5C, e]" "e \<noteq> CHR ''x''" "short_value e = Some (of_char c)"
  | (hex) h l where "quote_char c = [CHR 0x5C, CHR ''x'', h, l]" "char_of (16 * hex_value h + hex_value l) = c"
proof (cases "map_of short_escapes (of_char c :: nat)")
  case (Some e)
  then have "(of_char c, e) \<in> set short_escapes" by (rule map_of_SomeD)
  with short_values have "short_value e = Some (of_char c) \<and> e \<noteq> CHR ''x''" by (auto simp: list_all_iff)
  with Some show thesis by (intro short [of e]) (simp_all add: quote_char_def Let_def)
next
  case None
  show thesis
  proof (cases "(of_char c :: nat) < 32 \<or> (of_char c :: nat) = 127")
    case True
    have h: "(of_char c :: nat) div 16 < 16" "(of_char c :: nat) mod 16 < 16" using less_mult_imp_div_less [of "of_char c" 16 16] nat_of_char_less_256 [of c] by simp_all
    have "16 * hex_value (hex_digit (of_char c div 16)) + hex_value (hex_digit (of_char c mod 16)) = (of_char c :: nat)"
      unfolding hex_value [OF h(1)] hex_value [OF h(2)] by simp
    then have "char_of (16 * hex_value (hex_digit (of_char c div 16)) + hex_value (hex_digit (of_char c mod 16))) = c" by simp
    with True None show thesis by (intro hex) (simp_all add: quote_char_def Let_def)
  next
    case False
    have "c \<noteq> CHR 0x5C" "c \<noteq> CHR 0x22" using None by (auto simp: short_escapes_def)
    with None False show thesis by (intro plain) (simp_all add: quote_char_def Let_def)
  qed
qed

function unquote :: "string \<Rightarrow> (string \<times> string) option" where
  "unquote [] = None"
| "unquote (c # s) =
     (if c = CHR 0x22 then Some ([], s)
      else if c = CHR 0x5C then
        (case unescape s of
           None \<Rightarrow> None
         | Some (d, r) \<Rightarrow> if length r < length (c # s) then map_option (\<lambda>(x, y). (d # x, y)) (unquote r) else None)
      else map_option (\<lambda>(x, y). (c # x, y)) (unquote s))"
  by pat_completeness auto
termination by (relation "measure length") auto

lemma unquote_char: "unquote (quote_char c @ r) = map_option (\<lambda>(x, y). (c # x, y)) (unquote r)"
  by (cases c rule: quote_cases) simp_all

theorem unquote_quote: "unquote (tl (go_quote s) @ r) = Some (s, r)"
proof -
  have "unquote (concat (map quote_char s) @ CHR 0x22 # r) = Some (s, r)" by (induction s) (simp_all add: unquote_char)
  then show ?thesis by (simp add: go_quote_def)
qed

end
