(* ===== verification/Spec2Isabelle.thy ===== *)
theory Spec2Isabelle
  imports K8sExamples LoadExamples Registrations StateUI Options
begin

text \<open>
  A verification library for j2, which turns job files into systemd units for fleet or resources for
  Kubernetes and deploys them.
  Each theory models one part of the program under \<^verbatim>\<open>src/\<close>, in the order the parts call each
  other; this theory imports them all and states the properties.

  The parts. A job (\<^verbatim>\<open>jobs/\<close>) has task groups of tasks. It is read from the syntax tree of a file
  (\<^verbatim>\<open>jobs/parse.go\<close>), given defaults, its variables are replaced (\<^verbatim>\<open>jobs/variables.go\<close>), and it is
  linked, optimised for a cluster (\<^verbatim>\<open>cluster/\<close>), normalised and validated. The renderer (\<^verbatim>\<open>render/fleet\<close>)
  turns every task, for every scaling group of its task group, into systemd units
  (\<^verbatim>\<open>pkg/sdunits\<close>) whose command lines (\<^verbatim>\<open>pkg/cmdline\<close>) come from the
  docker engine (\<^verbatim>\<open>engine/docker\<close>) and whose front ends are registered with the load balancer
  (\<^verbatim>\<open>pkg/robin\<close>). The deployment (\<^verbatim>\<open>deployment/\<close>) compares them
  with the units of the cluster, through the scheduler interface (\<^verbatim>\<open>scheduler/scheduler.go\<close>)
  that \<^verbatim>\<open>scheduler/fleet\<close> implements over the fleet API (\<^verbatim>\<open>pkg/fleet\<close>),
  and destroys, replaces and starts units after the user has confirmed. On Kubernetes the renderer
  (\<^verbatim>\<open>render/kubernetes\<close>) groups the tasks into pods and generates deployments, daemon sets, jobs, secrets, services
  and ingresses, and \<^verbatim>\<open>scheduler/kubernetes\<close> implements the scheduler interface over the API server with the
  units of \<^verbatim>\<open>pkg/kubernetes\<close>.

  The theories.
  \<^item> \<open>Prelude\<close>: results (\<open>Inl\<close> an error, by its cause), loops that may fail, the string and number
    functions of the Go library, sorting.
  \<^item> \<open>Names\<close>, \<open>Images\<close>, \<open>Ports\<close>, \<open>Volumes\<close>, \<open>Constraints\<close>, \<open>Clusters\<close>: the values of a job and the
    options of a cluster, with their parsers, printers and validators; round trips and injectivity.
  \<^item> \<open>Model\<close>, \<open>Validation\<close>: tasks, task groups and jobs, and the declarative form of \<^verbatim>\<open>Validate\<close>,
    which uses neither the validators nor the parsers.
  \<^item> \<open>Cmdline\<close>, \<open>Paths\<close>, \<open>SdUnits\<close>, \<open>Docker\<close>, \<open>Encoding\<close>, \<open>Robin\<close>, \<open>FrontendNames\<close>: command lines, file paths,
    unit files and unit chains, docker command lines, base64 and JSON, front end records, and the
    contract of a front end name builder as a locale.
  \<^item> \<open>UnitNames\<close>: the names of units and the functions that recognise them.
  \<^item> \<open>FleetUnits\<close>, \<open>FleetRender\<close>, \<open>FleetRenderLaws\<close>: the units of a task, of a group and of a job, and their links.
    \<open>Registrations\<close>: which keys of etcd the finished units of a task set and remove.
  \<^item> \<open>FleetTunnel\<close>: the fleet API over a registry of jobs, with its waiting loops.
  \<^item> \<open>Scheduler\<close>, \<open>Deployment\<close>, \<open>DeploymentLaws\<close>: the scheduler interface and its laws as a locale, Run and Destroy, and
    what they achieve for every scheduler that meets the laws.
  \<^item> \<open>FleetScheduler\<close>: the fleet implementation of the interface; it meets the laws.
  \<^item> \<open>FleetDeployment\<close>, \<open>FleetRun\<close>, \<open>FleetTotal\<close>: the deployment of a job with fleet, the effect of a run, and which
    jobs can be rendered. \<open>Examples\<close>: inputs for the witnesses.
  \<^item> \<open>StateUI\<close>: the questions of \<^verbatim>\<open>deployment/state_ui.go\<close> over the lines of the input, and the simulation by the answers of
    the \<open>world\<close>: an answer is the outcome of one question, and a question fails only when the input ends.
  \<^item> \<open>Options\<close>: the options of a deployment (\<^verbatim>\<open>flags/options.go\<close>) and the functions a template can call
    (\<^verbatim>\<open>jobs/functions.go\<close>), with their order of precedence and the round trip of quoting.
  \<^item> \<open>Variables\<close>, \<open>VariableLaws\<close>: variables in strings, their values, and the replacement in every field of a job, one field after
    another; what a string becomes. The renderer is a record of functions; the locale \<open>link_blind\<close> states what a replacement needs of it.
  \<^item> \<open>Renderers\<close>: the two renderers of \<^verbatim>\<open>render/fleet\<close> and \<^verbatim>\<open>render/kubernetes\<close> as such records; both meet the locale.
  \<^item> \<open>Parser\<close>, \<open>ParserLaws\<close>: jobs and clusters out of a syntax tree, and names and numbers of the tasks that are read.
  \<^item> \<open>LoadLaws\<close>: reading a job keeps the shape and names of the parsed job and ends with a valid one. \<open>LoadExamples\<close>: inputs for the witnesses.
  \<^item> \<open>K8sNames\<close>, \<open>Pods\<close>, \<open>PodLaws\<close>: the names of Kubernetes resources, the grouping of the tasks of a group into pods and
    what it guarantees.
  \<^item> \<open>K8sObjects\<close>, \<open>PodSpecs\<close>, \<open>K8sRender\<close>: the resources as records and the six kinds as a datatype, the pod templates of a pod
    (containers, volumes, secrets, affinity), and the resources generated for a job.
  \<^item> \<open>K8sRenderLaws\<close>, \<open>K8sPodLaws\<close>: labels, namespace and name of every generated object, names all different; volumes, ports,
    restart policies and selectors fit together.
  \<^item> \<open>K8sUnits\<close>, \<open>K8sUnitLaws\<close>, \<open>K8sWaits\<close>: the API server as a record of functions with its laws, comparing, reading, starting,
    destroying and waiting for every kind of unit; the waits end.
  \<^item> \<open>K8sScheduler\<close>, \<open>K8sSchedulerLaws\<close>, \<open>K8sRefinement\<close>: the Kubernetes implementation of the scheduler interface, with the
    configuration of the cluster; it meets the laws, and its operations implement those of a map from names to objects.
  \<^item> \<open>DeploymentKeeps\<close>: a second, weaker locale on schedulers, for what a run keeps whatever its outcome.
  \<^item> \<open>K8sRun\<close>: the deployment of a job on Kubernetes and its effect. \<open>K8sServer\<close>: an API server that keeps its objects in a
    list and meets the laws. \<open>K8sExamples\<close>: inputs for the witnesses.

  Correspondence. Structs are records with the fields of the code, an \<^verbatim>\<open>error\<close> result is
  \<open>Inl\<close>, a nil dereference or an index out of range is the error \<open>Panic\<close>. Strings are lists of bytes. An
  \<^verbatim>\<open>int\<close> is an \<open>int\<close> and a \<^verbatim>\<open>uint\<close> a \<open>nat\<close> with the conversion between the two written
  out at 64 bits; results about scaling groups assume counts below \<open>2 ^ 63\<close>. Maps with string keys are
  association lists; where the code iterates over a map the result is shown not to depend on the order. The units of a group are
  a store of units that chains point into, because linking changes units that several chains share. The back pointers of tasks and
  groups are arguments.

  The environment. The answers of the user are a list in the \<open>world\<close>, one for each question: whether it was confirmed; sleeping lets the cluster take a step of its own
  (\<open>PassTime\<close>, any function that leaves the installed contents alone); the goroutines of \<^verbatim>\<open>destroyUnits\<close> run in
  the order of a schedule in the world, and every result holds for every schedule. The polling loops of the fleet tunnel have a bound
  in the model, the patience of the tunnel; after it the loop ends as if the time had run out. The unit file parser of fleet, SHA hashes,
  \<^verbatim>\<open>crypt\<close> and the JSON text of a task are parameters.
  The Kubernetes API server is any record of functions that meets \<open>api_laws\<close>: a read returns what is stored, a successful
  write stores an object that agrees with what was written (the server may add fields), writing or deleting one object leaves the others, and pods and time
  leave the store alone. The goroutines of \<^verbatim>\<open>Start\<close> and \<^verbatim>\<open>Destroy\<close> run one after another in the order
  \<open>sp_Order\<close>, any permutation. The delay between slices only lets
  time pass, and the secrets of the registries are read in the order of their list. Nil and empty lists are one value except for the
  data of a secret, where writing into a nil map panics. Its waits look at the clock:
  fuel 33 covers the rounds of two seconds within the minute of a deployment, fuel 63 the rounds of one second for a pod.

  What is shown. A run that succeeds leaves exactly the generated units of the job in the cluster, whatever was there; no run touches
  another job; a refused run changes nothing; a second run changes nothing; generation never fails for a valid renderable job; the
  names of generated units are all different and recognised; links, restart and after policies and placement end up in the
  units; command lines, registrations and printed values lose nothing. On Kubernetes a successful run leaves the generated objects
  and removes the others of the deployment, no run touches another namespace, the waits end, generated objects fit together, and a
  run for a scaling group behind the first removes everything. A job that is read
  from a file is valid, and expanding a string replaces exactly its variables. The results about runs assume that the names of task groups and tasks
  have no underscore (\<open>plain_group\<close>, without it names can coincide), that the registry secrets have no name of a generated kind
  (\<open>registries_apart\<close>) and that no name is used by two kinds of objects (\<open>k8s_ok\<close>).

  Reading a file. The external packages are the record \<open>hcl\<close>: executing the template with its functions,
  \<^verbatim>\<open>hcl.Parse\<close>, \<^verbatim>\<open>hcl.DecodeObject\<close>, and \<^verbatim>\<open>mapstructure\<close> into each of the structs. Its values are of any type. No property
  of validity assumes anything of them; what is shown of the numbers of tasks assumes that decoding a block without the keys of the
  fields that the parser sets itself leaves these fields alone (\<open>plain_decoders\<close>). Keys are compared without case as ASCII.

  Not modelled: the template engine (reflection) and the two template functions that call it or vault, the HTTP and SSH clients of fleet,
  vault and Kubernetes, the discovery of a Kubernetes configuration (files and environment of the user), what the terminal shows, DryRun,
  and the commands with their flags. The default options of a cluster are an argument of the template functions only.
  The events of a run and the texts of errors are left out everywhere, since nothing is decided by them.
\<close>

section \<open>Deploying a job with fleet\<close>

lemma tiny_deployed:
  "\<exists>w'. run_fleet ex_rendering ex_tunnel tiny_job ex_deployment ex_cluster ex_world = (Inr 1, w')"
proof -
  obtain content where "run_fleet ex_rendering ex_tunnel tiny_job ex_deployment ex_cluster ex_world =
      run ex_deployment (fleet_scheduler ex_tunnel ''shop'') (tiny_gen content) 1 ex_world"
    using tiny_generate_scaling_groups by blast
  with tiny_run [of content] show ?thesis by (metis prod.collapse)
qed

lemma ex_world_ok: "fleet_ok (w_cluster ex_world)"
  by (simp add: fleet_ok_def reg_ok_def ex_world_def ex_installed_def)

lemma tiny_selected:
  "selected_unit ex_tunnel tiny_job ex_deployment ''shop-app-old-mn@1.service''"
  "\<not> selected_unit ex_tunnel tiny_job ex_deployment ''blog-app-db-mn@1.service''"
  by code_simp+

text \<open>
  C1. After a successful run every unit that the job generates is installed with the generated
  content, every other unit of the cluster that the deployment selects is gone, and every unit the
  deployment does not select is as before.
\<close>

theorem fleet_run_converges:
  assumes "job_ok j" "max_count j < 2 ^ 63" "fleet_ok (w_cluster w)" "run_fleet rd f j d c w = (Inr k, w')"
  shows "\<exists>sgs. generate_scaling_groups (generate_scaling_group_units rd j d c) d (max_count j) = Inr sgs \<and>
    (\<forall>(sg, us) \<in> set sgs. \<forall>u \<in> set us. \<exists>x. fleet_view f (w_cluster w') (fst u) = Some x \<and> fleet_accepts f u x) \<and>
    (\<forall>n. selected_unit f j d n \<and> n \<notin> (\<Union>(sg, us) \<in> set sgs. fst ` set us) \<longrightarrow> fleet_view f (w_cluster w') n = None) \<and>
    (\<forall>n. \<not> selected_unit f j d n \<longrightarrow> fleet_view f (w_cluster w') n = fleet_view f (w_cluster w) n)"
proof -
  obtain sgs where g: "generate_scaling_groups (generate_scaling_group_units rd j d c) d (max_count j) = Inr sgs"
    using run_fleet_generated [OF assms(4)] by blast
  with run_fleet_effect [OF assms g] show ?thesis by blast
qed

theorem fleet_run_converges_witness:
  "\<exists>content w'. run_fleet ex_rendering ex_tunnel tiny_job ex_deployment ex_cluster ex_world = (Inr 1, w') \<and>
     generate_scaling_groups (generate_scaling_group_units ex_rendering tiny_job ex_deployment ex_cluster)
       ex_deployment (max_count tiny_job) = Inr [(1, [(''shop-app-db-mn@1.service'', content)])] \<and>
     (\<exists>x. fleet_view ex_tunnel (w_cluster w') ''shop-app-db-mn@1.service'' = Some x \<and>
       fleet_accepts ex_tunnel (''shop-app-db-mn@1.service'', content) x) \<and>
     fleet_view ex_tunnel (w_cluster w') ''shop-app-old-mn@1.service'' = None \<and>
     fleet_view ex_tunnel (w_cluster w') ''blog-app-db-mn@1.service'' = Some [''x'']"
proof -
  obtain w' where r: "run_fleet ex_rendering ex_tunnel tiny_job ex_deployment ex_cluster ex_world = (Inr 1, w')"
    using tiny_deployed by blast
  obtain content where g: "generate_scaling_groups (generate_scaling_group_units ex_rendering tiny_job ex_deployment ex_cluster)
     ex_deployment (max_count tiny_job) = Inr [(1, [(''shop-app-db-mn@1.service'', content)])]"
    using tiny_generate_scaling_groups by blast
  have "fleet_view ex_tunnel (w_cluster ex_world) ''blog-app-db-mn@1.service'' = Some [''x'']"
    by code_simp
  with fleet_run_converges [OF ex_jobs_ok(2) _ ex_world_ok r] g r tiny_selected
  show ?thesis by (auto simp: ex_counts)
qed

text \<open>
  C2. A run leaves the units of every other job alone, whatever its outcome: a unit that another
  valid job generates, in any of its task groups and scaling groups, is installed after the run as
  it was before.
\<close>

theorem fleet_run_other_jobs:
  assumes "job_ok j" "max_count j < 2 ^ 63" "run_fleet rd f j d c w = (res, w')"
    and "job_ok j'" "max_count j' < 2 ^ 63" "tg \<in> set (j_Groups j')" "0 < sg" "generated_name j' tg sg n"
    and "j_Name j \<noteq> j_Name j'"
  shows "fleet_view f (w_cluster w') n = fleet_view f (w_cluster w) n"
  using run_fleet_frame [OF assms(1-3) other_job_not_selected [OF assms(1,4-9)]] .

theorem fleet_run_other_jobs_witness:
  "\<exists>w'. run_fleet ex_rendering ex_tunnel tiny_job ex_deployment ex_cluster ex_world = (Inr 1, w') \<and>
     fleet_view ex_tunnel (w_cluster w') ''blog-app-db-mn@1.service'' = Some [''x'']"
proof -
  obtain w' where r: "run_fleet ex_rendering ex_tunnel tiny_job ex_deployment ex_cluster ex_world = (Inr 1, w')"
    using tiny_deployed by blast
  have "fleet_view ex_tunnel (w_cluster ex_world) ''blog-app-db-mn@1.service'' = Some [''x'']"
    by code_simp
  moreover have "generated_name blog_job tiny_group 1 ''blog-app-db-mn@1.service''" by code_simp
  ultimately show ?thesis
    using fleet_run_other_jobs [OF ex_jobs_ok(2) _ r ex_jobs_ok(3), of tiny_group 1 "''blog-app-db-mn@1.service''"] r
    by (auto simp: ex_counts ex_sel)
qed

text \<open>
  C8. A run that the user does not confirm, with neither force nor auto-continue, leaves every unit of
  the cluster as it was: nothing is destroyed or started before the first confirmation.
\<close>

theorem fleet_run_refused:
  assumes "run_fleet rd f j d c w = (res, w')" "fleet_ok (w_cluster w)"
    and "w_answers w = [] \<or> \<not> hd (w_answers w)" "\<not> force d" "\<not> autoContinue d"
  shows "fleet_view f (w_cluster w') = fleet_view f (w_cluster w)"
  by (rule run_fleet_refused [OF assms])

theorem fleet_run_refused_witness:
  "fleet_view ex_tunnel (w_cluster (snd (run_fleet ex_rendering ex_tunnel tiny_job ex_deployment ex_cluster
     (ex_world\<lparr>w_answers := [False]\<rparr>)))) ''shop-app-old-mn@1.service'' = Some [''x'']"
proof -
  have "fleet_view ex_tunnel (w_cluster ex_world) ''shop-app-old-mn@1.service'' = Some [''x'']" by code_simp
  with fleet_run_refused [OF prod.collapse [symmetric], of "ex_world\<lparr>w_answers := [False]\<rparr>" ex_deployment ex_tunnel
      ex_rendering tiny_job ex_cluster] ex_world_ok
  show ?thesis by (simp add: ex_deployment_def)
qed

text \<open>
  C7. Deploying again changes nothing: where the selected units of the cluster are exactly the
  generated ones, none has changed content and none has failed, a run without force succeeds with no
  change, asks nothing and leaves the registry as it is.
\<close>

theorem fleet_run_settled:
  assumes "job_ok j" "max_count j < 2 ^ 63" "fleet_ok (w_cluster w)" "\<not> force d"
    and "generate_scaling_groups (generate_scaling_group_units rd j d c) d (max_count j) = Inr sgs" "sgs \<noteq> []"
    and "fleet_settled f j d sgs (w_cluster w)"
  shows "\<exists>w'. run_fleet rd f j d c w = (Inr 0, w') \<and> fs_registry (w_cluster w') = fs_registry (w_cluster w) \<and>
    w_answers w' = w_answers w"
  by (rule run_fleet_settled [OF assms])

theorem fleet_run_settled_witness:
  "\<exists>content w'. run_fleet ex_rendering ex_tunnel tiny_job ex_deployment ex_cluster (settled_world content) = (Inr 0, w') \<and>
     fs_registry (w_cluster w') = fs_registry (w_cluster (settled_world content)) \<and> w_answers w' = [True]"
proof -
  obtain content where g: "generate_scaling_groups (generate_scaling_group_units ex_rendering tiny_job ex_deployment ex_cluster)
     ex_deployment (max_count tiny_job) = Inr [(1, [(''shop-app-db-mn@1.service'', content)])]"
    using tiny_generate_scaling_groups by blast
  from fleet_run_settled [OF ex_jobs_ok(2) _ settled_world_ok(1) _ g _ settled_world_ok(2)]
  show ?thesis by (auto simp: ex_counts ex_deployment_def settled_world_def)
qed

text \<open>
  C11. Destroying a deployment leaves every unit it does not select alone, whatever the outcome; when
  it succeeds no selected unit is left; and when the user does not confirm it nothing changes.
\<close>

theorem fleet_destroyed:
  assumes "destroy_fleet f j d w = (res, w')" "fleet_ok (w_cluster w)"
  shows "(\<forall>n. \<not> selected_unit f j d n \<longrightarrow> fleet_view f (w_cluster w') n = fleet_view f (w_cluster w) n) \<and>
    (is_ok res \<longrightarrow> (\<forall>n. selected_unit f j d n \<longrightarrow> fleet_view f (w_cluster w') n = None)) \<and>
    (\<not> force d \<and> (w_answers w = [] \<or> \<not> hd (w_answers w)) \<longrightarrow>
       fleet_view f (w_cluster w') = fleet_view f (w_cluster w))"
  using destroy_fleet_effect [OF assms] by blast

theorem fleet_destroyed_witness:
  "\<exists>w'. destroy_fleet ex_tunnel tiny_job ex_deployment ex_world = (Inr (), w') \<and>
     fleet_view ex_tunnel (w_cluster w') ''shop-app-old-mn@1.service'' = None \<and>
     fleet_view ex_tunnel (w_cluster w') ''blog-app-db-mn@1.service'' = Some [''x'']"
proof -
  have "fst (destroy_fleet ex_tunnel tiny_job ex_deployment ex_world) = Inr ()" by code_simp
  then obtain w' where r: "destroy_fleet ex_tunnel tiny_job ex_deployment ex_world = (Inr (), w')"
    by (metis prod.collapse)
  have "fleet_view ex_tunnel (w_cluster ex_world) ''blog-app-db-mn@1.service'' = Some [''x'']" by code_simp
  with fleet_destroyed [OF r ex_world_ok] r tiny_selected show ?thesis by auto
qed

section \<open>What is generated\<close>

text \<open>
  C6. A valid job that is renderable (known engine, a job ID where there are secrets, constraints the
  renderer knows, enough instance constraints for a global group) is rendered for every scaling group
  of every deployment: generation has no other failure.
\<close>

theorem generation_total:
  assumes "job_ok j" "max_count j < 2 ^ 63" "renderable rd j c"
  shows "\<exists>sgs. generate_scaling_groups (generate_scaling_group_units rd j d c) d (max_count j) = Inr sgs"
  using generate_scaling_groups_total [OF assms] by (simp add: is_ok_iff)

theorem generation_total_witness:
  "\<exists>sgs. generate_scaling_groups (generate_scaling_group_units ex_rendering ex_job ex_deployment ex_cluster)
     ex_deployment (max_count ex_job) = Inr sgs"
  by (rule generation_total [OF ex_jobs_ok(1) _ ex_renderable(1)]) (simp add: ex_counts)

lemma ex_generated:
  "\<exists>sgs. generate_scaling_groups (generate_scaling_group_units ex_rendering ex_job ex_deployment ex_cluster)
     ex_deployment (max_count ex_job) = Inr sgs"
  using generate_scaling_groups_total [OF ex_jobs_ok(1) _ ex_renderable(1)] by (simp add: is_ok_iff ex_counts)

text \<open>
  C5. The names of the units of a deployment are all different, across tasks, task groups and scaling
  groups, and they are exactly the names of the tasks of the selected groups: for each task its proxies, shared
  volumes, main unit and timer, in the scaling groups the task group has.
\<close>

theorem generated_names:
  assumes "job_ok j" "max_count j < 2 ^ 63"
    and "generate_scaling_groups (generate_scaling_group_units rd j d c) d (max_count j) = Inr sgs"
  shows "distinct (concat (map (\<lambda>(sg, us). map fst us) sgs)) \<and>
    (\<forall>(sg, us) \<in> set sgs. \<forall>n. n \<in> fst ` set us \<longleftrightarrow>
       (\<exists>tg \<in> set (j_Groups j). include_group (selection_config d c sg) (g_Name tg) \<and> generated_name j tg sg n))"
proof -
  have "n \<in> fst ` set us \<longleftrightarrow> (\<exists>tg \<in> set (j_Groups j).
      include_group (selection_config d c sg) (g_Name tg) \<and> generated_name j tg sg n)"
    if "(sg, us) \<in> set sgs" for sg us n
    using generated_units [OF assms(3) that] scaling_group_names_iff [of n "selection_config d c sg" j sg]
    by (metis list.set_map)
  then show ?thesis using generated_names_distinct [OF assms] by blast
qed

theorem generated_names_witness:
  "\<exists>sgs. generate_scaling_groups (generate_scaling_group_units ex_rendering ex_job ex_deployment ex_cluster)
     ex_deployment (max_count ex_job) = Inr sgs \<and> distinct (concat (map (\<lambda>(sg, us). map fst us) sgs))"
  using ex_generated generated_names [OF ex_jobs_ok(1)] by (auto simp: ex_counts)

text \<open>
  C4. A generated name is recognised as a unit of its job, its task group and its scaling group, and of
  no other valid job name, task group name or scaling group.
\<close>

theorem generated_name_recognition:
  assumes "job_ok j" "max_count j < 2 ^ 63" "tg \<in> set (j_Groups j)" "0 < sg" "generated_name j tg sg n"
    and "job_name_validate jn = Inr ()" "task_group_name_validate gn = Inr ()"
  shows "(is_unit_for_job n jn \<longleftrightarrow> jn = j_Name j) \<and>
    (is_unit_for_task_group n (j_Name j) gn \<longleftrightarrow> gn = g_Name tg) \<and>
    (is_unit_for_scaling_group n (j_Name j) sg' \<longleftrightarrow> sg' = sg)"
  using generated_name_recognised [OF assms(1-5)] assms(6,7) by auto

theorem generated_name_recognition_witness:
  "is_unit_for_job ''shop-app-db-vl0@2.service'' ''shop'' \<and> \<not> is_unit_for_job ''shop-app-db-vl0@2.service'' ''shopping'' \<and>
   is_unit_for_scaling_group ''shop-app-db-vl0@2.service'' ''shop'' 2 \<and>
   \<not> is_unit_for_scaling_group ''shop-app-db-vl0@2.service'' ''shop'' 12"
proof -
  have n: "generated_name ex_job ex_group 2 ''shop-app-db-vl0@2.service''" by code_simp
  have v: "job_name_validate ''shop'' = Inr ()" "job_name_validate ''shopping'' = Inr ()"
    "task_group_name_validate ''app'' = Inr ()" by code_simp+
  show ?thesis
    using generated_name_recognition [OF ex_jobs_ok(1) _ _ _ n v(1,3), of 2]
      generated_name_recognition [OF ex_jobs_ok(1) _ _ _ n v(2,3), of 12]
    by (simp add: ex_counts ex_sel)
qed

text \<open>
  C24. Two units have the same name only if they are the same unit: job, task group, task, kind,
  instance part and type of a unit can be read off its name, also across jobs.
\<close>

theorem unit_names_injective:
  assumes "named j tg t" "named j' tg' t'" "tag_ok k" "tag_ok k'" "sg < 2 ^ 63" "sg' < 2 ^ 63"
  shows "unit_full_name j tg t (CHR ''-'' # k) sg ty = unit_full_name j' tg' t' (CHR ''-'' # k') sg' ty' \<longleftrightarrow>
    j_Name j = j_Name j' \<and> g_Name tg = g_Name tg' \<and> t_Name t = t_Name t' \<and> k = k' \<and>
    instance_part tg sg = instance_part tg' sg' \<and> ty = ty'"
  by (rule iffI [OF unit_full_name_inj [OF assms]])
    (simp_all add: unit_full_name_def unit_name_parts [OF assms(1)] unit_name_parts [OF assms(2)])

theorem unit_names_injective_witness:
  "unit_full_name ex_job ex_group ex_db ''-mn'' 1 ''service'' \<noteq> unit_full_name ex_job ex_group ex_db ''-mn'' 2 ''service''"
proof -
  have n: "named ex_job ex_group ex_db" "tag_ok ''mn''" by code_simp+
  have "instance_part ex_group 1 \<noteq> instance_part ex_group 2" by (subst instance_part_inj) (simp_all add: ex_group_def)
  with unit_names_injective [OF n(1) n(1) n(2) n(2), of 1 2 "''service''" "''service''"] show ?thesis by simp
qed

text \<open>
  \<^verbatim>\<open>IsUnitForTask\<close> holds for no unit name of the generator, not even for the
  units of that very task: it expects a name without the kind of the unit.
\<close>

theorem unit_for_task_never:
  assumes "named j tg t" "types_ok ty"
  shows "\<not> is_unit_for_task (unit_full_name j tg t (CHR ''-'' # k) sg ty) (j_Name j) (g_Name tg) (t_Name t)"
  by (rule unit_task_never [OF assms])

theorem unit_for_task_never_witness:
  "\<not> is_unit_for_task (unit_full_name ex_job ex_group ex_db ''-mn'' 1 ''service'') ''shop'' ''app'' ''db''"
proof -
  have n: "named ex_job ex_group ex_db" "types_ok ''service''" by code_simp+
  from unit_for_task_never [OF n, of "''mn''" 1] show ?thesis
    by (simp add: ex_sel ex_group_def ex_db_def ex_task_def)
qed

section \<open>The units of a task group\<close>

text \<open>
  C12. \<^verbatim>\<open>Validate\<close> accepts exactly the well-formed jobs, where well-formed is said without the
  validators and parsers of the code: names of allowed length and characters, distinct among the groups of the job and
  the tasks of a group; at least one group and task; positive counts; references in \<^verbatim>\<open>After\<close> and
  \<^verbatim>\<open>VolumesFrom\<close> to tasks of the group; links and ports that are texts of their grammars; front ends
  that are all HTTP or all private TCP, with weights in 0..100 and either a domain or a host port for TCP; a timer only
  for oneshot tasks and a target just for proxies; constraints with known operators and no attribute twice; secrets with
  a path and a target; known types, networks, log drivers and restart policies; dependencies that name a link. A secret with both an environment variable and a file is accepted, although the README rules it out.
\<close>

theorem job_validation: "job_validate j = Inr u \<longleftrightarrow> job_ok j"
  by (rule job_validate_ok)

text \<open>Jobs with one task that has a secret, and with constraints.\<close>

definition secret_job :: "secret \<Rightarrow> job" where
  "secret_job s = tiny_job\<lparr>j_Groups := [tiny_group\<lparr>g_Tasks := [(ex_task ''db'')\<lparr>t_Secrets := [s]\<rparr>]\<rparr>]\<rparr>"

definition constrained_job :: "constraint list \<Rightarrow> job" where
  "constrained_job cs = tiny_job\<lparr>j_Constraints := cs\<rparr>"

theorem job_validation_witness:
  "job_validate (secret_job \<lparr>s_Path = ''p'', s_Field = '''', s_Environment = ''E'', s_File = ''/f''\<rparr>) = Inr () \<and>
   job_validate (secret_job \<lparr>s_Path = ''p'', s_Field = '''', s_Environment = '''', s_File = ''''\<rparr>) \<noteq> Inr () \<and>
   job_validate (constrained_job [\<lparr>Attribute = ''a'', Value = ''x'', Operator = ''!=''\<rparr>, \<lparr>Attribute = ''b'', Value = ''x'', Operator = ''''\<rparr>]) = Inr () \<and>
   job_validate (constrained_job [\<lparr>Attribute = ''a'', Value = ''x'', Operator = ''!=''\<rparr>, \<lparr>Attribute = ''a'', Value = ''y'', Operator = ''!=''\<rparr>]) \<noteq> Inr ()"
proof -
  have t: "job_ok tiny_job" by (rule ex_jobs_ok)
  then have "job_ok (secret_job s) \<longleftrightarrow> secret_ok s" for s
    by (simp add: secret_job_def job_ok_def group_ok_def task_ok_def tiny_job_def tiny_group_def ex_task_def empty_task_def)
  moreover have "job_ok (constrained_job cs) \<longleftrightarrow> constraints_ok cs" for cs
    using t by (simp add: constrained_job_def job_ok_def)
  ultimately show ?thesis
    unfolding job_validation by (simp add: secret_ok_def constraints_ok_def)
qed

text \<open>
  C14. The proxies, shared volumes and main unit of a task form a chain: each requires its predecessor and is
  required by it, starts after it and runs on its machine.
\<close>

theorem task_units_linked:
  assumes "create_task_group_units rd ctx j tg = Inr (chs, st)" "gc_ScalingGroup ctx \<le> g_Count tg"
    and "t \<in> set (g_Tasks tg)" "ns = main_names j tg (gc_ScalingGroup ctx) t" "0 < i" "i < length ns"
  shows "requires_unit st (ns ! (i - 1)) (ns ! i) \<and> requires_unit st (ns ! i) (ns ! (i - 1)) \<and>
    after_unit st (ns ! i) (ns ! (i - 1)) \<and> machine_of_unit st (ns ! i) (ns ! (i - 1))"
  using group_linked [OF assms] by blast

lemma ex_units:
  "\<exists>chs st. create_task_group_units ex_rendering ex_context ex_job ex_group = Inr (chs, st)"
  by (rule ex_group_units) (simp add: ex_context_def)

lemma ex_ctx: "gc_ScalingGroup ex_context \<le> g_Count ex_group"
  by (simp add: ex_context_def ex_group_def)

theorem task_units_linked_witness:
  "\<exists>chs st. create_task_group_units ex_rendering ex_context ex_job ex_group = Inr (chs, st) \<and>
     requires_unit st ''shop-app-db-vl0@1.service'' ''shop-app-db-mn@1.service'' \<and>
     after_unit st ''shop-app-db-mn@1.service'' ''shop-app-db-vl0@1.service''"
proof -
  obtain chs st where c: "create_task_group_units ex_rendering ex_context ex_job ex_group = Inr (chs, st)"
    using ex_units by blast
  have n: "main_names ex_job ex_group (gc_ScalingGroup ex_context) ex_db =
      [''shop-app-db-vl0@1.service'', ''shop-app-db-mn@1.service'']" by code_simp
  from task_units_linked [OF c ex_ctx, of ex_db, OF _ n [symmetric], of 1] c show ?thesis
    by (auto simp: ex_group_def)
qed

text \<open>
  C15. With restart policy all, every proxy, volume and main unit of a task requires those of every
  other task of the group, so that a failure of one restarts the whole group.
\<close>

theorem restart_policy_all:
  assumes "create_task_group_units rd ctx j tg = Inr (chs, st)" "gc_ScalingGroup ctx \<le> g_Count tg"
    and "restart_policy_is_all (g_RestartPolicy tg)" "t \<in> set (g_Tasks tg)" "t' \<in> set (g_Tasks tg)" "t \<noteq> t'"
    and "n \<in> set (main_names j tg (gc_ScalingGroup ctx) t)" "n' \<in> set (main_names j tg (gc_ScalingGroup ctx) t')"
  shows "requires_unit st n n'"
  by (rule group_restart_all [OF assms])

theorem restart_policy_all_witness:
  "\<exists>chs st. create_task_group_units ex_rendering ex_context ex_job ex_group = Inr (chs, st) \<and>
     requires_unit st ''shop-app-web-mn@1.service'' ''shop-app-db-vl0@1.service''"
proof -
  obtain chs st where c: "create_task_group_units ex_rendering ex_context ex_job ex_group = Inr (chs, st)"
    using ex_units by blast
  have "restart_policy_is_all (g_RestartPolicy ex_group)"
    "''shop-app-web-mn@1.service'' \<in> set (main_names ex_job ex_group (gc_ScalingGroup ex_context) ex_web)"
    "''shop-app-db-vl0@1.service'' \<in> set (main_names ex_job ex_group (gc_ScalingGroup ex_context) ex_db)"
    "ex_web \<noteq> ex_db" "ex_web \<in> set (g_Tasks ex_group)" "ex_db \<in> set (g_Tasks ex_group)"
    by code_simp+
  with restart_policy_all [OF c ex_ctx] c show ?thesis by blast
qed

text \<open>
  C16. The units of a task start after the units of every task named in its \<^verbatim>\<open>After\<close>.
\<close>

theorem after_tasks:
  assumes "create_task_group_units rd ctx j tg = Inr (chs, st)" "gc_ScalingGroup ctx \<le> g_Count tg"
    and "distinct (map t_Name (g_Tasks tg))"
    and "t \<in> set (g_Tasks tg)" "t' \<in> set (g_Tasks tg)" "t_Name t' \<in> set (t_After t)"
    and "n \<in> set (main_names j tg (gc_ScalingGroup ctx) t)" "n' \<in> set (main_names j tg (gc_ScalingGroup ctx) t')"
  shows "after_unit st n n'"
  by (rule group_after [OF assms])

theorem after_tasks_witness:
  "\<exists>chs st. create_task_group_units ex_rendering ex_context ex_job ex_group = Inr (chs, st) \<and>
     after_unit st ''shop-app-web-mn@1.service'' ''shop-app-db-vl0@1.service''"
proof -
  obtain chs st where c: "create_task_group_units ex_rendering ex_context ex_job ex_group = Inr (chs, st)"
    using ex_units by blast
  have "distinct (map t_Name (g_Tasks ex_group))" "t_Name ex_db \<in> set (t_After ex_web)"
    "''shop-app-web-mn@1.service'' \<in> set (main_names ex_job ex_group (gc_ScalingGroup ex_context) ex_web)"
    "''shop-app-db-vl0@1.service'' \<in> set (main_names ex_job ex_group (gc_ScalingGroup ex_context) ex_db)"
    "ex_web \<in> set (g_Tasks ex_group)" "ex_db \<in> set (g_Tasks ex_group)"
    by code_simp+
  with after_tasks [OF c ex_ctx] c show ?thesis by blast
qed

text \<open>
  C17. All units of a group that is not global run on one machine: each is placed on the machine of the first.
\<close>

theorem group_on_one_machine:
  assumes "create_task_group_units rd ctx j tg = Inr (chs, st)" "gc_ScalingGroup ctx \<le> g_Count tg"
    and "\<not> g_Global tg" "0 < i" "i < length st"
  shows "machine_of_unit st (FullName (st ! i)) (FullName (st ! 0))"
  by (rule group_same_machine [OF assms])

theorem group_on_one_machine_witness:
  "\<exists>chs st. create_task_group_units ex_rendering ex_context ex_job ex_group = Inr (chs, st) \<and>
     machine_of_unit st ''shop-app-web-mn@1.service'' ''shop-app-db-vl0@1.service''"
proof -
  obtain chs st where c: "create_task_group_units ex_rendering ex_context ex_job ex_group = Inr (chs, st)"
    using ex_units by blast
  have n: "concat (map (unit_names_of ex_job ex_group (gc_ScalingGroup ex_context)) (g_Tasks ex_group)) =
    [''shop-app-db-vl0@1.service'', ''shop-app-db-mn@1.service'', ''shop-app-web-mn@1.service'']" by code_simp
  have m: "map FullName st =
    [''shop-app-db-vl0@1.service'', ''shop-app-db-mn@1.service'', ''shop-app-web-mn@1.service'']"
    using group_names(1) [OF c ex_ctx] n by simp
  then have l: "length st = 3" by (metis length_map length_Cons list.size(3) numeral_3_eq_3)
  have "FullName (st ! 0) = ''shop-app-db-vl0@1.service''" "FullName (st ! 2) = ''shop-app-web-mn@1.service''"
    using l by (simp_all add: m flip: nth_map [of _ st FullName])
  with group_on_one_machine [OF c ex_ctx, of 2] c l show ?thesis by (auto simp: ex_group_def)
qed

section \<open>The text of a unit\<close>

text \<open>
  C21. Adding arguments to a command line loses nothing: each argument is on the command line as it is or as
  a variable of the unit's environment that expands to it, arguments with a dollar are never moved, and variables set
  before keep their values, so earlier command lines still expand to the same.
\<close>

theorem command_line_arguments_kept:
  assumes "env_ok e" "cmd_add (Some e) c args = (e', c')"
  shows "\<exists>e1 ws. e' = Some e1 \<and> env_ok e1 \<and> map_of e \<subseteq>\<^sub>m map_of e1 \<and> cl_cmd c' = cl_cmd c @ ws \<and>
    AllowFailure c' = AllowFailure c \<and>
    list_all2 (\<lambda>w arg. if CHR ''$'' \<in> set arg then w = arg else expand e1 w = arg) ws args"
  by (rule cmd_add_effect [OF assms])

theorem command_line_arguments_kept_witness:
  "\<exists>e1. fst (cmd_add (Some []) empty_cmdline [''run'', ''--rm=true'', ''$HOST:8080'']) = Some e1 \<and>
     expand e1 (cl_cmd (snd (cmd_add (Some []) empty_cmdline [''run'', ''--rm=true'', ''$HOST:8080''])) ! 1) = ''--rm=true''"
proof -
  obtain e' c' where c: "cmd_add (Some []) empty_cmdline [''run'', ''--rm=true'', ''$HOST:8080''] = (e', c')"
    by fastforce
  from command_line_arguments_kept [OF env_ok_Nil c] obtain e1 ws where e: "e' = Some e1" "cl_cmd c' = ws" and
    l: "list_all2 (\<lambda>w arg. if CHR ''$'' \<in> set arg then w = arg else expand e1 w = arg) ws
        [''run'', ''--rm=true'', ''$HOST:8080'']"
    by (auto simp: empty_cmdline_def)
  have "expand e1 (ws ! 1) = ''--rm=true''" using list_all2_nthD2 [OF l, of 1] by simp
  with c e show ?thesis by simp
qed

text \<open>
  C31. The text of a unit does not depend on the iteration order of its Go maps: any order of the environment and of
  the project settings renders to the same text, so a unit is not replaced for its map order.
\<close>

theorem rendering_deterministic:
  assumes "distinct (map fst (Environment (ExecOptions u)))" "mset (Environment (ExecOptions u)) = mset env"
    and "mset (projectSettings u) = mset ps"
  shows "render ctx (u\<lparr>ExecOptions := (ExecOptions u)\<lparr>Environment := env\<rparr>, projectSettings := ps\<rparr>) = render ctx u"
  by (rule render_perm [OF assms])

definition ex_unit :: sd_unit where
  "ex_unit = \<lparr>Name = ''u'', FullName = ''u.service'', UnitType = ''service'', Description = ''d'', ScalingGroup = 1,
     ExecOptions = (new_exec_options [''/bin/true''])\<lparr>Environment := [(''A00'', ''x''), (''A01'', ''y'')]\<rparr>,
     UnitFleetOptions = new_fleet_unit_options, projectSettings = []\<rparr>"

theorem rendering_deterministic_witness:
  "\<forall>ctx. render ctx (ex_unit\<lparr>ExecOptions := (ExecOptions ex_unit)\<lparr>Environment := [(''A01'', ''y''), (''A00'', ''x'')]\<rparr>,
     projectSettings := []\<rparr>) = render ctx ex_unit"
  by (rule allI, rule rendering_deterministic) (simp_all add: ex_unit_def)

section \<open>Names and values of a job\<close>

text \<open>
  C25. Every image that \<^verbatim>\<open>ParseDockerImage\<close> returns is well-formed, prints to a string
  that parses to the same image, and prints to a non-empty string without spaces.
\<close>

theorem image_round_trip:
  assumes "parse_docker_image s = Inr img"
  shows "image_ok img \<and> parse_docker_image (image_string img) = Inr img \<and>
    image_string img \<noteq> '''' \<and> CHR '' '' \<notin> set (image_string img)"
  using parse_docker_image_ok [OF assms] parse_image_string image_string_no_space by blast

theorem image_round_trip_witness:
  "parse_docker_image ''reg.io:5000/pulcy/j2:0.1'' =
     Inr \<lparr>di_Registry = ''reg.io:5000'', di_Namespace = ''pulcy'', di_Repository = ''j2'', di_Version = ''0.1''\<rparr> \<and>
   parse_docker_image (image_string
     \<lparr>di_Registry = ''reg.io:5000'', di_Namespace = ''pulcy'', di_Repository = ''j2'', di_Version = ''0.1''\<rparr>) =
     Inr \<lparr>di_Registry = ''reg.io:5000'', di_Namespace = ''pulcy'', di_Repository = ''j2'', di_Version = ''0.1''\<rparr>"
proof -
  have p: "parse_docker_image ''reg.io:5000/pulcy/j2:0.1'' =
     Inr \<lparr>di_Registry = ''reg.io:5000'', di_Namespace = ''pulcy'', di_Repository = ''j2'', di_Version = ''0.1''\<rparr>"
    by code_simp
  with image_round_trip [OF p] show ?thesis by blast
qed

text \<open>
  C26. Every port mapping that parses has its ports in 0..65535, a container port of at least 1 and a protocol
  of tcp or udp, and prints to a string that parses to the same mapping.
\<close>

theorem port_mapping_round_trip:
  assumes "port_mapping_parse s = Inr p"
  shows "port_mapping_ok p \<and> port_mapping_parse (port_mapping_string p) = Inr p"
  using port_mapping_parse_ok [OF assms] port_mapping_parse_ip [OF assms] port_mapping_parse_string by blast

theorem port_mapping_round_trip_witness:
  "port_mapping_parse ''80:8080/udp'' = Inr \<lparr>HostIP = '''', HostPort = 80, ContainerPort = 8080, Protocol = ''udp''\<rparr> \<and>
   port_mapping_parse (port_mapping_string \<lparr>HostIP = '''', HostPort = 80, ContainerPort = 8080, Protocol = ''udp''\<rparr>) =
     Inr \<lparr>HostIP = '''', HostPort = 80, ContainerPort = 8080, Protocol = ''udp''\<rparr>"
proof -
  let ?p = "\<lparr>HostIP = '''', HostPort = 80, ContainerPort = 8080, Protocol = ''udp''\<rparr>"
  have "port_mapping_string ?p = ''80:8080/udp''"
    by (simp add: port_mapping_string_def protocolUDP_def itoa_def nat_str.simps [of 80] nat_str.simps [of 8]
        nat_str.simps [of 8080] nat_str.simps [of 808] digit_char_def) code_simp
  moreover have "port_mapping_parse (port_mapping_string ?p) = Inr ?p"
    by (rule port_mapping_parse_string) (simp_all add: port_mapping_ok_def protocolUDP_def)
  ultimately have p: "port_mapping_parse ''80:8080/udp'' = Inr ?p" by simp
  with port_mapping_round_trip [OF p] show ?thesis by blast
qed

text \<open>
  C27. Every volume that parses to a type and, when local, a host path, prints to a string that parses to the same
  volume.
\<close>

theorem volume_round_trip:
  assumes "parse_volume s = Inr v" "volume_printable v"
  shows "parse_volume (volume_string v) = Inr v"
  by (rule parse_volume_string [OF assms])

theorem volume_round_trip_witness:
  "parse_volume ''/etc/ssl:/certs:ro'' = Inr \<lparr>v_Path = ''/certs'', v_Type = ''local'', v_HostPath = ''/etc/ssl'',
     v_Options = [''ro''], v_MountOptions = []\<rparr> \<and>
   parse_volume (volume_string \<lparr>v_Path = ''/certs'', v_Type = ''local'', v_HostPath = ''/etc/ssl'',
     v_Options = [''ro''], v_MountOptions = []\<rparr>) =
     Inr \<lparr>v_Path = ''/certs'', v_Type = ''local'', v_HostPath = ''/etc/ssl'', v_Options = [''ro''], v_MountOptions = []\<rparr>"
proof -
  have p: "parse_volume ''/etc/ssl:/certs:ro'' = Inr \<lparr>v_Path = ''/certs'', v_Type = ''local'', v_HostPath = ''/etc/ssl'',
     v_Options = [''ro''], v_MountOptions = []\<rparr>" by code_simp
  have "volume_printable \<lparr>v_Path = ''/certs'', v_Type = ''local'', v_HostPath = ''/etc/ssl'',
     v_Options = [''ro''], v_MountOptions = []\<rparr>" by code_simp
  with volume_round_trip [OF p] p show ?thesis by blast
qed

text \<open>
  C28. A link name that parses has valid parts, its normal form \<^verbatim>\<open>String\<close> is the one
  \<^verbatim>\<open>NewLinkName\<close> builds from them, and parses to the same parts.
\<close>

theorem link_name_round_trip:
  assumes "link_parse ln = ((j, g, t, i), Inr u)"
  shows "parts_ok (j, g, t, i) \<and> link_string ln = new_link_name j g t i \<and>
    link_parse (link_string ln) = ((j, g, t, i), Inr ())"
  using link_parse_parts [OF assms] link_string_parts [OF assms] link_parse_new by simp

theorem link_name_round_trip_witness:
  "link_string ''shop.app'' = ''shop.app.app'' \<and> parts_ok (''shop'', ''app'', ''app'', '''')"
proof -
  have p: "link_parse ''shop.app'' = ((''shop'', ''app'', ''app'', ''''), Inr ())" by code_simp
  have "new_link_name ''shop'' ''app'' ''app'' '''' = ''shop.app.app''" by code_simp
  with link_name_round_trip [OF p] show ?thesis by simp
qed

text \<open>
  C29. The private domain name and the service name of a link determine the job, task group, task and instance it points to: two
  links have the same domain, or the same service, exactly when they have the same parts.
\<close>

theorem link_addresses_unique:
  assumes "link_parse ln = (p, Inr u)" "link_parse ln' = (p', Inr u')"
  shows "(private_domain_name ln = private_domain_name ln' \<longleftrightarrow> p = p') \<and>
    (etcd_service_name ln = etcd_service_name ln' \<longleftrightarrow> p = p')"
proof -
  obtain j g t i where p: "p = (j, g, t, i)" by (cases p) auto
  obtain j' g' t' i' where p': "p' = (j', g', t', i')" by (cases p') auto
  note a = assms [unfolded p p']
  have "link_string ln = link_string ln'" if "p = p'"
    using link_string_parts [OF a(1)] link_string_parts [OF a(2)] that p p' by simp
  then have "p = p' \<Longrightarrow> private_domain_name ln = private_domain_name ln' \<and> etcd_service_name ln = etcd_service_name ln'"
    by (simp add: private_domain_name_def etcd_service_name_def)
  then show ?thesis
    using private_domain_name_inj [OF a] etcd_service_name_inj [OF a] unfolding p p' by blast
qed

theorem link_addresses_unique_witness:
  "private_domain_name ''shop.app'' = private_domain_name ''shop.app.app'' \<and>
   etcd_service_name ''shop.app'' \<noteq> etcd_service_name ''shop.app.app@1''"
proof -
  have p: "link_parse ''shop.app'' = ((''shop'', ''app'', ''app'', ''''), Inr ())"
    "link_parse ''shop.app.app'' = ((''shop'', ''app'', ''app'', ''''), Inr ())" by code_simp+
  have "parts_ok (''shop'', ''app'', ''app'', itoa 1)"
    by (simp add: instance_validate_ok) code_simp
  then have q: "link_parse (new_link_name ''shop'' ''app'' ''app'' (itoa 1)) = ((''shop'', ''app'', ''app'', itoa 1), Inr ())"
    by (rule link_parse_new)
  have n: "new_link_name ''shop'' ''app'' ''app'' (itoa 1) = ''shop.app.app@1''" by code_simp
  show ?thesis
    using link_addresses_unique [OF p] link_addresses_unique [OF p(1) q [unfolded n]] itoa_not_Nil [of 1, symmetric]
    by simp
qed

text \<open>
  Merging constraints overrides them by attribute, like a map update, and keeps a valid list valid, so the constraints a task
  group is rendered with are those of the job with its own on top.
\<close>

theorem constraints_merge_override:
  "constraints_get (constraints_merge cs additional) a =
     (case constraints_get additional a of None \<Rightarrow> constraints_get cs a | Some c \<Rightarrow> Some c) \<and>
   (constraints_validate cs = Inr () \<and> constraints_validate additional = Inr () \<longrightarrow>
     constraints_validate (constraints_merge cs additional) = Inr ())"
  using constraints_get_merge constraints_merge_valid by blast

definition ex_constraint :: "string \<Rightarrow> string \<Rightarrow> constraint" where
  "ex_constraint a v = \<lparr>Attribute = a, Value = v, Operator = ''''\<rparr>"

theorem constraints_merge_override_witness:
  "constraints_validate (constraints_merge [ex_constraint ''node.id'' ''x'', ex_constraint ''meta.odd'' ''true'']
     [ex_constraint ''node.id'' ''y'']) = Inr () \<and>
   constraints_get (constraints_merge [ex_constraint ''node.id'' ''x'', ex_constraint ''meta.odd'' ''true'']
     [ex_constraint ''node.id'' ''y'']) ''node.id'' = Some (ex_constraint ''node.id'' ''y'')"
proof -
  have v: "constraints_validate [ex_constraint ''node.id'' ''x'', ex_constraint ''meta.odd'' ''true''] = Inr ()"
    "constraints_validate [ex_constraint ''node.id'' ''y''] = Inr ()" by code_simp+
  have "constraints_get [ex_constraint ''node.id'' ''y''] ''node.id'' = Some (ex_constraint ''node.id'' ''y'')"
    by code_simp
  with v constraints_merge_override
      [of "[ex_constraint ''node.id'' ''x'', ex_constraint ''meta.odd'' ''true'']" "[ex_constraint ''node.id'' ''y'']" "''node.id''"]
  show ?thesis by simp
qed

text \<open>
  \<^verbatim>\<open>Constraints.Add\<close> accepts two lists that share an attribute only when the
  constraints for it are identical, and then the result has the attribute twice, which
  \<^verbatim>\<open>Validate\<close> rejects.
\<close>

theorem constraints_add_duplicates:
  assumes "constraints_add cs additional = Inr r" "c \<in> set cs" "constraints_get additional (Attribute c) = Some d"
  shows "constraint_equals c d \<and> r = additional @ cs \<and> constraints_validate r \<noteq> Inr ()"
  using assms constraints_add_shared_invalid [OF assms(1,2)]
  by (auto simp: constraints_add_ok constraints_contains_def)

theorem constraints_add_duplicates_witness:
  "constraints_add [ex_constraint ''node.id'' ''x''] [ex_constraint ''node.id'' ''x''] =
     Inr [ex_constraint ''node.id'' ''x'', ex_constraint ''node.id'' ''x''] \<and>
   constraints_validate [ex_constraint ''node.id'' ''x'', ex_constraint ''node.id'' ''x''] \<noteq> Inr ()"
proof -
  have a: "constraints_add [ex_constraint ''node.id'' ''x''] [ex_constraint ''node.id'' ''x''] =
     Inr [ex_constraint ''node.id'' ''x'', ex_constraint ''node.id'' ''x'']" by code_simp
  have g: "constraints_get [ex_constraint ''node.id'' ''x''] (Attribute (ex_constraint ''node.id'' ''x'')) =
      Some (ex_constraint ''node.id'' ''x'')" by code_simp
  from constraints_add_duplicates [OF a _ g] a show ?thesis by simp
qed

text \<open>
  C30. A cluster with a stack, a domain and an instance count that is not negative is valid once the
  defaults are set, and setting them again changes nothing.
\<close>

theorem cluster_defaults:
  assumes "Stack c \<noteq> ''''" "c_Domain c \<noteq> ''''" "0 \<le> InstanceCount c"
  shows "cluster_validate (cluster_set_defaults getenv kubePath c) = Inr () \<and>
    cluster_set_defaults getenv kubePath (cluster_set_defaults getenv kubePath c) = cluster_set_defaults getenv kubePath c"
proof -
  have "cluster_validate (cluster_set_defaults getenv kubePath c) = Inr ()"
    using assms by (simp add: cluster_validate_ok)
  moreover have "cluster_set_defaults getenv kubePath (cluster_set_defaults getenv kubePath c) =
      cluster_set_defaults getenv kubePath c"
    by (rule cluster.equality) (simp_all add: cluster_set_defaults_orchestrator)
  ultimately show ?thesis ..
qed

theorem cluster_defaults_witness:
  "cluster_validate (cluster_set_defaults (\<lambda>_. '''') ''/k'' (empty_cluster\<lparr>Stack := ''s'', c_Domain := ''d''\<rparr>)) = Inr ()"
  using cluster_defaults [of "empty_cluster\<lparr>Stack := ''s'', c_Domain := ''d''\<rparr>" "\<lambda>_. ''''" "''/k''"]
  by (simp add: empty_cluster_def)

section \<open>Front ends\<close>

text \<open>
  C22. Every front end of a task is registered: for each public one, and for each private one under the private
  domain name of the task, a record of the right mode has a selector that serves it.
\<close>

theorem fleet_front_ends_registered:
  assumes "create_front_end_records c fleet_frontend_names j tg t sg False = Inr rs" "named j tg t"
  shows "(\<forall>fr \<in> set (t_PublicFrontEnds t). \<exists>r \<in> set rs. fe_Mode (Record r) = mode_name (pf_Mode fr = ''tcp'') \<and>
      (\<exists>s \<in> set (Selectors (Record r)). serves_public c t fr s)) \<and>
    (\<forall>fr \<in> set (t_PrivateFrontEnds t). \<exists>r \<in> set rs. fe_Mode (Record r) = mode_name (private_is_tcp fr) \<and>
      (\<exists>s \<in> set (Selectors (Record r)). serves_private c t fr (task_private_domain_name j tg t) s))"
proof -
  have "CreatePrivateDomainNames fleet_frontend_names j tg t = Inr [task_private_domain_name j tg t]"
    by (simp add: fleet_frontend_names_def)
  then show ?thesis using fleet_names.front_ends_served [OF assms] by force
qed

lemma ex_web_records:
  "\<exists>rs. create_front_end_records ex_crypto fleet_frontend_names ex_job ex_group ex_web 1 False = Inr rs"
  by (simp add: create_front_end_records_def fleet_frontend_names_def ex_web_def ex_task_def empty_task_def
      add_public_def add_users_def)

lemma ex_web_named: "named ex_job ex_group ex_web"
  by code_simp

theorem fleet_front_ends_registered_witness:
  "\<exists>rs. create_front_end_records ex_crypto fleet_frontend_names ex_job ex_group ex_web 1 False = Inr rs \<and>
     (\<exists>r \<in> set rs. fe_Mode (Record r) = '''' \<and> (\<exists>s \<in> set (Selectors (Record r)). sr_Domain s = ''a.b'' \<and> ServicePort s = 80))"
proof -
  obtain rs where r: "create_front_end_records ex_crypto fleet_frontend_names ex_job ex_group ex_web 1 False = Inr rs"
    using ex_web_records by blast
  from fleet_front_ends_registered [OF r ex_web_named] r show ?thesis
    by (auto simp: ex_web_def serves_public_def mode_name_def)
qed

text \<open>
  C23. Two records with the same etcd key belong to the same task of the same job, the same scaling group and the same kind of record, so no
  unit overwrites or removes the registration of another task or instance.
\<close>

theorem fleet_registration_keys:
  assumes "create_front_end_records c fleet_frontend_names j tg t sg po = Inr rs"
    and "create_front_end_records c fleet_frontend_names j' tg' t' sg' po' = Inr rs'"
    and "named j tg t" "named j' tg' t'" "r \<in> set rs" "r' \<in> set rs'" "Key r = Key r'"
  shows "j_Name j = j_Name j' \<and> g_Name tg = g_Name tg' \<and> t_Name t = t_Name t' \<and> sg = sg' \<and>
    ProjectSetting r = ProjectSetting r'"
  using fleet_names.keys_apart [OF assms] by simp

theorem fleet_registration_keys_witness:
  "\<exists>rs r. create_front_end_records ex_crypto fleet_frontend_names ex_job ex_group ex_web 1 False = Inr rs \<and>
     r \<in> set rs \<and> (\<forall>rs' r'. create_front_end_records ex_crypto fleet_frontend_names ex_job ex_group ex_web 2 False = Inr rs' \<longrightarrow>
       r' \<in> set rs' \<longrightarrow> Key r \<noteq> Key r')"
proof -
  obtain rs where r: "create_front_end_records ex_crypto fleet_frontend_names ex_job ex_group ex_web 1 False = Inr rs"
    using ex_web_records by blast
  obtain x where x: "x \<in> set rs"
    using fleet_names.front_ends_served(1) [OF r ex_web_named] by (fastforce simp: ex_web_def)
  have "Key x \<noteq> Key r'"
    if "create_front_end_records ex_crypto fleet_frontend_names ex_job ex_group ex_web 2 False = Inr rs'" "r' \<in> set rs'" for rs' r'
    using fleet_registration_keys [OF r that(1) ex_web_named ex_web_named x that(2)] by auto
  with r x show ?thesis by blast
qed

text \<open>
  C33. The units of a task together register exactly the front end records of the task and, when it has metrics, its
  metrics record: after the start a unit sets the key in etcd to the JSON text of the record, no key twice. What a unit sets
  it also removes when it stops, before the container is stopped, and it removes nothing else.
\<close>

theorem task_registrations:
  assumes "create_task_units rd ctx j tg t = Inr uss"
  shows "\<exists>rs. create_front_end_records (rd_crypto rd) fleet_frontend_names j tg t (gc_ScalingGroup ctx) False = Inr rs \<and>
    (\<forall>k v. (\<exists>u \<in> set (concat uss). registers u k v) \<longleftrightarrow>
       (\<exists>r \<in> set rs. k = Key r \<and> v = frontend_json (Record r)) \<or>
       (\<exists>m. t_Metrics t = Some m \<and> k = metrics_key j tg t (gc_ScalingGroup ctx) \<and>
          v = metrics_json \<lparr>mr_ServiceName = target_service_name j tg t, mr_ServicePort = m_Port m,
            mr_MetricsPath = m_Path m, mr_RulesPath = m_RulesPath m\<rparr>)) \<and>
    (\<forall>u \<in> set (concat uss). \<forall>u' \<in> set (concat uss). \<forall>k v v'. registers u k v \<and> registers u' k v' \<longrightarrow> v = v') \<and>
    (\<forall>u \<in> set (concat uss). \<forall>k. unregisters u k \<longleftrightarrow> (\<exists>v. registers u k v)) \<and>
    (\<forall>u \<in> set (concat uss). \<forall>k v. registers u k v \<longrightarrow>
       (\<exists>e. new_engine ctx t = Inr e \<and>
          last (ExecStop (ExecOptions u)) = format_cmd (stop_cmd e (container_name j tg t (gc_ScalingGroup ctx)))))"
proof -
  obtain rs where
    rs: "create_front_end_records (rd_crypto rd) fleet_frontend_names j tg t (gc_ScalingGroup ctx) False = Inr rs"
    and reg: "\<And>k v. (\<exists>u \<in> set (concat uss). registers u k v) \<longleftrightarrow> (k, v) \<in> set (registrations ctx j tg t rs)"
    and unreg: "\<And>u k. u \<in> set (concat uss) \<Longrightarrow> unregisters u k \<longleftrightarrow> (\<exists>v. registers u k v)"
    and unique: "\<And>k v v'. (k, v) \<in> set (registrations ctx j tg t rs) \<Longrightarrow>
      (k, v') \<in> set (registrations ctx j tg t rs) \<Longrightarrow> v = v'"
    and stop: "\<And>u k v. u \<in> set (concat uss) \<Longrightarrow> registers u k v \<Longrightarrow>
       \<exists>e. new_engine ctx t = Inr e \<and>
         last (ExecStop (ExecOptions u)) = format_cmd (stop_cmd e (container_name j tg t (gc_ScalingGroup ctx)))"
    by (rule task_units_register [OF assms]) (rule that; assumption)
  have "v = v'" if "u \<in> set (concat uss)" "u' \<in> set (concat uss)" "registers u k v \<and> registers u' k v'" for u u' k v v'
    using that by (meson reg unique)
  then show ?thesis
    by (intro exI [of _ rs] conjI allI ballI impI rs unreg stop; (simp only: reg registrations_iff | blast))
qed

definition metered_web :: task where
  "metered_web = ex_web\<lparr>t_Metrics := Some \<lparr>m_Port = 9, m_Path = '''', m_RulesPath = ''''\<rparr>\<rparr>"

definition metered_group :: task_group where
  "metered_group = ex_group\<lparr>g_Tasks := [ex_db, metered_web]\<rparr>"

lemma metered_units: "\<exists>uss. create_task_units ex_rendering ex_context ex_job metered_group metered_web = Inr uss"
proof -
  have "group_ok metered_group" unfolding task_group_validate_ok [where u = "()", symmetric] by code_simp
  moreover have "renderable_group ex_rendering ex_job ex_cluster metered_group" by code_simp
  ultimately have "task_renders ex_rendering ex_context ex_job metered_group metered_web"
    using ex_jobs_ok(1) by (simp add: task_renders_def ex_context_def metered_group_def ex_group_def)
  then show ?thesis using create_task_units_total by (auto simp: is_ok_iff)
qed

lemma metered_keys:
  "map Key (case create_front_end_records ex_crypto fleet_frontend_names ex_job metered_group metered_web 1 False of
     Inr rs \<Rightarrow> rs | Inl _ \<Rightarrow> []) = [''/pulcy/frontend/shop-app-web-1'']"
  "metrics_key ex_job metered_group metered_web 1 = ''/pulcy/metrics/shop-app-web-1''"
  by code_simp+

theorem task_registrations_witness:
  "\<exists>uss. create_task_units ex_rendering ex_context ex_job metered_group metered_web = Inr uss \<and>
    (\<exists>u \<in> set (concat uss). unregisters u ''/pulcy/frontend/shop-app-web-1'') \<and>
    (\<exists>u \<in> set (concat uss). unregisters u ''/pulcy/metrics/shop-app-web-1'')"
proof -
  let ?m = "\<lparr>m_Port = 9, m_Path = '''', m_RulesPath = ''''\<rparr>" and ?j = ex_job and ?g = metered_group and ?t = metered_web
  obtain uss where u: "create_task_units ex_rendering ex_context ?j ?g ?t = Inr uss" using metered_units by blast
  have c: "rd_crypto ex_rendering = ex_crypto" "gc_ScalingGroup ex_context = 1"
    by (simp_all add: ex_rendering_def ex_context_def)
  obtain rs where rs: "create_front_end_records ex_crypto fleet_frontend_names ?j ?g ?t 1 False = Inr rs"
    and r: "\<forall>k v. (\<exists>u \<in> set (concat uss). registers u k v) \<longleftrightarrow>
       (\<exists>r \<in> set rs. k = Key r \<and> v = frontend_json (Record r)) \<or>
       (\<exists>m. t_Metrics ?t = Some m \<and> k = metrics_key ?j ?g ?t 1 \<and>
          v = metrics_json \<lparr>mr_ServiceName = target_service_name ?j ?g ?t, mr_ServicePort = m_Port m,
            mr_MetricsPath = m_Path m, mr_RulesPath = m_RulesPath m\<rparr>)"
    and d: "\<forall>u \<in> set (concat uss). \<forall>k. unregisters u k \<longleftrightarrow> (\<exists>v. registers u k v)"
    using task_registrations [OF u, unfolded c] by (elim exE conjE) (rule that; assumption)
  have both: "\<exists>u \<in> set (concat uss). unregisters u k"
    if "(\<exists>r \<in> set rs. k = Key r) \<or> k = metrics_key ?j ?g ?t 1" for k
  proof -
    have "t_Metrics ?t = Some ?m" by (simp add: metered_web_def)
    then have "\<exists>v. \<exists>u \<in> set (concat uss). registers u k v" using that unfolding r [rule_format] by blast
    with d show ?thesis by blast
  qed
  have "\<exists>r \<in> set rs. ''/pulcy/frontend/shop-app-web-1'' = Key r" using metered_keys(1) rs by auto
  with u both metered_keys(2) show ?thesis by metis
qed

section \<open>What goes wrong\<close>

text \<open>
  C32. A deployment whose scaling group selection is larger than the largest group count generates no scaling group, and
  \<^verbatim>\<open>Run\<close> then reads the last element of an empty list: it panics, before anything is
  changed.
\<close>

theorem fleet_run_without_scaling_group:
  assumes "fleet_ok (w_cluster w)" "max_count j < scalingGroupSelection d"
  shows "run_fleet rd f j d c w = (Inl Panic, w)"
proof -
  obtain us where "fleet_list (w_cluster w) = Inr us"
    using tunnel_list_effect assms(1) unfolding fleet_list_def fleet_ok_def by metis
  moreover have "filter (sgs_includes (scalingGroupSelection d)) [1..<max_count j + 1] = []"
    using assms(2) by (auto simp: sgs_includes_def filter_empty_conv simp del: upt_Suc)
  then have "generate_scaling_groups (generate_scaling_group_units rd j d c) d (max_count j) = Inr []"
    by (simp add: generate_scaling_groups_def del: upt_Suc)
  ultimately show ?thesis by (simp add: run_fleet_def run_def fleet_scheduler_sel) (simp add: fleet_scheduler_def)
qed

theorem fleet_run_without_scaling_group_witness:
  "run_fleet ex_rendering ex_tunnel tiny_job (ex_deployment\<lparr>scalingGroupSelection := 2\<rparr>) ex_cluster ex_world =
     (Inl Panic, ex_world)"
  by (rule fleet_run_without_scaling_group [OF ex_world_ok]) (simp add: ex_counts)


text \<open>
  C34. On Kubernetes the pods of a task group are a partition of its tasks: every task is in exactly one
  pod, and a task is in the pod of every task it mounts volumes from or comes after.
\<close>

theorem pods_partition_tasks:
  assumes "group_ok tg" "group_task_into_pods tg = Inr ps"
  shows "mset (concat (map pod_tasks ps)) = mset (g_Tasks tg) \<and>
    (\<forall>p \<in> set ps. \<forall>t \<in> set (pod_tasks p). \<forall>t' \<in> set (g_Tasks tg).
       t_Name t' \<in> set (t_VolumesFrom t) \<union> set (t_After t) \<longrightarrow> t' \<in> set (pod_tasks p))"
  using pods_partition [OF assms(2) group_ok_distinct [OF assms(1)]]
    pods_keep_together [OF assms(2) group_ok_distinct [OF assms(1)]] by simp

theorem pods_partition_tasks_witness:
  "\<exists>ps. group_task_into_pods pod_group = Inr ps \<and> mset (concat (map pod_tasks ps)) = mset (g_Tasks pod_group)"
  using pod_group_pods pods_partition_tasks [OF pod_groups_ok(1)] by blast

text \<open>
  C35. In a pod of a group whose restart policy is not \<^verbatim>\<open>all\<close>, every task stands behind
  the tasks named in its \<^verbatim>\<open>After\<close> list.
\<close>

theorem pod_task_order:
  assumes "group_ok tg" "group_task_into_pods tg = Inr ps" "\<not> restart_policy_is_all (g_RestartPolicy tg)"
    and "p \<in> set ps" "a < b" "b < length (pod_tasks p)"
  shows "t_Name (pod_tasks p ! b) \<notin> set (t_After (pod_tasks p ! a))"
  using pods_ordered [OF assms(2) group_ok_distinct [OF assms(1)] assms(3,4)] assms(5,6) by (simp add: ordered_to_def)

theorem pod_task_order_witness:
  "\<exists>p q. group_task_into_pods pod_group = Inr [p, q] \<and> t_Name (pod_tasks q ! 1) \<notin> set (t_After (pod_tasks q ! 0))"
proof -
  obtain p q where g: "group_task_into_pods pod_group = Inr [p, q]" "map t_Name (pod_tasks q) = [''db'', ''web'']"
    using pod_group_pods by (elim exE conjE) (rule that; assumption)
  from arg_cong [OF g(2), of length] have "length (pod_tasks q) = 2" by simp
  with pod_task_order [OF pod_groups_ok(1) g(1) pod_groups_policy(1), of q 0 1] g(1) show ?thesis by simp
qed

text \<open>
  C36. Grouping the tasks of a valid group without restart policy \<^verbatim>\<open>all\<close> returns unless
  some tasks come after each other in a ring, and then it runs forever: validation does not refuse such a
  group.
\<close>

theorem pod_grouping_hangs:
  assumes "group_ok tg" "\<not> restart_policy_is_all (g_RestartPolicy tg)"
  shows "group_task_into_pods tg = Inl Hang \<longleftrightarrow> \<not> acyclic (after_rel (g_Tasks tg))"
proof (rule group_hangs [OF assms(2) group_ok_distinct [OF assms(1)]], intro ballI)
  fix t assume "t \<in> set (g_Tasks tg)"
  from group_ok_task [OF assms(1) this] show "set (t_VolumesFrom t) \<union> set (t_After t) \<subseteq> t_Name ` set (g_Tasks tg)"
    by (auto simp: task_ok_def)
qed

theorem pod_grouping_hangs_witness: "group_ok ring_group \<and> group_task_into_pods ring_group = Inl Hang"
  using pod_grouping_hangs [OF pod_groups_ok(2) pod_groups_policy(2)] ring_cycle pod_groups_ok(2) by simp

section \<open>Deploying a job on Kubernetes\<close>

text \<open>
  C3. After a successful run on Kubernetes every generated object is in the namespace of the job in an accepted
  form, every other object there that the deployment selects is gone, and what the deployment does not select is as
  before, except the secrets of the cluster. The API server is any that meets \<open>api_laws\<close>; where an
  object already has a generated name, it is one of the deployment.
\<close>

theorem k8s_run_converges:
  assumes "api_laws (sp_Client u) st" "orders_well u" "k8s_ok st (k8s_resource_name (j_Name j)) cl (w_cluster w)"
    and "run_k8s c im u j d cl w = (Inr k, w')"
    and "distinct (map g_Name (j_Groups j))" "\<forall>tg \<in> set (j_Groups j). plain_group tg" "registries_apart cl"
    and "scalingGroupSelection d \<le> 1" "generate_k8s_scaling_group c im j d cl 1 = Inr xs"
    and "\<forall>x \<in> set xs. \<forall>y. k8s_view st (k8s_resource_name (j_Name j)) (w_cluster w) (object_name x) = Some y \<longrightarrow>
      k8s_selected j d y"
  shows "(\<forall>x \<in> set xs. \<exists>y. k8s_view st (k8s_resource_name (j_Name j)) (w_cluster w') (object_name x) = Some y \<and>
      k8s_accepts x y) \<and>
    (\<forall>n y. k8s_view st (k8s_resource_name (j_Name j)) (w_cluster w) n = Some y \<and> k8s_selected j d y \<and>
      n \<notin> object_name ` set xs \<longrightarrow> k8s_view st (k8s_resource_name (j_Name j)) (w_cluster w') n = None) \<and>
    (\<forall>n. (\<forall>y. k8s_view st (k8s_resource_name (j_Name j)) (w_cluster w) n = Some y \<longrightarrow> \<not> k8s_selected j d y) \<and>
      n \<notin> object_name ` set xs \<union> reserved_names cl \<longrightarrow>
      k8s_view st (k8s_resource_name (j_Name j)) (w_cluster w') n = k8s_view st (k8s_resource_name (j_Name j)) (w_cluster w) n)"
proof (intro conjI ballI allI impI)
  note e = run_k8s_effect [OF assms]
  show "\<exists>y. k8s_view st (k8s_resource_name (j_Name j)) (w_cluster w') (object_name x) = Some y \<and> k8s_accepts x y"
    if "x \<in> set xs" for x using e(1) [OF that] .
  show "k8s_view st (k8s_resource_name (j_Name j)) (w_cluster w') n = None"
    if "k8s_view st (k8s_resource_name (j_Name j)) (w_cluster w) n = Some y \<and> k8s_selected j d y \<and> n \<notin> object_name ` set xs"
    for n y using e(2) [of n y] that by blast
  show "k8s_view st (k8s_resource_name (j_Name j)) (w_cluster w') n = k8s_view st (k8s_resource_name (j_Name j)) (w_cluster w) n"
    if "(\<forall>y. k8s_view st (k8s_resource_name (j_Name j)) (w_cluster w) n = Some y \<longrightarrow> \<not> k8s_selected j d y) \<and>
      n \<notin> object_name ` set xs \<union> reserved_names cl" for n
    using e(3) [of n] that by (cases "k8s_view st (k8s_resource_name (j_Name j)) (w_cluster w) n") auto
qed

theorem k8s_run_converges_witness:
  "\<exists>w' y. run_k8s ex_crypto no_images ex_setup site_job ex_deployment ex_cluster ex_k8s_world = (Inr 1, w') \<and>
     k8s_view mem_store ''shop'' (w_cluster w') ''app-web-depl'' = Some y \<and>
     k8s_view mem_store ''shop'' (w_cluster w') ''app-old-igr'' = None \<and>
     k8s_view mem_store ''shop'' (w_cluster w') ''app-new-igr'' = Some (core (ex_ingress ''shop'' ''app-new-igr'' ''blog''))"
proof -
  obtain w' where r: "run_k8s ex_crypto no_images ex_setup site_job ex_deployment ex_cluster ex_k8s_world = (Inr 1, w')"
    using site_run by blast
  obtain xs where g: "generate_k8s_scaling_group ex_crypto no_images site_job ex_deployment ex_cluster 1 = Inr xs"
    "map object_name xs = [''app-web-depl'', ''app-web-srv'', ''app-web-igr'']"
    "\<forall>x \<in> set xs. k8s_view mem_store ''shop'' ex_api (object_name x) = None"
    using site_generated by (elim exE conjE) (rule that; assumption)
  have names: "object_name ` set xs = {''app-web-depl'', ''app-web-srv'', ''app-web-igr''}"
    using arg_cong [OF g(2), of set] by simp
  have sel: "scalingGroupSelection ex_deployment \<le> 1" "''app-new-igr'' \<notin> reserved_names ex_cluster" by code_simp+
  note c = k8s_run_converges [OF ex_setup_laws _ r site_job_plain(2,1) ex_registries_apart sel(1) g(1), unfolded site_names
      ex_k8s_sel names, OF ex_api_ok]
  have own: "\<forall>x \<in> set xs. \<forall>y. k8s_view mem_store ''shop'' ex_api (object_name x) = Some y \<longrightarrow> k8s_selected site_job ex_deployment y"
    using g(3) by simp
  note c1 = conjunct1 [OF c [OF own]] and c2 = conjunct1 [OF conjunct2 [OF c [OF own]], rule_format]
    and c3 = conjunct2 [OF conjunct2 [OF c [OF own]], rule_format]
  have "''app-web-depl'' \<in> object_name ` set xs" unfolding names by (rule insertI1)
  then obtain x where x: "''app-web-depl'' = object_name x" "x \<in> set xs" by (rule imageE)
  from bspec [OF c1 x(2)] x(1) obtain y where y: "k8s_view mem_store ''shop'' (w_cluster w') ''app-web-depl'' = Some y" by auto
  have "k8s_view mem_store ''shop'' (w_cluster w') ''app-old-igr'' = None"
    by (rule c2 [where y = "core (ex_ingress ''shop'' ''app-old-igr'' ''shop'')"]) (use ex_views(1) ex_selected(1) in simp)
  moreover have "k8s_view mem_store ''shop'' (w_cluster w') ''app-new-igr'' = Some (core (ex_ingress ''shop'' ''app-new-igr'' ''blog''))"
    using c3 [of "''app-new-igr''"] ex_views(2) ex_selected(2) sel(2) by simp
  ultimately show ?thesis using r y by blast
qed

text \<open>
  C9. Whatever its outcome, a run on Kubernetes changes no object of another namespace, and in its own namespace only
  generated objects, objects the deployment selects and the secrets of the cluster.
\<close>

theorem k8s_run_leaves_others:
  assumes "api_laws (sp_Client u) st" "orders_well u" "k8s_ok st (k8s_resource_name (j_Name j)) cl (w_cluster w)"
    and "run_k8s c im u j d cl w = (res, w')"
  shows "(\<forall>k ns n. ns \<noteq> k8s_resource_name (j_Name j) \<longrightarrow> st (w_cluster w') k ns n = st (w_cluster w) k ns n) \<and>
    (\<forall>n. n \<notin> reserved_names cl \<and>
      (\<forall>xs. generate_k8s_scaling_group c im j d cl 1 = Inr xs \<longrightarrow> n \<notin> object_name ` set xs) \<and>
      (\<forall>y. k8s_view st (k8s_resource_name (j_Name j)) (w_cluster w) n = Some y \<longrightarrow> \<not> k8s_selected j d y) \<longrightarrow>
      k8s_view st (k8s_resource_name (j_Name j)) (w_cluster w') n = k8s_view st (k8s_resource_name (j_Name j)) (w_cluster w) n)"
  using run_k8s_elsewhere [OF assms(1,2,4)] run_k8s_frame [OF assms] by (simp add: elsewhere_same_def)

theorem k8s_run_leaves_others_witness:
  "\<exists>w'. run_k8s ex_crypto no_images ex_setup site_job ex_deployment ex_cluster ex_k8s_world = (Inr 1, w') \<and>
     mem_store (w_cluster w') KIngress ''blog'' ''app-web-igr'' = Some (core (ex_ingress ''blog'' ''app-web-igr'' ''blog''))"
proof -
  obtain w' where r: "run_k8s ex_crypto no_images ex_setup site_job ex_deployment ex_cluster ex_k8s_world = (Inr 1, w')"
    using site_run by blast
  have "mem_store ex_api KIngress ''blog'' ''app-web-igr'' = Some (core (ex_ingress ''blog'' ''app-web-igr'' ''blog''))"
    by code_simp
  with conjunct1 [OF k8s_run_leaves_others [OF ex_setup_laws _ r, unfolded site_names ex_k8s_sel, OF ex_api_ok],
      rule_format, of "''blog''" KIngress "''app-web-igr''"] r
  show ?thesis by simp
qed

text \<open>
  C10. Destroying a deployment on Kubernetes changes no object of another namespace and none the deployment does not
  select, whatever the outcome, and when it succeeds no selected object is left.
\<close>

theorem k8s_destroyed:
  assumes "api_laws (sp_Client u) st" "orders_well u" "k8s_ok st (k8s_resource_name (j_Name j)) cl (w_cluster w)"
    and "destroy_k8s u j d cl w = (res, w')"
  shows "(\<forall>k ns n. ns \<noteq> k8s_resource_name (j_Name j) \<longrightarrow> st (w_cluster w') k ns n = st (w_cluster w) k ns n) \<and>
    (\<forall>n. (\<forall>y. k8s_view st (k8s_resource_name (j_Name j)) (w_cluster w) n = Some y \<longrightarrow> \<not> k8s_selected j d y) \<longrightarrow>
      k8s_view st (k8s_resource_name (j_Name j)) (w_cluster w') n = k8s_view st (k8s_resource_name (j_Name j)) (w_cluster w) n) \<and>
    (is_ok res \<longrightarrow> (\<forall>n y. k8s_view st (k8s_resource_name (j_Name j)) (w_cluster w) n = Some y \<and> k8s_selected j d y \<longrightarrow>
      k8s_view st (k8s_resource_name (j_Name j)) (w_cluster w') n = None))"
proof (intro conjI allI impI)
  note e = destroy_k8s_effect [OF assms]
  show "st (w_cluster w') k ns n = st (w_cluster w) k ns n" if "ns \<noteq> k8s_resource_name (j_Name j)" for k ns n
    using destroy_k8s_elsewhere [OF assms(1,2,4)] that by (simp add: elsewhere_same_def)
  show "k8s_view st (k8s_resource_name (j_Name j)) (w_cluster w') n = k8s_view st (k8s_resource_name (j_Name j)) (w_cluster w) n"
    if "\<forall>y. k8s_view st (k8s_resource_name (j_Name j)) (w_cluster w) n = Some y \<longrightarrow> \<not> k8s_selected j d y" for n
    using e(1) [of n] that by (cases "k8s_view st (k8s_resource_name (j_Name j)) (w_cluster w) n") auto
  show "k8s_view st (k8s_resource_name (j_Name j)) (w_cluster w') n = None"
    if "is_ok res" "k8s_view st (k8s_resource_name (j_Name j)) (w_cluster w) n = Some y \<and> k8s_selected j d y" for n y
    using e(2) [of n y] that by blast
qed

theorem k8s_destroyed_witness:
  "\<exists>w'. destroy_k8s ex_setup site_job ex_deployment ex_cluster ex_k8s_world = (Inr (), w') \<and>
     k8s_view mem_store ''shop'' (w_cluster w') ''app-old-igr'' = None \<and>
     k8s_view mem_store ''shop'' (w_cluster w') ''app-new-igr'' = Some (core (ex_ingress ''shop'' ''app-new-igr'' ''blog''))"
proof -
  obtain w' where r: "destroy_k8s ex_setup site_job ex_deployment ex_cluster ex_k8s_world = (Inr (), w')"
    using site_destroyed by blast
  note e = k8s_destroyed [OF ex_setup_laws _ r, unfolded site_names ex_k8s_sel, OF ex_api_ok]
  have "k8s_view mem_store ''shop'' (w_cluster w') ''app-old-igr'' = None"
    using conjunct2 [OF conjunct2 [OF e]] ex_views(1) ex_selected(1) by simp
  moreover have "k8s_view mem_store ''shop'' (w_cluster w') ''app-new-igr'' = Some (core (ex_ingress ''shop'' ''app-new-igr'' ''blog''))"
    using conjunct1 [OF conjunct2 [OF e]] ex_views(2) ex_selected(2) by simp
  ultimately show ?thesis using r by blast
qed

text \<open>
  C39. On Kubernetes a successful run that selects a scaling group behind the first one removes every object of the
  deployment: only the first scaling group has objects, and all of them count as units of every scaling group.
\<close>

theorem k8s_other_scaling_group_removes:
  assumes "api_laws (sp_Client u) st" "orders_well u" "k8s_ok st (k8s_resource_name (j_Name j)) cl (w_cluster w)"
    and "run_k8s c im u j d cl w = (Inr k, w')" "2 \<le> scalingGroupSelection d"
    and "k8s_view st (k8s_resource_name (j_Name j)) (w_cluster w) n = Some y" "k8s_selected j d y"
  shows "k8s_view st (k8s_resource_name (j_Name j)) (w_cluster w') n = None"
  by (rule run_k8s_other_scaling_group [OF assms])

theorem k8s_other_scaling_group_removes_witness:
  "\<exists>w'. run_k8s ex_crypto no_images ex_setup twin_job second_group ex_cluster ex_k8s_world = (Inr 1, w') \<and>
     k8s_view mem_store ''shop'' (w_cluster w') ''app-old-igr'' = None"
proof -
  obtain w' where r: "run_k8s ex_crypto no_images ex_setup twin_job second_group ex_cluster ex_k8s_world = (Inr 1, w')"
    using twin_run by blast
  have "2 \<le> scalingGroupSelection second_group" by code_simp
  from k8s_other_scaling_group_removes [OF ex_setup_laws _ r this, unfolded site_names ex_k8s_sel, OF ex_api_ok ex_views(1)]
    ex_selected(3) r show ?thesis by simp
qed

text \<open>
  C19. The scheduler implements operations on a map from names to objects: listing gives its domain, destroying
  obsolete units restricts it to the other names, and starting units adds an accepted object for each of them.
\<close>

theorem k8s_scheduler_refines_map:
  assumes "api_laws (sp_Client u) st" "orders_well u" "k8s_ok st ns cl s"
  shows "(\<forall>us. list_units (sp_Client u) ns s = Inr us \<longrightarrow> object_name ` set us = dom (k8s_view st ns s)) \<and>
    (\<forall>us s'. k8s_destroy u ReasonObsolete us s = (Inr (), s') \<and> (\<forall>x \<in> set us. object_namespace x = ns) \<longrightarrow>
      k8s_view st ns s' = k8s_view st ns s |` (- object_name ` set us)) \<and>
    (\<forall>ds s'. k8s_start u ds s = (Inr (), s') \<and> (\<forall>d \<in> set ds. k8s_data_ok ns cl d) \<and> distinct (map object_name ds) \<longrightarrow>
      (\<exists>m. accepted_objects ds m \<and> k8s_view st ns s' = k8s_view st ns s ++ m))"
  using list_units_dom [OF assms(1)] k8s_destroy_restricts [OF assms] k8s_start_adds [OF assms] by blast

theorem k8s_scheduler_refines_map_witness:
  "\<exists>s'. k8s_destroy ex_setup ReasonObsolete [ex_ingress ''shop'' ''app-old-igr'' ''shop''] ex_api = (Inr (), s') \<and>
     k8s_view mem_store ''shop'' s' = (k8s_view mem_store ''shop'' ex_api) |` (- {''app-old-igr''})"
proof -
  let ?x = "ex_ingress ''shop'' ''app-old-igr'' ''shop''"
  have "fst (k8s_destroy ex_setup ReasonObsolete [?x] ex_api) = Inr ()" by code_simp
  then obtain s' where d: "k8s_destroy ex_setup ReasonObsolete [?x] ex_api = (Inr (), s')" by (metis prod.collapse)
  have x: "object_name ?x = ''app-old-igr''" "object_namespace ?x = ''shop''" by code_simp+
  from conjunct1 [OF conjunct2 [OF k8s_scheduler_refines_map [OF ex_setup_laws ex_api_ok]], rule_format, of "[?x]" s'] d x
  show ?thesis by simp
qed

text \<open>
  C37. Starting a unit on Kubernetes returns when every call of the client returns: 63 rounds are enough for its waits,
  more rounds give the same result.
\<close>

theorem k8s_start_ends:
  assumes "keeps_time c" "answers c" "63 \<le> fuel"
  shows "start_object c fuel d s = start_object c 63 d s \<and> fst (start_object c fuel d s) \<noteq> Inl Hang"
  by (rule start_object_ends [OF assms, unfolded settles_def])

theorem k8s_start_ends_witness:
  "start_object mem_client 100 (ODeployment ex_depl) ex_api = start_object mem_client 63 (ODeployment ex_depl) ex_api \<and>
   fst (start_object mem_client 100 (ODeployment ex_depl) ex_api) \<noteq> Inl Hang"
  by (rule k8s_start_ends [OF mem_client_laws(2) mem_client_answers]) simp

text \<open>
  C38. A deployment that has been written is started when its status can be read in every round and, from some round on
  within the minute, shows the new generation with all its replicas updated and available.
\<close>

theorem k8s_start_ready:
  assumes "writes_deployment c d s g s1" "becomes_ready c d g (Now c s1) k s1" "k + 3 \<le> fuel"
  shows "\<exists>m \<le> k + 1. start_deployment c fuel d s = (Inr (), round_state c m s1)"
  by (rule start_deployment_ready [OF assms])

theorem k8s_start_ready_witness: "\<exists>s'. start_deployment mem_client 3 ex_depl ex_api = (Inr (), s')"
proof -
  obtain s1 where "writes_deployment mem_client ex_depl ex_api 0 s1"
    "becomes_ready mem_client ex_depl 0 (Now mem_client s1) 0 s1" using ex_depl_ready by blast
  from k8s_start_ready [OF this, of 3] show ?thesis by auto
qed

text \<open>
  C18. Every generated object is in the namespace of the job under a name of its kind. A workload has a restart policy
  its kind allows, and every volume its containers mount is one of its pod, with all volume names different. The ports
  of a service are ports, and a service with a selector selects the pods of a workload generated with it.
\<close>

theorem k8s_objects_well_formed:
  assumes "generate_k8s_scaling_group c im j d cl sg = Inr xs" "x \<in> set xs"
  shows "object_namespace x = k8s_resource_name (j_Name j) \<and> suffix_kind (object_name x) = Some (kind_of x) \<and>
    k8s_selected j d x \<and> restart_policy_fits x \<and> (\<forall>tmpl. template_of x = Some tmpl \<longrightarrow> spec_closed (pt_Spec tmpl)) \<and>
    (\<forall>s. x = OService s \<longrightarrow> service_ports_fit s \<and> reaches_pods xs s)"
  using k8s_generated_selected [OF assms] generated_templates [OF assms [unfolded generate_k8s_scaling_group_def]]
    generated_services [OF assms(1) [unfolded generate_k8s_scaling_group_def]] assms(2) by blast

theorem k8s_objects_well_formed_witness:
  "\<exists>xs. generate_k8s_scaling_group ex_crypto no_images site_job ex_deployment ex_cluster 1 = Inr xs \<and> length xs = 3 \<and>
     (\<forall>x \<in> set xs. object_namespace x = ''shop'' \<and> restart_policy_fits x)"
proof -
  obtain xs where g: "generate_k8s_scaling_group ex_crypto no_images site_job ex_deployment ex_cluster 1 = Inr xs"
    "map object_name xs = [''app-web-depl'', ''app-web-srv'', ''app-web-igr'']"
    using site_generated by (elim exE conjE) (rule that; assumption)
  have "length xs = 3" using arg_cong [OF g(2), of length] by simp
  with g(1) k8s_objects_well_formed [OF g(1)] show ?thesis by simp
qed

section \<open>Reading a job\<close>

text \<open>
  C20. Expanding the variables of a string keeps the text outside of them and puts the value of each variable in its
  place; the values are those in the job before the string, links and errors are the ones its variables add, and no
  variable starts at a character that is kept.
\<close>

theorem variables_replaced:
  assumes "r = fleet_renderer \<or> r = k8s_renderer cl'" "place_ok p (vs_Job s)"
    and "map_res (piece_value r cl p (vs_Job s)) (pieces input) = Inr os"
  shows "replace_string r cl p input s = (Inr (concat (map outcome_text os)), value_state p os s) \<and>
    concat (map piece_text (pieces input)) = input \<and>
    (\<forall>i c. i < length (pieces input) \<and> pieces input ! i = Lit c \<longrightarrow>
      match_variable (concat (map piece_text (drop i (pieces input)))) = None)"
proof -
  have "link_blind r" using assms(1) fleet_vars.link_blind_axioms k8s_vars.link_blind_axioms by blast
  from link_blind.replace_string_value(2) [OF this assms(2,3)] pieces_text pieces_maximal show ?thesis by blast
qed

theorem variables_replaced_witness:
  "\<exists>s'. replace_string fleet_renderer ex_cluster (AtTask 0 1) ''x-${job}.${ task }${no}'' ex_var_state = (Inr ''x-shop.web${no}'', s')"
proof -
  have "case map_res (piece_value fleet_renderer ex_cluster (AtTask 0 1) (vs_Job ex_var_state)) (pieces ''x-${job}.${ task }${no}'') of
      Inl _ \<Rightarrow> False | Inr os \<Rightarrow> concat (map outcome_text os) = ''x-shop.web${no}''"
    by code_simp
  then obtain os where os: "map_res (piece_value fleet_renderer ex_cluster (AtTask 0 1) (vs_Job ex_var_state))
      (pieces ''x-${job}.${ task }${no}'') = Inr os" "concat (map outcome_text os) = ''x-shop.web${no}''"
    by (auto split: sum.splits)
  from variables_replaced [OF _ ex_var_state_ok os(1)] os(2) show ?thesis by auto
qed

text \<open>
  C13. A job that is read from a file is valid, whatever the external packages return for the file, a global group has at most as many instances as the cluster,
  and read for Kubernetes none of its tasks is on the weave network.
\<close>

theorem job_file_valid:
  assumes "r = fleet_renderer \<or> r = k8s_renderer cl'" "parse_job h r cl input = Inr k" "0 \<le> InstanceCount cl" "InstanceCount cl < 2 ^ 63"
    and "tg \<in> set (j_Groups k)"
  shows "job_ok k \<and> (g_Global tg \<longrightarrow> int_of_uint (g_Count tg) \<le> InstanceCount cl) \<and>
    (\<forall>t \<in> set (g_Tasks tg). r = k8s_renderer cl' \<longrightarrow> t_Network t \<in> {NetworkTypeDefault, NetworkTypeHost})"
proof -
  have b: "link_blind r" using assms(1) fleet_vars.link_blind_axioms k8s_vars.link_blind_axioms by blast
  obtain body items j where "hcl_Template h input = Inr body" "hcl_Parse h body = Inr (Some items)"
    "parse_job_list h (hcl_filter ''job'' items) = Inr j" and j: "load_job r cl j = Inr k" by (rule parse_job_steps [OF assms(2)])
  show ?thesis using loaded_job [OF b j] loaded_global [OF j assms(3-5)] loaded_k8s_network [of cl' cl j k] assms(5) j by blast
qed

theorem job_file_valid_witness:
  "\<exists>k tg. parse_job ex_hcl (k8s_renderer ex_cluster) ex_cluster '''' = Inr k \<and> tg \<in> set (j_Groups k) \<and> job_ok k \<and> j_Name k = ''shop''"
proof -
  obtain k where k: "parse_job ex_hcl (k8s_renderer ex_cluster) ex_cluster '''' = Inr k" "j_Name k = ''shop''" "map g_Name (j_Groups k) = [''web'']"
    using ex_file_read by (elim exE conjE) (rule that; assumption)
  obtain tg where tg: "tg \<in> set (j_Groups k)" using k(3) by (cases "j_Groups k") simp_all
  have c: "0 \<le> InstanceCount ex_cluster" "InstanceCount ex_cluster < 2 ^ 63" by code_simp+
  from job_file_valid [OF disjI2 [OF refl] k(1) c tg] k tg show ?thesis by (intro exI [of _ k] exI [of _ tg] conjI) simp_all
qed

text \<open>
  C40. On Kubernetes the variable \<^verbatim>\<open>link_tcp\<close> with a task of another job panics: the error for the unknown
  target is recorded, but the nil task is used after it.
\<close>

theorem link_tcp_panics:
  assumes "place_ok p (vs_Job s)" "place_task p (vs_Job s) = Some (tg, t)"
    and "Var (''link_tcp '' @ name @ '' '' @ port) \<in> set (pieces input)" "CHR '' '' \<notin> set name" "CHR '' '' \<notin> set port"
    and "atoi port = Inr n" "link_parse name = ((jn, gn, tn, ''''), Inr ())" "jn \<noteq> j_Name (vs_Job s)"
  shows "fst (replace_string (k8s_renderer cl') cl p input s) = Inl Panic"
  by (rule link_tcp_other_job [OF assms])

theorem link_tcp_panics_witness:
  "fst (replace_string (k8s_renderer ex_cluster) ex_cluster (AtTask 0 1) ''a${link_tcp blog.app.db 80}'' ex_var_state) = Inl Panic"
proof -
  have v: "Var (''link_tcp '' @ ''blog.app.db'' @ '' '' @ ''80'') \<in> set (pieces ''a${link_tcp blog.app.db 80}'')" by code_simp
  have l: "link_parse ''blog.app.db'' = ((''blog'', ''app'', ''db'', ''''), Inr ())" "atoi ''80'' = Inr 80"
    "''blog'' \<noteq> j_Name (vs_Job ex_var_state)" by code_simp+
  show ?thesis by (rule link_tcp_panics [OF ex_var_state_ok _ v _ _ l(2,1,3)]) simp_all
qed

end
